(* ===== verification/Bytes.thy ===== *)
theory Bytes
  imports Prelude
begin

text \<open>
  What several decoders of the repository share and the standard library provides: the search for a
  byte sequence, \<^verbatim>\<open>String::from_utf8_lossy\<close>, integers in network order and
  little-endian.  A byte is a \<^typ>\<open>char\<close> and a Rust string is its UTF-8 bytes.
\<close>

section \<open>Searching\<close>

text \<open>\<^verbatim>\<open>windows(n).position(|w| w == pat)\<close> for a pattern that is not empty.\<close>

fun position_of :: "string \<Rightarrow> string \<Rightarrow> nat option" where
  "position_of pat [] = None"
| "position_of pat (c # s) = (if prefix pat (c # s) then Some 0 else map_option Suc (position_of pat s))"

lemma position_of_bound: "position_of pat s = Some n \<Longrightarrow> n < length s \<and> prefix pat (drop n s)"
  by (induction s arbitrary: n) (auto split: if_splits)

lemma position_of_fits: "position_of pat s = Some n \<Longrightarrow> n + length pat \<le> length s"
  using position_of_bound [of pat s n] prefix_length_le [of pat "drop n s"] by auto

lemma position_of_first:
  assumes "pat \<noteq> []" "hd pat \<notin> set a"
  shows "position_of pat (a @ pat @ b) = Some (length a)"
  using assms(2)
proof (induction a)
  case Nil
  then show ?case using assms(1) by (cases pat) auto
next
  case (Cons x a)
  then show ?case using assms(1) by (cases pat) auto
qed

section \<open>Text\<close>

definition byte :: "char \<Rightarrow> nat" where "byte c = of_char c"

definition at_least_cont :: "nat \<Rightarrow> nat \<Rightarrow> nat \<Rightarrow> bool" where
  "at_least_cont lo hi b \<longleftrightarrow> lo \<le> b \<and> b \<le> hi"

abbreviation cont :: "nat \<Rightarrow> bool" where "cont \<equiv> at_least_cont 0x80 0xBF"

text \<open>The second byte a leading byte allows; beyond the end of the input it is read as zero.\<close>

definition second_ok :: "nat \<Rightarrow> nat \<Rightarrow> bool" where
  "second_ok b c \<longleftrightarrow>
     (if b = 0xE0 then at_least_cont 0xA0 0xBF c
      else if b = 0xED then at_least_cont 0x80 0x9F c
      else if b = 0xF0 then at_least_cont 0x90 0xBF c
      else if b = 0xF4 then at_least_cont 0x80 0x8F c
      else cont c)"

definition byte_at :: "string \<Rightarrow> nat \<Rightarrow> nat" where
  "byte_at s i = (if i < length s then byte (s ! i) else 0)"

text \<open>How the bytes at the front are read: valid or not, and how many of them.\<close>

definition utf8_front :: "string \<Rightarrow> bool \<times> nat" where
  "utf8_front s =
     (let b = byte_at s 0; c1 = byte_at s 1; c2 = byte_at s 2; c3 = byte_at s 3 in
      if b < 0x80 then (True, 1)
      else if 0xC2 \<le> b \<and> b \<le> 0xDF then (if cont c1 then (True, 2) else (False, 1))
      else if 0xE0 \<le> b \<and> b \<le> 0xEF
      then (if \<not> second_ok b c1 then (False, 1) else if \<not> cont c2 then (False, 2) else (True, 3))
      else if 0xF0 \<le> b \<and> b \<le> 0xF4
      then (if \<not> second_ok b c1 then (False, 1) else if \<not> cont c2 then (False, 2)
            else if \<not> cont c3 then (False, 3) else (True, 4))
      else (False, 1))"

definition replacement :: string where "replacement = [CHR 0xEF, CHR 0xBF, CHR 0xBD]"

fun lossy :: "string \<Rightarrow> string" where
  "lossy [] = []"
| "lossy (c # s) = (case utf8_front (c # s) of (ok, n) \<Rightarrow>
     (if ok then take n (c # s) else replacement) @ lossy (drop (n - 1) s))"

definition ascii :: "string \<Rightarrow> bool" where "ascii s \<longleftrightarrow> (\<forall>c\<in>set s. byte c < 0x80)"

lemma ascii_simps [simp]: "ascii []" "ascii (c # s) \<longleftrightarrow> byte c < 0x80 \<and> ascii s" "ascii (s @ t) \<longleftrightarrow> ascii s \<and> ascii t"
  by (auto simp: ascii_def)

lemma lossy_ascii: "ascii s \<Longrightarrow> lossy s = s"
  by (induction s) (simp_all add: utf8_front_def byte_at_def)

text \<open>Text that is well formed comes back as it is.\<close>

definition utf8 :: "string \<Rightarrow> bool" where "utf8 s \<longleftrightarrow> lossy s = s"

lemma ascii_utf8: "ascii s \<Longrightarrow> utf8 s"
  by (simp add: utf8_def lossy_ascii)

section \<open>Integers\<close>

definition be_nat :: "string \<Rightarrow> nat" where
  "be_nat s = foldl (\<lambda>n c. 256 * n + byte c) 0 s"

definition le_nat :: "string \<Rightarrow> nat" where "le_nat s = be_nat (rev s)"

text \<open>\<^verbatim>\<open>i32::from_be_bytes\<close> and \<^verbatim>\<open>to_be_bytes\<close>.\<close>

definition be_i32 :: "string \<Rightarrow> int" where
  "be_i32 s = sint (word_of_nat (be_nat s) :: 32 word)"

definition bytes_be32 :: "32 word \<Rightarrow> string" where
  "bytes_be32 w = (let n = unat w in
     map char_of [n div 2 ^ 24, n div 2 ^ 16 mod 256, n div 2 ^ 8 mod 256, n mod 256])"

definition bytes_be16 :: "16 word \<Rightarrow> string" where
  "bytes_be16 w = (let n = unat w in map char_of [n div 2 ^ 8, n mod 256])"

lemma byte_char_of: "byte (char_of n) = n mod 256"
  by (simp add: byte_def)

lemma length_bytes_be [simp]: "length (bytes_be32 w) = 4" "length (bytes_be16 v) = 2"
  by (simp_all add: bytes_be32_def bytes_be16_def Let_def)

lemma be_nat_bytes32: "be_nat (bytes_be32 w) = unat w"
proof -
  have lt: "unat w < 2 ^ 32" using unsigned_less [of w, where 'a = nat] by simp
  define n where "n = unat w"
  define x y z where "x = n div 2 ^ 24" and "y = n div 2 ^ 16" and "z = n div 2 ^ 8"
  have join: "256 * (256 * (256 * x + b) + c) + d = n" if "y = 256 * x + b" "z = 256 * y + c" "n = 256 * z + d" for b c d
    using that by simp
  have split: "m div (a * 256) * 256 + m div a mod 256 = m div a" for m a :: nat
    by (simp add: div_mult2_eq)
  have "y = 256 * x + y mod 256" using split [of n "2 ^ 16"] by (simp add: x_def y_def)
  moreover have "z = 256 * y + z mod 256" using split [of n "2 ^ 8"] by (simp add: y_def z_def)
  moreover have "n = 256 * z + n mod 256" using split [of n 1] by (simp add: z_def)
  ultimately have "256 * (256 * (256 * x + y mod 256) + z mod 256) + n mod 256 = n" by (rule join)
  moreover have "x < 256" unfolding x_def using lt by (simp add: n_def less_mult_imp_div_less)
  ultimately show ?thesis
    by (simp add: be_nat_def bytes_be32_def Let_def n_def [symmetric] byte_char_of x_def y_def z_def)
qed

lemma be_nat_bytes16: "be_nat (bytes_be16 w) = unat w"
proof -
  have "unat w < 2 ^ 16" using unsigned_less [of w, where 'a = nat] by simp
  then have "unat w div 256 < 256" by (simp add: less_mult_imp_div_less)
  then show ?thesis by (simp add: be_nat_def bytes_be16_def Let_def byte_char_of)
qed

lemma be_i32_bytes [simp]: "be_i32 (bytes_be32 w) = sint w"
  by (simp add: be_i32_def be_nat_bytes32)

lemma sint_small: "n < 2 ^ 31 \<Longrightarrow> sint (word_of_nat n :: 32 word) = int n"
  by (simp add: signed_of_nat signed_take_bit_int_eq_self)

lemma be_i32_length: "n < 2 ^ 31 \<Longrightarrow> be_i32 (bytes_be32 (word_of_nat n)) = int n"
  by (simp add: sint_small)

end
