(* ===== verification/Volume.thy ===== *)
theory Volume
  imports Bytes
begin

text \<open>
  The file system an agent works on, with the operations of \<^verbatim>\<open>std::fs\<close> and
  \<^verbatim>\<open>std::process::Command\<close> the agent uses.  A path is the list of its names, a
  \<^verbatim>\<open>disk\<close> the files and directories that are there.  Every operation is one tick,
  and the machine decides for each tick whether it works, fails, or is the one the
  power is lost in; a failed or interrupted operation may have done part of its
  work.  What runs as a command of its own (\<^verbatim>\<open>pg_upgrade\<close>, \<^verbatim>\<open>initdb\<close>, \<^verbatim>\<open>psql\<close>) is the
  machine's too.

  Not modelled: symbolic links, owners, and other processes that write the volume.
\<close>

section \<open>Files\<close>

type_synonym path = "string list"

datatype node = Folder nat | File nat string

type_synonym disk = "(path \<times> node) list"

definition entry :: "disk \<Rightarrow> path \<Rightarrow> node option" where
  "entry d p = (if p = [] then Some (Folder 493) else map_of d p)"

definition is_folder :: "disk \<Rightarrow> path \<Rightarrow> bool" where
  "is_folder d p = (case entry d p of Some (Folder _) \<Rightarrow> True | _ \<Rightarrow> False)"

definition is_plain :: "disk \<Rightarrow> path \<Rightarrow> bool" where
  "is_plain d p = (case entry d p of Some (File _ _) \<Rightarrow> True | _ \<Rightarrow> False)"

definition place :: "path \<Rightarrow> node \<Rightarrow> disk \<Rightarrow> disk" where
  "place p n d = (p, n) # filter (\<lambda>(q, _). q \<noteq> p) d"

text \<open>The entries under a path that are kept; with none kept the path is gone.\<close>

definition prune :: "(path \<Rightarrow> bool) \<Rightarrow> path \<Rightarrow> disk \<Rightarrow> disk" where
  "prune keep p d = filter (\<lambda>(q, _). prefix p q \<longrightarrow> keep q) d"

definition moved :: "path \<Rightarrow> path \<Rightarrow> disk \<Rightarrow> disk" where
  "moved a b d = map (\<lambda>(q, n). (if prefix a q then b @ drop (length a) q else q, n)) (prune (\<lambda>_. False) b d)"

definition listing :: "disk \<Rightarrow> path \<Rightarrow> string list" where
  "listing d p = map (last \<circ> fst) (filter (\<lambda>(q, _). q \<noteq> [] \<and> butlast q = p) d)"

definition show_path :: "path \<Rightarrow> string" where
  "show_path p = (if p = [] then ''/'' else concat (map (\<lambda>c. CHR ''/'' # c) p))"

definition path_of :: "string \<Rightarrow> path" where
  "path_of s = filter (\<lambda>c. c \<noteq> []) (split_on (CHR ''/'') s)"

lemma entry_root [simp]: "entry d [] = Some (Folder 493)"
  by (simp add: entry_def)

lemma map_of_filter_key: "map_of (filter (\<lambda>(q, _). P q) d) p = (if P p then map_of d p else None)"
  by (induction d) auto

lemma entry_place: "p \<noteq> [] \<Longrightarrow> entry (place p n d) q = (if q = p then Some n else entry d q)"
  by (simp add: entry_def place_def map_of_filter_key [of "\<lambda>q. q \<noteq> p"])

lemma entry_prune: "q \<noteq> [] \<Longrightarrow> entry (prune keep p d) q = (if prefix p q \<longrightarrow> keep q then entry d q else None)"
  by (simp add: entry_def prune_def map_of_filter_key [of "\<lambda>q. prefix p q \<longrightarrow> keep q"])

lemma entry_moved_other:
  assumes "q \<noteq> []" "\<not> prefix a q" "\<not> prefix b q"
  shows "entry (moved a b d) q = entry d q"
proof -
  have "map_of (map (\<lambda>(q, n). (if prefix a q then b @ drop (length a) q else q, n)) d') q = map_of d' q"
    for d' :: disk
    using assms by (induction d') auto
  then show ?thesis using assms entry_prune [of q "\<lambda>_. False" b d]
    by (simp add: entry_def moved_def)
qed

lemma entry_moved_from:
  assumes "q \<noteq> []" "prefix a q" "\<not> prefix a b"  "\<not> prefix b a"
  shows "entry (moved a b d) q = None"
proof -
  have "\<not> prefix b q"
  proof
    assume "prefix b q"
    with assms(2) have "prefix a b \<or> prefix b a" by (metis prefix_same_cases)
    with assms(3,4) show False by simp
  qed
  then have "\<not> prefix a (b @ x)" for x
    using assms(3,4) by (metis prefix_append prefix_def)
  then have "map_of (map (\<lambda>(q, n). (if prefix a q then b @ drop (length a) q else q, n)) d') q = None" for d' :: disk
    using assms(2) by (auto simp: map_of_eq_None_iff split: if_splits)
  then show ?thesis using assms(1) by (simp add: entry_def moved_def)
qed

lemma entry_moved_to:
  assumes "b @ x \<noteq> []" "a @ x \<noteq> []" "\<not> prefix a b" "\<not> prefix b a"
  shows "entry (moved a b d) (b @ x) = entry d (a @ x)"
proof -
  have far: "\<not> prefix b (a @ x)" if "\<not> prefix a b" "\<not> prefix b a" for a b :: path and x
    using that by (metis prefix_append prefix_def)
  have "map_of (map (\<lambda>(q, n). (if prefix a q then b @ drop (length a) q else q, n)) d') (b @ x) = map_of d' (a @ x)"
    if "\<forall>(q, n)\<in>set d'. \<not> prefix b q" for d' :: disk
    using that
  proof (induction d')
    case (Cons e d')
    obtain q n where e: "e = (q, n)" by force
    show ?case
    proof (cases "prefix a q")
      case True
      then obtain y where "q = a @ y" by (auto simp: prefix_def)
      then show ?thesis using Cons by (simp add: e)
    next
      case False
      then have "q \<noteq> a @ x" by auto
      moreover have "q \<noteq> b @ x" using Cons.prems by (auto simp: e)
      ultimately show ?thesis using Cons False by (simp add: e)
    qed
  qed simp
  moreover have "\<forall>(q, n)\<in>set (prune (\<lambda>_. False) b d). \<not> prefix b q" by (auto simp: prune_def)
  ultimately have "map_of (map (\<lambda>(q, n). (if prefix a q then b @ drop (length a) q else q, n)) (prune (\<lambda>_. False) b d)) (b @ x) =
      map_of (prune (\<lambda>_. False) b d) (a @ x)" by blast
  moreover have "map_of (prune (\<lambda>_. False) b d) (a @ x) = map_of d (a @ x)"
    using entry_prune [of "a @ x" "\<lambda>_. False" b d] assms far by (auto simp: entry_def)
  moreover have "entry (moved a b d) (b @ x) = map_of (moved a b d) (b @ x)" "entry d (a @ x) = map_of d (a @ x)"
    using assms(1,2) by (simp_all only: entry_def if_False)
  ultimately show ?thesis by (simp only: moved_def)
qed

text \<open>The same for what is under a directory, when none of the directories is in another one.\<close>

definition apart :: "path \<Rightarrow> path \<Rightarrow> bool" where "apart a b \<longleftrightarrow> \<not> prefix a b \<and> \<not> prefix b a"

lemma apart_below: "apart a b \<Longrightarrow> \<not> prefix a (b @ x)"
  unfolding apart_def by (metis prefix_append prefix_def)

lemma moved_tree: "apart a b \<Longrightarrow> x \<noteq> [] \<Longrightarrow> entry (moved a b d) (b @ x) = entry d (a @ x)"
  by (rule entry_moved_to) (auto simp: apart_def)

lemma moved_apart: "apart a h \<Longrightarrow> apart b h \<Longrightarrow> x \<noteq> [] \<Longrightarrow> entry (moved a b d) (h @ x) = entry d (h @ x)"
  by (rule entry_moved_other) (auto simp: apart_below)

section \<open>The machine\<close>

datatype fault_kind = Refused string | PowerLoss

text \<open>A fault: what it is, which entries an interrupted removal leaves, and how much of a write was done.\<close>

record fault =
  ft_kind :: fault_kind
  ft_kept :: "path \<Rightarrow> bool"
  ft_len :: nat

datatype exit_status = Exited int | Signalled string

record tool_output =
  to_status :: exit_status
  to_stdout :: string
  to_stderr :: string

definition exit_ok :: "exit_status \<Rightarrow> bool" where "exit_ok s \<longleftrightarrow> s = Exited 0"

definition show_exit :: "exit_status \<Rightarrow> string" where
  "show_exit s = (case s of
      Exited n \<Rightarrow> ''exit status: '' @ (if n < 0 then ''-'' else []) @ show_nat (nat \<bar>n\<bar>)
    | Signalled sig \<Rightarrow> ''signal: '' @ sig)"

text \<open>A command is given the tick, its arguments and its working directory.  There are two clocks, the monotonic one and
  the one that counts the seconds since 1970.\<close>

record machine =
  ma_fault :: "nat \<Rightarrow> fault option"
  ma_tool :: "nat \<Rightarrow> string list \<Rightarrow> path option \<Rightarrow> disk \<Rightarrow> (string + tool_output) \<times> disk"
  ma_millis :: "nat \<Rightarrow> nat"
  ma_epoch :: "nat \<Rightarrow> nat"

record volume =
  vo_disk :: disk
  vo_tick :: nat
  vo_out :: string

text \<open>An error of the agent: the texts its context gave it, outermost first; or there is no agent any more.\<close>

datatype agent_error = Crashed | Failed "string list"

type_synonym 'a agent = "volume \<Rightarrow> (agent_error + 'a) \<times> volume"

definition give :: "'a \<Rightarrow> 'a agent" where "give x v = (Inr x, v)"

definition bail :: "string \<Rightarrow> 'a agent" where "bail e v = (Inl (Failed [e]), v)"

definition lift_res :: "string + 'a \<Rightarrow> 'a agent" where
  "lift_res r v = (map_err (\<lambda>e. Failed [e]) r, v)"

definition chain :: "'a agent \<Rightarrow> ('a \<Rightarrow> 'b agent) \<Rightarrow> 'b agent" where
  "chain m k v = (case m v of (Inl e, v') \<Rightarrow> (Inl e, v') | (Inr x, v') \<Rightarrow> k x v')"

text \<open>An error as a value.  Nothing catches the loss of power.\<close>

definition caught :: "'a agent \<Rightarrow> (string list + 'a \<Rightarrow> 'b agent) \<Rightarrow> 'b agent" where
  "caught m k v = (case m v of
      (Inl Crashed, v') \<Rightarrow> (Inl Crashed, v')
    | (Inl (Failed e), v') \<Rightarrow> k (Inl e) v'
    | (Inr x, v') \<Rightarrow> k (Inr x) v')"

definition context_of :: "string \<Rightarrow> 'a agent \<Rightarrow> 'a agent" where
  "context_of c m v = (case m v of
      (Inl (Failed e), v') \<Rightarrow> (Inl (Failed (c # e)), v')
    | r \<Rightarrow> r)"

definition rethrow :: "string list \<Rightarrow> 'a agent" where "rethrow e v = (Inl (Failed e), v)"

definition prints :: "string \<Rightarrow> unit agent" where
  "prints s v = (Inr (), v\<lparr> vo_out := vo_out v @ s \<rparr>)"

definition clock_secs :: "machine \<Rightarrow> nat agent" where
  "clock_secs m v = (Inr (ma_epoch m (vo_tick v)), v)"

text \<open>One operation: what it does, and what is left of it when it does not work.\<close>

definition sys :: "machine \<Rightarrow> (fault \<Rightarrow> disk \<Rightarrow> disk) \<Rightarrow> (disk \<Rightarrow> (string + 'a) \<times> disk) \<Rightarrow> 'a agent" where
  "sys m partial act v =
     (case ma_fault m (vo_tick v) of
        None \<Rightarrow> (case act (vo_disk v) of (r, d) \<Rightarrow>
          (map_err (\<lambda>e. Failed [e]) r, v\<lparr> vo_disk := d, vo_tick := Suc (vo_tick v) \<rparr>))
      | Some ft \<Rightarrow>
          (Inl (case ft_kind ft of Refused e \<Rightarrow> Failed [e] | PowerLoss \<Rightarrow> Crashed),
           v\<lparr> vo_disk := partial ft (vo_disk v), vo_tick := Suc (vo_tick v) \<rparr>))"

lemmas agent_defs = give_def bail_def lift_res_def chain_def caught_def context_of_def rethrow_def prints_def clock_secs_def
  sys_def

section \<open>The operations\<close>

definition enoent :: string where "enoent = ''No such file or directory (os error 2)''"
definition enotdir :: string where "enotdir = ''Not a directory (os error 20)''"
definition eisdir :: string where "eisdir = ''Is a directory (os error 21)''"
definition eexist :: string where "eexist = ''File exists (os error 17)''"
definition enotempty :: string where "enotempty = ''Directory not empty (os error 39)''"
definition einval :: string where "einval = ''Invalid argument (os error 22)''"

definition unchanged :: "fault \<Rightarrow> disk \<Rightarrow> disk" where "unchanged f d = d"

text \<open>The directory a new name goes into.\<close>

definition parent_ok :: "disk \<Rightarrow> path \<Rightarrow> string + unit" where
  "parent_ok d p = (case entry d (butlast p) of
      None \<Rightarrow> Inl enoent | Some (File _ _) \<Rightarrow> Inl enotdir | Some (Folder _) \<Rightarrow> Inr ())"

definition stat :: "machine \<Rightarrow> path \<Rightarrow> node agent" where
  "stat m p = sys m unchanged (\<lambda>d. (ok_or enoent (entry d p), d))"

text \<open>\<^verbatim>\<open>Path::exists\<close>, \<^verbatim>\<open>is_file\<close> and \<^verbatim>\<open>is_dir\<close>: an error is no.\<close>

definition tests :: "machine \<Rightarrow> (disk \<Rightarrow> bool) \<Rightarrow> bool agent" where
  "tests m P = caught (sys m unchanged (\<lambda>d. (Inr (P d), d))) (\<lambda>r. give (case r of Inr b \<Rightarrow> b | Inl _ \<Rightarrow> False))"

definition path_exists :: "machine \<Rightarrow> path \<Rightarrow> bool agent" where "path_exists m p = tests m (\<lambda>d. entry d p \<noteq> None)"
definition is_file :: "machine \<Rightarrow> path \<Rightarrow> bool agent" where "is_file m p = tests m (\<lambda>d. is_plain d p)"
definition is_dir :: "machine \<Rightarrow> path \<Rightarrow> bool agent" where "is_dir m p = tests m (\<lambda>d. is_folder d p)"

definition mkdir :: "machine \<Rightarrow> path \<Rightarrow> unit agent" where
  "mkdir m p = sys m unchanged (\<lambda>d.
     if entry d p \<noteq> None then (Inl eexist, d)
     else (case parent_ok d p of Inl e \<Rightarrow> (Inl e, d) | Inr _ \<Rightarrow> (Inr (), place p (Folder 493) d)))"

definition mkdir_or_dir :: "machine \<Rightarrow> path \<Rightarrow> unit agent" where
  "mkdir_or_dir m p = caught (mkdir m p) (\<lambda>r. case r of
      Inr _ \<Rightarrow> give ()
    | Inl e \<Rightarrow> chain (is_dir m p) (\<lambda>b. if b then give () else rethrow e))"

function create_dir_all :: "machine \<Rightarrow> path \<Rightarrow> unit agent" where
  "create_dir_all m p =
     (if p = [] then give ()
      else caught (mkdir m p) (\<lambda>r. case r of
          Inr _ \<Rightarrow> give ()
        | Inl e \<Rightarrow>
            if e = [enoent] then chain (create_dir_all m (butlast p)) (\<lambda>_. mkdir_or_dir m p)
            else chain (is_dir m p) (\<lambda>b. if b then give () else rethrow e)))"
  by pat_completeness auto
termination
  by (relation "measure (\<lambda>(_, p). length p)") simp_all

declare create_dir_all.simps [simp del]

definition rename_at :: "path \<Rightarrow> path \<Rightarrow> disk \<Rightarrow> (string + unit) \<times> disk" where
  "rename_at a b d =
     (if entry d a = None then (Inl enoent, d)
      else case parent_ok d b of Inl e \<Rightarrow> (Inl e, d) | Inr _ \<Rightarrow>
        if strict_prefix a b then (Inl einval, d)
        else if a = b then (Inr (), d)
        else (case (entry d a, entry d b) of
            (Some (Folder _), Some (File _ _)) \<Rightarrow> (Inl enotdir, d)
          | (Some (File _ _), Some (Folder _)) \<Rightarrow> (Inl eisdir, d)
          | (Some (Folder _), Some (Folder _)) \<Rightarrow> if listing d b = [] then (Inr (), moved a b d) else (Inl enotempty, d)
          | _ \<Rightarrow> (Inr (), moved a b d)))"

definition rename :: "machine \<Rightarrow> path \<Rightarrow> path \<Rightarrow> unit agent" where
  "rename m a b = sys m unchanged (rename_at a b)"

definition remove_dir_all :: "machine \<Rightarrow> path \<Rightarrow> unit agent" where
  "remove_dir_all m p = sys m (\<lambda>ft d. if is_folder d p then prune (ft_kept ft) p d else d) (\<lambda>d.
     case entry d p of None \<Rightarrow> (Inl enoent, d) | Some (File _ _) \<Rightarrow> (Inl enotdir, d)
     | Some (Folder _) \<Rightarrow> (Inr (), prune (\<lambda>_. False) p d))"

definition remove_file :: "machine \<Rightarrow> path \<Rightarrow> unit agent" where
  "remove_file m p = sys m unchanged (\<lambda>d.
     case entry d p of None \<Rightarrow> (Inl enoent, d) | Some (Folder _) \<Rightarrow> (Inl eisdir, d)
     | Some (File _ _) \<Rightarrow> (Inr (), prune (\<lambda>_. False) p d))"

text \<open>A file opened for writing, emptied, created with a mode when it is not there, and what was written of it.\<close>

definition write_at :: "nat \<Rightarrow> path \<Rightarrow> string \<Rightarrow> disk \<Rightarrow> (string + unit) \<times> disk" where
  "write_at mode p s d = (case entry d p of
      Some (Folder _) \<Rightarrow> (Inl eisdir, d)
    | Some (File was _) \<Rightarrow> (Inr (), place p (File was s) d)
    | None \<Rightarrow> (case parent_ok d p of Inl e \<Rightarrow> (Inl e, d) | Inr _ \<Rightarrow> (Inr (), place p (File mode s) d)))"

definition write_mode :: "machine \<Rightarrow> nat \<Rightarrow> path \<Rightarrow> string \<Rightarrow> unit agent" where
  "write_mode m mode p s = sys m (\<lambda>ft d. if ft_kept ft p then d else snd (write_at mode p (take (ft_len ft) s) d)) (write_at mode p s)"

definition write_file :: "machine \<Rightarrow> path \<Rightarrow> string \<Rightarrow> unit agent" where
  "write_file m p s = write_mode m 420 p s"

definition append_at :: "path \<Rightarrow> string \<Rightarrow> disk \<Rightarrow> (string + unit) \<times> disk" where
  "append_at p s d = (case entry d p of
      None \<Rightarrow> (Inl enoent, d) | Some (Folder _) \<Rightarrow> (Inl eisdir, d)
    | Some (File mode c) \<Rightarrow> (Inr (), place p (File mode (c @ s)) d))"

definition append_file :: "machine \<Rightarrow> path \<Rightarrow> string \<Rightarrow> unit agent" where
  "append_file m p s = sys m (\<lambda>ft d. snd (append_at p (take (ft_len ft) s) d)) (append_at p s)"

definition not_utf8 :: string where "not_utf8 = ''stream did not contain valid UTF-8''"

definition read_to_string :: "machine \<Rightarrow> path \<Rightarrow> string agent" where
  "read_to_string m p = sys m unchanged (\<lambda>d. (case entry d p of
      None \<Rightarrow> Inl enoent | Some (Folder _) \<Rightarrow> Inl eisdir
    | Some (File _ c) \<Rightarrow> if utf8 c then Inr c else Inl not_utf8, d))"

definition set_mode :: "machine \<Rightarrow> path \<Rightarrow> nat \<Rightarrow> unit agent" where
  "set_mode m p mode = sys m unchanged (\<lambda>d. case entry d p of
      None \<Rightarrow> (Inl enoent, d)
    | Some (Folder _) \<Rightarrow> (Inr (), place p (Folder mode) d)
    | Some (File _ c) \<Rightarrow> (Inr (), place p (File mode c) d))"

definition read_dir :: "machine \<Rightarrow> path \<Rightarrow> string list agent" where
  "read_dir m p = sys m unchanged (\<lambda>d. (case entry d p of
      None \<Rightarrow> Inl enoent | Some (File _ _) \<Rightarrow> Inl enotdir | Some (Folder _) \<Rightarrow> Inr (listing d p), d))"

text \<open>A command: an error when it cannot be started, its output otherwise.  What an interrupted one has done is what
  the machine says.\<close>

definition run_tool :: "machine \<Rightarrow> string list \<Rightarrow> path option \<Rightarrow> tool_output agent" where
  "run_tool m argv cwd v = sys m (\<lambda>_ d. snd (ma_tool m (vo_tick v) argv cwd d)) (ma_tool m (vo_tick v) argv cwd) v"

fun in_turn :: "('x \<Rightarrow> 'a agent) \<Rightarrow> 'x list \<Rightarrow> 'a list agent" where
  "in_turn f [] = give []"
| "in_turn f (x # xs) = chain (f x) (\<lambda>y. chain (in_turn f xs) (\<lambda>ys. give (y # ys)))"

section \<open>What an agent may do to a disk\<close>

named_theorems touch_intros \<open>which paths each action touches\<close>

locale agent_effect =
  fixes R :: "volume \<Rightarrow> volume \<Rightarrow> bool"
  assumes refl: "R v v" and trans: "R u v \<Longrightarrow> R v w \<Longrightarrow> R u w"
begin

lemma give: "obeys R (give x)" by (simp add: obeys_def give_def refl)
lemma bail: "obeys R (bail e)" by (simp add: obeys_def bail_def refl)
lemma rethrow: "obeys R (rethrow e)" by (simp add: obeys_def rethrow_def refl)
lemma lift_res: "obeys R (lift_res r)" by (simp add: obeys_def lift_res_def refl)
lemma clock_secs: "obeys R (clock_secs m)" by (simp add: obeys_def clock_secs_def refl)

lemma context_of: "obeys R a \<Longrightarrow> obeys R (context_of c a)"
  by (auto intro!: obeysI simp: context_of_def dest: obeysD split: prod.splits sum.splits agent_error.splits)

lemma chain:
  assumes "obeys R a" "\<And>x. obeys R (k x)"
  shows "obeys R (chain a k)"
proof (rule obeysI)
  fix v r v' assume "chain a k v = (r, v')"
  then consider e where "a v = (Inl e, v')" | x u where "a v = (Inr x, u)" "k x u = (r, v')"
    by (auto simp: chain_def split: prod.splits sum.splits)
  then show "R v v'"
    by cases (auto intro: trans [OF obeysD [OF assms(1)] obeysD [OF assms(2)]] dest: obeysD [OF assms(1)])
qed

lemma caught:
  assumes "obeys R a" "\<And>x. obeys R (k x)"
  shows "obeys R (caught a k)"
proof (rule obeysI)
  fix v r v' assume "caught a k v = (r, v')"
  then consider e where "a v = (e, v')" | e x u where "a v = (e, u)" "k x u = (r, v')"
    by (auto simp: caught_def split: prod.splits sum.splits agent_error.splits)
  then show "R v v'"
    by cases (auto intro: trans [OF obeysD [OF assms(1)] obeysD [OF assms(2)]] dest: obeysD [OF assms(1)])
qed

lemma in_turn: "(\<And>x. x \<in> set xs \<Longrightarrow> obeys R (f x)) \<Longrightarrow> obeys R (in_turn f xs)"
  by (induction xs) (auto intro!: give chain)

lemma cond: "(b \<Longrightarrow> obeys R f) \<Longrightarrow> (\<not> b \<Longrightarrow> obeys R g) \<Longrightarrow> obeys R (if b then f else g)"
  by simp

lemma case_res: "(\<And>x. v = Inr x \<Longrightarrow> obeys R (f x)) \<Longrightarrow> (\<And>e. v = Inl e \<Longrightarrow> obeys R (g e)) \<Longrightarrow>
    obeys R (case v of Inl e \<Rightarrow> g e | Inr x \<Rightarrow> f x)"
  by (cases v) auto

lemma case_node: "(\<And>n. v = Folder n \<Longrightarrow> obeys R (f n)) \<Longrightarrow> (\<And>n c. v = File n c \<Longrightarrow> obeys R (g n c)) \<Longrightarrow>
    obeys R (case v of Folder n \<Rightarrow> f n | File n c \<Rightarrow> g n c)"
  by (cases v) auto

lemma let_in: "(\<And>x. x = v \<Longrightarrow> obeys R (f x)) \<Longrightarrow> obeys R (let x = v in f x)"
  by simp

lemma case_pair: "(\<And>a b. v = (a, b) \<Longrightarrow> obeys R (f a b)) \<Longrightarrow> obeys R (case v of (a, b) \<Rightarrow> f a b)"
  by (cases v) auto

lemmas combinators = give bail rethrow lift_res clock_secs context_of chain caught in_turn cond case_res case_node let_in case_pair

end

text \<open>Only paths of a set were touched.\<close>

definition touches :: "(path \<Rightarrow> bool) \<Rightarrow> volume \<Rightarrow> volume \<Rightarrow> bool" where
  "touches T v w \<longleftrightarrow> (\<forall>p. p \<noteq> [] \<and> \<not> T p \<longrightarrow> entry (vo_disk w) p = entry (vo_disk v) p)"

interpretation touches: agent_effect "touches T" for T
  by unfold_locales (simp_all add: touches_def)

lemmas [touch_intros] = touches.combinators

lemma touchesD: "obeys (touches T) a \<Longrightarrow> a v = (r, w) \<Longrightarrow> \<not> T p \<Longrightarrow> entry (vo_disk w) p = entry (vo_disk v) p"
  by (cases "p = []") (auto simp: touches_def dest: obeysD)

lemma touches_prints [touch_intros]: "obeys (touches T) (prints s)"
  by (simp add: obeys_def prints_def touches_def)

lemma touches_sys:
  assumes "\<And>ft d p. p \<noteq> [] \<Longrightarrow> \<not> T p \<Longrightarrow> entry (partial ft d) p = entry d p"
    "\<And>d p. p \<noteq> [] \<Longrightarrow> \<not> T p \<Longrightarrow> entry (snd (act d)) p = entry d p"
  shows "obeys (touches T) (sys m partial act)"
  by (rule obeysI) (auto simp: sys_def touches_def assms split: option.splits prod.splits,
    metis assms(2) snd_conv)

lemma touches_read: "(\<And>d. snd (act d) = d) \<Longrightarrow> obeys (touches T) (sys m unchanged act)"
  by (rule touches_sys) (simp_all add: unchanged_def)

lemma touches_tests [touch_intros]: "obeys (touches T) (tests m P)"
  unfolding tests_def by (intro touches.caught touches_read touches.give) simp

lemma touches_reads [touch_intros]:
  "obeys (touches T) (stat m p)" "obeys (touches T) (path_exists m p)" "obeys (touches T) (is_file m p)"
  "obeys (touches T) (is_dir m p)" "obeys (touches T) (read_to_string m p)" "obeys (touches T) (read_dir m p)"
  by (simp_all add: stat_def path_exists_def is_file_def is_dir_def read_to_string_def read_dir_def touches_tests touches_read)

lemma touches_mkdir: "p \<noteq> [] \<Longrightarrow> T p \<Longrightarrow> obeys (touches T) (mkdir m p)"
  unfolding mkdir_def by (rule touches_sys) (auto simp: unchanged_def entry_place split: sum.splits)

lemma touches_mkdir_or_dir: "p \<noteq> [] \<Longrightarrow> T p \<Longrightarrow> obeys (touches T) (mkdir_or_dir m p)"
  unfolding mkdir_or_dir_def by (intro touch_intros touches_mkdir)

lemma touches_create_dir_all [touch_intros]:
  "(\<And>q. q \<noteq> [] \<Longrightarrow> prefix q p \<Longrightarrow> T q) \<Longrightarrow> obeys (touches T) (create_dir_all m p)"
proof (induction "length p" arbitrary: p rule: less_induct)
  case less
  show ?case
  proof (cases "p = []")
    case True
    then show ?thesis by (subst create_dir_all.simps) (simp add: touches.give)
  next
    case False
    have "obeys (touches T) (create_dir_all m (butlast p))"
      using False less.prems by (intro less.hyps) (auto intro: prefix_order.trans [OF _ prefixeq_butlast])
    with False less.prems show ?thesis
      by (subst create_dir_all.simps) (auto intro!: touch_intros touches_mkdir touches_mkdir_or_dir)
  qed
qed

lemma touches_rename [touch_intros]:
  "(\<And>q. prefix a q \<or> prefix b q \<Longrightarrow> T q) \<Longrightarrow> obeys (touches T) (rename m a b)"
  unfolding rename_def
proof (rule touches_sys)
  assume T: "\<And>q. prefix a q \<or> prefix b q \<Longrightarrow> T q"
  fix d p assume "p \<noteq> []" "\<not> T p"
  then have "entry (moved a b d) p = entry d p" using T by (intro entry_moved_other) auto
  then show "entry (snd (rename_at a b d)) p = entry d p"
    by (auto simp: rename_at_def split: sum.splits option.splits node.splits)
qed (simp add: unchanged_def)

lemma touches_remove [touch_intros]:
  "(\<And>q. prefix p q \<Longrightarrow> T q) \<Longrightarrow> obeys (touches T) (remove_dir_all m p)"
  "(\<And>q. prefix p q \<Longrightarrow> T q) \<Longrightarrow> obeys (touches T) (remove_file m p)"
  unfolding remove_dir_all_def remove_file_def
  by (rule touches_sys; auto simp: unchanged_def entry_prune split: option.splits node.splits)+

lemma touches_write [touch_intros]:
  "p \<noteq> [] \<Longrightarrow> T p \<Longrightarrow> obeys (touches T) (write_mode m n p s)"
  "p \<noteq> [] \<Longrightarrow> T p \<Longrightarrow> obeys (touches T) (write_file m p s)"
  "p \<noteq> [] \<Longrightarrow> T p \<Longrightarrow> obeys (touches T) (append_file m p s)"
  "p \<noteq> [] \<Longrightarrow> T p \<Longrightarrow> obeys (touches T) (set_mode m p n)"
  unfolding write_file_def write_mode_def append_file_def set_mode_def
  by (rule touches_sys; auto simp: unchanged_def write_at_def append_at_def entry_place split: option.splits node.splits sum.splits)+

lemma touches_tool:
  assumes "\<And>t d p. p \<noteq> [] \<Longrightarrow> \<not> T p \<Longrightarrow> entry (snd (ma_tool m t argv cwd d)) p = entry d p"
  shows "obeys (touches T) (run_tool m argv cwd)"
proof -
  have "obeys (touches T) (sys m (\<lambda>_ d. snd (ma_tool m t argv cwd d)) (ma_tool m t argv cwd))" for t
    by (rule touches_sys) (simp_all add: assms)
  then show ?thesis by (simp add: obeys_def run_tool_def)
qed

section \<open>What holds after an action\<close>

text \<open>From a state with \<open>P\<close>, a result \<open>x\<close> comes with \<open>Q x\<close> and an error with \<open>E\<close>.\<close>

definition leads :: "(volume \<Rightarrow> bool) \<Rightarrow> 'a agent \<Rightarrow> ('a \<Rightarrow> volume \<Rightarrow> bool) \<Rightarrow> (volume \<Rightarrow> bool) \<Rightarrow> bool" where
  "leads P a Q E \<longleftrightarrow> (\<forall>v r w. P v \<longrightarrow> a v = (r, w) \<longrightarrow> (case r of Inr x \<Rightarrow> Q x w | Inl _ \<Rightarrow> E w))"

lemma leadsI: "(\<And>v x w. P v \<Longrightarrow> a v = (Inr x, w) \<Longrightarrow> Q x w) \<Longrightarrow> (\<And>v e w. P v \<Longrightarrow> a v = (Inl e, w) \<Longrightarrow> E w) \<Longrightarrow> leads P a Q E"
  by (auto simp: leads_def split: sum.splits)

lemma leads_same: "leads P a (\<lambda>_. F) F \<Longrightarrow> P v \<Longrightarrow> a v = (r, w) \<Longrightarrow> F w"
  by (cases r) (auto simp: leads_def)

lemma leads_chain:
  assumes "leads P a Q E" "\<And>x. leads (Q x) (k x) Q' E"
  shows "leads P (chain a k) Q' E"
proof (rule leadsI)
  fix v x w assume *: "P v" "chain a k v = (Inr x, w)"
  then obtain y u where "a v = (Inr y, u)" "k y u = (Inr x, w)"
    by (auto simp: chain_def split: prod.splits sum.splits)
  with *(1) assms show "Q' x w" by (fastforce simp: leads_def)
next
  fix v e w assume *: "P v" "chain a k v = (Inl e, w)"
  then consider "a v = (Inl e, w)" | y u where "a v = (Inr y, u)" "k y u = (Inl e, w)"
    by (auto simp: chain_def split: prod.splits sum.splits)
  then show "E w" using *(1) assms by cases (fastforce simp: leads_def)+
qed

lemma leads_context: "leads P a Q E \<Longrightarrow> leads P (context_of c a) Q E"
  by (auto simp: leads_def context_of_def split: prod.splits sum.splits agent_error.splits) fastforce+

lemma leads_caught:
  assumes "leads P a (\<lambda>_. M) M" "\<And>x. leads M (k x) Q E" "\<And>v. M v \<Longrightarrow> E v"
  shows "leads P (caught a k) Q E"
  unfolding leads_def
proof (intro allI impI)
  fix v r w assume *: "P v" "caught a k v = (r, w)"
  obtain y u where a: "a v = (y, u)" by force
  have M: "M u" by (rule leads_same [OF assms(1) *(1) a])
  have then_k: "case r of Inl _ \<Rightarrow> E w | Inr x \<Rightarrow> Q x w" if "k x u = (r, w)" for x
    using assms(2) [of x] M that unfolding leads_def by blast
  show "case r of Inl _ \<Rightarrow> E w | Inr x \<Rightarrow> Q x w"
  proof (cases y)
    case (Inl e)
    then show ?thesis using *(2) a M assms(3) then_k [of "Inl _"] by (cases e) (auto simp: caught_def)
  next
    case (Inr x)
    then show ?thesis using *(2) a then_k [of "Inr x"] by (simp add: caught_def)
  qed
qed

lemma leads_obeys: "obeys R a \<Longrightarrow> (\<And>v w. P v \<Longrightarrow> R v w \<Longrightarrow> Q w) \<Longrightarrow> leads P a (\<lambda>_. Q) Q"
  by (auto simp: leads_def dest!: obeysD split: sum.splits)

lemma leads_mono:
  "leads P a Q E \<Longrightarrow> (\<And>v. P' v \<Longrightarrow> P v) \<Longrightarrow> (\<And>x v. Q x v \<Longrightarrow> Q' x v) \<Longrightarrow> (\<And>v. E v \<Longrightarrow> E' v) \<Longrightarrow> leads P' a Q' E'"
  by (fastforce simp: leads_def split: sum.splits)

lemma leads_tests:
  assumes "\<And>b v. P v \<Longrightarrow> Q b (v\<lparr> vo_tick := Suc (vo_tick v) \<rparr>)" "\<And>v. P v \<Longrightarrow> E (v\<lparr> vo_tick := Suc (vo_tick v) \<rparr>)"
  shows "leads P (tests m X) Q E"
  using assms
  by (auto simp: leads_def tests_def caught_def sys_def unchanged_def give_def split: option.splits fault_kind.splits prod.splits)

lemma chain_Inr: "chain a k v = (Inr y, w) \<longleftrightarrow> (\<exists>x u. a v = (Inr x, u) \<and> k x u = (Inr y, w))"
  by (auto simp: chain_def split: prod.splits sum.splits)

lemma caught_Inr:
  "caught a k v = (Inr y, w) \<longleftrightarrow> (\<exists>x u. a v = (Inr x, u) \<and> k (Inr x) u = (Inr y, w)) \<or>
     (\<exists>e u. a v = (Inl (Failed e), u) \<and> k (Inl e) u = (Inr y, w))"
  by (auto simp: caught_def split: prod.splits sum.splits agent_error.splits)

lemma context_Inr [simp]: "context_of c a v = (Inr y, w) \<longleftrightarrow> a v = (Inr y, w)"
  by (auto simp: context_of_def split: prod.splits sum.splits agent_error.splits)

lemma leads_pair: "(\<And>a b. x = (a, b) \<Longrightarrow> leads P (f a b) Q E) \<Longrightarrow> leads P (case x of (a, b) \<Rightarrow> f a b) Q E"
  by (cases x) simp

lemma leads_if: "leads P a Q E \<Longrightarrow> leads (\<lambda>v. P v \<and> S) a (\<lambda>x v. Q x v \<and> S) E"
  by (fastforce simp: leads_def split: sum.splits)

lemma leads_cond: "(b \<Longrightarrow> leads P f Q E) \<Longrightarrow> (\<not> b \<Longrightarrow> leads P g Q E) \<Longrightarrow> leads P (if b then f else g) Q E"
  by simp

lemma leads_give: "(\<And>v. P v \<Longrightarrow> Q x v) \<Longrightarrow> leads P (give x) Q E"
  by (simp add: leads_def give_def)

lemma leads_bail: "(\<And>v. P v \<Longrightarrow> E v) \<Longrightarrow> leads P (bail e) Q E"
  by (simp add: leads_def bail_def)

lemma rename_onto:
  assumes "is_folder d b" "entry d (b @ [x]) \<noteq> None" "a \<noteq> b"
  shows "\<exists>e. rename_at a b d = (Inl e, d)"
proof -
  obtain n where n: "(b @ [x], n) \<in> set d" using assms(2) by (auto simp: entry_def dest: map_of_SomeD)
  have "listing d b \<noteq> []" by (auto simp: listing_def filter_empty_conv intro!: bexI [OF _ n])
  with assms show ?thesis
    by (auto simp: rename_at_def is_folder_def split: option.splits node.splits sum.splits)
qed

lemma mkdir_makes: "mkdir m p v = (Inr x, w) \<Longrightarrow> p \<noteq> [] \<Longrightarrow> is_folder (vo_disk w) p"
  by (auto simp: mkdir_def sys_def is_folder_def entry_place split: option.splits if_splits sum.splits)

lemma is_dir_true: "is_dir m p v = (Inr True, w) \<Longrightarrow> is_folder (vo_disk w) p"
  by (auto simp: is_dir_def tests_def caught_def sys_def unchanged_def give_def split: option.splits fault_kind.splits)

lemma mkdir_or_dir_makes: "mkdir_or_dir m p v = (Inr x, w) \<Longrightarrow> p \<noteq> [] \<Longrightarrow> is_folder (vo_disk w) p"
  by (auto simp: mkdir_or_dir_def caught_Inr chain_Inr give_def rethrow_def dest: mkdir_makes is_dir_true split: if_splits)

lemma create_dir_all_makes: "create_dir_all m p v = (Inr x, w) \<Longrightarrow> is_folder (vo_disk w) p"
  by (subst (asm) create_dir_all.simps)
    (auto simp: caught_Inr chain_Inr give_def rethrow_def is_folder_def [of _ "[]"] split: if_splits
      dest: mkdir_makes is_dir_true mkdir_or_dir_makes)

lemma append_makes:
  "append_file m p s v = (Inr x, w) \<Longrightarrow> p \<noteq> [] \<Longrightarrow> \<exists>mode c. entry (vo_disk v) p = Some (File mode c) \<and>
     entry (vo_disk w) p = Some (File mode (c @ s))"
  by (auto simp: append_file_def append_at_def sys_def entry_place split: option.splits node.splits)

lemma read_makes:
  "read_to_string m p v = (Inr c, w) \<Longrightarrow> vo_disk w = vo_disk v \<and> (\<exists>mode. entry (vo_disk v) p = Some (File mode c))"
  by (auto simp: read_to_string_def sys_def unchanged_def split: option.splits node.splits if_splits)

lemma rename_cases:
  assumes "rename m a b v = (r, w)" "a \<noteq> b"
  obtains (renamed) "r = Inr ()" "vo_disk w = moved a b (vo_disk v)" | (unmoved) e where "r = Inl e" "vo_disk w = vo_disk v"
proof -
  have "fst (rename_at a b d) = Inr () \<and> snd (rename_at a b d) = moved a b d \<or>
      (\<exists>e. fst (rename_at a b d) = Inl e) \<and> snd (rename_at a b d) = d" for d
    using assms(2) by (auto simp: rename_at_def split: sum.split option.split node.split)
  from this [of "vo_disk v"] assms(1) show ?thesis
    by (auto simp: rename_def sys_def unchanged_def split: option.splits prod.splits intro: that)
qed

end
