(* ===== verification/Duration.thy ===== *)
theory Duration
  imports Prelude
begin

text \<open>
  \<^verbatim>\<open>pgpod-core/src/duration.rs\<close>: a duration that always carries its unit.  The
  count is a \<^typ>\<open>64 word\<close>, as in the code; the multiplication by the unit is
  the checked one.
\<close>

datatype human_duration = HumanDuration (as_millis: "64 word")

datatype parse_duration_error = ParseDurationError string

definition from_secs :: "64 word \<Rightarrow> human_duration" where
  "from_secs secs = HumanDuration (secs * 1000)"

definition as_secs :: "human_duration \<Rightarrow> 64 word" where
  "as_secs d = as_millis d div 1000"

definition render_duration :: "human_duration \<Rightarrow> string" where
  "render_duration d =
     (let m = as_millis d in
      if m = 0 then ''0ms''
      else if m mod 3600000 = 0 then show_nat (unat (m div 3600000)) @ ''h''
      else if m mod 60000 = 0 then show_nat (unat (m div 60000)) @ ''m''
      else if m mod 1000 = 0 then show_nat (unat (m div 1000)) @ ''s''
      else show_nat (unat m) @ ''ms'')"

text \<open>\<^verbatim>\<open>raw.find(|c| !c.is_ascii_digit())\<close> is the length of the leading digits, or
  nothing when every character is a digit.\<close>

definition find_non_digit :: "string \<Rightarrow> nat option" where
  "find_non_digit s =
     (if list_all is_ascii_digit s then None else Some (length (takeWhile is_ascii_digit s)))"

definition unit_millis :: "64 word \<Rightarrow> string \<Rightarrow> 64 word option" where
  "unit_millis v u =
     (if u = ''ms'' then Some v
      else if u = ''s'' then checked_mul64 v 1000
      else if u = ''m'' then checked_mul64 v 60000
      else if u = ''h'' then checked_mul64 v 3600000
      else if u = ''d'' then checked_mul64 v 86400000
      else None)"

definition duration_from_str :: "string \<Rightarrow> parse_duration_error + human_duration" where
  "duration_from_str s =
     (let raw = trim s; err = ParseDurationError s in
      if raw = [] then Inl err
      else (case find_non_digit raw of
          None \<Rightarrow> Inl err
        | Some digits \<Rightarrow>
            if digits = 0 then Inl err
            else and_then (ok_or err (parse_u64 (take digits raw))) (\<lambda>value.
                 and_then (ok_or err (unit_millis value (drop digits raw))) (\<lambda>millis.
                 Inr (HumanDuration millis)))))"

section \<open>Order\<close>

text \<open>The derived order of the newtype compares the one field, the milliseconds.\<close>

definition duration_le :: "human_duration \<Rightarrow> human_duration \<Rightarrow> bool" where
  "duration_le a b \<longleftrightarrow> as_millis a \<le> as_millis b"

definition duration_less :: "human_duration \<Rightarrow> human_duration \<Rightarrow> bool" where
  "duration_less a b \<longleftrightarrow> as_millis a < as_millis b"

instantiation human_duration :: linorder
begin

definition less_eq_human_duration :: "human_duration \<Rightarrow> human_duration \<Rightarrow> bool" where
  "less_eq_human_duration a b \<longleftrightarrow> duration_le a b"

definition less_human_duration :: "human_duration \<Rightarrow> human_duration \<Rightarrow> bool" where
  "less_human_duration a b \<longleftrightarrow> duration_less a b"

instance
  by standard
     (auto simp: less_eq_human_duration_def less_human_duration_def duration_le_def
       duration_less_def human_duration.expand)

end

section \<open>The rendering is read back\<close>

lemma find_non_digit_append:
  "u \<noteq> [] \<Longrightarrow> \<not> is_ascii_digit (hd u) \<Longrightarrow> \<forall>c\<in>set ds. is_ascii_digit c \<Longrightarrow>
   find_non_digit (ds @ u) = Some (length ds)"
  by (cases u) (auto simp: find_non_digit_def takeWhile_append)

text \<open>Reading a decimal number followed by a unit comes down to the unit's table.\<close>

lemma duration_from_str_number:
  assumes "u \<noteq> []" "\<not> is_ascii_digit (hd u)" "\<forall>c\<in>set u. \<not> is_space c"
  shows "duration_from_str (show_nat (unat v) @ u) =
    (case unit_millis v u of
       None \<Rightarrow> Inl (ParseDurationError (show_nat (unat v) @ u))
     | Some m \<Rightarrow> Inr (HumanDuration m))"
proof -
  have t: "trim (show_nat (unat v) @ u) = show_nat (unat v) @ u"
    using assms(3) show_nat_digit digit_not_space by (intro trim_id) auto
  show ?thesis
    using assms by (simp add: duration_from_str_def t find_non_digit_append Let_def
        split: option.splits)
qed

lemma checked_mul64_div:
  assumes "m mod k = 0"
  shows "checked_mul64 (m div k) k = Some m"
proof -
  have "m div k * k = m" using assms by (metis add.right_neutral div_mult_mod_eq)
  moreover have "unat (m div k) * unat k \<le> unat m" by (simp add: unat_div)
  then have "unat (m div k) * unat k \<le> u64_max" using unat_le_u64 le_trans by blast
  ultimately show ?thesis by (simp add: checked_mul64_def)
qed

lemma duration_from_str_render: "duration_from_str (render_duration d) = Inr d"
proof -
  obtain m where d: "d = HumanDuration m" by (cases d)
  have u: "\<not> is_space (CHR ''h'')" "\<not> is_space (CHR ''m'')" "\<not> is_space (CHR ''s'')"
    by (simp_all add: char_class_defs)
  have "duration_from_str (show_nat (unat (0 :: 64 word)) @ ''ms'') = Inr (HumanDuration 0)"
    using u by (subst duration_from_str_number) (simp_all add: unit_millis_def)
  then have z: "duration_from_str ''0ms'' = Inr (HumanDuration 0)"
    by (simp add: show_nat_small)
  show ?thesis
    using z u by (auto simp: d render_duration_def Let_def duration_from_str_number
        unit_millis_def checked_mul64_div)
qed

interpretation durations: text_codec render_duration "\<lambda>s. to_opt (duration_from_str s)" "\<lambda>_. True"
  by unfold_locales (simp add: duration_from_str_render)

lemma duration_from_str_needs_unit:
  assumes "list_all is_ascii_digit (trim s)"
  shows "duration_from_str s = Inl (ParseDurationError s)"
  using assms by (simp add: duration_from_str_def find_non_digit_def Let_def)

lemma duration_from_str_unit:
  assumes "duration_from_str s = Inr d"
  shows "\<exists>ds v u. trim s = ds @ u \<and> parse_u64 ds = Some v \<and> u \<in> {''ms'', ''s'', ''m'', ''h'', ''d''} \<and>
    unit_millis v u = Some (as_millis d)"
proof -
  obtain n v where n: "find_non_digit (trim s) = Some n" "parse_u64 (take n (trim s)) = Some v"
    "unit_millis v (drop n (trim s)) = Some (as_millis d)"
    using assms by (auto simp: duration_from_str_def Let_def split: if_splits option.splits)
  moreover have "drop n (trim s) \<in> {''ms'', ''s'', ''m'', ''h'', ''d''}"
    using n(3) by (auto simp: unit_millis_def split: if_splits)
  ultimately show ?thesis by (metis append_take_drop_id)
qed

lemma unit_millis_exact:
  assumes "unit_millis v u = Some m"
  shows "unat m = unat v * (if u = ''ms'' then 1 else if u = ''s'' then 1000
    else if u = ''m'' then 60000 else if u = ''h'' then 3600000 else 86400000)"
proof -
  have mul: "checked_mul64 v k = Some m \<Longrightarrow> unat m = unat v * unat k" for k
    by (auto simp: checked_mul64_def u64_max_def unat_word_ariths split: if_splits)
  show ?thesis
    using assms mul by (auto simp: unit_millis_def split: if_splits)
qed

section \<open>Properties\<close>

text \<open>Every 64-bit count of milliseconds is written with a unit and read back
  as the same count, so a rendered configuration never changes a timeout.\<close>

theorem duration_roundtrip: "duration_from_str (render_duration d) = Inr d"
  by (rule duration_from_str_render)

text \<open>A text is a duration only as a number followed by one of the five units,
  and the count it stands for is the exact product: a value that does not fit
  64 bits is refused, never wrapped, and a bare number is refused.\<close>

theorem duration_parse_exact:
  assumes "duration_from_str s = Inr d"
  shows "\<exists>ds v u k. trim s = ds @ u \<and> parse_uint u64_max ds = Some v \<and>
    (u, k) \<in> {(''ms'', 1), (''s'', 1000), (''m'', 60000), (''h'', 3600000), (''d'', 86400000)} \<and>
    unat (as_millis d) = v * k"
proof -
  obtain ds v u where p: "trim s = ds @ u" "parse_u64 ds = Some v"
    "u \<in> {''ms'', ''s'', ''m'', ''h'', ''d''}" "unit_millis v u = Some (as_millis d)"
    using duration_from_str_unit [OF assms] by blast
  then have "parse_uint u64_max ds = Some (unat v)"
    by (simp add: parse_u64_Some)
  moreover define k :: nat where "k = (if u = ''ms'' then 1 else if u = ''s'' then 1000
    else if u = ''m'' then 60000 else if u = ''h'' then 3600000 else 86400000)"
  have "(u, k) \<in> {(''ms'', 1), (''s'', 1000), (''m'', 60000), (''h'', 3600000), (''d'', 86400000)}"
    using p(3) by (auto simp: k_def)
  moreover have "unat (as_millis d) = unat v * k"
    using unit_millis_exact [OF p(4)] by (simp only: k_def)
  ultimately show ?thesis using p(1) by blast
qed

theorem duration_parse_exact_witness:
  "\<exists>ds v u k. trim ''90s'' = ds @ u \<and> parse_uint u64_max ds = Some v \<and>
    (u, k) \<in> {(''ms'', 1), (''s'', 1000), (''m'', 60000), (''h'', 3600000), (''d'', 86400000)} \<and>
    unat (as_millis (HumanDuration 90000)) = v * k"
proof (rule duration_parse_exact)
  show "duration_from_str ''90s'' = Inr (HumanDuration 90000)"
    by (simp add: duration_from_str_def find_non_digit_def unit_millis_def std_simps)
qed

end
