(* ===== verification/Ids.thy ===== *)
theory Ids
  imports Prelude
begin

text \<open>
  \<^verbatim>\<open>pgpod-core/src/ids.rs\<close> and \<^verbatim>\<open>pgpod-control/src/names.rs\<close>: the identifiers of
  clusters, instances and poolers, their parsers, and every podman name
  derived from them.  A naming scheme is a locale: names of valid objects do
  not coincide, which is what lets an operation on a name act on one object.
\<close>

section \<open>Identifiers\<close>

datatype cluster_id = ClusterId (cluster_str: string)
datatype pooler_id = PoolerId (pooler_str: string)

record instance_id =
  iid_cluster :: cluster_id
  iid_ordinal :: "32 word"

datatype parse_instance_id_error = BadClusterName string | BadPoolerName string
  | MissingOrdinal string | ZeroOrdinal string

fun show_id_error :: "parse_instance_id_error \<Rightarrow> string" where
  "show_id_error (BadClusterName n) = ''invalid cluster name '' @ debug_str n @
     '': expected 1-40 characters of [a-z0-9-], starting with a letter and not ending in '' @
     [CHR 0x27, CHR 0x2D, CHR 0x27]"
| "show_id_error (BadPoolerName n) = ''invalid pooler name '' @ debug_str n @
     '': expected 1-40 characters of [a-z0-9-], starting with a letter and not ending in '' @
     [CHR 0x27, CHR 0x2D, CHR 0x27]"
| "show_id_error (MissingOrdinal s) = ''invalid instance id '' @ debug_str s @
     '': expected <cluster>-<ordinal>, e.g. '' @ debug_str ''mydb-1''"
| "show_id_error (ZeroOrdinal s) = ''invalid instance id '' @ debug_str s @ '': ordinals start at 1''"

definition valid_name_char :: "char \<Rightarrow> bool" where
  "valid_name_char c \<longleftrightarrow> is_ascii_lowercase c \<or> is_ascii_digit c \<or> c = CHR ''-''"

definition cluster_id_new :: "string \<Rightarrow> parse_instance_id_error + cluster_id" where
  "cluster_id_new name =
     (if name = [] \<or> length name > 40 then Inl (BadClusterName name)
      else if \<not> is_ascii_lowercase (hd name) then Inl (BadClusterName name)
      else if last name = CHR ''-'' \<or> \<not> list_all valid_name_char name
      then Inl (BadClusterName name)
      else Inr (ClusterId name))"

definition pooler_id_new :: "string \<Rightarrow> parse_instance_id_error + pooler_id" where
  "pooler_id_new name =
     and_then (map_err (\<lambda>_. BadPoolerName name) (cluster_id_new name)) (\<lambda>_. Inr (PoolerId name))"

definition mk_instance :: "cluster_id \<Rightarrow> 32 word \<Rightarrow> instance_id" where
  "mk_instance c n = \<lparr> iid_cluster = c, iid_ordinal = n \<rparr>"

definition instance_id_display :: "instance_id \<Rightarrow> string" where
  "instance_id_display i =
     cluster_str (iid_cluster i) @ ''-'' @ show_nat (unat (iid_ordinal i))"

definition instance_id_from_str :: "string \<Rightarrow> parse_instance_id_error + instance_id" where
  "instance_id_from_str s =
     and_then (ok_or (MissingOrdinal s) (rsplit_once (CHR ''-'') s)) (\<lambda>(cluster, ordinal).
     and_then (ok_or (MissingOrdinal s) (parse_u32 ordinal)) (\<lambda>ordinal.
       if ordinal = 0 then Inl (ZeroOrdinal s)
       else and_then (cluster_id_new cluster) (\<lambda>c. Inr (mk_instance c ordinal))))"

section \<open>Podman names\<close>

definition network_name :: "cluster_id \<Rightarrow> string" where
  "network_name c = ''pgpod-'' @ cluster_str c"

definition container_name :: "instance_id \<Rightarrow> string" where
  "container_name i = ''pgpod-'' @ cluster_str (iid_cluster i) @ ''-'' @
     show_nat (unat (iid_ordinal i))"

definition volume_name :: "instance_id \<Rightarrow> string" where
  "volume_name i = ''pgpod-'' @ cluster_str (iid_cluster i) @ ''-'' @
     show_nat (unat (iid_ordinal i)) @ ''-pgdata''"

definition job_container_name :: "instance_id \<Rightarrow> string \<Rightarrow> string" where
  "job_container_name i job = ''pgpod-'' @ cluster_str (iid_cluster i) @ ''-'' @
     show_nat (unat (iid_ordinal i)) @ ''-'' @ job"

definition slot_name :: "instance_id \<Rightarrow> string" where
  "slot_name i = ''pgpod_'' @ replace_char (CHR ''-'') ''_'' (cluster_str (iid_cluster i)) @
     ''_'' @ show_nat (unat (iid_ordinal i))"

definition pooler_container_name :: "pooler_id \<Rightarrow> string" where
  "pooler_container_name p = ''pgpod-pooler-'' @ pooler_str p"

record secret_names =
  sn_superuser :: string
  sn_replication :: string
  sn_monitor :: string
  sn_app_owner :: string

definition secret_names_for :: "cluster_id \<Rightarrow> secret_names" where
  "secret_names_for c = \<lparr>
     sn_superuser = ''pgpod-'' @ cluster_str c @ ''-superuser'',
     sn_replication = ''pgpod-'' @ cluster_str c @ ''-replication'',
     sn_monitor = ''pgpod-'' @ cluster_str c @ ''-monitor'',
     sn_app_owner = ''pgpod-'' @ cluster_str c @ ''-app-owner'' \<rparr>"

definition secret_names_all :: "secret_names \<Rightarrow> string list" where
  "secret_names_all s = [sn_superuser s, sn_replication s, sn_monitor s, sn_app_owner s]"

definition secret_names_paired :: "secret_names \<Rightarrow> secret_names \<Rightarrow> (string \<times> string) list" where
  "secret_names_paired s source =
     [(sn_superuser s, sn_superuser source), (sn_replication s, sn_replication source),
      (sn_monitor s, sn_monitor source), (sn_app_owner s, sn_app_owner source)]"

definition cluster_labels :: "cluster_id \<Rightarrow> (string \<times> string) list" where
  "cluster_labels c = [(''pgpod.cluster'', cluster_str c)]"

definition instance_labels :: "instance_id \<Rightarrow> (string \<times> string) list" where
  "instance_labels i = [(''pgpod.cluster'', cluster_str (iid_cluster i)),
     (''pgpod.instance'', instance_id_display i)]"

definition pooler_labels :: "pooler_id \<Rightarrow> string list \<Rightarrow> (string \<times> string) list" where
  "pooler_labels p clusters = [(''pgpod.pooler'', pooler_str p),
     (''pgpod.cluster'', str_join '','' clusters)]"

definition pooler_admin_secret :: "pooler_id \<Rightarrow> string" where
  "pooler_admin_secret p = ''pgpod-pooler-'' @ pooler_str p @ ''-admin''"

definition pooler_lookup_secret :: "cluster_id \<Rightarrow> string" where
  "pooler_lookup_secret c = ''pgpod-'' @ cluster_str c @ ''-pooler''"

section \<open>Valid names\<close>

definition valid_name :: "string \<Rightarrow> bool" where
  "valid_name s \<longleftrightarrow> s \<noteq> [] \<and> length s \<le> 40 \<and> is_ascii_lowercase (hd s) \<and>
     last s \<noteq> CHR ''-'' \<and> list_all valid_name_char s"

definition valid_cluster :: "cluster_id \<Rightarrow> bool" where
  "valid_cluster c \<longleftrightarrow> valid_name (cluster_str c)"

definition valid_instance :: "instance_id \<Rightarrow> bool" where
  "valid_instance i \<longleftrightarrow> valid_cluster (iid_cluster i) \<and> iid_ordinal i \<noteq> 0"

lemma cluster_id_new_ok: "cluster_id_new s = Inr c \<longleftrightarrow> c = ClusterId s \<and> valid_name s"
  by (auto simp: cluster_id_new_def valid_name_def)

lemma cluster_id_new_err: "\<not> valid_name s \<Longrightarrow> cluster_id_new s = Inl (BadClusterName s)"
  by (auto simp: cluster_id_new_def valid_name_def)

lemma pooler_id_new_ok: "pooler_id_new s = Inr p \<longleftrightarrow> p = PoolerId s \<and> valid_name s"
  by (auto simp: pooler_id_new_def cluster_id_new_ok)

lemma pooler_id_new_err: "\<not> valid_name s \<Longrightarrow> pooler_id_new s = Inl (BadPoolerName s)"
  by (auto simp: pooler_id_new_def cluster_id_new_err)

lemma underscore_not_name_char [simp]: "\<not> valid_name_char (CHR ''_'')"
  by (simp add: valid_name_char_def char_class_defs)

lemma valid_name_no_underscore: "valid_name s \<Longrightarrow> CHR ''_'' \<notin> set s"
  using underscore_not_name_char by (auto simp: valid_name_def list_all_iff)

interpretation cluster_ids: exact_codec cluster_str "\<lambda>s. to_opt (cluster_id_new s)" valid_cluster
  by unfold_locales (auto simp: cluster_id_new_ok valid_cluster_def)

interpretation pooler_ids: exact_codec pooler_str "\<lambda>s. to_opt (pooler_id_new s)"
  "\<lambda>p. valid_name (pooler_str p)"
  by unfold_locales (auto simp: pooler_id_new_ok)

lemma instance_id_from_str_ok:
  "instance_id_from_str s = Inr i \<longleftrightarrow>
     valid_instance i \<and>
     (\<exists>ds. s = cluster_str (iid_cluster i) @ ''-'' @ ds \<and> CHR ''-'' \<notin> set ds \<and>
           parse_u32 ds = Some (iid_ordinal i))"
proof -
  have "instance_id_from_str s = Inr i \<longleftrightarrow>
    (\<exists>c ds n. s = c @ CHR ''-'' # ds \<and> CHR ''-'' \<notin> set ds \<and> parse_u32 ds = Some n \<and> n \<noteq> 0 \<and>
      valid_name c \<and> i = mk_instance (ClusterId c) n)"
    by (auto simp: instance_id_from_str_def rsplit_once_Some cluster_id_new_ok split: if_splits)
  also have "\<dots> \<longleftrightarrow> valid_instance i \<and>
     (\<exists>ds. s = cluster_str (iid_cluster i) @ ''-'' @ ds \<and> CHR ''-'' \<notin> set ds \<and>
           parse_u32 ds = Some (iid_ordinal i))"
    by (cases i; cases "iid_cluster i")
       (auto simp: mk_instance_def valid_instance_def valid_cluster_def)
  finally show ?thesis .
qed

lemma instance_id_roundtrip:
  "valid_instance i \<Longrightarrow> instance_id_from_str (instance_id_display i) = Inr i"
  by (auto simp: instance_id_from_str_ok instance_id_display_def)

interpretation instance_ids: text_codec instance_id_display
  "\<lambda>s. to_opt (instance_id_from_str s)" valid_instance
  by unfold_locales (simp add: instance_id_roundtrip)

lemma mk_instance_valid: "valid_cluster c \<Longrightarrow> n \<noteq> 0 \<Longrightarrow> valid_instance (mk_instance c n)"
  by (simp add: valid_instance_def mk_instance_def)

section \<open>Naming schemes\<close>

locale name_scheme =
  fixes name :: "'a \<Rightarrow> string" and valid :: "'a \<Rightarrow> bool"
  assumes name_inj: "valid x \<Longrightarrow> valid y \<Longrightarrow> name x = name y \<Longrightarrow> x = y"
begin

text \<open>Removing the object named after \<^term>\<open>x\<close> leaves every other object in place.\<close>

lemma remove_other:
  "valid x \<Longrightarrow> valid y \<Longrightarrow> x \<noteq> y \<Longrightarrow> (m(name x := v)) (name y) = m (name y)"
  using name_inj by auto

lemma distinct_names: "\<forall>x\<in>set xs. valid x \<Longrightarrow> distinct xs \<Longrightarrow> distinct (map name xs)"
  using name_inj by (auto simp: distinct_map inj_on_def)

end

lemma dash_number_inj:
  "a @ CHR ''-'' # show_nat n = b @ CHR ''-'' # show_nat m \<longleftrightarrow> a = b \<and> n = m"
  by (simp add: last_sep_inj)

lemma underscore_number_inj:
  "a @ CHR ''_'' # show_nat n = b @ CHR ''_'' # show_nat m \<longleftrightarrow> a = b \<and> n = m"
  by (simp add: last_sep_inj)

lemma instance_eq_iff:
  "cluster_str (iid_cluster i) = cluster_str (iid_cluster j) \<Longrightarrow>
   unat (iid_ordinal i) = unat (iid_ordinal j) \<Longrightarrow> i = (j :: instance_id)"
  by (auto intro: instance_id.equality cluster_id.expand simp: word_unat_eq_iff)

interpretation networks: name_scheme network_name "\<lambda>_. True"
  by unfold_locales (auto simp: network_name_def intro: cluster_id.expand)

interpretation pooler_containers: name_scheme pooler_container_name "\<lambda>_. True"
  by unfold_locales (auto simp: pooler_container_name_def intro: pooler_id.expand)

interpretation containers: name_scheme container_name "\<lambda>_. True"
  by unfold_locales (auto simp: container_name_def dash_number_inj intro!: instance_eq_iff)

interpretation volumes: name_scheme volume_name "\<lambda>_. True"
proof unfold_locales
  fix i j assume "volume_name i = volume_name j"
  then have "container_name i @ ''-pgdata'' = container_name j @ ''-pgdata''"
    by (simp add: volume_name_def container_name_def)
  then show "i = j" using containers.name_inj by simp
qed

interpretation slots: name_scheme slot_name valid_instance
proof unfold_locales
  fix i j assume v: "valid_instance i" "valid_instance j" and e: "slot_name i = slot_name j"
  then have "replace_char (CHR ''-'') ''_'' (cluster_str (iid_cluster i)) =
      replace_char (CHR ''-'') ''_'' (cluster_str (iid_cluster j)) \<and>
      unat (iid_ordinal i) = unat (iid_ordinal j)"
    by (simp add: slot_name_def underscore_number_inj)
  then show "i = j"
    using v by (auto intro!: instance_eq_iff dest: valid_name_no_underscore replace_char1_inj
        simp: valid_instance_def valid_cluster_def)
qed

section \<open>Which names can coincide\<close>

lemma slot_name_chars:
  assumes "valid_instance i" "c \<in> set (slot_name i)"
  shows "is_ascii_lowercase c \<or> is_ascii_digit c \<or> c = CHR ''_''"
proof -
  have k: "is_ascii_lowercase (CHR ''p'')" "is_ascii_lowercase (CHR ''g'')"
    "is_ascii_lowercase (CHR ''o'')" "is_ascii_lowercase (CHR ''d'')"
    by (simp_all add: char_class_defs)
  show ?thesis
    using assms k by (auto simp: slot_name_def replace_char1_map valid_instance_def
        valid_cluster_def valid_name_def list_all_iff valid_name_char_def split: if_splits)
qed

lemma show_nat_length: "n < 10 ^ k \<Longrightarrow> 0 < k \<Longrightarrow> length (show_nat n) \<le> k"
proof (induction k arbitrary: n)
  case (Suc k)
  show ?case
  proof (cases "n < 10")
    case False
    then have "0 < k" using Suc.prems by (cases k) auto
    moreover have "n div 10 < 10 ^ k" using Suc.prems by (simp add: div_less_iff_less_mult)
    ultimately show ?thesis using Suc.IH [of "n div 10"] False by (subst show_nat.simps) simp
  qed (simp add: show_nat_small)
qed simp

lemma slot_name_length:
  assumes "valid_instance i"
  shows "length (slot_name i) \<le> 57"
proof -
  have "unat (iid_ordinal i) < 10 ^ 10"
    using unsigned_less [of "iid_ordinal i", where 'a = nat] by simp
  then have "length (show_nat (unat (iid_ordinal i))) \<le> 10" by (simp add: show_nat_length)
  then show ?thesis
    using assms by (simp add: slot_name_def length_replace_char1 valid_instance_def
        valid_cluster_def valid_name_def)
qed

lemma container_pooler_name_eq:
  "container_name i = pooler_container_name p \<longleftrightarrow>
     cluster_str (iid_cluster i) @ ''-'' @ show_nat (unat (iid_ordinal i)) =
     ''pooler-'' @ pooler_str p"
  by (simp add: container_name_def pooler_container_name_def)

lemma secret_suffix_inj:
  "CHR ''-'' \<notin> set x \<Longrightarrow> CHR ''-'' \<notin> set y \<Longrightarrow>
   cluster_str c @ CHR ''-'' # x = cluster_str d @ CHR ''-'' # y \<longleftrightarrow> c = d \<and> x = y"
  by (auto simp: last_sep_inj intro: cluster_id.expand)

definition cluster_secrets :: "cluster_id \<Rightarrow> string list" where
  "cluster_secrets c = secret_names_all (secret_names_for c) @ [pooler_lookup_secret c]"

text \<open>The last word of a secret name, reversed, tells the secrets of one cluster apart.\<close>

definition tail_word :: "string \<Rightarrow> string" where
  "tail_word s = takeWhile (\<lambda>c. c \<noteq> CHR ''-'') (rev s)"

lemmas secret_defs = cluster_secrets_def secret_names_all_def secret_names_for_def
  pooler_lookup_secret_def pooler_admin_secret_def

lemma cluster_secrets_words:
  "map tail_word (cluster_secrets c) =
     [''resurepus'', ''noitacilper'', ''rotinom'', ''renwo'', ''reloop'']"
  by (simp add: secret_defs tail_word_def)

lemma cluster_secrets_distinct: "distinct (cluster_secrets c)"
  using distinct_map [of tail_word "cluster_secrets c"] by (simp add: cluster_secrets_words)

lemma admin_secret_not_cluster: "pooler_admin_secret p \<notin> set (cluster_secrets c)"
proof
  assume "pooler_admin_secret p \<in> set (cluster_secrets c)"
  then have "tail_word (pooler_admin_secret p) \<in> set (map tail_word (cluster_secrets c))" by simp
  then show False by (simp add: cluster_secrets_words) (simp add: secret_defs tail_word_def)
qed

lemma app_owner_ne:
  "CHR ''-'' \<notin> set x \<Longrightarrow> x \<noteq> ''owner'' \<Longrightarrow> a @ CHR ''-'' # x \<noteq> b @ ''-app-owner''"
  "CHR ''-'' \<notin> set x \<Longrightarrow> x \<noteq> ''owner'' \<Longrightarrow> b @ ''-app-owner'' \<noteq> a @ CHR ''-'' # x"
  using last_sep_inj [of "CHR ''-''" x "''owner''" a "b @ ''-app''"] by auto

lemma cluster_secrets_disjoint:
  "c \<noteq> d \<Longrightarrow> set (cluster_secrets c) \<inter> set (cluster_secrets d) = {}"
  by (auto simp: secret_defs secret_suffix_inj app_owner_ne intro: cluster_id.expand)

section \<open>Properties\<close>

text \<open>Parsing accepts exactly the valid identifiers: an instance id is split at
  its last dash, printed and read back as the same instance, its ordinal is
  never zero, and a cluster or pooler name is accepted exactly when it obeys
  the name grammar.\<close>

theorem identifiers_roundtrip:
  "(valid_instance i \<longrightarrow> instance_id_from_str (instance_id_display i) = Inr i) \<and>
   (instance_id_from_str s = Inr i \<longrightarrow> valid_instance i) \<and>
   (cluster_id_new s = Inr c \<longleftrightarrow> c = ClusterId s \<and> valid_name s) \<and>
   (pooler_id_new s = Inr p \<longleftrightarrow> p = PoolerId s \<and> valid_name s)"
  by (simp add: instance_id_roundtrip instance_id_from_str_ok cluster_id_new_ok pooler_id_new_ok)

theorem identifiers_roundtrip_witness:
  "instance_id_from_str ''my-db-1'' = Inr (mk_instance (ClusterId ''my-db'') 1) \<and>
   valid_instance (mk_instance (ClusterId ''my-db'') 1)"
proof -
  have "instance_id_from_str ''my-db-1'' = Inr (mk_instance (ClusterId ''my-db'') 1)"
    by (simp add: instance_id_from_str_def std_simps cluster_id_new_def valid_name_char_def)
  then show ?thesis
    using identifiers_roundtrip [of "mk_instance (ClusterId ''my-db'') 1" "''my-db-1''"] by simp
qed

text \<open>Two different valid instances never share a container name, a volume name
  or a replication slot, and a slot name is one PostgreSQL accepts: only
  lowercase letters, digits and underscores, and at most 57 of the 63 bytes
  allowed.\<close>

theorem instance_names_distinct:
  assumes "valid_instance i" "valid_instance j"
  shows "(container_name i = container_name j \<longrightarrow> i = j) \<and>
    (volume_name i = volume_name j \<longrightarrow> i = j) \<and>
    (slot_name i = slot_name j \<longrightarrow> i = j) \<and>
    length (slot_name i) \<le> 57 \<and>
    (\<forall>c\<in>set (slot_name i). is_ascii_lowercase c \<or> is_ascii_digit c \<or> c = CHR ''_'')"
  using assms containers.name_inj volumes.name_inj slots.name_inj slot_name_length slot_name_chars
  by blast

theorem instance_names_distinct_witness:
  "slot_name (mk_instance (ClusterId ''a-b'') 1) \<noteq> slot_name (mk_instance (ClusterId ''a'') 1)"
proof -
  have v: "valid_instance (mk_instance (ClusterId ''a-b'') 1)"
    "valid_instance (mk_instance (ClusterId ''a'') 1)"
    by (simp_all add: valid_instance_def mk_instance_def valid_cluster_def valid_name_def
        valid_name_char_def std_simps)
  have "mk_instance (ClusterId ''a-b'') 1 \<noteq> mk_instance (ClusterId ''a'') 1"
    by (simp add: mk_instance_def)
  then show ?thesis using instance_names_distinct [OF v] by blast
qed

text \<open>The container name of a pooler is not kept apart from those of instances:
  it is the name of an instance's container exactly when the instance's
  cluster is called pooler- and a name, and the pooler is called that name,
  a dash and the ordinal.  Both names are accepted by the parsers, so a
  pooler called mydb-2 claims the container of the second instance of a
  cluster called pooler-mydb.\<close>

theorem pooler_container_collision:
  "(container_name i = pooler_container_name p \<longleftrightarrow>
     cluster_str (iid_cluster i) @ ''-'' @ show_nat (unat (iid_ordinal i)) =
       ''pooler-'' @ pooler_str p) \<and>
   cluster_id_new ''pooler-mydb'' = Inr (ClusterId ''pooler-mydb'') \<and>
   pooler_id_new ''mydb-2'' = Inr (PoolerId ''mydb-2'') \<and>
   container_name (mk_instance (ClusterId ''pooler-mydb'') 2) =
     pooler_container_name (PoolerId ''mydb-2'')"
proof (intro conjI)
  show "container_name i = pooler_container_name p \<longleftrightarrow>
     cluster_str (iid_cluster i) @ ''-'' @ show_nat (unat (iid_ordinal i)) =
       ''pooler-'' @ pooler_str p"
    by (rule container_pooler_name_eq)
qed (simp_all add: cluster_id_new_def pooler_id_new_def valid_name_char_def std_simps
       container_pooler_name_eq mk_instance_def show_nat_small)

text \<open>The podman secrets of different clusters, and the different secrets of one
  cluster, all have different names, and none of them is the name of a
  pooler's admin secret: writing one credential never overwrites another.\<close>

theorem secret_names_distinct:
  "distinct (cluster_secrets c) \<and>
   (c \<noteq> d \<longrightarrow> set (cluster_secrets c) \<inter>
     set (cluster_secrets d) = {}) \<and>
   pooler_admin_secret p \<notin>
     set (cluster_secrets c)"
  using cluster_secrets_distinct cluster_secrets_disjoint admin_secret_not_cluster by blast

theorem secret_names_distinct_witness:
  "pooler_lookup_secret (ClusterId ''a'') \<noteq> sn_superuser (secret_names_for (ClusterId ''b''))"
  using secret_names_distinct [of "ClusterId ''a''" "ClusterId ''b''" "PoolerId ''p''"]
  by (auto simp: cluster_secrets_def secret_names_all_def)

end
