(* ===== verification/Poolers.thy ===== *)
theory Poolers
  imports Prelude Duration Ids
begin

text \<open>
  \<^verbatim>\<open>pgpod-core/src/pooler.rs\<close>, \<^verbatim>\<open>pgpod-pooler/src/config.rs\<close> and the pure part of
  \<^verbatim>\<open>pgpod-control/src/pooler.rs\<close>: what a pooler is told to be, how the pools of
  its clusters are resolved to names, and the configuration rendered from it.
  Reading a YAML scalar is a parameter of the renderer, which produces the
  configuration document that is then serialized.
\<close>

section \<open>The pooler spec\<close>

datatype pool_mode = Transaction | Session

fun pool_mode_as_str :: "pool_mode \<Rightarrow> string" where
  "pool_mode_as_str Transaction = ''transaction''"
| "pool_mode_as_str Session = ''session''"

record pool_target =
  pt_name :: string
  pt_cluster :: string
  pt_server_host :: string
  pt_server_port :: "16 word"
  pt_database :: string
  pt_lookup_role :: string
  pt_lookup_database :: string
  pt_lookup_secret_index :: nat

record pooler_spec =
  ps_pooler :: pooler_id
  ps_port :: "16 word"
  ps_pools :: "pool_target list"
  ps_pool_mode :: pool_mode
  ps_pool_size :: "32 word"
  ps_max_hold :: human_duration
  ps_parameters :: "(string \<times> string) list"

datatype pooler_inconsistent = NoPools | PoolSizeZero | MaxHoldZero
  | DuplicatePool string | NoServerHost string | NoDatabase string

definition pools_for :: "pooler_spec \<Rightarrow> string \<Rightarrow> string list" where
  "pools_for spec cluster = map pt_name (filter (\<lambda>p. pt_cluster p = cluster) (ps_pools spec))"

definition spec_clusters :: "pooler_spec \<Rightarrow> string list" where
  "spec_clusters spec = remdups_adj (sort (map pt_cluster (ps_pools spec)))"

fun validate_pools :: "string set \<Rightarrow> pool_target list \<Rightarrow> pooler_inconsistent + unit" where
  "validate_pools seen [] = Inr ()"
| "validate_pools seen (p # ps) =
     (if pt_name p \<in> seen then Inl (DuplicatePool (pt_name p))
      else if trim (pt_server_host p) = [] then Inl (NoServerHost (pt_name p))
      else if trim (pt_database p) = [] then Inl (NoDatabase (pt_name p))
      else validate_pools (insert (pt_name p) seen) ps)"

definition validate_pooler_spec :: "pooler_spec \<Rightarrow> pooler_inconsistent + unit" where
  "validate_pooler_spec spec =
     (if ps_pools spec = [] then Inl NoPools
      else if ps_pool_size spec = 0 then Inl PoolSizeZero
      else if as_millis (ps_max_hold spec) = 0 then Inl MaxHoldZero
      else validate_pools {} (ps_pools spec))"

section \<open>The rendered configuration\<close>

definition reserved_pooler_parameters :: "string list" where
  "reserved_pooler_parameters = [''host'', ''port'', ''admin_username'', ''admin_password'',
     ''query_wait_timeout'', ''daemon_pid_file'', ''pools'']"

record pooler_secrets =
  admin_password :: string
  lookup_passwords :: "string \<rightharpoonup> string"

record auth_query =
  aq_query :: string
  aq_user :: string
  aq_password :: string
  aq_database :: string
  aq_pool_size :: "32 word"
  aq_cache_ttl :: string

record pool_conf =
  pc_server_host :: string
  pc_server_port :: "16 word"
  pc_server_database :: string
  pc_pool_mode :: string
  pc_auth_query :: auth_query

record 'v general_conf =
  gc_host :: string
  gc_port :: "16 word"
  gc_admin_username :: string
  gc_admin_password :: string
  gc_query_wait_timeout :: string
  gc_extra :: "string \<rightharpoonup> 'v"

record 'v doorman_config =
  dc_general :: "'v general_conf"
  dc_pools :: "string \<rightharpoonup> pool_conf"

datatype pooler_error = PoolerSpecError pooler_inconsistent | ReservedParameter string
  | MissingSecret string

definition lookup_query :: "string \<Rightarrow> string" where
  "lookup_query role = ''SELECT passwd FROM '' @ role @ ''_lookup($1)''"

definition normal_key :: "string \<Rightarrow> string" where
  "normal_key k = to_ascii_lowercase (trim k)"

text \<open>A manifest value is read as a YAML scalar (\<^term>\<open>yaml\<close>), and stays a string
  (\<^term>\<open>as_string\<close>) when that fails.\<close>

fun render_extra :: "(string \<Rightarrow> 'v option) \<Rightarrow> (string \<Rightarrow> 'v) \<Rightarrow> (string \<times> string) list \<Rightarrow>
    (string \<rightharpoonup> 'v) \<Rightarrow> pooler_error + (string \<rightharpoonup> 'v)" where
  "render_extra yaml as_string [] extra = Inr extra"
| "render_extra yaml as_string ((k, v) # ps) extra =
     (if normal_key k \<in> set reserved_pooler_parameters then Inl (ReservedParameter (normal_key k))
      else render_extra yaml as_string ps
             (extra(normal_key k \<mapsto> (case yaml v of Some x \<Rightarrow> x | None \<Rightarrow> as_string v))))"

definition render_pool :: "pooler_spec \<Rightarrow> pool_target \<Rightarrow> string \<Rightarrow> pool_conf" where
  "render_pool spec target password = \<lparr>
     pc_server_host = pt_server_host target,
     pc_server_port = pt_server_port target,
     pc_server_database = pt_database target,
     pc_pool_mode = pool_mode_as_str (ps_pool_mode spec),
     pc_auth_query = \<lparr>
       aq_query = lookup_query (pt_lookup_role target),
       aq_user = pt_lookup_role target,
       aq_password = password,
       aq_database = pt_lookup_database target,
       aq_pool_size = ps_pool_size spec,
       aq_cache_ttl = ''1h'' \<rparr> \<rparr>"

fun render_pools :: "pooler_spec \<Rightarrow> (string \<rightharpoonup> string) \<Rightarrow> pool_target list \<Rightarrow>
    (string \<rightharpoonup> pool_conf) \<Rightarrow> pooler_error + (string \<rightharpoonup> pool_conf)" where
  "render_pools spec pws [] pools = Inr pools"
| "render_pools spec pws (t # ts) pools =
     (case pws (pt_name t) of
        None \<Rightarrow> Inl (MissingSecret (pt_name t))
      | Some pw \<Rightarrow> render_pools spec pws ts (pools(pt_name t \<mapsto> render_pool spec t pw)))"

definition render_pooler :: "(string \<Rightarrow> 'v option) \<Rightarrow> (string \<Rightarrow> 'v) \<Rightarrow> pooler_spec \<Rightarrow>
    pooler_secrets \<Rightarrow> pooler_error + 'v doorman_config" where
  "render_pooler yaml as_string spec secrets =
     and_then (map_err PoolerSpecError (validate_pooler_spec spec)) (\<lambda>_.
     and_then (render_extra yaml as_string (ps_parameters spec) Map.empty) (\<lambda>extra.
     and_then (render_pools spec (lookup_passwords secrets) (ps_pools spec) Map.empty) (\<lambda>pools.
     Inr \<lparr> dc_general = \<lparr>
             gc_host = ''0.0.0.0'',
             gc_port = ps_port spec,
             gc_admin_username = ''pgpod_admin'',
             gc_admin_password = admin_password secrets,
             gc_query_wait_timeout = render_duration (ps_max_hold spec),
             gc_extra = extra \<rparr>,
           dc_pools = pools \<rparr>)))"

definition validate_pooler_parameters :: "pooler_spec \<Rightarrow> pooler_error + unit" where
  "validate_pooler_parameters spec =
     try_each (\<lambda>(k, _). if normal_key k \<in> set reserved_pooler_parameters
                        then Inl (ReservedParameter (normal_key k)) else Inr ())
       (ps_parameters spec)"

section \<open>Resolving the manifest's clusters to pools\<close>

record pool_ref =
  pr_database :: string
  pr_as_name :: "string option"

definition pool_name :: "pool_ref \<Rightarrow> string" where
  "pool_name p = (case pr_as_name p of Some n \<Rightarrow> n | None \<Rightarrow> pr_database p)"

record cluster_pools =
  cp_cluster :: string
  cp_default_database :: "string option"
  cp_declared :: "pool_ref list"

record resolved_pool =
  rp_cluster :: string
  rp_cluster_index :: nat
  rp_database :: string
  rp_name :: string

text \<open>The two refusals of \<^verbatim>\<open>resolve_pools\<close>; the last argument of a collision says
  which of the two messages is written.\<close>

datatype resolve_error = NoDefaultDatabase string | Collision string string string bool

definition declared_pools :: "cluster_pools \<Rightarrow> resolve_error + (string \<times> string) list" where
  "declared_pools input =
     (if cp_declared input = []
      then and_then (ok_or (NoDefaultDatabase (cp_cluster input)) (cp_default_database input))
             (\<lambda>db. Inr [(db, db)])
      else Inr (map (\<lambda>p. (pr_database p, pool_name p)) (cp_declared input)))"

fun claim_pools :: "cluster_pools \<Rightarrow> nat \<Rightarrow> (string \<times> string) list \<Rightarrow>
    (string \<rightharpoonup> string \<times> bool) \<Rightarrow> resolved_pool list \<Rightarrow>
    resolve_error + ((string \<rightharpoonup> string \<times> bool) \<times> resolved_pool list)" where
  "claim_pools input i [] claimed out = Inr (claimed, out)"
| "claim_pools input i ((db, name) # ps) claimed out =
     (let defaulted = (cp_declared input = []) in
      case claimed name of
        Some (other, other_defaulted) \<Rightarrow>
          Inl (Collision name other (cp_cluster input) (defaulted \<and> other_defaulted))
      | None \<Rightarrow> claim_pools input i ps (claimed(name \<mapsto> (cp_cluster input, defaulted)))
          (out @ [\<lparr> rp_cluster = cp_cluster input, rp_cluster_index = i,
                    rp_database = db, rp_name = name \<rparr>]))"

fun resolve_from :: "nat \<Rightarrow> cluster_pools list \<Rightarrow> (string \<rightharpoonup> string \<times> bool) \<Rightarrow>
    resolved_pool list \<Rightarrow> resolve_error + resolved_pool list" where
  "resolve_from i [] claimed out = Inr out"
| "resolve_from i (input # inputs) claimed out =
     and_then (declared_pools input) (\<lambda>pools.
     and_then (claim_pools input i pools claimed out) (\<lambda>(claimed, out).
       resolve_from (Suc i) inputs claimed out))"

definition resolve_pools :: "cluster_pools list \<Rightarrow> resolve_error + resolved_pool list" where
  "resolve_pools inputs = resolve_from 0 inputs Map.empty []"

text \<open>The targets \<^verbatim>\<open>apply_pooler\<close> builds from the resolved pools: the primary is
  ordinal 1 of its cluster.\<close>

definition pool_target_of :: "resolved_pool \<Rightarrow> pool_target" where
  "pool_target_of r = \<lparr>
     pt_name = rp_name r,
     pt_cluster = rp_cluster r,
     pt_server_host = container_name (mk_instance (ClusterId (rp_cluster r)) 1),
     pt_server_port = 5432,
     pt_database = rp_database r,
     pt_lookup_role = ''pgpod_pooler'',
     pt_lookup_database = ''postgres'',
     pt_lookup_secret_index = rp_cluster_index r \<rparr>"

section \<open>Lemmas\<close>

lemma validate_pools_ok:
  "validate_pools seen ps = Inr () \<longleftrightarrow>
     distinct (map pt_name ps) \<and> seen \<inter> pt_name ` set ps = {} \<and>
     (\<forall>p\<in>set ps. trim (pt_server_host p) \<noteq> [] \<and> trim (pt_database p) \<noteq> [])"
  by (induction ps arbitrary: seen) auto

lemma validate_pooler_spec_ok:
  "validate_pooler_spec spec = Inr () \<longleftrightarrow>
     ps_pools spec \<noteq> [] \<and> ps_pool_size spec \<noteq> 0 \<and> as_millis (ps_max_hold spec) \<noteq> 0 \<and>
     distinct (map pt_name (ps_pools spec)) \<and>
     (\<forall>p\<in>set (ps_pools spec). trim (pt_server_host p) \<noteq> [] \<and> trim (pt_database p) \<noteq> [])"
  by (auto simp: validate_pooler_spec_def validate_pools_ok)

lemma pools_for_set [simp]:
  "x \<in> set (pools_for spec c) \<longleftrightarrow> (\<exists>p\<in>set (ps_pools spec). pt_cluster p = c \<and> pt_name p = x)"
  by (auto simp: pools_for_def)

text \<open>With unique pool names, the pools of different clusters are disjoint.\<close>

lemma pools_for_disjoint:
  "distinct (map pt_name (ps_pools spec)) \<Longrightarrow> c \<noteq> d \<Longrightarrow>
   set (pools_for spec c) \<inter> set (pools_for spec d) = {}"
  by (fastforce simp: distinct_map inj_on_def)

lemma spec_clusters_set [simp]: "set (spec_clusters spec) = pt_cluster ` set (ps_pools spec)"
  by (simp add: spec_clusters_def)

lemma distinct_remdups_adj_sorted: "sorted xs \<Longrightarrow> distinct (remdups_adj xs)"
  by (induction xs rule: remdups_adj.induct) (auto simp: order.antisym)

lemma spec_clusters_sorted: "sorted (spec_clusters spec)" "distinct (spec_clusters spec)"
  by (simp_all add: spec_clusters_def sorted_remdups_adj distinct_remdups_adj_sorted)

lemma pools_for_empty_iff: "pools_for spec c = [] \<longleftrightarrow> c \<notin> set (spec_clusters spec)"
  by (auto simp: pools_for_def filter_empty_conv)

section \<open>What resolution computes\<close>

definition listed_pools :: "cluster_pools \<Rightarrow> (string \<times> string) list" where
  "listed_pools input =
     (if cp_declared input = [] then (case cp_default_database input of
        None \<Rightarrow> [] | Some db \<Rightarrow> [(db, db)])
      else map (\<lambda>p. (pr_database p, pool_name p)) (cp_declared input))"

definition expand_pools :: "nat \<Rightarrow> cluster_pools \<Rightarrow> resolved_pool list" where
  "expand_pools i input = map (\<lambda>(db, name). \<lparr> rp_cluster = cp_cluster input,
     rp_cluster_index = i, rp_database = db, rp_name = name \<rparr>) (listed_pools input)"

fun expand_all :: "nat \<Rightarrow> cluster_pools list \<Rightarrow> resolved_pool list" where
  "expand_all i [] = []"
| "expand_all i (input # inputs) = expand_pools i input @ expand_all (Suc i) inputs"

definition has_pools :: "cluster_pools \<Rightarrow> bool" where
  "has_pools input \<longleftrightarrow> cp_declared input \<noteq> [] \<or> cp_default_database input \<noteq> None"

text \<open>The names claimed so far are those of the pools put out so far.\<close>

definition claims_match :: "(string \<rightharpoonup> string \<times> bool) \<Rightarrow> resolved_pool list \<Rightarrow> bool" where
  "claims_match claimed out \<longleftrightarrow> dom claimed = rp_name ` set out \<and> distinct (map rp_name out)"

lemma claims_match_add:
  "claims_match c out \<Longrightarrow> c (rp_name r) = None \<Longrightarrow>
   claims_match (c(rp_name r \<mapsto> v)) (out @ [r])"
  by (auto simp: claims_match_def)

lemma claim_pools_iff:
  assumes "claims_match claimed out"
  shows "(\<exists>c'. claim_pools input i ps claimed out = Inr (c', out')) \<longleftrightarrow>
    out' = out @ map (\<lambda>(db, name). \<lparr> rp_cluster = cp_cluster input, rp_cluster_index = i,
      rp_database = db, rp_name = name \<rparr>) ps \<and> distinct (map rp_name out')"
  using assms
proof (induction ps arbitrary: claimed out)
  case Nil
  then show ?case by (auto simp: claims_match_def)
next
  case (Cons p ps)
  obtain db name where p: "p = (db, name)" by (cases p)
  show ?case
  proof (cases "claimed name")
    case None
    let ?out = "out @ [\<lparr> rp_cluster = cp_cluster input, rp_cluster_index = i,
      rp_database = db, rp_name = name \<rparr>]"
    have "claims_match (claimed(name \<mapsto> (cp_cluster input, cp_declared input = []))) ?out"
      using claims_match_add [OF Cons.prems, of "\<lparr> rp_cluster = cp_cluster input,
        rp_cluster_index = i, rp_database = db, rp_name = name \<rparr>"] None by simp
    from Cons.IH [OF this] show ?thesis using None by (simp add: p Let_def fun_upd_def)
  next
    case (Some x)
    then have "name \<in> rp_name ` set out" using Cons.prems by (auto simp: claims_match_def)
    then show ?thesis using Some by (cases x) (auto simp: p Let_def)
  qed
qed

lemma claim_pools_match:
  "claims_match claimed out \<Longrightarrow> claim_pools input i ps claimed out = Inr (c', out') \<Longrightarrow>
   claims_match c' out'"
proof (induction ps arbitrary: claimed out)
  case (Cons p ps)
  obtain db name where p: "p = (db, name)" by (cases p)
  have n: "claimed name = None" using Cons.prems(2) by (auto simp: p Let_def split: option.splits)
  let ?r = "\<lparr> rp_cluster = cp_cluster input, rp_cluster_index = i,
      rp_database = db, rp_name = name \<rparr>"
  have "claims_match (claimed(rp_name ?r \<mapsto> (cp_cluster input, cp_declared input = []))) (out @ [?r])"
    using n by (intro claims_match_add Cons.prems) simp
  then show ?case using Cons.prems(2) n by (intro Cons.IH) (simp_all add: p Let_def fun_upd_def)
qed simp

lemma resolve_from_iff:
  "claims_match claimed out \<Longrightarrow>
   resolve_from i inputs claimed out = Inr rs \<longleftrightarrow>
     list_all has_pools inputs \<and> rs = out @ expand_all i inputs \<and> distinct (map rp_name rs)"
proof (induction inputs arbitrary: i claimed out)
  case Nil
  then show ?case by (auto simp: claims_match_def)
next
  case (Cons input inputs)
  let ?ps = "listed_pools input"
  have d: "declared_pools input = Inr qs \<longleftrightarrow> has_pools input \<and> qs = ?ps" for qs
    by (auto simp: declared_pools_def has_pools_def listed_pools_def)
  have c: "(\<exists>c'. claim_pools input i ?ps claimed out = Inr (c', out')) \<longleftrightarrow>
      out' = out @ expand_pools i input \<and> distinct (map rp_name out')" for out'
    using claim_pools_iff [OF Cons.prems, of input i ?ps out'] by (simp add: expand_pools_def)
  show ?case (is "?l \<longleftrightarrow> ?r")
  proof
    assume ?l
    then obtain c' out' where h: "has_pools input" "claim_pools input i ?ps claimed out = Inr (c', out')"
      "resolve_from (Suc i) inputs c' out' = Inr rs"
      by (auto simp: d)
    have "out' = out @ expand_pools i input" using c [of out'] h(2) by blast
    moreover have "list_all has_pools inputs \<and> rs = out' @ expand_all (Suc i) inputs \<and>
        distinct (map rp_name rs)"
      using iffD1 [OF Cons.IH [OF claim_pools_match [OF Cons.prems h(2)]] h(3)] .
    ultimately show ?r using h(1) by (metis append_assoc expand_all.simps(2) list.pred_inject(2))
  next
    assume r: ?r
    then obtain c' where h: "claim_pools input i ?ps claimed out = Inr (c', out @ expand_pools i input)"
      using c [of "out @ expand_pools i input"] by fastforce
    then have "resolve_from (Suc i) inputs c' (out @ expand_pools i input) = Inr rs"
      using r iffD2 [OF Cons.IH [OF claim_pools_match [OF Cons.prems h]]]
      by (metis append_assoc expand_all.simps(2) list.pred_inject(2))
    then show ?l using h r by (simp add: d)
  qed
qed

lemma resolve_pools_iff:
  "resolve_pools inputs = Inr rs \<longleftrightarrow>
     list_all has_pools inputs \<and> rs = expand_all 0 inputs \<and> distinct (map rp_name rs)"
  using resolve_from_iff [of Map.empty "[]"] by (simp add: resolve_pools_def claims_match_def)

lemma expand_all_index:
  "r \<in> set (expand_all i inputs) \<Longrightarrow>
   i \<le> rp_cluster_index r \<and> rp_cluster_index r - i < length inputs \<and>
   rp_cluster r = cp_cluster (inputs ! (rp_cluster_index r - i))"
proof (induction inputs arbitrary: i)
  case (Cons input inputs)
  then show ?case
  proof (cases "r \<in> set (expand_pools i input)")
    case True
    then show ?thesis by (auto simp: expand_pools_def)
  next
    case False
    then have "r \<in> set (expand_all (Suc i) inputs)" using Cons.prems by simp
    from Cons.IH [OF this] show ?thesis by (auto simp: nth_Cons' Suc_diff_Suc)
  qed
qed simp

section \<open>What the renderer writes\<close>

lemma render_extra_reserved:
  "render_extra yaml as_string ps extra = Inr e \<Longrightarrow>
   dom extra \<inter> set reserved_pooler_parameters = {} \<Longrightarrow>
   dom e \<inter> set reserved_pooler_parameters = {}"
  by (induction yaml as_string ps extra rule: render_extra.induct) (auto split: if_splits)

lemma render_extra_ok:
  "(\<exists>e. render_extra yaml as_string ps extra = Inr e) \<longleftrightarrow>
     (\<forall>(k, v)\<in>set ps. normal_key k \<notin> set reserved_pooler_parameters)"
proof (induction ps arbitrary: extra)
  case (Cons p ps)
  obtain k v where p: "p = (k, v)" by (cases p)
  show ?case
    using Cons.IH [of "extra(normal_key k \<mapsto> (case yaml v of Some x \<Rightarrow> x | None \<Rightarrow> as_string v))"]
    by (cases "normal_key k \<in> set reserved_pooler_parameters") (simp_all add: p fun_upd_def)
qed simp

lemma validate_pooler_parameters_ok:
  "validate_pooler_parameters spec = Inr () \<longleftrightarrow>
     (\<forall>(k, v)\<in>set (ps_parameters spec). normal_key k \<notin> set reserved_pooler_parameters)"
  by (auto simp: validate_pooler_parameters_def split: if_splits)

lemma render_pools_ok:
  "distinct (map pt_name ts) \<Longrightarrow> render_pools spec pws ts pools = Inr r \<Longrightarrow>
   (\<forall>t\<in>set ts. \<exists>pw. pws (pt_name t) = Some pw \<and> r (pt_name t) = Some (render_pool spec t pw)) \<and>
   (\<forall>n. n \<notin> pt_name ` set ts \<longrightarrow> r n = pools n)"
proof (induction ts arbitrary: pools)
  case (Cons t ts)
  then obtain pw where pw: "pws (pt_name t) = Some pw"
    "render_pools spec pws ts (pools(pt_name t \<mapsto> render_pool spec t pw)) = Inr r"
    by (auto split: option.splits)
  have "pt_name t \<notin> pt_name ` set ts" using Cons.prems(1) by simp
  with Cons.IH [OF _ pw(2)] Cons.prems(1) pw(1) show ?case by auto
qed simp

lemma render_pools_total:
  "\<forall>t\<in>set ts. pws (pt_name t) \<noteq> None \<Longrightarrow> \<exists>r. render_pools spec pws ts pools = Inr r"
  by (induction ts arbitrary: pools) auto

section \<open>Properties\<close>

text \<open>Resolution succeeds exactly when every cluster has a pool to offer and no two
  pools end up with one name, and it then yields every declared or defaulted
  pool once, in manifest order, each with the index of its cluster, which is
  the index its lookup secret is mounted under.\<close>

theorem resolve_pools_exact:
  "(resolve_pools inputs = Inr rs \<longleftrightarrow>
     list_all has_pools inputs \<and> rs = expand_all 0 inputs \<and> distinct (map rp_name rs)) \<and>
   (resolve_pools inputs = Inr rs \<longrightarrow>
     (\<forall>r\<in>set rs. rp_cluster_index r < length inputs \<and>
        rp_cluster r = cp_cluster (inputs ! rp_cluster_index r)))"
  using expand_all_index [of _ 0 inputs] by (auto simp: resolve_pools_iff)

theorem resolve_pools_exact_witness:
  "let a = \<lparr> cp_cluster = ''a'', cp_default_database = Some ''appdb'', cp_declared = [] \<rparr>;
       b = \<lparr> cp_cluster = ''b'', cp_default_database = None, cp_declared =
             [\<lparr> pr_database = ''appdb'', pr_as_name = Some ''b_appdb'' \<rparr>] \<rparr>
   in \<exists>rs. resolve_pools [a, b] = Inr rs \<and> map rp_name rs = [''appdb'', ''b_appdb''] \<and>
        map rp_cluster_index rs = [0, 1] \<and> (\<forall>r\<in>set rs. rp_cluster_index r < 2)"
proof -
  let ?a = "\<lparr> cp_cluster = ''a'', cp_default_database = Some ''appdb'', cp_declared = [] \<rparr>"
  let ?b = "\<lparr> cp_cluster = ''b'', cp_default_database = None, cp_declared =
             [\<lparr> pr_database = ''appdb'', pr_as_name = Some ''b_appdb'' \<rparr>] \<rparr>"
  have e: "map rp_name (expand_all 0 [?a, ?b]) = [''appdb'', ''b_appdb'']"
    "map rp_cluster_index (expand_all 0 [?a, ?b]) = [0, 1]"
    by (simp_all add: expand_pools_def listed_pools_def pool_name_def)
  have "resolve_pools [?a, ?b] = Inr (expand_all 0 [?a, ?b])"
    using resolve_pools_exact [of "[?a, ?b]" "expand_all 0 [?a, ?b]"]
    by (simp only: e) (simp add: has_pools_def)
  moreover from mp [OF conjunct2 [OF resolve_pools_exact] this]
  have "\<forall>r\<in>set (expand_all 0 [?a, ?b]). rp_cluster_index r < length [?a, ?b]" by blast
  then have "\<forall>r\<in>set (expand_all 0 [?a, ?b]). rp_cluster_index r < 2"
    by (simp add: numeral_2_eq_2)
  ultimately show ?thesis
    using e unfolding Let_def by (intro exI [of _ "expand_all 0 [?a, ?b]"] conjI)
qed

text \<open>A configuration that renders is the one the spec asks for: one pool per
  target under its own name, with that pool's own lookup password; the hold
  budget written in a form that reads back as the same duration; no parameter
  of the operator under a key pgpod manages.  The daemon's check of the
  parameters accepts exactly those the renderer accepts.\<close>

theorem render_pooler_faithful:
  assumes "render_pooler yaml as_string spec secrets = Inr conf"
  shows "dom (dc_pools conf) = set (map pt_name (ps_pools spec)) \<and>
    (\<forall>t\<in>set (ps_pools spec). \<exists>pw. lookup_passwords secrets (pt_name t) = Some pw \<and>
       dc_pools conf (pt_name t) = Some (render_pool spec t pw)) \<and>
    duration_from_str (gc_query_wait_timeout (dc_general conf)) = Inr (ps_max_hold spec) \<and>
    dom (gc_extra (dc_general conf)) \<inter> set reserved_pooler_parameters = {} \<and>
    validate_pooler_parameters spec = Inr ()"
proof -
  obtain extra pools where h: "validate_pooler_spec spec = Inr ()"
    "render_extra yaml as_string (ps_parameters spec) Map.empty = Inr extra"
    "render_pools spec (lookup_passwords secrets) (ps_pools spec) Map.empty = Inr pools"
    and c: "dc_pools conf = pools" "gc_extra (dc_general conf) = extra"
      "gc_query_wait_timeout (dc_general conf) = render_duration (ps_max_hold spec)"
    using assms by (auto simp: render_pooler_def)
  have d: "distinct (map pt_name (ps_pools spec))"
    using h(1) by (simp add: validate_pooler_spec_ok)
  have "dom pools = set (map pt_name (ps_pools spec))"
    using render_pools_ok [OF d h(3)] by (auto simp: dom_def)
  then show ?thesis
    using c render_pools_ok [OF d h(3)] render_extra_reserved [OF h(2)] h(2)
      render_extra_ok [of yaml as_string "ps_parameters spec" Map.empty]
    by (auto simp: duration_from_str_render validate_pooler_parameters_ok)
qed

definition demo_spec :: pooler_spec where
  "demo_spec = \<lparr> ps_pooler = PoolerId ''front'', ps_port = 6432,
     ps_pools = [pool_target_of \<lparr> rp_cluster = ''mydb'', rp_cluster_index = 0,
       rp_database = ''appdb'', rp_name = ''appdb'' \<rparr>],
     ps_pool_mode = Transaction, ps_pool_size = 40, ps_max_hold = from_secs 60,
     ps_parameters = [(''worker_threads'', ''4'')] \<rparr>"

theorem render_pooler_faithful_witness:
  "\<exists>conf. render_pooler (\<lambda>_. None) id demo_spec
       \<lparr> admin_password = ''pw'', lookup_passwords = [''appdb'' \<mapsto> ''lookup''] \<rparr> = Inr conf \<and>
     duration_from_str (gc_query_wait_timeout (dc_general conf)) = Inr (HumanDuration 60000)"
proof -
  let ?s = "\<lparr> admin_password = ''pw'', lookup_passwords = [''appdb'' \<mapsto> ''lookup''] \<rparr>"
  have host: "trim (container_name (mk_instance (ClusterId ''mydb'') 1)) \<noteq> []"
    by (simp add: container_name_def mk_instance_def std_simps)
  have "\<exists>conf. render_pooler (\<lambda>_. None) id demo_spec ?s = Inr conf"
    using host by (simp add: render_pooler_def demo_spec_def validate_pooler_spec_def
        pool_target_of_def from_secs_def normal_key_def std_simps to_ascii_lowercase_def
        reserved_pooler_parameters_def to_ascii_lower_def)
  then obtain conf where c: "render_pooler (\<lambda>_. None) id demo_spec ?s = Inr conf" ..
  then show ?thesis using render_pooler_faithful [OF c] by (auto simp: demo_spec_def from_secs_def)
qed

end
