(* ===== verification/Lifecycle.thy ===== *)
theory Lifecycle
  imports Prelude
begin

text \<open>
  \<^verbatim>\<open>pgpod-core/src/lifecycle.rs\<close>: the phase an instance and a cluster are in, as
  the registry stores them, and the role a database reports.  The words the
  registry stores form a codec for each of the three enums; the reader of
  cluster phases is the lenient one, which never fails.
\<close>

section \<open>Instance phases\<close>

datatype instance_phase = InstCreating | InstBootstrapping | InstRunning | InstStopping
  | InstStopped | InstFenced | InstNeedsRebuild | InstFailed | InstTerminated

fun instance_phase_as_str :: "instance_phase \<Rightarrow> string" where
  "instance_phase_as_str InstCreating = ''creating''"
| "instance_phase_as_str InstBootstrapping = ''bootstrapping''"
| "instance_phase_as_str InstRunning = ''running''"
| "instance_phase_as_str InstStopping = ''stopping''"
| "instance_phase_as_str InstStopped = ''stopped''"
| "instance_phase_as_str InstFenced = ''fenced''"
| "instance_phase_as_str InstNeedsRebuild = ''needs-rebuild''"
| "instance_phase_as_str InstFailed = ''failed''"
| "instance_phase_as_str InstTerminated = ''terminated''"

fun is_live :: "instance_phase \<Rightarrow> bool" where
  "is_live InstCreating = True"
| "is_live InstBootstrapping = True"
| "is_live InstRunning = True"
| "is_live InstStopping = True"
| "is_live _ = False"

fun blocks_restart :: "instance_phase \<Rightarrow> bool" where
  "blocks_restart InstFenced = True"
| "blocks_restart InstNeedsRebuild = True"
| "blocks_restart InstStopped = True"
| "blocks_restart InstTerminated = True"
| "blocks_restart _ = False"

datatype parse_phase_error = ParsePhaseError string

definition instance_phase_from_str :: "string \<Rightarrow> parse_phase_error + instance_phase" where
  "instance_phase_from_str s =
     (if s = ''creating'' then Inr InstCreating
      else if s = ''bootstrapping'' then Inr InstBootstrapping
      else if s = ''running'' then Inr InstRunning
      else if s = ''stopping'' then Inr InstStopping
      else if s = ''stopped'' then Inr InstStopped
      else if s = ''fenced'' then Inr InstFenced
      else if s = ''needs-rebuild'' then Inr InstNeedsRebuild
      else if s = ''failed'' then Inr InstFailed
      else if s = ''terminated'' then Inr InstTerminated
      else Inl (ParsePhaseError s))"

section \<open>Cluster phases\<close>

datatype cluster_phase = ClApplying | ClRunning | ClUpgrading | ClStopped | ClFailed | ClUnknown

fun cluster_phase_as_str :: "cluster_phase \<Rightarrow> string" where
  "cluster_phase_as_str ClApplying = ''applying''"
| "cluster_phase_as_str ClRunning = ''running''"
| "cluster_phase_as_str ClUpgrading = ''upgrading''"
| "cluster_phase_as_str ClStopped = ''stopped''"
| "cluster_phase_as_str ClFailed = ''failed''"
| "cluster_phase_as_str ClUnknown = ''unknown''"

fun resumable :: "cluster_phase \<Rightarrow> bool" where
  "resumable ClRunning = True"
| "resumable _ = False"

text \<open>The em dash of the messages is three bytes of UTF-8.\<close>

definition em_dash :: string where
  "em_dash = [CHR 0xE2, CHR 0x80, CHR 0x94]"

definition section_sign :: string where "section_sign = [CHR 0xC2, CHR 0xA7]"

fun skip_reason :: "cluster_phase \<Rightarrow> string option" where
  "skip_reason ClRunning = None"
| "skip_reason ClApplying = Some (''an apply was interrupted '' @ em_dash @
     '' re-run `pgpod apply -f <manifest>` to finish it'')"
| "skip_reason ClUpgrading = Some (''an upgrade was interrupted '' @ em_dash @
     '' check `pgpod status` and the instance volume before starting anything'')"
| "skip_reason ClStopped = Some (''deliberately stopped '' @ em_dash @
     '' `pgpod apply -f <manifest>` brings it back'')"
| "skip_reason ClFailed = Some (''the last apply failed '' @ em_dash @
     '' fix the manifest and apply it again'')"
| "skip_reason ClUnknown =
     Some ''its recorded phase is not one this version of pgpod understands''"

definition parse_lenient :: "string \<Rightarrow> cluster_phase" where
  "parse_lenient s =
     (if s = ''applying'' then ClApplying
      else if s = ''running'' then ClRunning
      else if s = ''upgrading'' then ClUpgrading
      else if s = ''stopped'' then ClStopped
      else if s = ''failed'' then ClFailed
      else ClUnknown)"

section \<open>Roles\<close>

datatype instance_role = RolePrimary | RoleStandby | RoleUnknown

fun instance_role_as_str :: "instance_role \<Rightarrow> string" where
  "instance_role_as_str RolePrimary = ''primary''"
| "instance_role_as_str RoleStandby = ''standby''"
| "instance_role_as_str RoleUnknown = ''unknown''"

definition from_in_recovery :: "bool \<Rightarrow> instance_role" where
  "from_in_recovery in_recovery = (if in_recovery then RoleStandby else RolePrimary)"

datatype parse_role_error = ParseRoleError string

definition instance_role_from_str :: "string \<Rightarrow> parse_role_error + instance_role" where
  "instance_role_from_str s =
     (if s = ''primary'' then Inr RolePrimary
      else if s = ''standby'' then Inr RoleStandby
      else if s = ''unknown'' then Inr RoleUnknown
      else Inl (ParseRoleError s))"

section \<open>The stored words are codecs\<close>

interpretation phase_words: exact_codec instance_phase_as_str
  "\<lambda>s. to_opt (instance_phase_from_str s)" "\<lambda>_. True"
proof unfold_locales
  fix x show "to_opt (instance_phase_from_str (instance_phase_as_str x)) = Some x"
    by (cases x) (simp_all add: instance_phase_from_str_def)
qed (auto simp: instance_phase_from_str_def split: if_splits)

interpretation role_words: exact_codec instance_role_as_str
  "\<lambda>s. to_opt (instance_role_from_str s)" "\<lambda>_. True"
proof unfold_locales
  fix x show "to_opt (instance_role_from_str (instance_role_as_str x)) = Some x"
    by (cases x) (simp_all add: instance_role_from_str_def)
qed (auto simp: instance_role_from_str_def split: if_splits)

interpretation cluster_words: text_codec cluster_phase_as_str
  "\<lambda>s. Some (parse_lenient s)" "\<lambda>_. True"
proof unfold_locales
  fix x show "Some (parse_lenient (cluster_phase_as_str x)) = Some x"
    by (cases x) (simp_all add: parse_lenient_def)
qed

lemma parse_lenient_as_str [simp]: "parse_lenient (cluster_phase_as_str p) = p"
  using cluster_words.parse_render by simp

lemma parse_lenient_known:
  "p \<noteq> ClUnknown \<Longrightarrow> parse_lenient s = p \<longleftrightarrow> s = cluster_phase_as_str p"
  by (cases p) (auto simp: parse_lenient_def)

lemma resumable_iff: "resumable p \<longleftrightarrow> p = ClRunning"
  by (cases p) auto

lemma skip_reason_iff: "skip_reason p = None \<longleftrightarrow> p = ClRunning"
  by (cases p) auto

lemma live_not_blocked: "is_live p \<Longrightarrow> \<not> blocks_restart p"
  by (cases p) auto

section \<open>Properties\<close>

text \<open>The phase words are read back exactly.  An instance phase and a role
  are read from the registry only by the word they were written with; a
  cluster phase always reads back as itself, and of all strings a row may hold
  only the word running lets boot recovery act, every other one comes with a
  reason to show.\<close>

theorem stored_phases_roundtrip:
  "(instance_phase_from_str s = Inr p \<longleftrightarrow> s = instance_phase_as_str p) \<and>
   (instance_role_from_str s = Inr r \<longleftrightarrow> s = instance_role_as_str r) \<and>
   parse_lenient (cluster_phase_as_str c) = c \<and>
   (resumable (parse_lenient s) \<longleftrightarrow> s = ''running'') \<and>
   (skip_reason (parse_lenient s) = None \<longleftrightarrow> s = ''running'')"
  using phase_words.parse_iff [of s p] role_words.parse_iff [of s r]
    parse_lenient_known [of ClRunning s]
  by (simp add: resumable_iff skip_reason_iff)

end
