(* ===== verification/Manifest.thy ===== *)
theory Manifest
  imports Poolers Lifecycle
begin

text \<open>
  What an operator writes and what the agent is sent: the cluster and pooler
  manifests, the backup destinations, the instance spec and the backup job spec,
  with the validation of each (\<^verbatim>\<open>pgpod-core/src/manifest.rs, backup.rs, spec.rs\<close>).
  A \<^verbatim>\<open>BTreeMap\<close> is the list of its pairs in the order of the keys.  Reading
  YAML, writing and reading JSON and parsing an RFC 3339 time are third-party code and
  parameters of the definitions that use them.
\<close>

section \<open>Backup destinations\<close>

record destination =
  ds_url :: string
  ds_endpoint :: "string option"
  ds_region :: "string option"
  ds_verify_tls :: bool
  ds_credentials :: "string option"
  ds_options :: "(string \<times> string) list"

definition destination_new :: "string \<Rightarrow> destination" where
  "destination_new url = \<lparr> ds_url = url, ds_endpoint = None, ds_region = None, ds_verify_tls = True,
     ds_credentials = None, ds_options = [] \<rparr>"

definition credentials_path :: "nat \<Rightarrow> string" where
  "credentials_path index = ''/run/secrets/pgpod-store-'' @ show_nat index"

definition sanitized :: "destination \<Rightarrow> destination" where
  "sanitized d = d\<lparr> ds_credentials := None \<rparr>"

datatype retention_mode = Report | Enforce

record backup_spec =
  bs_destinations :: "destination list"
  bs_retention :: "string option"
  bs_retention_mode :: retention_mode
  bs_volume :: "string option"

definition is_enabled :: "backup_spec \<Rightarrow> bool" where
  "is_enabled b \<longleftrightarrow> bs_destinations b \<noteq> []"

section \<open>Bootstrap\<close>

record initdb_bootstrap =
  ib_database :: "string option"
  ib_owner :: "string option"
  ib_encoding :: string
  ib_locale :: string
  ib_options :: "string list"

definition initdb_default :: initdb_bootstrap where
  "initdb_default = \<lparr> ib_database = None, ib_owner = None, ib_encoding = ''UTF8'', ib_locale = ''C'',
     ib_options = [] \<rparr>"

record recovery_bootstrap =
  rb_source_stanza :: string
  rb_backup_label :: "string option"
  rb_target_time :: "string option"
  rb_destinations :: "destination list"

datatype bootstrap = Initdb initdb_bootstrap | Recovery recovery_bootstrap

section \<open>The cluster manifest\<close>

record postgresql_spec =
  pg_parameters :: "(string \<times> string) list"
  pg_shared_preload_libraries :: "string list"

record cluster_spec =
  sp_instances :: "32 word"
  sp_image_name :: string
  sp_initdb :: initdb_bootstrap
  sp_postgresql :: postgresql_spec
  sp_storage_size :: "string option"
  sp_backup :: backup_spec
  sp_postgres_uid :: "32 word"
  sp_postgres_gid :: "32 word"

record cluster_manifest =
  mf_api_version :: string
  mf_kind :: string
  mf_name :: string
  mf_spec :: cluster_spec

definition api_version :: string where "api_version = ''pgpod/v1''"
definition kind_cluster :: string where "kind_cluster = ''Cluster''"
definition kind_pooler :: string where "kind_pooler = ''Pooler''"
definition archive_dir :: string where "archive_dir = ''/archive''"

datatype destination_error = NotAUrl string | NoBucket string | UnknownScheme string string
  | NeedsVolume string | OutsideMount string | UnusedVolume

datatype pooler_manifest_error = ReadOnlyPooler | NoClusters | PoolerSizeZero
  | ClusterTwice string | EmptyDatabase string | PoolNamedTwice string string string

datatype manifest_error = MParse string | MApiVersion string | MKind string
  | MName parse_instance_id_error | MNoInstances | MManyInstances "32 word" | MImageName
  | MMissingKind string | MPooler pooler_manifest_error | MDestination destination_error

definition known_schemes :: "string list" where
  "known_schemes = [''file'', ''s3'', ''s3a'', ''gs'', ''az'', ''abfs'', ''abfss'', ''memory'']"

text \<open>\<^verbatim>\<open>split_once\<close> at a string, and \<^verbatim>\<open>trim_start_matches('/')\<close>.\<close>

fun split_once_str :: "string \<Rightarrow> string \<Rightarrow> (string \<times> string) option" where
  "split_once_str p [] = (if p = [] then Some ([], []) else None)"
| "split_once_str p (c # s) = (case strip_prefix p (c # s) of
     Some rest \<Rightarrow> Some ([], rest)
   | None \<Rightarrow> map_option (\<lambda>(a, b). (c # a, b)) (split_once_str p s))"

definition trim_slashes :: "string \<Rightarrow> string" where
  "trim_slashes s = dropWhile (\<lambda>c. c = CHR ''/'') s"

definition cluster_id_of :: "cluster_manifest \<Rightarrow> manifest_error + cluster_id" where
  "cluster_id_of m = map_err MName (cluster_id_new (mf_name m))"

definition validate_destination :: "string option \<Rightarrow> destination \<Rightarrow> destination_error + unit" where
  "validate_destination volume d =
     (let url = trim (ds_url d) in
      and_then (ok_or (NotAUrl url) (split_once_str ''://'' url)) (\<lambda>(scheme, rest).
      if trim_slashes rest = [] then Inl (NoBucket url)
      else if scheme \<notin> set known_schemes then Inl (UnknownScheme url scheme)
      else if scheme = ''file'' then
        (let path = ''/'' @ trim_slashes rest in
         if volume = None then Inl (NeedsVolume url)
         else if path \<noteq> archive_dir \<and> strip_prefix (archive_dir @ ''/'') path = None
         then Inl (OutsideMount url)
         else Inr ())
      else Inr ()))"

definition is_file_url :: "string \<Rightarrow> bool" where
  "is_file_url url \<longleftrightarrow> strip_prefix ''file://'' (trim url) \<noteq> None"

definition validate_destinations :: "backup_spec \<Rightarrow> destination_error + unit" where
  "validate_destinations b =
     and_then (try_each (validate_destination (bs_volume b)) (bs_destinations b)) (\<lambda>_.
     if bs_volume b \<noteq> None \<and> \<not> list_ex (\<lambda>d. is_file_url (ds_url d)) (bs_destinations b)
     then Inl UnusedVolume else Inr ())"

definition validate_manifest :: "cluster_manifest \<Rightarrow> manifest_error + unit" where
  "validate_manifest m =
     (if mf_api_version m \<noteq> api_version then Inl (MApiVersion (mf_api_version m))
      else if mf_kind m \<noteq> kind_cluster then Inl (MKind (mf_kind m))
      else and_then (cluster_id_of m) (\<lambda>_.
        if sp_instances (mf_spec m) = 0 then Inl MNoInstances
        else if sp_instances (mf_spec m) > 1 then Inl (MManyInstances (sp_instances (mf_spec m)))
        else if trim (sp_image_name (mf_spec m)) = [] then Inl MImageName
        else map_err MDestination (validate_destinations (sp_backup (mf_spec m)))))"

definition manifest_from_yaml :: "(string \<Rightarrow> string + cluster_manifest) \<Rightarrow> string \<Rightarrow>
    manifest_error + cluster_manifest" where
  "manifest_from_yaml yaml input =
     and_then (map_err MParse (yaml input)) (\<lambda>m. and_then (validate_manifest m) (\<lambda>_. Inr m))"

definition manifest_parameters :: "cluster_manifest \<Rightarrow> (string \<times> string) list" where
  "manifest_parameters m = pg_parameters (sp_postgresql (mf_spec m))"

section \<open>The pooler manifest\<close>

datatype pooler_type = Rw | Ro

record pooler_cluster_ref =
  pcr_cluster :: string
  pcr_pools :: "pool_ref list"

record pg_doorman_spec =
  pd_pool_mode :: pool_mode
  pd_pool_size :: "32 word"
  pd_max_hold :: human_duration
  pd_parameters :: "(string \<times> string) list"

definition pg_doorman_default :: pg_doorman_spec where
  "pg_doorman_default = \<lparr> pd_pool_mode = Transaction, pd_pool_size = 40, pd_max_hold = from_secs 60,
     pd_parameters = [] \<rparr>"

record pooler_manifest =
  pm_api_version :: string
  pm_kind :: string
  pm_name :: string
  pm_type :: pooler_type
  pm_image_name :: string
  pm_port :: "16 word option"
  pm_clusters :: "pooler_cluster_ref list"
  pm_pg_doorman :: pg_doorman_spec
  pm_uid :: "32 word"
  pm_gid :: "32 word"

definition pooler_id_of :: "pooler_manifest \<Rightarrow> manifest_error + pooler_id" where
  "pooler_id_of m = map_err MName (pooler_id_new (pm_name m))"

fun check_clusters :: "string set \<Rightarrow> pooler_cluster_ref list \<Rightarrow> manifest_error + unit" where
  "check_clusters seen [] = Inr ()"
| "check_clusters seen (c # cs) =
     and_then (map_err MName (cluster_id_new (pcr_cluster c))) (\<lambda>_.
     if pcr_cluster c \<in> seen then Inl (MPooler (ClusterTwice (pcr_cluster c)))
     else and_then (try_each (\<lambda>p. if trim (pr_database p) = []
              then Inl (MPooler (EmptyDatabase (pcr_cluster c))) else Inr ()) (pcr_pools c)) (\<lambda>_.
       check_clusters (insert (pcr_cluster c) seen) cs))"

text \<open>The names the manifest writes out, each with its cluster, in order.\<close>

definition written_names :: "pooler_cluster_ref list \<Rightarrow> (string \<times> string) list" where
  "written_names cs = concat (map (\<lambda>c. map (\<lambda>p. (pool_name p, pcr_cluster c)) (pcr_pools c)) cs)"

fun check_pool_names :: "(string \<rightharpoonup> string) \<Rightarrow> (string \<times> string) list \<Rightarrow> manifest_error + unit" where
  "check_pool_names seen [] = Inr ()"
| "check_pool_names seen ((n, c) # ps) =
     (case seen n of
        Some other \<Rightarrow> Inl (MPooler (PoolNamedTwice n other c))
      | None \<Rightarrow> check_pool_names (seen(n \<mapsto> c)) ps)"

definition validate_pooler_manifest :: "pooler_manifest \<Rightarrow> manifest_error + unit" where
  "validate_pooler_manifest m =
     (if pm_api_version m \<noteq> api_version then Inl (MApiVersion (pm_api_version m))
      else if pm_kind m \<noteq> kind_pooler then Inl (MKind (pm_kind m))
      else and_then (pooler_id_of m) (\<lambda>_.
        if pm_type m = Ro then Inl (MPooler ReadOnlyPooler)
        else if pm_clusters m = [] then Inl (MPooler NoClusters)
        else if pd_pool_size (pm_pg_doorman m) = 0 then Inl (MPooler PoolerSizeZero)
        else and_then (check_clusters {} (pm_clusters m)) (\<lambda>_.
          check_pool_names Map.empty (written_names (pm_clusters m)))))"

definition pooler_manifest_from_yaml :: "(string \<Rightarrow> string + pooler_manifest) \<Rightarrow> string \<Rightarrow>
    manifest_error + pooler_manifest" where
  "pooler_manifest_from_yaml yaml input =
     and_then (map_err MParse (yaml input)) (\<lambda>m. and_then (validate_pooler_manifest m) (\<lambda>_. Inr m))"

section \<open>A manifest of either kind\<close>

datatype manifest = ManifestCluster cluster_manifest | ManifestPooler pooler_manifest

record kind_probe =
  kp_api_version :: "string option"
  kp_kind :: "string option"

text \<open>What the YAML library can be asked for: the probe, or one of the two types.\<close>

record yaml_reader =
  yr_probe :: "string \<Rightarrow> string + kind_probe"
  yr_cluster :: "string \<Rightarrow> string + cluster_manifest"
  yr_pooler :: "string \<Rightarrow> string + pooler_manifest"

definition any_manifest_from_yaml :: "yaml_reader \<Rightarrow> string \<Rightarrow> manifest_error + manifest" where
  "any_manifest_from_yaml yr input =
     and_then (map_err MParse (yr_probe yr input)) (\<lambda>p.
     case kp_api_version p of
       None \<Rightarrow> Inl (MMissingKind ''apiVersion'')
     | Some v \<Rightarrow> if v \<noteq> api_version then Inl (MApiVersion v)
       else (case kp_kind p of
         None \<Rightarrow> Inl (MMissingKind ''kind'')
       | Some k \<Rightarrow>
           if k = kind_cluster then
             and_then (manifest_from_yaml (yr_cluster yr) input) (\<lambda>m. Inr (ManifestCluster m))
           else if k = kind_pooler then
             and_then (pooler_manifest_from_yaml (yr_pooler yr) input) (\<lambda>m. Inr (ManifestPooler m))
           else Inl (MKind k)))"

fun manifest_name :: "manifest \<Rightarrow> string" where
  "manifest_name (ManifestCluster m) = mf_name m"
| "manifest_name (ManifestPooler m) = pm_name m"

section \<open>The messages\<close>

fun show_destination_error :: "destination_error \<Rightarrow> string" where
  "show_destination_error (NotAUrl u) = debug_str u @ '' is not a URL '' @ em_dash @
     '' expected something like gs://bucket/prefix''"
| "show_destination_error (NoBucket u) = debug_str u @ '' names no bucket or path''"
| "show_destination_error (UnknownScheme u s) = debug_str u @ '' uses an unsupported scheme '' @
     debug_str s @ '' '' @ em_dash @ '' pgpod supports '' @ str_join '', '' known_schemes"
| "show_destination_error (NeedsVolume u) = debug_str u @ '' is a local path, so spec.backup.volume must name '' @
     ''a podman volume for pgpod to mount at '' @ archive_dir"
| "show_destination_error (OutsideMount u) = debug_str u @ '' is outside '' @ archive_dir @
     '', where spec.backup.volume is mounted '' @ em_dash @ '' nothing else in the container is writable''"
| "show_destination_error UnusedVolume = ''spec.backup.volume is set but no destination is a file:// URL''"

fun show_pooler_manifest_error :: "pooler_manifest_error \<Rightarrow> string" where
  "show_pooler_manifest_error ReadOnlyPooler = ''type: ro needs standbys to route to '' @ em_dash @
     '' read pools land with replicas in Phase 3; use type: rw''"
| "show_pooler_manifest_error NoClusters = ''spec.clusters must name at least one cluster '' @ em_dash @
     '' a pooler with nothing behind it would accept connections and have nowhere to send them''"
| "show_pooler_manifest_error PoolerSizeZero = ''spec.pgDoorman.poolSize must be at least 1''"
| "show_pooler_manifest_error (ClusterTwice c) = ''spec.clusters names '' @ debug_str c @ '' twice '' @ em_dash @
     '' merge its pools into one entry''"
| "show_pooler_manifest_error (EmptyDatabase c) = ''a pool on cluster '' @ debug_str c @ '' has an empty database''"
| "show_pooler_manifest_error (PoolNamedTwice n a b) = ''two pools are both named '' @ debug_str n @ '' '' @ em_dash @
     '' one on cluster '' @ debug_str a @ '' and one on '' @ debug_str b @
     ''. Clients address a pool by that name, so it has to be unique; set `as:` on one of them''"

fun show_manifest_error :: "manifest_error \<Rightarrow> string" where
  "show_manifest_error (MParse e) = ''could not parse the manifest: '' @ e"
| "show_manifest_error (MApiVersion v) = ''unsupported apiVersion '' @ debug_str v @ '' '' @ em_dash @
     '' expected '' @ debug_str api_version"
| "show_manifest_error (MKind k) = ''unsupported kind '' @ debug_str k @ '' '' @ em_dash @
     '' expected '' @ debug_str kind_cluster"
| "show_manifest_error (MName e) = ''metadata.name: '' @ show_id_error e"
| "show_manifest_error MNoInstances = ''spec.instances: instances must be at least 1''"
| "show_manifest_error (MManyInstances n) = ''spec.instances: instances: '' @ show_nat (unat n) @ '' '' @ em_dash @
     '' replicas land in Phase 3; pgpod currently supports a single instance''"
| "show_manifest_error MImageName = ''spec.imageName is required''"
| "show_manifest_error (MMissingKind f) = ''the manifest declares no '' @ f"
| "show_manifest_error (MPooler e) = show_pooler_manifest_error e"
| "show_manifest_error (MDestination e) = ''spec.backup.destinations: '' @ show_destination_error e"

section \<open>What an accepted manifest is\<close>

lemma split_once_str_Some:
  "split_once_str p s = Some (a, b) \<longleftrightarrow> s = a @ p @ b \<and> (\<forall>a' b'. s = a' @ p @ b' \<longrightarrow> length a \<le> length a')"
proof (induction s arbitrary: a)
  case Nil
  then show ?case by (auto simp: )
next
  case (Cons c s)
  show ?case
  proof (cases "strip_prefix p (c # s)")
    case (Some rest)
    then have "c # s = p @ rest" by (simp add: strip_prefix_Some)
    have "split_once_str p (c # s) = Some (a, b) \<longleftrightarrow> a = [] \<and> b = rest"
      using Some by (simp only: split_once_str.simps option.case) auto
    moreover have "a = []" if "\<forall>a' b'. c # s = a' @ p @ b' \<longrightarrow> length a \<le> length a'"
      using that [rule_format, of "[]" rest] \<open>c # s = p @ rest\<close> by simp
    ultimately show ?thesis using \<open>c # s = p @ rest\<close> by auto
  next
    case None
    then have no: "c # s \<noteq> p @ b'" for b' by (metis option.distinct(1) strip_prefix_append)
    show ?thesis
    proof (cases a)
      case Nil
      then show ?thesis using None no [of b] by (auto split: option.split)
    next
      case (Cons d a0)
      have "(\<forall>a' b'. c # s = a' @ p @ b' \<longrightarrow> Suc (length a0) \<le> length a') \<longleftrightarrow>
          (\<forall>a' b'. s = a' @ p @ b' \<longrightarrow> length a0 \<le> length a')"
        using no by (auto simp: Cons_eq_append_conv) (metis Suc_le_mono length_Cons)
      then show ?thesis using None Cons Cons.IH [of a0] by auto
    qed
  qed
qed

definition archive_path :: "string \<Rightarrow> bool" where
  "archive_path path \<longleftrightarrow> path = archive_dir \<or> (\<exists>below. path = (archive_dir @ ''/'') @ below)"

definition destination_ok :: "string option \<Rightarrow> destination \<Rightarrow> bool" where
  "destination_ok volume d \<longleftrightarrow> (\<exists>scheme rest. split_once_str ''://'' (trim (ds_url d)) = Some (scheme, rest) \<and>
     (\<exists>c\<in>set rest. c \<noteq> CHR ''/'') \<and> scheme \<in> set known_schemes \<and>
     (scheme = ''file'' \<longrightarrow> volume \<noteq> None \<and> archive_path (''/'' @ trim_slashes rest)))"

lemma archive_path_iff:
  "archive_path path \<longleftrightarrow> \<not> (path \<noteq> archive_dir \<and> strip_prefix (archive_dir @ ''/'') path = None)"
  unfolding archive_path_def using strip_prefix_ex [of "archive_dir @ ''/''" path] by argo

lemma trim_slashes_Nil: "trim_slashes s = [] \<longleftrightarrow> (\<forall>c\<in>set s. c = CHR ''/'')"
  by (simp add: trim_slashes_def dropWhile_eq_Nil_conv)

lemma validate_destination_ok: "validate_destination v d = Inr () \<longleftrightarrow> destination_ok v d"
proof (cases "split_once_str ''://'' (trim (ds_url d))")
  case None
  then show ?thesis by (simp add: validate_destination_def destination_ok_def Let_def)
next
  case (Some x)
  obtain scheme rest where x: "x = (scheme, rest)" by (cases x)
  show ?thesis
    unfolding validate_destination_def destination_ok_def Let_def Some x archive_path_iff
    using trim_slashes_Nil [of rest]
    by (simp del: append.simps split: if_split)
qed

lemma validate_destinations_ok:
  "validate_destinations b = Inr () \<longleftrightarrow> (\<forall>d\<in>set (bs_destinations b). destination_ok (bs_volume b) d) \<and>
     (bs_volume b \<noteq> None \<longrightarrow> (\<exists>d\<in>set (bs_destinations b). is_file_url (ds_url d)))"
  by (auto simp: validate_destinations_def validate_destination_ok list_ex_iff split: if_splits)

lemma check_clusters_ok:
  "check_clusters seen cs = Inr () \<longleftrightarrow> distinct (map pcr_cluster cs) \<and> set (map pcr_cluster cs) \<inter> seen = {} \<and>
     (\<forall>c\<in>set cs. valid_name (pcr_cluster c) \<and> (\<forall>p\<in>set (pcr_pools c). trim (pr_database p) \<noteq> []))"
proof (induction cs arbitrary: seen)
  case (Cons c cs)
  have *: "(\<exists>x. cluster_id_new (pcr_cluster c) = Inr x) \<longleftrightarrow> valid_name (pcr_cluster c)"
    by (cases "valid_name (pcr_cluster c)") (auto simp: cluster_id_new_ok cluster_id_new_err)
  show ?case using * by (auto simp: Cons.IH split: if_splits)
qed simp

lemma check_pool_names_ok:
  "check_pool_names seen ps = Inr () \<longleftrightarrow> distinct (map fst ps) \<and> (\<forall>x\<in>set ps. seen (fst x) = None)"
proof (induction ps arbitrary: seen)
  case (Cons x ps)
  obtain n c where x: "x = (n, c)" by (cases x)
  have "(\<forall>y\<in>set ps. (seen(n \<mapsto> c)) (fst y) = None) \<longleftrightarrow>
      n \<notin> fst ` set ps \<and> (\<forall>y\<in>set ps. seen (fst y) = None)"
    by force
  then show ?case by (auto simp: x Cons.IH split: option.split)
qed simp

section \<open>Properties\<close>


text \<open>A pooler manifest is accepted exactly when it is of this version and kind, its name is
  valid, it is of type rw with at least one connection per pool, and it names at
  least one cluster, each once and by a valid name, each pool by a database, and no
  two pools by the same name.\<close>

theorem pooler_manifest_accepts_exactly:
  "validate_pooler_manifest m = Inr () \<longleftrightarrow> pm_api_version m = api_version \<and> pm_kind m = kind_pooler \<and>
     valid_name (pm_name m) \<and> pm_type m = Rw \<and> pm_clusters m \<noteq> [] \<and> pd_pool_size (pm_pg_doorman m) \<noteq> 0 \<and>
     distinct (map pcr_cluster (pm_clusters m)) \<and>
     (\<forall>c\<in>set (pm_clusters m). valid_name (pcr_cluster c) \<and>
        (\<forall>p\<in>set (pcr_pools c). trim (pr_database p) \<noteq> [])) \<and>
     distinct (concat (map (\<lambda>c. map pool_name (pcr_pools c)) (pm_clusters m)))"
proof -
  have id: "(\<exists>x. pooler_id_of m = Inr x) \<longleftrightarrow> valid_name (pm_name m)"
    by (cases "valid_name (pm_name m)") (auto simp: pooler_id_of_def pooler_id_new_ok pooler_id_new_err)
  have names: "map fst (written_names cs) = concat (map (\<lambda>c. map pool_name (pcr_pools c)) cs)" for cs
    by (simp add: written_names_def map_concat comp_def)
  have "pm_type m \<noteq> Ro \<longleftrightarrow> pm_type m = Rw" by (cases "pm_type m") auto
  then show ?thesis using id
    by (auto simp: validate_pooler_manifest_def check_clusters_ok check_pool_names_ok names split: if_splits)
qed

section \<open>Witnesses\<close>

definition demo_manifest :: cluster_manifest where
  "demo_manifest = \<lparr> mf_api_version = api_version, mf_kind = kind_cluster, mf_name = ''mydb'',
     mf_spec = \<lparr> sp_instances = 1, sp_image_name = ''postgres:18'',
       sp_initdb = initdb_default\<lparr> ib_database := Some ''appdb'', ib_owner := Some ''app'' \<rparr>,
       sp_postgresql = \<lparr> pg_parameters = [], pg_shared_preload_libraries = [] \<rparr>, sp_storage_size = None,
       sp_backup = \<lparr> bs_destinations = [destination_new ''file:///archive/main''], bs_retention = None,
         bs_retention_mode = Report, bs_volume = Some ''mydb-archive'' \<rparr>,
       sp_postgres_uid = 999, sp_postgres_gid = 999 \<rparr> \<rparr>"

definition demo_pooler_manifest :: pooler_manifest where
  "demo_pooler_manifest = \<lparr> pm_api_version = api_version, pm_kind = kind_pooler, pm_name = ''front'',
     pm_type = Rw, pm_image_name = ''pg_doorman'', pm_port = None,
     pm_clusters = [\<lparr> pcr_cluster = ''mydb'', pcr_pools = [\<lparr> pr_database = ''appdb'', pr_as_name = Some ''main'' \<rparr>] \<rparr>],
     pm_pg_doorman = pg_doorman_default, pm_uid = 999, pm_gid = 999 \<rparr>"


theorem pooler_manifest_accepts_exactly_witness: "validate_pooler_manifest demo_pooler_manifest = Inr ()"
proof -
  have "valid_name ''mydb''" "valid_name ''front''" "trim ''appdb'' \<noteq> []" by code_simp+
  then show ?thesis
    unfolding pooler_manifest_accepts_exactly
    by (simp add: demo_pooler_manifest_def pg_doorman_default_def)
qed

end
