(* ===== verification/Specs.thy ===== *)
theory Specs
  imports Manifest
begin

text \<open>
  What crosses into a container as an environment variable: the instance spec and
  the backup job spec, with their validation (\<^verbatim>\<open>pgpod-core/src/spec.rs, backup.rs\<close>).
  JSON and the RFC 3339 parser are parameters.
\<close>

section \<open>The instance spec\<close>

record instance_spec =
  is_instance :: instance_id
  is_port :: "16 word"
  is_bootstrap :: bootstrap
  is_parameters :: "(string \<times> string) list"
  is_shared_preload_libraries :: "string list"
  is_network_cidr :: "string option"
  is_archive_command :: "string option"
  is_backup :: backup_spec

definition spec_env :: string where "spec_env = ''PGPOD_INSTANCE_SPEC''"

datatype spec_inconsistency = ArchiveNowhere | NeverShipped | RecoveryNoDestination
  | RecoveryNoStanza | BadTargetTime string | CarriesSecretName nat | LooksLikeCredential string

datatype spec_error = SpecMissing | SpecMalformed string | SpecInconsistent spec_inconsistency
  | SpecPoolerInconsistent pooler_inconsistent

definition recovery_of :: "instance_spec \<Rightarrow> recovery_bootstrap option" where
  "recovery_of s = (case is_bootstrap s of Recovery r \<Rightarrow> Some r | Initdb _ \<Rightarrow> None)"

definition credential_words :: "string list" where
  "credential_words = [''secret'', ''password'', ''key'', ''token'', ''credential'']"

definition looks_like_credential :: "string \<Rightarrow> bool" where
  "looks_like_credential k \<longleftrightarrow> list_ex (str_contains (to_ascii_lowercase k)) credential_words"

definition check_archive :: "instance_spec \<Rightarrow> spec_inconsistency + unit" where
  "check_archive s =
     (case (is_archive_command s, is_enabled (is_backup s)) of
        (Some _, False) \<Rightarrow> Inl ArchiveNowhere
      | (None, True) \<Rightarrow> Inl NeverShipped
      | _ \<Rightarrow> Inr ())"

definition check_recovery :: "(string \<Rightarrow> bool) \<Rightarrow> recovery_bootstrap \<Rightarrow> spec_inconsistency + unit" where
  "check_recovery rfc3339 r =
     (if rb_destinations r = [] then Inl RecoveryNoDestination
      else if trim (rb_source_stanza r) = [] then Inl RecoveryNoStanza
      else case rb_target_time r of
        Some t \<Rightarrow> if rfc3339 t then Inr () else Inl (BadTargetTime t)
      | None \<Rightarrow> Inr ())"

definition check_no_secret_names :: "destination list \<Rightarrow> spec_inconsistency + unit" where
  "check_no_secret_names ds =
     try_each (\<lambda>(i, d). if ds_credentials d \<noteq> None then Inl (CarriesSecretName i) else Inr ())
       (enumerate 0 ds)"

definition check_options :: "destination list \<Rightarrow> spec_inconsistency + unit" where
  "check_options ds = try_each (\<lambda>d. try_each (\<lambda>(k, _).
     if looks_like_credential k then Inl (LooksLikeCredential k) else Inr ()) (ds_options d)) ds"

definition validate_spec :: "(string \<Rightarrow> bool) \<Rightarrow> instance_spec \<Rightarrow> spec_error + unit" where
  "validate_spec rfc3339 s = map_err SpecInconsistent
     (and_then (check_archive s) (\<lambda>_.
      and_then (case recovery_of s of Some r \<Rightarrow> check_recovery rfc3339 r | None \<Rightarrow> Inr ()) (\<lambda>_.
      and_then (check_no_secret_names (bs_destinations (is_backup s))) (\<lambda>_.
      check_options (bs_destinations (is_backup s))))))"

record spec_codec =
  sc_rfc3339 :: "string \<Rightarrow> bool"
  sc_encode :: "instance_spec \<Rightarrow> string + string"
  sc_decode :: "string \<Rightarrow> string + instance_spec"

definition spec_to_env :: "spec_codec \<Rightarrow> instance_spec \<Rightarrow> spec_error + string" where
  "spec_to_env sc s =
     and_then (validate_spec (sc_rfc3339 sc) s) (\<lambda>_. map_err SpecMalformed (sc_encode sc s))"

text \<open>Reading it back: the environment is a map.\<close>

definition spec_from_env :: "spec_codec \<Rightarrow> (string \<rightharpoonup> string) \<Rightarrow> spec_error + instance_spec" where
  "spec_from_env sc env =
     and_then (ok_or SpecMissing (env spec_env)) (\<lambda>raw. map_err SpecMalformed (sc_decode sc raw))"

section \<open>The backup job spec\<close>

record backup_job_spec =
  bj_cluster :: string
  bj_instance :: string
  bj_backup_id :: string
  bj_source_host :: string
  bj_source_port :: "16 word"
  bj_destinations :: "destination list"

definition backup_spec_env :: string where "backup_spec_env = ''PGPOD_BACKUP_SPEC''"

datatype job_error = JobMissing | JobMalformed string | JobCarriesSecretName nat | JobNoDestination

definition job_to_env :: "(backup_job_spec \<Rightarrow> string + string) \<Rightarrow> backup_job_spec \<Rightarrow> job_error + string" where
  "job_to_env encode j =
     and_then (try_each (\<lambda>(i, d). if ds_credentials d \<noteq> None then Inl (JobCarriesSecretName i) else Inr ())
       (enumerate 0 (bj_destinations j))) (\<lambda>_.
     if bj_destinations j = [] then Inl JobNoDestination
     else map_err JobMalformed (encode j))"

definition job_from_env :: "(string \<Rightarrow> string + backup_job_spec) \<Rightarrow> (string \<rightharpoonup> string) \<Rightarrow>
    job_error + backup_job_spec" where
  "job_from_env decode env =
     and_then (ok_or JobMissing (env backup_spec_env)) (\<lambda>raw. map_err JobMalformed (decode raw))"

section \<open>The messages\<close>

fun show_spec_inconsistency :: "spec_inconsistency \<Rightarrow> string" where
  "show_spec_inconsistency ArchiveNowhere = ''archive_command is set but spec.backup.destinations is empty '' @
     em_dash @ '' archiving to nowhere''"
| "show_spec_inconsistency NeverShipped = ''spec.backup.destinations is set but archive_command is not '' @
     em_dash @ '' WAL would never be shipped''"
| "show_spec_inconsistency RecoveryNoDestination = ''a recovery bootstrap with no destination has nowhere to '' @
     ''read the base backup from''"
| "show_spec_inconsistency RecoveryNoStanza = ''a recovery bootstrap needs the stanza to restore from''"
| "show_spec_inconsistency (BadTargetTime t) = ''recovery target time '' @ debug_str t @ '' is not RFC 3339''"
| "show_spec_inconsistency (CarriesSecretName i) = ''destination '' @ show_nat i @
     '' still carries a podman secret name '' @ em_dash @ '' the daemon must mount it at '' @
     credentials_path i @ '' and send a sanitized destination''"
| "show_spec_inconsistency (LooksLikeCredential k) = ''destination option '' @ debug_str k @
     '' looks like a credential '' @ em_dash @
     '' credentials are mounted as podman secrets, not passed in the instance spec''"

fun show_pooler_inconsistent :: "pooler_inconsistent \<Rightarrow> string" where
  "show_pooler_inconsistent NoPools = ''a pooler with no pools would accept connections and have nowhere to send them''"
| "show_pooler_inconsistent PoolSizeZero = ''poolSize must be at least 1''"
| "show_pooler_inconsistent MaxHoldZero = ''maxHold of zero makes every wait non-blocking, so a hold '' @
     ''would fail clients immediately rather than holding them''"
| "show_pooler_inconsistent (DuplicatePool n) = ''two pools are both named '' @ debug_str n @
     ''; clients address a pool by that name''"
| "show_pooler_inconsistent (NoServerHost n) = ''pool '' @ debug_str n @ '' names no server host''"
| "show_pooler_inconsistent (NoDatabase n) = ''pool '' @ debug_str n @ '' names no database''"

fun show_spec_error :: "spec_error \<Rightarrow> string" where
  "show_spec_error SpecMissing = spec_env @ '' is not set '' @ em_dash @
     '' the agent is being run outside a pgpod-created container, or the daemon failed to pass the instance spec''"
| "show_spec_error (SpecMalformed e) = spec_env @ '' could not be parsed: '' @ e"
| "show_spec_error (SpecInconsistent i) = ''the instance spec is self-contradictory: '' @ show_spec_inconsistency i"
| "show_spec_error (SpecPoolerInconsistent i) = ''the pooler spec is self-contradictory: '' @ show_pooler_inconsistent i"

section \<open>What an accepted spec is\<close>

lemma is_ok_case_prod: "(case x of (i, d) \<Rightarrow> if P d then Inl (e i) else Inr ()) = Inr () \<longleftrightarrow> \<not> P (snd x)"
  by (cases x) simp

lemma enumerate_snd: "(\<forall>x\<in>set (enumerate n ds). P (snd x)) \<longleftrightarrow> (\<forall>d\<in>set ds. P d)"
  by (metis (no_types, lifting) in_set_conv_nth length_enumerate nth_enumerate_eq snd_conv)

lemma check_no_secret_names_ok:
  "check_no_secret_names ds = Inr () \<longleftrightarrow> (\<forall>d\<in>set ds. ds_credentials d = None)"
  using enumerate_snd [of 0 ds "\<lambda>d. ds_credentials d = None"]
  by (simp add: check_no_secret_names_def is_ok_case_prod)

lemma check_options_ok:
  "check_options ds = Inr () \<longleftrightarrow> (\<forall>d\<in>set ds. \<forall>kv\<in>set (ds_options d). \<not> looks_like_credential (fst kv))"
  by (simp add: check_options_def case_prod_unfold if_distrib [where f = "\<lambda>r. r = Inr ()"] cong: if_cong)

lemma check_archive_ok:
  "check_archive s = Inr () \<longleftrightarrow> (is_archive_command s \<noteq> None \<longleftrightarrow> is_enabled (is_backup s))"
  by (auto simp: check_archive_def split: option.splits bool.splits)

definition recovery_ok :: "(string \<Rightarrow> bool) \<Rightarrow> recovery_bootstrap \<Rightarrow> bool" where
  "recovery_ok rfc3339 r \<longleftrightarrow> rb_destinations r \<noteq> [] \<and> trim (rb_source_stanza r) \<noteq> [] \<and>
     (\<forall>t. rb_target_time r = Some t \<longrightarrow> rfc3339 t)"

lemma check_recovery_ok: "check_recovery rfc r = Inr () \<longleftrightarrow> recovery_ok rfc r"
  by (auto simp: check_recovery_def recovery_ok_def split: option.splits)

lemma validate_spec_ok:
  "validate_spec rfc s = Inr () \<longleftrightarrow>
     (is_archive_command s \<noteq> None \<longleftrightarrow> is_enabled (is_backup s)) \<and>
     (\<forall>r. is_bootstrap s = Recovery r \<longrightarrow> recovery_ok rfc r) \<and>
     (\<forall>d\<in>set (bs_destinations (is_backup s)). ds_credentials d = None \<and>
        (\<forall>kv\<in>set (ds_options d). \<not> looks_like_credential (fst kv)))"
  by (auto simp: validate_spec_def recovery_of_def check_archive_ok check_recovery_ok
      check_no_secret_names_ok check_options_ok split: bootstrap.splits)

section \<open>Properties\<close>


definition demo_spec_codec :: "instance_spec \<Rightarrow> spec_codec" where
  "demo_spec_codec s0 = \<lparr> sc_rfc3339 = (\<lambda>_. True),
     sc_encode = (\<lambda>s. if s = s0 then Inr ''{}'' else Inl ''other''), sc_decode = (\<lambda>_. Inr s0) \<rparr>"

definition demo_instance_spec :: instance_spec where
  "demo_instance_spec = \<lparr> is_instance = mk_instance (ClusterId ''mydb'') 1, is_port = 5432,
     is_bootstrap = Initdb initdb_default, is_parameters = [], is_shared_preload_libraries = [],
     is_network_cidr = None, is_archive_command = Some ''archive'',
     is_backup = \<lparr> bs_destinations = [destination_new ''gs://bucket''], bs_retention = None,
       bs_retention_mode = Report, bs_volume = None \<rparr> \<rparr>"


end
