(* ===== verification/Versions.thy ===== *)
theory Versions
  imports Specs
begin

text \<open>
  What the upgrade jobs are told and what they report, and how PostgreSQL's major
  versions are read and compared (\<^verbatim>\<open>pgpod-core/src/upgrade.rs\<close>).  JSON is a parameter.
\<close>

section \<open>The job spec and the reports\<close>

datatype upgrade_method = Link | Copy

fun upgrade_method_as_str :: "upgrade_method \<Rightarrow> string" where
  "upgrade_method_as_str Link = ''link''"
| "upgrade_method_as_str Copy = ''copy''"

fun upgrade_flag :: "upgrade_method \<Rightarrow> string option" where
  "upgrade_flag Link = Some ''--link''"
| "upgrade_flag Copy = None"

definition old_cluster_survives :: "upgrade_method \<Rightarrow> bool" where
  "old_cluster_survives m \<longleftrightarrow> m = Copy"

definition upgrade_method_from_str :: "string \<Rightarrow> string + upgrade_method" where
  "upgrade_method_from_str s =
     (let other = to_ascii_lowercase (trim s) in
      if other = ''link'' then Inr Link
      else if other = ''copy'' then Inr Copy
      else Inl (''unknown upgrade method '' @ debug_str other @ '' '' @ em_dash @ '' link or copy''))"

record upgrade_spec =
  us_from_version :: string
  us_to_version :: string
  us_staged_bindir :: string
  us_staged_lib_dirs :: "string list"
  us_method :: upgrade_method
  us_jobs :: "32 word"
  us_preload_libraries :: "string list"
  us_check :: bool
  us_initdb :: initdb_bootstrap

definition upgrade_spec_env :: string where "upgrade_spec_env = ''PGPOD_UPGRADE_SPEC''"

definition library_path :: "upgrade_spec \<Rightarrow> string" where
  "library_path s = str_join '':'' (us_staged_lib_dirs s)"

definition upgrade_spec_to_env :: "(upgrade_spec \<Rightarrow> string + string) \<Rightarrow> upgrade_spec \<Rightarrow>
    spec_error + string" where
  "upgrade_spec_to_env encode s = map_err SpecMalformed (encode s)"

definition upgrade_spec_from_env :: "(string \<Rightarrow> string + upgrade_spec) \<Rightarrow> (string \<rightharpoonup> string) \<Rightarrow>
    spec_error + upgrade_spec" where
  "upgrade_spec_from_env decode env =
     and_then (ok_or SpecMissing (env upgrade_spec_env)) (\<lambda>raw. map_err SpecMalformed (decode raw))"

record stage_report =
  sr_version :: string
  sr_bindir :: string
  sr_sharedir :: string
  sr_pkglibdir :: string
  sr_lib_dirs :: "string list"
  sr_files :: "64 word"
  sr_bytes :: "64 word"

record probe_report =
  pr_version :: string
  pr_bindir :: string
  pr_data_version :: "string option"

record upgrade_run_report =
  ur_from_version :: string
  ur_to_version :: string
  ur_method :: upgrade_method
  ur_old_data_dir :: string
  ur_seconds :: "64 word"

section \<open>Finding a report in a log\<close>

definition report_marker :: string where "report_marker = ''pgpod-report:''"

definition report_lines :: "string \<Rightarrow> string list" where
  "report_lines logs = List.map_filter (\<lambda>l. strip_prefix report_marker (trim l)) (str_lines logs)"

definition parse_report :: "(string \<Rightarrow> string + 'a) \<Rightarrow> string \<Rightarrow> string + 'a" where
  "parse_report decode logs =
     (case rev (report_lines logs) of
        [] \<Rightarrow> Inl (''the job produced no '' @ report_marker @ '' line'')
      | line # _ \<Rightarrow> map_err (\<lambda>e. ''unreadable job report: '' @ e) (decode (trim line)))"

text \<open>What is written to standard output; the line end comes from \<^verbatim>\<open>println!\<close>.\<close>

definition print_report :: "('a \<Rightarrow> string + string) \<Rightarrow> 'a \<Rightarrow> string + string" where
  "print_report encode r = and_then (encode r) (\<lambda>json. Inr (report_marker @ json @ [CHR 0x0A]))"

section \<open>Major versions\<close>

definition is_version_sep :: "char \<Rightarrow> bool" where
  "is_version_sep c \<longleftrightarrow> c \<in> set ''. -+(''"

text \<open>The first piece of a split on the separators, and what is behind it, if anything.\<close>

definition version_piece :: "string \<Rightarrow> string \<times> string option" where
  "version_piece s = (takeWhile (\<lambda>c. \<not> is_version_sep c) s,
     (case dropWhile (\<lambda>c. \<not> is_version_sep c) s of [] \<Rightarrow> None | _ # rest \<Rightarrow> Some rest))"

definition major_label :: "string \<Rightarrow> string option" where
  "major_label raw =
     (let digits = dropWhile (\<lambda>c. \<not> is_ascii_digit c) (trim raw);
          (first, rest) = version_piece digits in
      case parse_u32 first of
        None \<Rightarrow> None
      | Some major \<Rightarrow>
          if major < 9 then None
          else if major = 9 then
            (case rest of
               None \<Rightarrow> None
             | Some r \<Rightarrow> map_option (\<lambda>minor. ''9.'' @ show_nat (unat minor)) (parse_u32 (fst (version_piece r))))
          else Some (show_nat (unat major)))"

text \<open>The key is computed on 32 bits.  The release profile keeps the default, so it wraps.\<close>

definition version_key :: "string \<Rightarrow> 32 word option" where
  "version_key raw =
     (case major_label raw of
        None \<Rightarrow> None
      | Some label \<Rightarrow>
          (let parts = split_on (CHR ''.'') label in
           case parse_u32 (hd parts) of
             None \<Rightarrow> None
           | Some major \<Rightarrow>
               (let minor = (case tl parts of [] \<Rightarrow> 0
                   | m # _ \<Rightarrow> (case parse_u32 m of Some n \<Rightarrow> n | None \<Rightarrow> 0))
                in Some (major * 100 + minor))))"

section \<open>Reading what was printed\<close>

lemma split_on_append_sep: "split_on c (a @ c # b) = split_on c a @ split_on c b"
proof (induction a)
  case (Cons x a)
  then show ?case by (cases "split_on c a") auto
qed simp

lemma str_lines_append:
  "str_lines (a @ CHR 0x0A # b) = map strip_cr (split_on (CHR 0x0A) a) @ str_lines b"
  by (simp add: str_lines_def Let_def split_on_append_sep butlast_append)

lemma trim_fixed_last: "trim s = s \<Longrightarrow> s \<noteq> [] \<Longrightarrow> \<not> is_space (last s)"
proof
  assume *: "trim s = s" "s \<noteq> []" "is_space (last s)"
  let ?t = "trim_start s"
  have "trim_end ?t = s" using *(1) by (simp add: trim_def)
  moreover have "length (trim_end ?t) \<le> length ?t"
    using length_dropWhile_le [of is_space "rev ?t"] by (simp add: trim_end_def)
  moreover have "?t = s \<or> length ?t < length s"
    by (cases s) (auto simp: trim_start_def le_imp_less_Suc length_dropWhile_le)
  ultimately have "?t = s" by auto
  then have "trim_end s = s" using *(1) by (simp add: trim_def)
  moreover have "length (trim_end s) < length s"
    using *(2,3) by (cases s rule: rev_cases) (auto simp: trim_end_def le_imp_less_Suc length_dropWhile_le
        intro: order.strict_trans1 [OF length_dropWhile_le])
  ultimately show False by simp
qed

lemma trim_marker: "trim json = json \<Longrightarrow> trim (report_marker @ json) = report_marker @ json"
proof -
  assume j: "trim json = json"
  have "\<not> is_space (hd (report_marker @ json))" "\<not> is_space (last report_marker)"
    by (simp_all add: report_marker_def is_space_def less_eq_char_def)
  moreover have "\<not> is_space (last (report_marker @ json))"
    using calculation(2) trim_fixed_last [OF j] by (cases "json = []") auto
  ultimately show ?thesis by (simp add: trim_def trim_start_id trim_end_id)
qed

lemma report_lines_print:
  assumes "CHR 0x0A \<notin> set json" "trim json = json"
  shows "report_lines (report_marker @ json @ CHR 0x0A # post) = json # report_lines post"
proof -
  let ?line = "report_marker @ json"
  have "\<not> is_space (last ?line)"
    using trim_marker [OF assms(2)] trim_fixed_last [of ?line] by (simp add: report_marker_def)
  then have "last ?line \<noteq> CHR 0x0D" by (auto simp: is_space_def less_eq_char_def)
  then have "strip_cr ?line = ?line" by (simp add: strip_cr_def)
  moreover have "CHR 0x0A \<notin> set ?line" using assms(1) by (simp add: report_marker_def)
  ultimately have "str_lines (?line @ CHR 0x0A # post) = ?line # str_lines post"
    using split_on_no_sep [of "CHR 0x0A" ?line]
    by (simp only: str_lines_append list.map append_Cons append_Nil not_False_eq_True simp_thms)
  then show ?thesis
    by (simp add: report_lines_def trim_marker [OF assms(2)] List.map_filter_simps)
qed

lemma map_filter_append: "List.map_filter f (xs @ ys) = List.map_filter f xs @ List.map_filter f ys"
  by (induction xs) (auto simp: List.map_filter_simps split: option.split)

lemma report_lines_behind:
  "pre = [] \<or> last pre = CHR 0x0A \<Longrightarrow> \<exists>old. report_lines (pre @ out) = old @ report_lines out"
proof (cases pre rule: rev_cases)
  case (snoc p x)
  assume "pre = [] \<or> last pre = CHR 0x0A"
  then show ?thesis using snoc
    by (auto simp: report_lines_def str_lines_append map_filter_append)
qed (auto simp: report_lines_def)

section \<open>Comparing versions\<close>

definition ends_version :: "string \<Rightarrow> bool" where
  "ends_version t \<longleftrightarrow> trim_end t = [] \<or> is_version_sep (hd t)"

text \<open>A text that shows a version: any wording without digits, the number, and in
  the days of 9.x a second number.\<close>

definition shows_version :: "string \<Rightarrow> nat \<Rightarrow> nat \<Rightarrow> bool" where
  "shows_version s major minor \<longleftrightarrow> (\<exists>pre tail. s = pre @ show_nat major @ tail \<and>
     (\<forall>c\<in>set pre. \<not> is_ascii_digit c) \<and>
     (if major = 9 then \<exists>c rest. tail = c # show_nat minor @ rest \<and> is_version_sep c \<and> ends_version rest
      else minor = 0 \<and> ends_version tail))"

lemma digit_not_sep: "is_ascii_digit c \<Longrightarrow> \<not> is_version_sep c"
  by (auto simp: is_version_sep_def char_class_defs)

lemma trim_end_append: "trim_end t \<noteq> [] \<or> d \<noteq> [] \<and> \<not> is_space (last d) \<Longrightarrow> trim_end (d @ t) = d @ trim_end t"
proof -
  assume *: "trim_end t \<noteq> [] \<or> d \<noteq> [] \<and> \<not> is_space (last d)"
  show ?thesis
  proof (cases "\<forall>c\<in>set t. is_space c")
    case True
    then have "trim_end t = []" by (simp add: trim_end_def dropWhile_eq_Nil_conv)
    moreover have "dropWhile is_space (rev t @ rev d) = dropWhile is_space (rev d)"
      using True by (intro dropWhile_append2) auto
    ultimately show ?thesis using * trim_end_id [of d] by (simp add: trim_end_def)
  next
    case False
    then show ?thesis by (auto simp: trim_end_def dropWhile_append1)
  qed
qed

lemma last_show_nat: "\<not> is_space (last (show_nat n))"
  using last_in_set [of "show_nat n"] digit_not_space show_nat_digit show_nat_not_Nil by blast

lemma digits_of_text:
  "\<forall>c\<in>set pre. \<not> is_ascii_digit c \<Longrightarrow>
   dropWhile (\<lambda>c. \<not> is_ascii_digit c) (trim (pre @ show_nat n @ t)) = show_nat n @ trim_end t"
proof -
  assume pre: "\<forall>c\<in>set pre. \<not> is_ascii_digit c"
  obtain x xs where n: "show_nat n = x # xs" "is_ascii_digit x"
    by (cases "show_nat n") (use hd_show_nat [of n] in auto)
  have "\<exists>p. trim_start (pre @ show_nat n @ t) = p @ show_nat n @ t \<and> (\<forall>c\<in>set p. \<not> is_ascii_digit c)"
  proof (cases "\<forall>c\<in>set pre. is_space c")
    case True
    have "dropWhile is_space (show_nat n @ t) = show_nat n @ t"
      using n digit_not_space by simp
    then show ?thesis using True by (intro exI [of _ "[]"]) (simp add: trim_start_def dropWhile_append2)
  next
    case False
    then show ?thesis using pre
      by (intro exI [of _ "dropWhile is_space pre"])
         (auto simp: trim_start_def dropWhile_append1 dest: set_dropWhileD)
  qed
  then obtain p where p: "trim_start (pre @ show_nat n @ t) = p @ show_nat n @ t"
    "\<forall>c\<in>set p. \<not> is_ascii_digit c" by blast
  have "trim_end (p @ show_nat n @ t) = p @ show_nat n @ trim_end t"
    using trim_end_append [of t "p @ show_nat n"] last_show_nat [of n] by simp
  then show ?thesis using p n by (simp add: trim_def dropWhile_append2)
qed

lemma version_piece_number:
  "e = [] \<or> is_version_sep (hd e) \<Longrightarrow>
   version_piece (show_nat n @ e) = (show_nat n, case e of [] \<Rightarrow> None | _ # r \<Rightarrow> Some r)"
proof -
  assume e: "e = [] \<or> is_version_sep (hd e)"
  have "\<forall>c\<in>set (show_nat n). \<not> is_version_sep c" using digit_not_sep by auto
  then show ?thesis using e
    by (cases e) (simp_all add: version_piece_def takeWhile_append2 dropWhile_append2
        takeWhile_eq_all_conv [THEN iffD2] dropWhile_eq_Nil_conv [THEN iffD2])
qed

lemma ends_version_trim: "ends_version e \<Longrightarrow> trim_end e = [] \<or> is_version_sep (hd (trim_end e))"
proof -
  assume e: "ends_version e"
  show ?thesis
  proof (cases "trim_end e = []")
    case False
    then obtain c r where "e = c # r" by (cases e) (auto simp: trim_end_def)
    moreover have "hd (trim_end e) = hd e"
    proof -
      obtain s where "e = trim_end e @ s"
        unfolding trim_end_def by (metis rev_append rev_rev_ident takeWhile_dropWhile_id)
      then show ?thesis using False by (metis hd_append2)
    qed
    ultimately show ?thesis using e False by (simp add: ends_version_def)
  qed simp
qed

lemma parse_u32_number: "n \<le> u32_max \<Longrightarrow> parse_u32 (show_nat n) = Some (word_of_nat n)"
  by (simp add: parse_u32_def)

lemma unat_u32: "n \<le> u32_max \<Longrightarrow> unat (word_of_nat n :: 32 word) = n"
  by (simp add: u32_max_def unat_of_nat)

lemma version_key_shows:
  assumes "shows_version s major minor" "9 \<le> major" "major \<le> 42949671" "minor < 100"
  shows "version_key s = Some (word_of_nat (major * 100 + minor))"
proof -
  obtain pre t where s: "s = pre @ show_nat major @ t" "\<forall>c\<in>set pre. \<not> is_ascii_digit c"
    and t: "if major = 9 then \<exists>c rest. t = c # show_nat minor @ rest \<and> is_version_sep c \<and> ends_version rest
      else minor = 0 \<and> ends_version t"
    using assms(1) by (auto simp: shows_version_def)
  have le: "major \<le> u32_max" "minor \<le> u32_max" using assms by (simp_all add: u32_max_def)
  note digits = digits_of_text [OF s(2), of major t, folded s(1)]
  note word = parse_u32_number [OF le(1)] parse_u32_number [OF le(2)] unat_u32 [OF le(1)] unat_u32 [OF le(2)]
  show ?thesis
  proof (cases "major = 9")
    case True
    then obtain c e where e: "t = c # show_nat minor @ e" "is_version_sep c" "ends_version e" using t by auto
    have te: "trim_end t = c # show_nat minor @ trim_end e"
      using trim_end_append [of e "c # show_nat minor"] last_show_nat [of minor] by (simp add: e(1))
    have "version_piece (show_nat 9 @ trim_end t) = (show_nat 9, Some (show_nat minor @ trim_end e))"
      using e(2) by (simp add: version_piece_number te)
    moreover have "fst (version_piece (show_nat minor @ trim_end e)) = show_nat minor"
      using ends_version_trim [OF e(3)] by (simp add: version_piece_number)
    ultimately have "major_label s = Some (''9.'' @ show_nat minor)"
      using True digits word by (simp add: major_label_def)
    moreover have "split_on (CHR ''.'') (''9.'' @ show_nat minor) = [''9'', show_nat minor]"
      using split_on_append [of "CHR ''.''" "''9''" "show_nat minor"] by (simp add: split_on_no_sep)
    moreover have "parse_u32 ''9'' = Some 9" using parse_u32_number [of 9] by (simp add: show_nat_small u32_max_def)
    ultimately show ?thesis using True word by (simp add: version_key_def)
  next
    case False
    then have m0: "minor = 0" and e: "ends_version t" using t by auto
    have "fst (version_piece (show_nat major @ trim_end t)) = show_nat major"
      using ends_version_trim [OF e] by (simp add: version_piece_number)
    moreover have "\<not> word_of_nat major < (9 :: 32 word)" "word_of_nat major \<noteq> (9 :: 32 word)"
      using False assms(2) word(3) by (auto simp: word_less_nat_alt)
    ultimately have "major_label s = Some (show_nat major)"
      using digits word by (simp add: major_label_def case_prod_unfold Let_def)
    then show ?thesis using m0 word by (simp add: version_key_def split_on_no_sep)
  qed
qed

lemma key_order:
  fixes a b m n :: nat
  assumes "m < 100" "n < 100"
  shows "a * 100 + m < b * 100 + n \<longleftrightarrow> a < b \<or> a = b \<and> m < n"
    and "a * 100 + m = b * 100 + n \<longleftrightarrow> a = b \<and> m = n"
  using assms by (cases a b rule: linorder_cases; simp)+

section \<open>Properties\<close>

text \<open>A report survives the log it is printed into.  Whatever the container wrote before it,
  older reports included, and whatever it wrote after it that is no report, the control plane
  reads back the value the job printed, provided JSON decodes what it encodes and writes
  one line without outer white space.\<close>

theorem report_roundtrip:
  assumes "encode r = Inr json" "decode json = Inr r" "CHR 0x0A \<notin> set json" "trim json = json"
    and "print_report encode r = Inr out"
    and "pre = [] \<or> last pre = CHR 0x0A" "report_lines post = []"
  shows "parse_report decode (pre @ out @ post) = Inr r"
proof -
  have out: "out = report_marker @ json @ [CHR 0x0A]" using assms(1,5) by (simp add: print_report_def)
  obtain old where "report_lines (pre @ out @ post) = old @ report_lines (out @ post)"
    using report_lines_behind [OF assms(6)] by blast
  then have "rev (report_lines (pre @ out @ post)) = json # rev old"
    using report_lines_print [OF assms(3,4), of post] assms(7) by (simp add: out)
  then show ?thesis using assms(2,4) by (simp add: parse_report_def)
qed

text \<open>Versions are compared as numbers, in whatever wording they arrive: the keys of two
  texts that show the versions (a, m) and (b, n) exist and are ordered as the pairs are, so
  9.6 is below 10 and a minor release is no change.  The bounds are those of the key's
  32 bits and of its factor 100.\<close>

theorem version_keys_order:
  assumes "shows_version s a m" "9 \<le> a" "a \<le> 42949671" "m < 100"
    and "shows_version t b n" "9 \<le> b" "b \<le> 42949671" "n < 100"
  shows "\<exists>k l. version_key s = Some k \<and> version_key t = Some l \<and>
    (k < l \<longleftrightarrow> a < b \<or> a = b \<and> m < n) \<and> (k = l \<longleftrightarrow> a = b \<and> m = n)"
proof -
  have fits: "unat (word_of_nat (x * 100 + y) :: 32 word) = x * 100 + y"
    if "x \<le> 42949671" "y < 100" for x y :: nat
    using that by (intro unat_u32) (simp add: u32_max_def)
  have "a * 100 + m < b * 100 + n \<longleftrightarrow> a < b \<or> a = b \<and> m < n"
    "a * 100 + m = b * 100 + n \<longleftrightarrow> a = b \<and> m = n"
    using assms(4,8) by (rule key_order)+
  then have "word_of_nat (a * 100 + m) < (word_of_nat (b * 100 + n) :: 32 word) \<longleftrightarrow> a < b \<or> a = b \<and> m < n"
    "word_of_nat (a * 100 + m) = (word_of_nat (b * 100 + n) :: 32 word) \<longleftrightarrow> a = b \<and> m = n"
    unfolding word_less_nat_alt word_unat_eq_iff fits [OF assms(3,4)] fits [OF assms(7,8)] .
  with version_key_shows [OF assms(1-4)] version_key_shows [OF assms(5-8)] show ?thesis
    by (intro exI conjI)
qed

section \<open>Witnesses\<close>

theorem report_roundtrip_witness:
  "parse_report (\<lambda>s. if s = ''{1}'' then Inr (1 :: nat) else Inl ''no'')
     ((''old'' @ [CHR 0x0A]) @ (report_marker @ ''{1}'' @ [CHR 0x0A]) @ ''Upgrade Complete'') = Inr 1"
proof -
  let ?encode = "\<lambda>_ :: nat. Inr ''{1}'' :: string + string"
  have post: "report_lines ''Upgrade Complete'' = []"
    by (simp add: report_lines_def str_lines_def strip_prefix_def report_marker_def List.map_filter_simps std_simps)
  have trim: "trim ''{1}'' = ''{1}''" by code_simp
  then show ?thesis
    using report_roundtrip [of ?encode 1 "''{1}''" "\<lambda>s. if s = ''{1}'' then Inr 1 else Inl ''no''"
        "report_marker @ ''{1}'' @ [CHR 0x0A]" "''old'' @ [CHR 0x0A]" "''Upgrade Complete''", OF _ _ _ trim _ _ post]
    by (simp add: print_report_def)
qed

theorem version_keys_order_witness:
  "\<exists>k l. version_key ''9.6'' = Some k \<and> version_key ''PostgreSQL 18.6 (Debian)'' = Some l \<and> k < l"
proof -
  have nine: "shows_version ''9.6'' 9 6"
    unfolding shows_version_def
    by (intro exI [of _ "[]"] exI [of _ "''.6''"])
       (simp add: show_nat_small is_version_sep_def ends_version_def trim_end_def)
  have "show_nat 18 = ''18''" by code_simp
  then have "shows_version ''PostgreSQL 18.6 (Debian)'' 18 0"
    unfolding shows_version_def
    by (intro exI [of _ "''PostgreSQL ''"] exI [of _ "''.6 (Debian)''"])
       (simp add: is_version_sep_def ends_version_def char_class_defs)
  from version_keys_order [OF nine _ _ _ this] show ?thesis by auto
qed

end
