(* ===== verification/Containers.thy ===== *)
theory Containers
  imports Prelude
begin

text \<open>
  The containers pgpod creates: \<^verbatim>\<open>ContainerSpec\<close> with its builder methods and the
  hardened constructor, and the translation of a spec into the options libpod is
  asked for (\<^verbatim>\<open>pgpod-runtime/src/container.rs\<close>).  The options are the state of
  the client library's option builder; how that library prints them as JSON is a
  parameter, and the correction pgpod applies to the printed document is
  \<^term>\<open>patch_create_payload\<close>.
\<close>

section \<open>Specifications\<close>

datatype mount = Volume (mnt_name: string) (mnt_target: string) (mnt_chown: bool)
  | BindReadOnly (mnt_source: string) (mnt_target: string)
  | Tmpfs (mnt_target: string)

definition secrets_dir :: string where "secrets_dir = ''/run/secrets''"

record port_publish =
  pub_host_ip :: "string option"
  pub_host_port :: "16 word"
  pub_container_port :: "16 word"

definition loopback :: "16 word \<Rightarrow> 16 word \<Rightarrow> port_publish" where
  "loopback h c = \<lparr> pub_host_ip = Some ''127.0.0.1'', pub_host_port = h, pub_container_port = c \<rparr>"

record secret_mount =
  sm_name :: string
  sm_target :: string
  sm_mode :: "32 word"
  sm_uid :: "32 word"
  sm_gid :: "32 word"

datatype restart_policy = RestartNo | RestartOnFailure | RestartAlways

record container_spec =
  cs_name :: "string option"
  cs_image :: string
  cs_command :: "string list"
  cs_entrypoint :: "string list"
  cs_env :: "(string \<times> string) list"
  cs_mounts :: "mount list"
  cs_labels :: "(string \<times> string) list"
  cs_user :: "string option"
  cs_working_dir :: "string option"
  cs_auto_remove :: bool
  cs_networks :: "string list"
  cs_port_publishes :: "port_publish list"
  cs_secrets :: "secret_mount list"
  cs_cap_drop :: "string list"
  cs_no_new_privileges :: bool
  cs_log_driver :: "string option"
  cs_read_only_fs :: bool
  cs_restart_policy :: restart_policy
  cs_hostname :: "string option"

definition plain_spec :: "string \<Rightarrow> container_spec" where
  "plain_spec img = \<lparr> cs_name = None, cs_image = img, cs_command = [], cs_entrypoint = [],
     cs_env = [], cs_mounts = [], cs_labels = [], cs_user = None, cs_working_dir = None,
     cs_auto_remove = False, cs_networks = [], cs_port_publishes = [], cs_secrets = [],
     cs_cap_drop = [], cs_no_new_privileges = False, cs_log_driver = None,
     cs_read_only_fs = False, cs_restart_policy = RestartNo, cs_hostname = None \<rparr>"

definition hardened :: "string \<Rightarrow> container_spec" where
  "hardened img = (plain_spec img)\<lparr> cs_cap_drop := [''ALL''], cs_no_new_privileges := True,
     cs_read_only_fs := True, cs_restart_policy := RestartNo,
     cs_mounts := [Tmpfs ''/tmp'', Tmpfs secrets_dir] \<rparr>"

definition with_entrypoint :: "string list \<Rightarrow> container_spec \<Rightarrow> container_spec" where
  "with_entrypoint argv s = s\<lparr> cs_entrypoint := argv \<rparr>"
definition with_network :: "string \<Rightarrow> container_spec \<Rightarrow> container_spec" where
  "with_network n s = s\<lparr> cs_networks := cs_networks s @ [n] \<rparr>"
definition with_publish :: "port_publish \<Rightarrow> container_spec \<Rightarrow> container_spec" where
  "with_publish p s = s\<lparr> cs_port_publishes := cs_port_publishes s @ [p] \<rparr>"
definition with_log_driver :: "string \<Rightarrow> container_spec \<Rightarrow> container_spec" where
  "with_log_driver d s = s\<lparr> cs_log_driver := Some d \<rparr>"
definition with_secret :: "secret_mount \<Rightarrow> container_spec \<Rightarrow> container_spec" where
  "with_secret m s = s\<lparr> cs_secrets := cs_secrets s @ [m] \<rparr>"
definition with_hostname :: "string \<Rightarrow> container_spec \<Rightarrow> container_spec" where
  "with_hostname n s = s\<lparr> cs_hostname := Some n \<rparr>"
definition with_env :: "string \<Rightarrow> string \<Rightarrow> container_spec \<Rightarrow> container_spec" where
  "with_env k v s = s\<lparr> cs_env := cs_env s @ [(k, v)] \<rparr>"
definition with_name :: "string \<Rightarrow> container_spec \<Rightarrow> container_spec" where
  "with_name n s = s\<lparr> cs_name := Some n \<rparr>"
definition with_command :: "string list \<Rightarrow> container_spec \<Rightarrow> container_spec" where
  "with_command c s = s\<lparr> cs_command := c \<rparr>"
definition with_mount :: "mount \<Rightarrow> container_spec \<Rightarrow> container_spec" where
  "with_mount m s = s\<lparr> cs_mounts := cs_mounts s @ [m] \<rparr>"
definition with_user :: "string \<Rightarrow> container_spec \<Rightarrow> container_spec" where
  "with_user u s = s\<lparr> cs_user := Some u \<rparr>"
definition with_label :: "string \<times> string \<Rightarrow> container_spec \<Rightarrow> container_spec" where
  "with_label kv s = s\<lparr> cs_labels := cs_labels s @ [kv] \<rparr>"

lemmas builder_defs = with_entrypoint_def with_network_def with_publish_def with_log_driver_def
  with_secret_def with_hostname_def with_env_def with_name_def with_command_def with_mount_def
  with_user_def with_label_def

section \<open>The options libpod is asked for\<close>

record named_volume =
  nv_dest :: "string option"
  nv_name :: "string option"
  nv_options :: "string list option"
  nv_is_anonymous :: "bool option"

record container_mount =
  cm_destination :: "string option"
  cm_source :: "string option"
  cm_type :: "string option"
  cm_options :: "string list option"

record port_mapping =
  pm_container_port :: "16 word option"
  pm_host_ip :: "string option"
  pm_host_port :: "16 word option"
  pm_protocol :: "string option"

text \<open>What the option builder has been told: a field that was never set is absent.\<close>

record create_opts =
  co_image :: string
  co_name :: "string option"
  co_command :: "string list option"
  co_entrypoint :: "string list option"
  co_env :: "(string \<rightharpoonup> string) option"
  co_labels :: "(string \<rightharpoonup> string) option"
  co_user :: "string option"
  co_work_dir :: "string option"
  co_remove :: "bool option"
  co_hostname :: "string option"
  co_drop_capabilities :: "string list option"
  co_no_new_privilages :: "bool option"
  co_read_only_fs :: "bool option"
  co_restart_policy :: restart_policy
  co_networks :: "string set option"
  co_net_namespace :: "string option"
  co_portmappings :: "port_mapping list option"
  co_secrets :: "secret_mount list option"
  co_volumes :: "named_volume list option"
  co_mounts :: "container_mount list option"

definition nonempty :: "'a list \<Rightarrow> 'a list option" where
  "nonempty xs = (if xs = [] then None else Some xs)"

text \<open>Collecting pairs into a \<^verbatim>\<open>HashMap\<close>: the last value of a key stays.\<close>

definition collect_map :: "('k \<times> 'v) list \<Rightarrow> 'k \<rightharpoonup> 'v" where
  "collect_map kvs = map_of (rev kvs)"

definition set_true :: "bool \<Rightarrow> bool option" where
  "set_true b = (if b then Some True else None)"

definition tmpfs_options :: "string list" where
  "tmpfs_options = [''rw'', ''nosuid'', ''nodev'', ''mode=1777'']"

fun volume_of :: "mount \<Rightarrow> named_volume list" where
  "volume_of (Volume n t ch) = [\<lparr> nv_dest = Some t, nv_name = Some n,
     nv_options = (if ch then Some [''U''] else None), nv_is_anonymous = Some False \<rparr>]"
| "volume_of _ = []"

fun oci_mount_of :: "mount \<Rightarrow> container_mount list" where
  "oci_mount_of (Volume n t ch) = []"
| "oci_mount_of (BindReadOnly s t) = [\<lparr> cm_destination = Some t, cm_source = Some s,
     cm_type = Some ''bind'', cm_options = Some [''ro''] \<rparr>]"
| "oci_mount_of (Tmpfs t) = [\<lparr> cm_destination = Some t, cm_source = None,
     cm_type = Some ''tmpfs'', cm_options = Some tmpfs_options \<rparr>]"

definition port_mapping_of :: "port_publish \<Rightarrow> port_mapping" where
  "port_mapping_of p = \<lparr> pm_container_port = Some (pub_container_port p), pm_host_ip = pub_host_ip p,
     pm_host_port = Some (pub_host_port p), pm_protocol = Some ''tcp'' \<rparr>"

definition build_opts :: "container_spec \<Rightarrow> create_opts" where
  "build_opts s = \<lparr> co_image = cs_image s, co_name = cs_name s,
     co_command = nonempty (cs_command s), co_entrypoint = nonempty (cs_entrypoint s),
     co_env = map_option collect_map (nonempty (cs_env s)),
     co_labels = map_option collect_map (nonempty (cs_labels s)),
     co_user = cs_user s, co_work_dir = cs_working_dir s, co_remove = set_true (cs_auto_remove s),
     co_hostname = cs_hostname s, co_drop_capabilities = nonempty (cs_cap_drop s),
     co_no_new_privilages = set_true (cs_no_new_privileges s),
     co_read_only_fs = set_true (cs_read_only_fs s),
     co_restart_policy = cs_restart_policy s,
     co_networks = map_option set (nonempty (cs_networks s)),
     co_net_namespace = map_option (\<lambda>_. ''bridge'') (nonempty (cs_networks s)),
     co_portmappings = map_option (map port_mapping_of) (nonempty (cs_port_publishes s)),
     co_secrets = nonempty (cs_secrets s),
     co_volumes = nonempty (concat (map volume_of (cs_mounts s))),
     co_mounts = nonempty (concat (map oci_mount_of (cs_mounts s))) \<rparr>"

text \<open>A JSON document, an object as its fields sorted by no particular order; keys are
  distinct in a document that was parsed.\<close>

datatype json = JNull | JBool bool | JNum int | JStr string | JArr "json list"
  | JObj "(string \<times> json) list"

fun json_remove :: "string \<Rightarrow> (string \<times> json) list \<Rightarrow> (string \<times> json) list" where
  "json_remove k [] = []"
| "json_remove k ((k', v) # fs) = (if k = k' then json_remove k fs else (k', v) # json_remove k fs)"

definition json_insert :: "string \<Rightarrow> json \<Rightarrow> (string \<times> json) list \<Rightarrow> (string \<times> json) list" where
  "json_insert k v fs = (k, v) # json_remove k fs"

fun json_get :: "string \<Rightarrow> json \<Rightarrow> json option" where
  "json_get k (JObj fs) = map_of fs k"
| "json_get k _ = None"

definition patch_fields :: "bool \<Rightarrow> string option \<Rightarrow> (string \<times> json) list \<Rightarrow> (string \<times> json) list" where
  "patch_fields nnp driver fs =
     (let fs = (if nnp then json_insert ''no_new_privileges'' (JBool True)
                  (json_remove ''no_new_privilages'' fs) else fs) in
      case driver of None \<Rightarrow> fs
      | Some d \<Rightarrow> json_insert ''log_configuration'' (JObj [(''driver'', JStr d)]) fs)"

fun patch_create_payload :: "json \<Rightarrow> bool \<Rightarrow> string option \<Rightarrow> string + json" where
  "patch_create_payload (JObj fs) nnp driver = Inr (JObj (patch_fields nnp driver fs))"
| "patch_create_payload _ _ _ = Inl ''create payload is not an object''"

section \<open>Lemmas\<close>

lemma map_of_json_remove [simp]: "map_of (json_remove k fs) k' = (if k = k' then None else map_of fs k')"
  by (induction fs) auto

lemma map_of_json_insert [simp]:
  "map_of (json_insert k v fs) k' = (if k = k' then Some v else map_of fs k')"
  by (simp add: json_insert_def)

lemma nonempty_Some [simp]: "nonempty xs = Some ys \<longleftrightarrow> xs = ys \<and> xs \<noteq> []"
  by (auto simp: nonempty_def)

lemma tmpfs_mounts:
  assumes "co_mounts (build_opts s) = Some ms" "m \<in> set ms" "cm_type m = Some ''tmpfs''"
  shows "cm_options m = Some tmpfs_options"
proof -
  from assms(1,2) obtain x where "x \<in> set (cs_mounts s)" "m \<in> set (oci_mount_of x)"
    by (auto simp: build_opts_def)
  then show ?thesis using assms(3) by (cases x rule: mount.exhaust) auto
qed

lemma bind_mounts_read_only:
  assumes "co_mounts (build_opts s) = Some ms" "m \<in> set ms" "cm_source m \<noteq> None"
  shows "cm_options m = Some [''ro'']"
proof -
  from assms(1,2) obtain x where "x \<in> set (cs_mounts s)" "m \<in> set (oci_mount_of x)"
    by (auto simp: build_opts_def)
  then show ?thesis using assms(3) by (cases x rule: mount.exhaust) auto
qed

lemma volumes_named:
  assumes "co_volumes (build_opts s) = Some vs" "v \<in> set vs"
  shows "nv_is_anonymous v = Some False \<and> (\<exists>n t c. Volume n t c \<in> set (cs_mounts s) \<and>
    nv_name v = Some n \<and> nv_dest v = Some t)"
proof -
  from assms(1,2) obtain x where "x \<in> set (cs_mounts s)" "v \<in> set (volume_of x)"
    by (auto simp: build_opts_def)
  then show ?thesis by (cases x rule: mount.exhaust) auto
qed

section \<open>Properties\<close>

text \<open>The correction of the payload lands and disturbs nothing else.  With the
  flag asked for, the document that is posted sets the key libpod reads and no
  longer carries the misspelled one, a log driver is there exactly when one is
  asked for or the client library wrote one, and every other key keeps its value.\<close>

theorem payload_patch_lands:
  shows "\<exists>j. patch_create_payload (JObj fs) nnp driver = Inr j \<and>
    (nnp \<longrightarrow> json_get ''no_new_privileges'' j = Some (JBool True) \<and>
       json_get ''no_new_privilages'' j = None) \<and>
    (case driver of Some d \<Rightarrow> json_get ''log_configuration'' j = Some (JObj [(''driver'', JStr d)])
     | None \<Rightarrow> json_get ''log_configuration'' j = json_get ''log_configuration'' (JObj fs)) \<and>
    (\<forall>k. k \<notin> {''no_new_privileges'', ''no_new_privilages'', ''log_configuration''} \<longrightarrow>
       json_get k j = json_get k (JObj fs))"
  by (cases nnp; cases driver) (simp_all add: patch_fields_def)

theorem payload_patch_lands_witness:
  shows "(\<exists>j. patch_create_payload (JObj [(''image'', JStr ''postgres:18''),
      (''no_new_privilages'', JBool True)]) True None = Inr j \<and>
    json_get ''no_new_privileges'' j = Some (JBool True) \<and> json_get ''no_new_privilages'' j = None \<and>
    json_get ''image'' j = Some (JStr ''postgres:18''))"
  using payload_patch_lands [of "[(''image'', JStr ''postgres:18''),
    (''no_new_privilages'', JBool True)]" True None] by fastforce

end
