(* ===== verification/Registry.thy ===== *)
theory Registry
  imports Lifecycle Ids "HOL-Library.Product_Lexorder"
begin

text \<open>
  \<^verbatim>\<open>pgpod-registry/src/lib.rs\<close> and its migrations: the SQLite store.  A table is
  the list of its rows in the order of the primary key, which is the order
  every query of the code asks for.  The schema's constraints (primary keys,
  ON DELETE CASCADE, ON DELETE RESTRICT) are part of the operations, as
  SQLite applies them; a failing statement inside the transaction leaves the
  store as it was.  Manifests are stored encoded; their codec is a parameter.
\<close>

section \<open>Tables\<close>

type_synonym ('k, 'r) table = "('k \<times> 'r) list"

fun tbl_put :: "'k::linorder \<Rightarrow> 'r \<Rightarrow> ('k, 'r) table \<Rightarrow> ('k, 'r) table" where
  "tbl_put k r [] = [(k, r)]"
| "tbl_put k r ((k', r') # t) =
     (if k < k' then (k, r) # (k', r') # t
      else if k = k' then (k, r) # t
      else (k', r') # tbl_put k r t)"

definition tbl_get :: "('k, 'r) table \<Rightarrow> 'k \<Rightarrow> 'r option" where
  "tbl_get t k = map_of t k"

definition tbl_del :: "('k \<Rightarrow> bool) \<Rightarrow> ('k, 'r) table \<Rightarrow> ('k, 'r) table" where
  "tbl_del P t = filter (\<lambda>(k, r). \<not> P k) t"

definition tbl_ok :: "('k::linorder, 'r) table \<Rightarrow> bool" where
  "tbl_ok t \<longleftrightarrow> sorted_wrt (<) (map fst t)"

text \<open>The contract the operations of the registry rely on: a table is a map that can
  be overwritten at a key and cleared of a set of keys.\<close>

locale keyed_store =
  fixes get :: "'t \<Rightarrow> 'k \<Rightarrow> 'r option" and put :: "'k \<Rightarrow> 'r \<Rightarrow> 't \<Rightarrow> 't"
    and del :: "('k \<Rightarrow> bool) \<Rightarrow> 't \<Rightarrow> 't" and ok :: "'t \<Rightarrow> bool"
  assumes get_put: "ok t \<Longrightarrow> get (put k r t) k' = (if k' = k then Some r else get t k')"
    and get_del: "ok t \<Longrightarrow> get (del P t) k = (if P k then None else get t k)"
    and ok_put: "ok t \<Longrightarrow> ok (put k r t)"
    and ok_del: "ok t \<Longrightarrow> ok (del P t)"
begin

definition keys :: "'t \<Rightarrow> 'k set" where
  "keys t = {k. get t k \<noteq> None}"

lemma keys_put: "ok t \<Longrightarrow> keys (put k r t) = insert k (keys t)"
  by (auto simp: keys_def get_put)

lemma keys_del: "ok t \<Longrightarrow> keys (del P t) = keys t - {k. P k}"
  by (auto simp: keys_def get_del)

lemma put_other: "ok t \<Longrightarrow> k' \<noteq> k \<Longrightarrow> get (put k r t) k' = get t k'"
  by (simp add: get_put)

lemma put_invariant:
  "ok t \<Longrightarrow> (\<And>k' r'. get t k' = Some r' \<Longrightarrow> Q k' r') \<Longrightarrow> Q k r \<Longrightarrow>
   get (put k r t) k' = Some r' \<Longrightarrow> Q k' r'"
  by (auto simp: get_put split: if_splits)

lemma del_invariant:
  "ok t \<Longrightarrow> (\<And>k' r'. get t k' = Some r' \<Longrightarrow> \<not> P k' \<Longrightarrow> Q k' r') \<Longrightarrow>
   get (del P t) k' = Some r' \<Longrightarrow> Q k' r'"
  by (auto simp: get_del split: if_splits)

end

lemma tbl_put_keys: "fst ` set (tbl_put k r t) = insert k (fst ` set t)"
  by (induction k r t rule: tbl_put.induct) auto

lemma tbl_ok_put: "tbl_ok t \<Longrightarrow> tbl_ok (tbl_put k r t)"
proof (induction k r t rule: tbl_put.induct)
  case (2 k r k' r' t)
  then show ?case using tbl_put_keys [of k r t] by (force simp: tbl_ok_def)
qed (simp add: tbl_ok_def)

lemma map_of_above: "\<forall>x\<in>fst ` set t. (k::'k::linorder) < x \<Longrightarrow> map_of t k = None"
  by (force simp: map_of_eq_None_iff)

lemma tbl_get_put: "tbl_ok t \<Longrightarrow> tbl_get (tbl_put k r t) k' = (if k' = k then Some r else tbl_get t k')"
proof (induction k r t rule: tbl_put.induct)
  case (2 k r k'' r'' t)
  then show ?case
    by (auto simp: tbl_get_def tbl_ok_def map_of_above)
qed (simp add: tbl_get_def)

lemma tbl_ok_del: "tbl_ok t \<Longrightarrow> tbl_ok (tbl_del P t)"
  by (induction t) (auto simp: tbl_ok_def tbl_del_def)

lemma tbl_get_del: "tbl_get (tbl_del P t) k = (if P k then None else tbl_get t k)"
  by (induction t) (auto simp: tbl_get_def tbl_del_def)

interpretation tbl: keyed_store tbl_get tbl_put tbl_del "tbl_ok :: ('k::linorder, 'r) table \<Rightarrow> bool"
  by unfold_locales (simp_all add: tbl_get_put tbl_get_del tbl_ok_put tbl_ok_del)

lemma tbl_mem: "tbl_ok t \<Longrightarrow> (k, r) \<in> set t \<longleftrightarrow> tbl_get t k = Some r"
proof -
  assume "tbl_ok t"
  then have "distinct (map fst t)"
    by (simp add: tbl_ok_def strict_sorted_iff)
  then show ?thesis by (simp add: tbl_get_def)
qed

lemma tbl_ok_Nil [simp]: "tbl_ok []" by (simp add: tbl_ok_def)

lemma tbl_get_Nil [simp]: "tbl_get [] k = None" by (simp add: tbl_get_def)

section \<open>Rows and records\<close>

record cluster_row =
  cr_manifest :: string
  cr_generation :: int
  cr_phase :: string
  cr_created_at_ms :: int
  cr_updated_at_ms :: int

record instance_row =
  ir_container_name :: string
  ir_container_id :: "string option"
  ir_volume_name :: string
  ir_host_port :: "16 word"
  ir_phase :: string
  ir_role :: string
  ir_timeline :: "int option"
  ir_last_probe_at_ms :: "int option"
  ir_created_at_ms :: int

record pooler_row =
  pw_manifest :: string
  pw_generation :: int
  pw_container_name :: string
  pw_container_id :: "string option"
  pw_host_port :: "16 word"
  pw_phase :: string
  pw_created_at_ms :: int
  pw_updated_at_ms :: int

record pooler_pool =
  pp_cluster :: string
  pp_database :: string
  pp_pool_name :: string

record event =
  ev_cluster :: string
  ev_ordinal :: "32 word option"
  ev_at_ms :: int
  ev_level :: string
  ev_message :: string

record registry =
  db_clusters :: "(string, cluster_row) table"
  db_instances :: "(string \<times> 32 word, instance_row) table"
  db_poolers :: "(string, pooler_row) table"
  db_pooler_clusters :: "(string \<times> string, string \<times> string) table"
  db_events :: "event list"

record 'm cluster_record =
  cl_name :: string
  cl_manifest :: 'm
  cl_generation :: int
  cl_phase :: string
  cl_created_at_ms :: int
  cl_updated_at_ms :: int

record instance_record =
  in_cluster :: string
  in_ordinal :: "32 word"
  in_container_name :: string
  in_container_id :: "string option"
  in_volume_name :: string
  in_host_port :: "16 word"
  in_phase :: instance_phase
  in_role :: instance_role
  in_timeline :: "int option"
  in_last_probe_at_ms :: "int option"

record 'p pooler_record =
  po_name :: string
  po_manifest :: 'p
  po_generation :: int
  po_container_name :: string
  po_container_id :: "string option"
  po_host_port :: "16 word"
  po_phase :: string
  po_pools :: "pooler_pool list"

datatype registry_error = ForeignKeyFailed | UniqueFailed | UnknownCluster string
  | UnknownPooler string | PoolerInUse string string | Corrupt string

text \<open>The JSON codec of a manifest, and the name its metadata carries.\<close>

record 'm manifest_codec =
  mc_name :: "'m \<Rightarrow> string"
  mc_encode :: "'m \<Rightarrow> string + string"
  mc_decode :: "string \<Rightarrow> string + 'm"

definition empty_registry :: registry where
  "empty_registry = \<lparr> db_clusters = [], db_instances = [], db_poolers = [],
     db_pooler_clusters = [], db_events = [] \<rparr>"

section \<open>Clusters\<close>

definition next_generation :: "string \<Rightarrow> string \<Rightarrow> int \<Rightarrow> int" where
  "next_generation stored encoded prev = (if stored = encoded then prev else prev + 1)"

definition put_cluster :: "'m manifest_codec \<Rightarrow> int \<Rightarrow> 'm \<Rightarrow> string \<Rightarrow> registry \<Rightarrow>
    registry_error + registry \<times> int" where
  "put_cluster mc now m phase db =
     (let name = mc_name mc m in
      and_then (map_err Corrupt (mc_encode mc m)) (\<lambda>encoded.
      case tbl_get (db_clusters db) name of
        None \<Rightarrow> Inr (db\<lparr> db_clusters := tbl_put name \<lparr> cr_manifest = encoded, cr_generation = 1,
           cr_phase = phase, cr_created_at_ms = now, cr_updated_at_ms = now \<rparr> (db_clusters db) \<rparr>, 1)
      | Some row \<Rightarrow>
          (let g = next_generation (cr_manifest row) encoded (cr_generation row) in
           Inr (db\<lparr> db_clusters := tbl_put name (row\<lparr> cr_manifest := encoded, cr_generation := g,
             cr_phase := phase, cr_updated_at_ms := now \<rparr>) (db_clusters db) \<rparr>, g))))"

definition get_cluster :: "'m manifest_codec \<Rightarrow> registry \<Rightarrow> cluster_id \<Rightarrow>
    registry_error + 'm cluster_record option" where
  "get_cluster mc db c =
     (case tbl_get (db_clusters db) (cluster_str c) of
        None \<Rightarrow> Inr None
      | Some row \<Rightarrow> and_then (map_err Corrupt (mc_decode mc (cr_manifest row))) (\<lambda>m.
          Inr (Some \<lparr> cl_name = cluster_str c, cl_manifest = m, cl_generation = cr_generation row,
            cl_phase = cr_phase row, cl_created_at_ms = cr_created_at_ms row,
            cl_updated_at_ms = cr_updated_at_ms row \<rparr>)))"

definition require_cluster :: "'m manifest_codec \<Rightarrow> registry \<Rightarrow> cluster_id \<Rightarrow>
    registry_error + 'm cluster_record" where
  "require_cluster mc db c =
     and_then (get_cluster mc db c) (\<lambda>r. ok_or (UnknownCluster (cluster_str c)) r)"

definition list_clusters :: "'m manifest_codec \<Rightarrow> registry \<Rightarrow>
    registry_error + 'm cluster_record list" where
  "list_clusters mc db =
     try_map (\<lambda>n. and_then (map_err (\<lambda>_. Corrupt n) (cluster_id_new n)) (\<lambda>c.
       require_cluster mc db c)) (map fst (db_clusters db))"

definition set_cluster_phase :: "int \<Rightarrow> cluster_id \<Rightarrow> string \<Rightarrow> registry \<Rightarrow> registry" where
  "set_cluster_phase now c phase db =
     (case tbl_get (db_clusters db) (cluster_str c) of
        None \<Rightarrow> db
      | Some row \<Rightarrow> db\<lparr> db_clusters := tbl_put (cluster_str c)
          (row\<lparr> cr_phase := phase, cr_updated_at_ms := now \<rparr>) (db_clusters db) \<rparr>)"

text \<open>Deleting the row of a cluster takes its instances with it (ON DELETE CASCADE).
  The rows of \<^verbatim>\<open>pooler_clusters\<close> restrict the deletion, and the explicit check
  names the pooler before SQLite would refuse.\<close>

definition delete_cluster :: "cluster_id \<Rightarrow> registry \<Rightarrow> registry_error + registry" where
  "delete_cluster c db =
     (case find (\<lambda>(k, r). fst r = cluster_str c) (db_pooler_clusters db) of
        Some (k, r) \<Rightarrow> Inl (PoolerInUse (cluster_str c) (fst k))
      | None \<Rightarrow> Inr (db\<lparr>
          db_clusters := tbl_del (\<lambda>k. k = cluster_str c) (db_clusters db),
          db_instances := tbl_del (\<lambda>k. fst k = cluster_str c) (db_instances db) \<rparr>))"

section \<open>Instances\<close>

definition row_of_instance :: "int \<Rightarrow> instance_record \<Rightarrow> instance_row" where
  "row_of_instance created r = \<lparr>
     ir_container_name = in_container_name r, ir_container_id = in_container_id r,
     ir_volume_name = in_volume_name r, ir_host_port = in_host_port r,
     ir_phase = instance_phase_as_str (in_phase r), ir_role = instance_role_as_str (in_role r),
     ir_timeline = in_timeline r, ir_last_probe_at_ms = in_last_probe_at_ms r,
     ir_created_at_ms = created \<rparr>"

definition instance_of_row :: "string \<times> 32 word \<Rightarrow> instance_row \<Rightarrow>
    registry_error + instance_record" where
  "instance_of_row k row =
     and_then (map_err (\<lambda>_. Corrupt (ir_phase row)) (instance_phase_from_str (ir_phase row))) (\<lambda>ph.
     and_then (map_err (\<lambda>_. Corrupt (ir_role row)) (instance_role_from_str (ir_role row))) (\<lambda>ro.
     Inr \<lparr> in_cluster = fst k, in_ordinal = snd k,
       in_container_name = ir_container_name row, in_container_id = ir_container_id row,
       in_volume_name = ir_volume_name row, in_host_port = ir_host_port row,
       in_phase = ph, in_role = ro,
       in_timeline = ir_timeline row, in_last_probe_at_ms = ir_last_probe_at_ms row \<rparr>))"

definition put_instance :: "int \<Rightarrow> instance_record \<Rightarrow> registry \<Rightarrow> registry_error + registry" where
  "put_instance now r db =
     (if tbl_get (db_clusters db) (in_cluster r) = None then Inl ForeignKeyFailed
      else (let k = (in_cluster r, in_ordinal r);
                created = (case tbl_get (db_instances db) k of
                   Some row \<Rightarrow> ir_created_at_ms row | None \<Rightarrow> now) in
        Inr (db\<lparr> db_instances := tbl_put k (row_of_instance created r) (db_instances db) \<rparr>)))"

definition instances :: "registry \<Rightarrow> cluster_id \<Rightarrow> registry_error + instance_record list" where
  "instances db c =
     try_map (\<lambda>(k, row). instance_of_row k row)
       (filter (\<lambda>(k, row). fst k = cluster_str c) (db_instances db))"

definition get_instance :: "registry \<Rightarrow> cluster_id \<Rightarrow> 32 word \<Rightarrow>
    registry_error + instance_record option" where
  "get_instance db c n =
     and_then (instances db c) (\<lambda>rs. Inr (find (\<lambda>r. in_ordinal r = n) rs))"

section \<open>Poolers\<close>

fun insert_pools :: "registry \<Rightarrow> string \<Rightarrow> pooler_pool list \<Rightarrow>
    (string \<times> string, string \<times> string) table \<Rightarrow>
    registry_error + (string \<times> string, string \<times> string) table" where
  "insert_pools db name [] t = Inr t"
| "insert_pools db name (p # ps) t =
     (if tbl_get t (name, pp_pool_name p) \<noteq> None then Inl UniqueFailed
      else if tbl_get (db_clusters db) (pp_cluster p) = None then Inl ForeignKeyFailed
      else insert_pools db name ps
             (tbl_put (name, pp_pool_name p) (pp_cluster p, pp_database p) t))"

text \<open>One transaction: when an insert fails, nothing of it stays.\<close>

definition put_pooler :: "'p manifest_codec \<Rightarrow> int \<Rightarrow> 'p \<Rightarrow> string \<Rightarrow> string option \<Rightarrow> 16 word \<Rightarrow>
    string \<Rightarrow> pooler_pool list \<Rightarrow> registry \<Rightarrow> registry_error + registry \<times> int" where
  "put_pooler mc now m cname cid port phase pools db =
     (let name = mc_name mc m in
      and_then (map_err Corrupt (mc_encode mc m)) (\<lambda>encoded.
      (let (row, g) = (case tbl_get (db_poolers db) name of
          None \<Rightarrow> (\<lparr> pw_manifest = encoded, pw_generation = 1, pw_container_name = cname,
             pw_container_id = cid, pw_host_port = port, pw_phase = phase,
             pw_created_at_ms = now, pw_updated_at_ms = now \<rparr>, 1)
        | Some old \<Rightarrow> (let g = next_generation (pw_manifest old) encoded (pw_generation old) in
            (old\<lparr> pw_manifest := encoded, pw_generation := g, pw_container_name := cname,
               pw_container_id := cid, pw_host_port := port, pw_phase := phase,
               pw_updated_at_ms := now \<rparr>, g))) in
       and_then (insert_pools db name pools (tbl_del (\<lambda>k. fst k = name) (db_pooler_clusters db))) (\<lambda>t.
         Inr (db\<lparr> db_poolers := tbl_put name row (db_poolers db), db_pooler_clusters := t \<rparr>, g)))))"

definition pools_of :: "registry \<Rightarrow> string \<Rightarrow> pooler_pool list" where
  "pools_of db pooler =
     map (\<lambda>(k, r). \<lparr> pp_cluster = fst r, pp_database = snd r, pp_pool_name = snd k \<rparr>)
       (filter (\<lambda>(k, r). fst k = pooler) (db_pooler_clusters db))"

definition get_pooler :: "'p manifest_codec \<Rightarrow> registry \<Rightarrow> pooler_id \<Rightarrow>
    registry_error + 'p pooler_record option" where
  "get_pooler mc db p =
     (case tbl_get (db_poolers db) (pooler_str p) of
        None \<Rightarrow> Inr None
      | Some row \<Rightarrow> and_then (map_err Corrupt (mc_decode mc (pw_manifest row))) (\<lambda>m.
          Inr (Some \<lparr> po_name = pooler_str p, po_manifest = m, po_generation = pw_generation row,
            po_container_name = pw_container_name row, po_container_id = pw_container_id row,
            po_host_port = pw_host_port row, po_phase = pw_phase row,
            po_pools = pools_of db (pooler_str p) \<rparr>)))"

definition require_pooler :: "'p manifest_codec \<Rightarrow> registry \<Rightarrow> pooler_id \<Rightarrow>
    registry_error + 'p pooler_record" where
  "require_pooler mc db p =
     and_then (get_pooler mc db p) (\<lambda>r. ok_or (UnknownPooler (pooler_str p)) r)"

definition require_named :: "'p manifest_codec \<Rightarrow> registry \<Rightarrow> string \<Rightarrow>
    registry_error + 'p pooler_record" where
  "require_named mc db n =
     and_then (map_err (\<lambda>_. Corrupt n) (pooler_id_new n)) (\<lambda>p. require_pooler mc db p)"

definition list_poolers :: "'p manifest_codec \<Rightarrow> registry \<Rightarrow>
    registry_error + 'p pooler_record list" where
  "list_poolers mc db = try_map (require_named mc db) (map fst (db_poolers db))"

text \<open>SELECT DISTINCT pooler ... ORDER BY pooler.\<close>

definition pooler_names_for_cluster :: "registry \<Rightarrow> cluster_id \<Rightarrow> string list" where
  "pooler_names_for_cluster db c =
     remdups_adj (map (\<lambda>(k, r). fst k)
       (filter (\<lambda>(k, r). fst r = cluster_str c) (db_pooler_clusters db)))"

definition poolers_for_cluster :: "'p manifest_codec \<Rightarrow> registry \<Rightarrow> cluster_id \<Rightarrow>
    registry_error + 'p pooler_record list" where
  "poolers_for_cluster mc db c = try_map (require_named mc db) (pooler_names_for_cluster db c)"

definition set_pooler_phase :: "int \<Rightarrow> pooler_id \<Rightarrow> string \<Rightarrow> registry \<Rightarrow> registry" where
  "set_pooler_phase now p phase db =
     (case tbl_get (db_poolers db) (pooler_str p) of
        None \<Rightarrow> db
      | Some row \<Rightarrow> db\<lparr> db_poolers := tbl_put (pooler_str p)
          (row\<lparr> pw_phase := phase, pw_updated_at_ms := now \<rparr>) (db_poolers db) \<rparr>)"

definition delete_pooler :: "pooler_id \<Rightarrow> registry \<Rightarrow> registry" where
  "delete_pooler p db = db\<lparr>
     db_poolers := tbl_del (\<lambda>k. k = pooler_str p) (db_poolers db),
     db_pooler_clusters := tbl_del (\<lambda>k. fst k = pooler_str p) (db_pooler_clusters db) \<rparr>"

section \<open>Events\<close>

definition record_event :: "int \<Rightarrow> string \<Rightarrow> 32 word option \<Rightarrow> string \<Rightarrow> string \<Rightarrow>
    registry \<Rightarrow> registry" where
  "record_event now cluster ordinal level message db = db\<lparr> db_events := db_events db @
     [\<lparr> ev_cluster = cluster, ev_ordinal = ordinal, ev_at_ms = now, ev_level = level,
        ev_message = message \<rparr>] \<rparr>"

text \<open>ORDER BY at_ms DESC, id DESC LIMIT: the newest first, insertion order breaking
  ties the same way.\<close>

definition recent_events :: "registry \<Rightarrow> cluster_id \<Rightarrow> 32 word \<Rightarrow> event list" where
  "recent_events db c limit =
     take (unat limit) (sort_key (\<lambda>e. - ev_at_ms e)
       (rev (filter (\<lambda>e. ev_cluster e = cluster_str c) (db_events db))))"

section \<open>Integrity\<close>

definition row_readable :: "instance_row \<Rightarrow> bool" where
  "row_readable row \<longleftrightarrow> (\<exists>p. instance_phase_from_str (ir_phase row) = Inr p) \<and>
     (\<exists>r. instance_role_from_str (ir_role row) = Inr r)"

definition instance_rows_ok :: "string set \<Rightarrow> (string \<times> 32 word, instance_row) table \<Rightarrow> bool" where
  "instance_rows_ok cs t \<longleftrightarrow> (\<forall>k r. tbl_get t k = Some r \<longrightarrow> fst k \<in> cs \<and> row_readable r)"

definition pool_rows_ok :: "string set \<Rightarrow> string set \<Rightarrow>
    (string \<times> string, string \<times> string) table \<Rightarrow> bool" where
  "pool_rows_ok ps cs t \<longleftrightarrow> (\<forall>k r. tbl_get t k = Some r \<longrightarrow> fst k \<in> ps \<and> fst r \<in> cs)"

definition reg_ok :: "registry \<Rightarrow> bool" where
  "reg_ok db \<longleftrightarrow> tbl_ok (db_clusters db) \<and> tbl_ok (db_instances db) \<and> tbl_ok (db_poolers db) \<and>
     tbl_ok (db_pooler_clusters db) \<and>
     instance_rows_ok (tbl.keys (db_clusters db)) (db_instances db) \<and>
     pool_rows_ok (tbl.keys (db_poolers db)) (tbl.keys (db_clusters db)) (db_pooler_clusters db)"

lemma reg_okD:
  assumes "reg_ok db"
  shows "tbl_ok (db_clusters db)" "tbl_ok (db_instances db)" "tbl_ok (db_poolers db)"
    "tbl_ok (db_pooler_clusters db)"
    "instance_rows_ok (tbl.keys (db_clusters db)) (db_instances db)"
    "pool_rows_ok (tbl.keys (db_poolers db)) (tbl.keys (db_clusters db)) (db_pooler_clusters db)"
  using assms by (simp_all add: reg_ok_def)

lemma keys_iff: "k \<in> tbl.keys t \<longleftrightarrow> tbl_get t k \<noteq> None"
  by (simp add: tbl.keys_def)

lemma keys_put_same: "tbl_ok t \<Longrightarrow> tbl_get t k = Some r0 \<Longrightarrow> tbl.keys (tbl_put k r t) = tbl.keys t"
  by (auto simp: tbl.keys_put keys_iff)

lemma instance_rows_mono: "instance_rows_ok cs t \<Longrightarrow> cs \<subseteq> ds \<Longrightarrow> instance_rows_ok ds t"
  unfolding instance_rows_ok_def by blast

lemma pool_rows_mono:
  "pool_rows_ok ps cs t \<Longrightarrow> ps \<subseteq> qs \<Longrightarrow> cs \<subseteq> ds \<Longrightarrow> pool_rows_ok qs ds t"
  unfolding pool_rows_ok_def by blast

lemma instance_rows_put:
  "tbl_ok t \<Longrightarrow> instance_rows_ok cs t \<Longrightarrow> fst k \<in> cs \<Longrightarrow> row_readable r \<Longrightarrow>
   instance_rows_ok cs (tbl_put k r t)"
  by (auto simp: instance_rows_ok_def tbl_get_put)

lemma instance_rows_del:
  "instance_rows_ok cs t \<Longrightarrow> instance_rows_ok (cs - {c}) (tbl_del (\<lambda>k. fst k = c) t)"
  by (auto simp: instance_rows_ok_def tbl_get_del)

lemma pool_rows_del:
  "pool_rows_ok ps cs t \<Longrightarrow> pool_rows_ok (ps - {p}) cs (tbl_del (\<lambda>k. fst k = p) t)"
  by (auto simp: pool_rows_ok_def tbl_get_del)

lemma row_of_instance_readable [simp]: "row_readable (row_of_instance now r)"
  using phase_words.parse_render [of "in_phase r"] role_words.parse_render [of "in_role r"]
  by (simp add: row_readable_def row_of_instance_def)

lemma instance_of_row_of:
  "instance_of_row (in_cluster r, in_ordinal r) (row_of_instance now r) = Inr r"
  using phase_words.parse_render [of "in_phase r"] role_words.parse_render [of "in_role r"]
  by (simp add: instance_of_row_def row_of_instance_def)

lemma empty_reg_ok: "reg_ok empty_registry"
  by (simp add: reg_ok_def empty_registry_def instance_rows_ok_def pool_rows_ok_def)

lemma put_clusters_ok:
  assumes "reg_ok db"
  shows "reg_ok (db\<lparr> db_clusters := tbl_put n row (db_clusters db) \<rparr>)"
  using reg_okD [OF assms]
  by (auto simp: reg_ok_def tbl_ok_put tbl.keys_put intro: instance_rows_mono pool_rows_mono)

lemma put_cluster_ok: "reg_ok db \<Longrightarrow> put_cluster mc now m phase db = Inr (db', g) \<Longrightarrow> reg_ok db'"
  by (auto simp: put_cluster_def Let_def put_clusters_ok split: option.splits)

lemma set_cluster_phase_ok: "reg_ok db \<Longrightarrow> reg_ok (set_cluster_phase now c phase db)"
  by (auto simp: set_cluster_phase_def put_clusters_ok split: option.splits)

lemma put_instance_ok:
  assumes "reg_ok db" "put_instance now r db = Inr db'"
  shows "reg_ok db'"
proof -
  obtain created where e: "in_cluster r \<in> tbl.keys (db_clusters db)"
    "db' = db\<lparr> db_instances := tbl_put (in_cluster r, in_ordinal r) (row_of_instance created r)
       (db_instances db) \<rparr>"
    using assms(2) by (auto simp: put_instance_def Let_def keys_iff split: if_splits)
  show ?thesis
    using reg_okD [OF assms(1)] e(1) by (simp add: e(2) reg_ok_def tbl_ok_put instance_rows_put)
qed

lemma delete_cluster_unreferenced:
  assumes "delete_cluster c db = Inr db'" "tbl_get (db_pooler_clusters db) k = Some r"
  shows "fst r \<noteq> cluster_str c"
proof -
  have "(k, r) \<in> set (db_pooler_clusters db)"
    using assms(2) by (simp add: tbl_get_def map_of_SomeD)
  then show ?thesis
    using assms(1)
    by (cases k; cases r) (auto simp: delete_cluster_def find_None_iff split: option.splits)
qed

lemma delete_cluster_Inr:
  "delete_cluster c db = Inr db' \<Longrightarrow>
   db' = db\<lparr> db_clusters := tbl_del (\<lambda>k. k = cluster_str c) (db_clusters db),
      db_instances := tbl_del (\<lambda>k. fst k = cluster_str c) (db_instances db) \<rparr>"
  by (auto simp: delete_cluster_def split: option.splits)

lemma delete_cluster_ok:
  assumes "reg_ok db" "delete_cluster c db = Inr db'"
  shows "reg_ok db'"
proof -
  have e: "{k. k = cluster_str c} = {cluster_str c}" by auto
  have "pool_rows_ok (tbl.keys (db_poolers db)) (tbl.keys (db_clusters db) - {cluster_str c})
      (db_pooler_clusters db)"
    using reg_okD(6) [OF assms(1)] delete_cluster_unreferenced [OF assms(2)]
    by (simp add: pool_rows_ok_def)
  then show ?thesis
    using reg_okD [OF assms(1)]
    by (simp add: delete_cluster_Inr [OF assms(2)] reg_ok_def tbl_ok_del tbl.keys_del e
        instance_rows_del)
qed

lemma insert_pools_ok:
  assumes "insert_pools db name ps t = Inr t'" "tbl_ok t" "pool_rows_ok qs (tbl.keys (db_clusters db)) t"
    "name \<in> qs"
  shows "tbl_ok t' \<and> pool_rows_ok qs (tbl.keys (db_clusters db)) t'"
  using assms
proof (induction ps arbitrary: t)
  case (Cons p ps)
  then have h: "pp_cluster p \<in> tbl.keys (db_clusters db)"
    "insert_pools db name ps (tbl_put (name, pp_pool_name p) (pp_cluster p, pp_database p) t) = Inr t'"
    by (auto simp: keys_iff split: if_splits)
  have "pool_rows_ok qs (tbl.keys (db_clusters db))
      (tbl_put (name, pp_pool_name p) (pp_cluster p, pp_database p) t)"
    using Cons.prems h(1) by (auto simp: pool_rows_ok_def tbl_get_put)
  then show ?case
    using Cons.IH [OF h(2)] Cons.prems by (simp add: tbl_ok_put)
qed simp

lemma put_pooler_Inr:
  assumes "put_pooler mc now m cn ci hp phase pools db = Inr (db', g)"
  obtains row t where "insert_pools db (mc_name mc m) pools
      (tbl_del (\<lambda>k. fst k = mc_name mc m) (db_pooler_clusters db)) = Inr t"
    "db' = db\<lparr> db_poolers := tbl_put (mc_name mc m) row (db_poolers db), db_pooler_clusters := t \<rparr>"
  using assms by (auto simp: put_pooler_def Let_def split: option.splits)

lemma put_pooler_ok:
  assumes "reg_ok db" "put_pooler mc now m cn ci hp phase pools db = Inr (db', g)"
  shows "reg_ok db'"
proof -
  let ?n = "mc_name mc m"
  obtain row t where t: "insert_pools db ?n pools
      (tbl_del (\<lambda>k. fst k = ?n) (db_pooler_clusters db)) = Inr t"
    "db' = db\<lparr> db_poolers := tbl_put ?n row (db_poolers db), db_pooler_clusters := t \<rparr>"
    using put_pooler_Inr [OF assms(2)] .
  note d = reg_okD [OF assms(1)]
  have "pool_rows_ok (insert ?n (tbl.keys (db_poolers db))) (tbl.keys (db_clusters db))
      (tbl_del (\<lambda>k. fst k = ?n) (db_pooler_clusters db))"
    using pool_rows_mono [OF pool_rows_del [OF d(6)]] by blast
  from insert_pools_ok [OF t(1) tbl_ok_del [OF d(4)] this]
  show ?thesis using d by (simp add: t(2) reg_ok_def tbl_ok_put tbl.keys_put)
qed

lemma set_pooler_phase_ok:
  assumes "reg_ok db"
  shows "reg_ok (set_pooler_phase now p phase db)"
  using reg_okD [OF assms] assms
  by (auto simp: set_pooler_phase_def reg_ok_def tbl_ok_put keys_put_same split: option.splits)

lemma delete_pooler_ok:
  assumes "reg_ok db"
  shows "reg_ok (delete_pooler p db)"
proof -
  have e: "{k. k = pooler_str p} = {pooler_str p}" by auto
  show ?thesis
    using reg_okD [OF assms]
    by (simp add: delete_pooler_def reg_ok_def tbl_ok_del tbl.keys_del e pool_rows_del)
qed

lemma record_event_ok: "reg_ok db \<Longrightarrow> reg_ok (record_event now c n l msg db)"
  by (simp add: record_event_def reg_ok_def)

text \<open>Any sequence of the store's writes.\<close>

inductive reg_write :: "'m manifest_codec \<Rightarrow> 'p manifest_codec \<Rightarrow> registry \<Rightarrow> registry \<Rightarrow> bool"
  for mc pc where
  "put_cluster mc now m phase db = Inr (db', g) \<Longrightarrow> reg_write mc pc db db'"
| "reg_write mc pc db (set_cluster_phase now c phase db)"
| "delete_cluster c db = Inr db' \<Longrightarrow> reg_write mc pc db db'"
| "put_instance now r db = Inr db' \<Longrightarrow> reg_write mc pc db db'"
| "put_pooler pc now pm cn ci hp phase pools db = Inr (db', g) \<Longrightarrow> reg_write mc pc db db'"
| "reg_write mc pc db (set_pooler_phase now p phase db)"
| "reg_write mc pc db (delete_pooler p db)"
| "reg_write mc pc db (record_event now cn n level msg db)"

lemma reg_write_ok: "reg_write mc pc db db' \<Longrightarrow> reg_ok db \<Longrightarrow> reg_ok db'"
  by (induction rule: reg_write.induct)
     (blast intro: put_cluster_ok set_cluster_phase_ok delete_cluster_ok put_instance_ok
        put_pooler_ok set_pooler_phase_ok delete_pooler_ok record_event_ok)+

section \<open>Reading back\<close>

definition read_instance :: "string \<times> 32 word \<Rightarrow> instance_row \<Rightarrow> instance_record" where
  "read_instance k row = (case instance_of_row k row of Inr r \<Rightarrow> r)"

lemma instance_of_row_readable:
  "row_readable row \<Longrightarrow> instance_of_row k row = Inr (read_instance k row)"
  by (auto simp: row_readable_def instance_of_row_def read_instance_def)

lemma read_instance_simps [simp]:
  "row_readable row \<Longrightarrow> in_cluster (read_instance k row) = fst k"
  "row_readable row \<Longrightarrow> in_ordinal (read_instance k row) = snd k"
  by (auto simp: row_readable_def instance_of_row_def read_instance_def)

lemma instance_rows_readable:
  "reg_ok db \<Longrightarrow> (k, row) \<in> set (db_instances db) \<Longrightarrow> row_readable row"
  using reg_okD(2,5) [of db] tbl_mem [of "db_instances db" k row]
  unfolding instance_rows_ok_def by blast

lemma try_map_all: "\<forall>x\<in>set xs. f x = Inr (g x) \<Longrightarrow> try_map f xs = Inr (map g xs)"
  by (induction xs) auto

lemma instances_read:
  assumes "reg_ok db"
  shows "instances db c = Inr (map (\<lambda>(k, row). read_instance k row)
    (filter (\<lambda>(k, row). fst k = cluster_str c) (db_instances db)))"
  unfolding instances_def using instance_rows_readable [OF assms]
  by (intro try_map_all) (auto simp: instance_of_row_readable)

lemma instances_mem:
  assumes "reg_ok db" "instances db c = Inr rs"
  shows "r \<in> set rs \<longleftrightarrow> in_cluster r = cluster_str c \<and>
    (\<exists>row. tbl_get (db_instances db) (in_cluster r, in_ordinal r) = Some row \<and>
       r = read_instance (in_cluster r, in_ordinal r) row)"
  using assms instances_read [OF assms(1), of c] instance_rows_readable [OF assms(1)]
    tbl_mem [OF reg_okD(2) [OF assms(1)]]
  by (force simp: image_iff)

lemma instances_ordinals:
  assumes "reg_ok db" "instances db c = Inr rs"
  shows "sorted_wrt (<) (map in_ordinal rs)"
proof -
  let ?t = "filter (\<lambda>(k, row). fst k = cluster_str c) (db_instances db)"
  have ord: "map in_ordinal rs = map (\<lambda>(k, row). snd k) ?t"
    using assms instances_read [OF assms(1), of c] instance_rows_readable [OF assms(1)] by auto
  have "sorted_wrt (\<lambda>x y. fst x < fst y) (db_instances db)"
    using reg_okD(2) [OF assms(1)] by (simp add: tbl_ok_def sorted_wrt_map)
  then have "sorted_wrt (\<lambda>x y. fst x < fst y) ?t" by (rule sorted_wrt_filter)
  then have "sorted_wrt (\<lambda>x y. (case x of (k, row) \<Rightarrow> snd k) < (case y of (k, row) \<Rightarrow> snd k)) ?t"
    by (rule sorted_wrt_mono_rel [rotated]) (auto simp: less_prod_def)
  then show ?thesis by (simp add: ord sorted_wrt_map)
qed

lemma find_unique:
  assumes "distinct (map f xs)" "x \<in> set xs"
  shows "find (\<lambda>y. f y = f x) xs = Some x"
  using assms
proof (induction xs)
  case (Cons a xs)
  then show ?case by (cases "a = x") (auto simp: image_iff)
qed simp

lemma get_instance_iff:
  assumes "reg_ok db"
  shows "get_instance db c n = Inr (map_option (read_instance (cluster_str c, n))
    (tbl_get (db_instances db) (cluster_str c, n)))"
proof -
  obtain rs where rs: "instances db c = Inr rs" using instances_read [OF assms] by blast
  note mem = instances_mem [OF assms rs]
  have d: "distinct (map in_ordinal rs)"
    using instances_ordinals [OF assms rs] strict_sorted_iff by blast
  show ?thesis
  proof (cases "tbl_get (db_instances db) (cluster_str c, n)")
    case None
    then have "find (\<lambda>r. in_ordinal r = n) rs = None" using mem by (auto simp: find_None_iff)
    then show ?thesis using None rs by (simp add: get_instance_def)
  next
    case (Some row)
    let ?r = "read_instance (cluster_str c, n) row"
    have "row_readable row"
      using instance_rows_readable [OF assms] tbl_mem [OF reg_okD(2) [OF assms]] Some by blast
    then have "in_cluster ?r = cluster_str c" "in_ordinal ?r = n" by simp_all
    moreover from this have "?r \<in> set rs" using mem Some by auto
    ultimately have "find (\<lambda>r. in_ordinal r = n) rs = Some ?r" using find_unique [OF d, of ?r] by simp
    then show ?thesis using Some rs by (simp add: get_instance_def)
  qed
qed

lemma get_instance_put:
  assumes "reg_ok db" "put_instance now r db = Inr db'"
  shows "get_instance db' c n = (if cluster_str c = in_cluster r \<and> n = in_ordinal r
    then Inr (Some r) else get_instance db c n)"
proof -
  have ok: "reg_ok db'" using put_instance_ok [OF assms] .
  obtain created where e: "db' = db\<lparr> db_instances :=
      tbl_put (in_cluster r, in_ordinal r) (row_of_instance created r) (db_instances db) \<rparr>"
    using assms(2) by (auto simp: put_instance_def Let_def split: if_splits)
  have "read_instance (in_cluster r, in_ordinal r) (row_of_instance created r) = r"
    using instance_of_row_of [of r created] by (simp add: read_instance_def)
  then show ?thesis
    unfolding get_instance_iff [OF ok] get_instance_iff [OF assms(1)]
    by (simp add: e tbl_get_put [OF reg_okD(2) [OF assms(1)]])
qed

lemma insert_pools_iff:
  "tbl_ok t \<Longrightarrow> (\<exists>t'. insert_pools db name ps t = Inr t') \<longleftrightarrow>
     distinct (map pp_pool_name ps) \<and>
     (\<forall>p\<in>set ps. tbl_get t (name, pp_pool_name p) = None \<and>
        tbl_get (db_clusters db) (pp_cluster p) \<noteq> None)"
proof (induction ps arbitrary: t)
  case (Cons p ps)
  have "tbl_ok (tbl_put (name, pp_pool_name p) (pp_cluster p, pp_database p) t)"
    using Cons.prems by (rule tbl_ok_put)
  note ih = Cons.IH [OF this]
  show ?case
    using ih Cons.prems
    by (cases "tbl_get t (name, pp_pool_name p)") (auto simp: tbl_get_put image_iff)
qed simp

lemma insert_pools_get:
  "tbl_ok t \<Longrightarrow> insert_pools db name ps t = Inr t' \<Longrightarrow>
   tbl_get t' k = (case map_of (map (\<lambda>p. ((name, pp_pool_name p), (pp_cluster p, pp_database p))) ps) k of
     Some r \<Rightarrow> Some r | None \<Rightarrow> tbl_get t k)"
proof (induction ps arbitrary: t)
  case (Cons p ps)
  then have h: "insert_pools db name ps
      (tbl_put (name, pp_pool_name p) (pp_cluster p, pp_database p) t) = Inr t'"
    by (auto split: if_splits)
  have ok: "tbl_ok (tbl_put (name, pp_pool_name p) (pp_cluster p, pp_database p) t)"
    using Cons.prems(1) by (rule tbl_ok_put)
  have fresh: "(name, pp_pool_name p) \<notin> (\<lambda>p. (name, pp_pool_name p)) ` set ps"
    using insert_pools_iff [OF ok, of db name ps] h by (force simp: tbl_get_put [OF Cons.prems(1)])
  then have "map_of (map (\<lambda>p. ((name, pp_pool_name p), (pp_cluster p, pp_database p))) ps)
      (name, pp_pool_name p) = None"
    by (auto simp: map_of_eq_None_iff)
  then show ?case
    using Cons.IH [OF ok h] Cons.prems(1) by (auto simp: tbl_get_put split: option.splits)
qed simp

lemma put_cluster_Inr:
  assumes "put_cluster mc now m phase db = Inr (db', g)" "reg_ok db"
  shows "\<exists>encoded row. mc_encode mc m = Inr encoded \<and>
    db' = db\<lparr> db_clusters := tbl_put (mc_name mc m) row (db_clusters db) \<rparr> \<and>
    cr_manifest row = encoded \<and> cr_phase row = phase \<and> cr_generation row = g \<and>
    g = (case tbl_get (db_clusters db) (mc_name mc m) of None \<Rightarrow> 1
         | Some old \<Rightarrow> next_generation (cr_manifest old) encoded (cr_generation old))"
proof -
  obtain e where e: "mc_encode mc m = Inr e" using assms(1) by (auto simp: put_cluster_def Let_def)
  show ?thesis
  proof (cases "tbl_get (db_clusters db) (mc_name mc m)")
    case None
    then show ?thesis using assms(1) e
      by (intro exI [of _ e] exI [of _ "\<lparr> cr_manifest = e, cr_generation = 1, cr_phase = phase,
           cr_created_at_ms = now, cr_updated_at_ms = now \<rparr>"]) (simp add: put_cluster_def)
  next
    case (Some row)
    then show ?thesis using assms(1) e
      by (intro exI [of _ e] exI [of _ "row\<lparr> cr_manifest := e, cr_generation := g,
           cr_phase := phase, cr_updated_at_ms := now \<rparr>"]) (auto simp: put_cluster_def Let_def)
  qed
qed

lemma pooler_pool_eqI:
  "pp_pool_name x = pp_pool_name p \<Longrightarrow> pp_cluster x = pp_cluster p \<Longrightarrow>
   pp_database x = pp_database p \<Longrightarrow> x = (p :: pooler_pool)"
  by (simp add: pooler_pool.equality)

lemma pools_of_mem:
  "p \<in> set (pools_of db n) \<longleftrightarrow>
     ((n, pp_pool_name p), (pp_cluster p, pp_database p)) \<in> set (db_pooler_clusters db)"
proof
  show "p \<in> set (pools_of db n) \<Longrightarrow>
     ((n, pp_pool_name p), (pp_cluster p, pp_database p)) \<in> set (db_pooler_clusters db)"
    by (auto simp: pools_of_def)
  assume "((n, pp_pool_name p), (pp_cluster p, pp_database p)) \<in> set (db_pooler_clusters db)"
  then show "p \<in> set (pools_of db n)"
    by (auto simp: pools_of_def intro!: image_eqI
          [of _ _ "((n, pp_pool_name p), (pp_cluster p, pp_database p))"])
qed

section \<open>Properties\<close>

text \<open>C8: Whatever sequence of writes the store has seen, it stays whole: every
  instance row belongs to a recorded cluster and can be read back, every pool
  row names a recorded pooler and a recorded cluster, so no later read fails
  on a dangling or unreadable row.\<close>

theorem registry_stays_whole:
  assumes "(reg_write mc pc)\<^sup>*\<^sup>* empty_registry db"
  shows "reg_ok db \<and> (\<forall>c. is_ok (instances db c)) \<and>
    (\<forall>k r. tbl_get (db_pooler_clusters db) k = Some r \<longrightarrow>
       tbl_get (db_poolers db) (fst k) \<noteq> None \<and> tbl_get (db_clusters db) (fst r) \<noteq> None)"
proof -
  have ok: "reg_ok db"
    using assms by (induction rule: rtranclp_induct) (auto intro: empty_reg_ok reg_write_ok)
  then show ?thesis
    using instances_read [OF ok] reg_okD(6) [OF ok]
    unfolding pool_rows_ok_def keys_iff by simp
qed

text \<open>Recording a cluster makes exactly its manifest and phase current.  The
  generation grows by one when the encoded manifest changed and only then,
  and the rows of every other cluster and every instance stay as they are.\<close>

theorem put_cluster_records:
  assumes "reg_ok db" "put_cluster mc now m phase db = Inr (db', g)"
    "mc_name mc m = cluster_str c" "\<And>e. mc_encode mc m = Inr e \<Longrightarrow> mc_decode mc e = Inr m"
  shows "(\<exists>r. get_cluster mc db' c = Inr (Some r) \<and> cl_manifest r = m \<and> cl_phase r = phase \<and>
      cl_generation r = g) \<and>
    (\<forall>old e. tbl_get (db_clusters db) (cluster_str c) = Some old \<longrightarrow> mc_encode mc m = Inr e \<longrightarrow>
      g = (if cr_manifest old = e then cr_generation old else cr_generation old + 1)) \<and>
    (\<forall>d. d \<noteq> c \<longrightarrow> get_cluster mc db' d = get_cluster mc db d) \<and>
    (\<forall>d. instances db' d = instances db d)"
proof -
  obtain e row where h: "mc_encode mc m = Inr e"
    "db' = db\<lparr> db_clusters := tbl_put (cluster_str c) row (db_clusters db) \<rparr>"
    "cr_manifest row = e" "cr_phase row = phase" "cr_generation row = g"
    "g = (case tbl_get (db_clusters db) (cluster_str c) of None \<Rightarrow> 1
         | Some old \<Rightarrow> next_generation (cr_manifest old) e (cr_generation old))"
    using put_cluster_Inr [OF assms(2,1)] assms(3) by auto
  have "cluster_str d \<noteq> cluster_str c" if "d \<noteq> c" for d
    using that by (auto intro: cluster_id.expand)
  then show ?thesis
    using h assms(4) [OF h(1)] reg_okD(1) [OF assms(1)]
    by (auto simp: get_cluster_def tbl_get_put instances_def next_generation_def)
qed

text \<open>A cluster is removed exactly when no pooler fronts it.  The removal takes
  the cluster and all its instances, nothing else, and a refusal names the
  pooler that has to go first.\<close>

theorem delete_cluster_exact:
  assumes "reg_ok db"
  shows "((\<exists>db'. delete_cluster c db = Inr db') \<longleftrightarrow> pooler_names_for_cluster db c = []) \<and>
    (\<forall>p. delete_cluster c db = Inl p \<longrightarrow>
       (\<exists>n\<in>set (pooler_names_for_cluster db c). p = PoolerInUse (cluster_str c) n)) \<and>
    (\<forall>db'. delete_cluster c db = Inr db' \<longrightarrow>
       instances db' c = Inr [] \<and> get_cluster mc db' c = Inr None \<and>
       (\<forall>d. d \<noteq> c \<longrightarrow> get_cluster mc db' d = get_cluster mc db d \<and> instances db' d = instances db d) \<and>
       db_poolers db' = db_poolers db \<and> db_pooler_clusters db' = db_pooler_clusters db)"
proof (intro conjI allI impI)
  let ?f = "find (\<lambda>(k, r). fst r = cluster_str c) (db_pooler_clusters db)"
  show "(\<exists>db'. delete_cluster c db = Inr db') \<longleftrightarrow> pooler_names_for_cluster db c = []"
  proof (cases ?f)
    case None
    then have a: "\<exists>db'. delete_cluster c db = Inr db'" by (simp add: delete_cluster_def)
    have "filter (\<lambda>(k, r). fst r = cluster_str c) (db_pooler_clusters db) = []"
      using None by (auto simp: find_None_iff filter_empty_conv)
    then show ?thesis using a by (simp add: pooler_names_for_cluster_def)
  next
    case (Some kr)
    then have "kr \<in> set (db_pooler_clusters db)" "fst (snd kr) = cluster_str c"
      by (auto simp: find_Some_iff split_def)
    then have "filter (\<lambda>(k, r). fst r = cluster_str c) (db_pooler_clusters db) \<noteq> []"
      unfolding filter_empty_conv by (metis (mono_tags, lifting) split_def)
    then show ?thesis using Some
      by (cases kr) (simp add: delete_cluster_def pooler_names_for_cluster_def)
  qed
  fix p assume p: "delete_cluster c db = Inl p"
  then obtain k r where f: "?f = Some (k, r)" "p = PoolerInUse (cluster_str c) (fst k)"
    by (auto simp: delete_cluster_def split: option.splits)
  then have "(k, r) \<in> set (db_pooler_clusters db)" "fst r = cluster_str c"
    by (auto dest: find_mem)
  then show "\<exists>n\<in>set (pooler_names_for_cluster db c). p = PoolerInUse (cluster_str c) n"
    by (intro bexI [of _ "fst k"]) (force simp: pooler_names_for_cluster_def f(2))+
next
  fix db' assume d: "delete_cluster c db = Inr db'"
  note e = delete_cluster_Inr [OF d]
  show "instances db' c = Inr []" by (simp add: e instances_def tbl_del_def filter_empty_conv split_def)
  show "get_cluster mc db' c = Inr None" by (simp add: e get_cluster_def tbl_get_del)
  show "db_poolers db' = db_poolers db" "db_pooler_clusters db' = db_pooler_clusters db"
    by (simp_all add: e)
  fix d assume "d \<noteq> c"
  then have ne: "cluster_str d \<noteq> cluster_str c" by (auto intro: cluster_id.expand)
  show "get_cluster mc db' d = get_cluster mc db d"
    using ne by (simp add: e get_cluster_def tbl_get_del)
  have "filter (\<lambda>(k, row). fst k = cluster_str d) (tbl_del (\<lambda>k. fst k = cluster_str c) (db_instances db)) =
      filter (\<lambda>(k, row). fst k = cluster_str d) (db_instances db)"
    unfolding tbl_del_def filter_filter using ne by (intro filter_cong) auto
  then show "instances db' d = instances db d" by (simp add: e instances_def)
qed

text \<open>Recording a pooler is all or nothing.  It succeeds exactly when the manifest
  can be encoded, no two pools have one name and every pool's cluster is
  recorded; then the pooler's pools are exactly the given ones, the pools of
  every other pooler untouched.\<close>

theorem put_pooler_atomic:
  assumes "reg_ok db"
  shows "((\<exists>db' g. put_pooler pc now pm cn ci hp phase pools db = Inr (db', g)) \<longleftrightarrow>
      (\<exists>e. mc_encode pc pm = Inr e) \<and> distinct (map pp_pool_name pools) \<and>
      (\<forall>p\<in>set pools. tbl_get (db_clusters db) (pp_cluster p) \<noteq> None)) \<and>
    (\<forall>db' g. put_pooler pc now pm cn ci hp phase pools db = Inr (db', g) \<longrightarrow>
      set (pools_of db' (mc_name pc pm)) = set pools \<and>
      (\<forall>n. n \<noteq> mc_name pc pm \<longrightarrow> set (pools_of db' n) = set (pools_of db n)))"
proof (intro conjI allI impI)
  let ?n = "mc_name pc pm"
  let ?t = "tbl_del (\<lambda>k. fst k = ?n) (db_pooler_clusters db)"
  note ok = reg_okD(4) [OF assms]
  have okt: "tbl_ok ?t" using ok by (rule tbl_ok_del)
  have "tbl_get ?t (?n, x) = None" for x by (simp add: tbl_get_del)
  then show "(\<exists>db' g. put_pooler pc now pm cn ci hp phase pools db = Inr (db', g)) \<longleftrightarrow>
      (\<exists>e. mc_encode pc pm = Inr e) \<and> distinct (map pp_pool_name pools) \<and>
      (\<forall>p\<in>set pools. tbl_get (db_clusters db) (pp_cluster p) \<noteq> None)"
    using insert_pools_iff [OF okt, of db ?n pools]
    by (auto simp: put_pooler_def Let_def split_def)
  fix db' g assume p: "put_pooler pc now pm cn ci hp phase pools db = Inr (db', g)"
  obtain row t where t: "insert_pools db ?n pools ?t = Inr t"
    "db' = db\<lparr> db_poolers := tbl_put ?n row (db_poolers db), db_pooler_clusters := t \<rparr>"
    using put_pooler_Inr [OF p] .
  note get = insert_pools_get [OF okt t(1)]
  have okp: "tbl_ok t" using reg_okD(4) [OF put_pooler_ok [OF assms p]] by (simp add: t(2))
  have d: "distinct (map pp_pool_name pools)" using insert_pools_iff [OF okt, of db ?n pools] t(1) by blast
  let ?kv = "\<lambda>p. ((?n, pp_pool_name p), (pp_cluster p, pp_database p))"
  have dk: "distinct (map fst (map ?kv pools))" using d by (simp add: distinct_map inj_on_def)
  have mem: "((?n, x), r) \<in> set t \<longleftrightarrow> (\<exists>p\<in>set pools. x = pp_pool_name p \<and> r = (pp_cluster p, pp_database p))"
    for x r
    using get [of "(?n, x)"] map_of_eq_Some_iff [OF dk, of "(?n, x)" r]
    by (auto simp: tbl_mem [OF okp] tbl_get_del split: option.splits)
  show "set (pools_of db' ?n) = set pools"
    by (intro set_eqI) (auto simp: pools_of_mem t(2) mem dest: pooler_pool_eqI)
  fix n assume n: "n \<noteq> ?n"
  have "map_of (map ?kv pools) (n, x) = None" for x using n by (auto simp: map_of_eq_None_iff)
  then have "((n, x), r) \<in> set t \<longleftrightarrow> ((n, x), r) \<in> set (db_pooler_clusters db)" for x r
    using n by (simp add: tbl_mem [OF okp] tbl_mem [OF ok] get tbl_get_del)
  then show "set (pools_of db' n) = set (pools_of db n)"
    by (intro set_eqI) (simp add: pools_of_mem t(2))
qed

definition demo_codec :: "string manifest_codec" where
  "demo_codec = \<lparr> mc_name = id, mc_encode = Inr, mc_decode = Inr \<rparr>"

definition demo_registry :: registry where
  "demo_registry = (case put_cluster demo_codec 1 ''mydb'' ''running'' empty_registry of
     Inr (db, g) \<Rightarrow> db | Inl _ \<Rightarrow> empty_registry)"

lemma demo_put: "put_cluster demo_codec 1 ''mydb'' ''running'' empty_registry = Inr (demo_registry, 1)"
  by code_simp

lemma demo_registry_ok: "reg_ok demo_registry"
  using put_cluster_ok [OF empty_reg_ok demo_put] .

theorem registry_stays_whole_witness:
  "reg_ok demo_registry \<and> is_ok (instances demo_registry (ClusterId ''mydb''))"
proof -
  have "reg_write demo_codec demo_codec empty_registry demo_registry"
    using demo_put by (rule reg_write.intros(1))
  then have "(reg_write demo_codec demo_codec)\<^sup>*\<^sup>* empty_registry demo_registry" by blast
  from registry_stays_whole [OF this] show ?thesis by blast
qed

theorem put_cluster_records_witness:
  "\<exists>r. get_cluster demo_codec demo_registry (ClusterId ''mydb'') = Inr (Some r) \<and>
     cl_manifest r = ''mydb'' \<and> cl_generation r = 1"
proof -
  have "mc_name demo_codec ''mydb'' = cluster_str (ClusterId ''mydb'')"
    by (simp add: demo_codec_def)
  moreover have "\<And>e. mc_encode demo_codec ''mydb'' = Inr e \<Longrightarrow> mc_decode demo_codec e = Inr ''mydb''"
    by (simp add: demo_codec_def)
  ultimately show ?thesis using put_cluster_records [OF empty_reg_ok demo_put] by blast
qed

theorem delete_cluster_exact_witness:
  "\<exists>db'. delete_cluster (ClusterId ''mydb'') demo_registry = Inr db' \<and>
     get_cluster demo_codec db' (ClusterId ''mydb'') = Inr None"
proof -
  have "pooler_names_for_cluster demo_registry (ClusterId ''mydb'') = []" by code_simp
  then show ?thesis using delete_cluster_exact [OF demo_registry_ok] by blast
qed

theorem put_pooler_atomic_witness:
  "\<exists>db' g. put_pooler demo_codec 2 ''front'' ''pgpod-pooler-front'' None 6432 ''applying''
     [\<lparr> pp_cluster = ''mydb'', pp_database = ''appdb'', pp_pool_name = ''appdb'' \<rparr>] demo_registry = Inr (db', g)"
proof -
  have "tbl_get (db_clusters demo_registry) ''mydb'' \<noteq> None" by code_simp
  moreover have "mc_encode demo_codec ''front'' = Inr ''front''" by (simp add: demo_codec_def)
  ultimately show ?thesis
    using conjunct1 [OF put_pooler_atomic [OF demo_registry_ok]] by fastforce
qed

end
