(* ===== verification/Engine.thy ===== *)
theory Engine
  imports Containers Registry
begin

text \<open>
  The world a command acts on, and what the runtime crate does with podman.  The
  engine, the kernel and the clock are outside the repository: they are the
  \<^verbatim>\<open>host\<close>, a record of one endpoint per request the code makes, each a function of
  the host's state that returns an answer or an error message, the time it took
  and the next state.  Nothing is assumed of them.  A \<^verbatim>\<open>world\<close> is the host's
  state, the time, the store, and the list of requests made so far.

  An action is a function of the world that returns a result and a world; \<open>seq\<close>
  is the \<^verbatim>\<open>?\<close> of the code.  What an action may do is stated as a relation of the
  worlds before and after it: \<open>within A S\<close> says that every request was one \<open>A\<close>
  allows, that the store changed by steps \<open>S\<close> allows, and that time did not go
  back.  The lemmas collected in \<open>within_intros\<close> derive it for a composed action
  from its parts.
\<close>

named_theorems within_intros \<open>what each action does to the world\<close>

section \<open>The host\<close>

record inspect_data =
  id_id :: "string option"
  id_name :: "string option"
  id_running :: "bool option"
  id_status :: "string option"
  id_exit_code :: "int option"
  id_env :: "string list option"
  id_image :: "string option"
  id_image_name :: "string option"

record volume_info =
  vi_name :: string
  vi_mountpoint :: string
  vi_driver :: string
  vi_labels :: "string \<rightharpoonup> string"

record network_data =
  nd_name :: "string option"
  nd_id :: "string option"
  nd_driver :: "string option"
  nd_dns_enabled :: "bool option"
  nd_subnets :: "string option list option"

type_synonym ('p, 'a) endpoint = "'p \<Rightarrow> (string + 'a) \<times> nat \<times> 'p"

record 'p host =
  h_exists :: "string \<Rightarrow> ('p, bool) endpoint"
  h_inspect :: "string \<Rightarrow> ('p, inspect_data) endpoint"
  h_start :: "string \<Rightarrow> ('p, unit) endpoint"
  h_stop :: "string \<Rightarrow> nat \<Rightarrow> ('p, unit) endpoint"
  h_delete :: "string \<Rightarrow> bool \<Rightarrow> ('p, unit) endpoint"
  h_serialize :: "create_opts \<Rightarrow> string + json"
  h_post_create :: "json \<Rightarrow> ('p, nat \<times> string) endpoint"
  h_parse_json :: "string \<Rightarrow> string + json"
  h_exec_create :: "string \<Rightarrow> string list \<Rightarrow> ('p, string) endpoint"
  h_exec_start :: "string \<Rightarrow> ('p, string \<times> string) endpoint"
  h_exec_inspect :: "string \<Rightarrow> ('p, int option) endpoint"
  h_wait :: "string \<Rightarrow> ('p, unit) endpoint"
  h_logs :: "string \<Rightarrow> ('p, string) endpoint"
  h_image_exists :: "string \<Rightarrow> ('p, bool) endpoint"
  h_image_pull :: "string \<Rightarrow> ('p, unit) endpoint"
  h_image_inspect :: "string \<Rightarrow> ('p, string option) endpoint"
  h_volume_exists :: "string \<Rightarrow> ('p, bool) endpoint"
  h_volume_inspect :: "string \<Rightarrow> ('p, volume_info) endpoint"
  h_volume_create :: "string \<Rightarrow> (string \<rightharpoonup> string) \<Rightarrow> ('p, unit) endpoint"
  h_volume_delete :: "string \<Rightarrow> ('p, unit) endpoint"
  h_volume_list :: "string \<Rightarrow> ('p, volume_info list) endpoint"
  h_volume_prune :: "('p, nat) endpoint"
  h_network_exists :: "string \<Rightarrow> ('p, bool) endpoint"
  h_network_inspect :: "string \<Rightarrow> ('p, network_data) endpoint"
  h_network_create :: "string \<Rightarrow> (string \<rightharpoonup> string) \<Rightarrow> ('p, unit) endpoint"
  h_network_delete :: "string \<Rightarrow> ('p, unit) endpoint"
  h_network_list :: "string \<Rightarrow> ('p, network_data list) endpoint"
  h_secret_list :: "('p, string option list) endpoint"
  h_secret_get :: "string \<Rightarrow> ('p, nat \<times> string) endpoint"
  h_secret_post :: "string \<Rightarrow> string \<Rightarrow> ('p, nat \<times> string) endpoint"
  h_secret_delete :: "string \<Rightarrow> ('p, unit) endpoint"
  h_bind_port :: "16 word \<Rightarrow> ('p, unit) endpoint"
  h_free_port :: "('p, 16 word) endpoint"
  h_random :: "nat \<Rightarrow> 'p \<Rightarrow> nat list \<times> 'p"
  h_is_file :: "string \<Rightarrow> ('p, bool) endpoint"

datatype call = CallExists string | CallInspect string | CallStart string | CallStop string nat
  | CallDelete string bool | CallCreate json | CallExec string "string list" | CallLogs string
  | CallImageExists string | CallImagePull string | CallImageInspect string
  | CallVolumeExists string | CallVolumeInspect string | CallVolumeCreate string | CallVolumeDelete string
  | CallVolumeList string | CallVolumePrune | CallNetworkList string | CallWait string
  | CallNetworkExists string | CallNetworkInspect string | CallNetworkCreate string | CallNetworkDelete string
  | CallSecretList | CallSecretGet string | CallSecretPost string | CallSecretDelete string
  | CallBindPort "16 word" | CallFreePort | CallIsFile string

record 'p world =
  wd_podman :: 'p
  wd_now :: nat
  wd_db :: registry
  wd_calls :: "call list"

definition perform :: "call \<Rightarrow> ('p, 'a) endpoint \<Rightarrow> 'p world \<Rightarrow> (string + 'a) \<times> 'p world" where
  "perform c e w = (case e (wd_podman w) of (r, dt, p) \<Rightarrow>
     (r, w\<lparr> wd_podman := p, wd_now := wd_now w + dt, wd_calls := wd_calls w @ [c] \<rparr>))"

section \<open>Actions\<close>

type_synonym ('p, 'e, 'a) act = "'p world \<Rightarrow> ('e + 'a) \<times> 'p world"

definition ret :: "'a \<Rightarrow> ('p, 'e, 'a) act" where "ret x w = (Inr x, w)"

definition fail :: "'e \<Rightarrow> ('p, 'e, 'a) act" where "fail e w = (Inl e, w)"

definition of_result :: "'e + 'a \<Rightarrow> ('p, 'e, 'a) act" where "of_result r w = (r, w)"

definition seq :: "('p, 'e, 'a) act \<Rightarrow> ('a \<Rightarrow> ('p, 'e, 'b) act) \<Rightarrow> ('p, 'e, 'b) act" where
  "seq m k w = (case m w of (Inl e, w') \<Rightarrow> (Inl e, w') | (Inr x, w') \<Rightarrow> k x w')"

text \<open>\<^verbatim>\<open>match m { ... }\<close>: the result as a value, whichever it is.\<close>

definition attempt :: "('p, 'e, 'a) act \<Rightarrow> ('e + 'a \<Rightarrow> ('p, 'f, 'b) act) \<Rightarrow> ('p, 'f, 'b) act" where
  "attempt m k w = (case m w of (r, w') \<Rightarrow> k r w')"

definition act_err :: "('e \<Rightarrow> 'f) \<Rightarrow> ('p, 'e, 'a) act \<Rightarrow> ('p, 'f, 'a) act" where
  "act_err f m w = (case m w of (r, w') \<Rightarrow> (map_err f r, w'))"

fun each :: "('x \<Rightarrow> ('p, 'e, 'a) act) \<Rightarrow> 'x list \<Rightarrow> ('p, 'e, 'a list) act" where
  "each f [] = ret []"
| "each f (x # xs) = seq (f x) (\<lambda>y. seq (each f xs) (\<lambda>ys. ret (y # ys)))"

definition read_db :: "(registry \<Rightarrow> 'e + 'a) \<Rightarrow> ('p, 'e, 'a) act" where
  "read_db f w = (f (wd_db w), w)"

definition now_ms :: "'p world \<Rightarrow> int" where "now_ms w = int (wd_now w)"

definition write_db :: "(int \<Rightarrow> registry \<Rightarrow> 'e + registry \<times> 'a) \<Rightarrow> ('p, 'e, 'a) act" where
  "write_db f w = (case f (now_ms w) (wd_db w) of
     Inl e \<Rightarrow> (Inl e, w) | Inr (db, x) \<Rightarrow> (Inr x, w\<lparr> wd_db := db \<rparr>))"

definition sleep :: "nat \<Rightarrow> ('p, 'e, unit) act" where
  "sleep d w = (Inr (), w\<lparr> wd_now := wd_now w + d \<rparr>)"

lemma seq_run: "m w = (Inr x, w') \<Longrightarrow> seq m k w = k x w'"
  by (simp add: seq_def)

lemma seq_stop: "m w = (Inl e, w') \<Longrightarrow> seq m k w = (Inl e, w')"
  by (simp add: seq_def)

section \<open>Effects\<close>

locale effect =
  fixes R :: "'p world \<Rightarrow> 'p world \<Rightarrow> bool"
  assumes refl: "R w w" and trans: "R u v \<Longrightarrow> R v w \<Longrightarrow> R u w"
begin

lemma ret: "obeys R (ret x)"
  by (simp add: obeys_def ret_def refl)

lemma fail: "obeys R (fail e)"
  by (simp add: obeys_def fail_def refl)

lemma of_result: "obeys R (of_result r)"
  by (simp add: obeys_def of_result_def refl)

lemma read_db: "obeys R (read_db f)"
  by (simp add: obeys_def read_db_def refl)

lemma attempt:
  assumes "obeys R m" "\<And>r. obeys R (k r)"
  shows "obeys R (attempt m k)"
proof (rule obeysI)
  fix w r w' assume "attempt m k w = (r, w')"
  then obtain x v where *: "m w = (x, v)" "k x v = (r, w')"
    by (auto simp: attempt_def split: prod.splits)
  show "R w w'" by (rule trans [OF obeysD [OF assms(1) *(1)] obeysD [OF assms(2) *(2)]])
qed

lemma seq:
  assumes "obeys R m" "\<And>x. obeys R (k x)"
  shows "obeys R (seq m k)"
proof (rule obeysI)
  fix w r w' assume "seq m k w = (r, w')"
  then consider e where "m w = (Inl e, w')" | x v where "m w = (Inr x, v)" "k x v = (r, w')"
    by (auto simp: seq_def split: prod.splits sum.splits)
  then show "R w w'"
  proof cases
    case 1 then show ?thesis by (rule obeysD [OF assms(1)])
  next
    case 2 then show ?thesis by (rule trans [OF obeysD [OF assms(1)] obeysD [OF assms(2)]])
  qed
qed

lemma act_err: "obeys R m \<Longrightarrow> obeys R (act_err f m)"
  by (auto intro!: obeysI simp: act_err_def dest: obeysD split: prod.splits)

lemma each: "(\<And>x. x \<in> set xs \<Longrightarrow> obeys R (f x)) \<Longrightarrow> obeys R (each f xs)"
  by (induction xs) (auto intro!: ret seq)

lemma case_opt: "(\<And>x. v = Some x \<Longrightarrow> obeys R (f x)) \<Longrightarrow> (v = None \<Longrightarrow> obeys R g) \<Longrightarrow>
    obeys R (case v of None \<Rightarrow> g | Some x \<Rightarrow> f x)"
  by (cases v) auto

lemma case_res: "(\<And>x. v = Inr x \<Longrightarrow> obeys R (f x)) \<Longrightarrow> (\<And>e. v = Inl e \<Longrightarrow> obeys R (g e)) \<Longrightarrow>
    obeys R (case v of Inl e \<Rightarrow> g e | Inr x \<Rightarrow> f x)"
  by (cases v) auto

lemma cond: "(b \<Longrightarrow> obeys R f) \<Longrightarrow> (\<not> b \<Longrightarrow> obeys R g) \<Longrightarrow> obeys R (if b then f else g)"
  by simp

lemma let_in: "(\<And>x. x = v \<Longrightarrow> obeys R (f x)) \<Longrightarrow> obeys R (let x = v in f x)"
  by simp

lemma case_pair: "(\<And>a b. v = (a, b) \<Longrightarrow> obeys R (f a b)) \<Longrightarrow> obeys R (case v of (a, b) \<Rightarrow> f a b)"
  by (cases v) auto

lemmas combinators = ret fail of_result read_db attempt seq act_err case_opt case_res cond let_in case_pair

end

definition within :: "(call \<Rightarrow> bool) \<Rightarrow> (registry \<Rightarrow> registry \<Rightarrow> bool) \<Rightarrow> 'p world \<Rightarrow> 'p world \<Rightarrow> bool" where
  "within A S w w' \<longleftrightarrow> (\<exists>cs. wd_calls w' = wd_calls w @ cs \<and> (\<forall>c\<in>set cs. A c)) \<and>
     S\<^sup>*\<^sup>* (wd_db w) (wd_db w') \<and> wd_now w \<le> wd_now w'"

interpretation within: effect "within A S" for A S
proof unfold_locales
  fix w :: "'p world" show "within A S w w" by (simp add: within_def)
next
  fix u v w :: "'p world"
  assume "within A S u v" "within A S v w"
  then show "within A S u w" unfolding within_def by (force intro: rtranclp_trans)
qed

lemmas [within_intros] = within.combinators

lemma perform_within [within_intros]: "A c \<Longrightarrow> obeys (within A S) (perform c e)"
  by (rule obeysI) (auto simp: perform_def within_def split: prod.splits)

lemma sleep_within [within_intros]: "obeys (within A S) (sleep d)"
  by (rule obeysI) (auto simp: sleep_def within_def)

lemma write_db_within [within_intros]:
  assumes "\<And>now db db' x. f now db = Inr (db', x) \<Longrightarrow> S db db'"
  shows "obeys (within A S) (write_db f)"
  by (rule obeysI) (auto simp: write_db_def within_def split: sum.splits prod.splits dest: assms)

lemma within_mono:
  "within A S w w' \<Longrightarrow> (\<And>c. A c \<Longrightarrow> A' c) \<Longrightarrow> (\<And>x y. S x y \<Longrightarrow> S' x y) \<Longrightarrow> within A' S' w w'"
  unfolding within_def by (metis mono_rtranclp)

lemma within_same_db: "within A (=) w w' \<Longrightarrow> wd_db w' = wd_db w"
  unfolding within_def by (induction "wd_db w'") (auto elim: rtranclp_induct)

text \<open>A loop whose turns rely on something the other turns leave alone.\<close>

lemma each_within:
  assumes "distinct xs" "\<And>x. x \<in> set xs \<Longrightarrow> I x w"
    "\<And>x v. x \<in> set xs \<Longrightarrow> I x v \<Longrightarrow> within A S v (snd (f x v))"
    "\<And>x y v. x \<in> set xs \<Longrightarrow> y \<in> set xs \<Longrightarrow> x \<noteq> y \<Longrightarrow> I x v \<Longrightarrow> I x (snd (f y v))"
  shows "within A S w (snd (each f xs w))"
  using assms
proof (induction xs arbitrary: w)
  case Nil
  then show ?case by (simp add: ret_def within.refl)
next
  case (Cons x xs)
  obtain r v where f: "f x w = (r, v)" by (cases "f x w")
  have 1: "within A S w v" using Cons.prems(3) [of x w] Cons.prems(2) f by simp
  have "I y v" if "y \<in> set xs" for y
    using Cons.prems(1,2) Cons.prems(4) [of y x w] that f by force
  then have "within A S v (snd (each f xs v))"
    using Cons.prems by (intro Cons.IH) auto
  from within.trans [OF 1 this] 1 show ?case
    by (simp add: f seq_def ret_def split: sum.split prod.split)
      (metis prod.sel(2))
qed

text \<open>Actions that cannot fail, with what is known of their result.\<close>

definition delivers :: "('a \<Rightarrow> bool) \<Rightarrow> ('p, 'e, 'a) act \<Rightarrow> bool" where
  "delivers P m \<longleftrightarrow> (\<forall>w. \<exists>x w'. m w = (Inr x, w') \<and> P x)"

lemma delivers_ret: "P x \<Longrightarrow> delivers P (ret x)"
  by (simp add: delivers_def ret_def)

lemma delivers_seq:
  assumes "delivers Q m" "\<And>x. Q x \<Longrightarrow> delivers P (k x)"
  shows "delivers P (seq m k)"
  unfolding delivers_def
proof
  fix w
  obtain x v where "m w = (Inr x, v)" "Q x" using assms(1) unfolding delivers_def by blast
  then show "\<exists>y w'. seq m k w = (Inr y, w') \<and> P y"
    using assms(2) by (simp add: seq_def delivers_def)
qed

lemma delivers_attempt:
  assumes "\<And>r. delivers P (k r)"
  shows "delivers P (attempt m k)"
  using assms by (simp add: delivers_def attempt_def split: prod.split)

lemma delivers_cond: "(b \<Longrightarrow> delivers P f) \<Longrightarrow> (\<not> b \<Longrightarrow> delivers P g) \<Longrightarrow> delivers P (if b then f else g)"
  by simp

lemma delivers_res: "(\<And>x. v = Inr x \<Longrightarrow> delivers P (f x)) \<Longrightarrow> (\<And>e. v = Inl e \<Longrightarrow> delivers P (g e)) \<Longrightarrow>
    delivers P (case v of Inl e \<Rightarrow> g e | Inr x \<Rightarrow> f x)"
  by (cases v) auto

lemma delivers_opt: "(\<And>x. v = Some x \<Longrightarrow> delivers P (f x)) \<Longrightarrow> (v = None \<Longrightarrow> delivers P g) \<Longrightarrow>
    delivers P (case v of None \<Rightarrow> g | Some x \<Rightarrow> f x)"
  by (cases v) auto

lemma delivers_mono: "delivers P m \<Longrightarrow> (\<And>x. P x \<Longrightarrow> Q x) \<Longrightarrow> delivers Q m"
  unfolding delivers_def by blast

lemmas delivers_intros = delivers_ret delivers_attempt delivers_cond delivers_res delivers_opt

lemma delivers_each:
  assumes "\<And>x. x \<in> set xs \<Longrightarrow> delivers (P x) (f x)"
  shows "delivers (list_all2 P xs) (each f xs)"
  using assms
proof (induction xs)
  case Nil
  then show ?case by (simp add: delivers_ret)
next
  case (Cons x xs)
  then show ?case
    by (auto intro!: delivers_seq [where Q = "P x"] delivers_seq [where Q = "list_all2 P xs"] delivers_ret)
qed

lemma each_total:
  assumes "\<And>x v. x \<in> set xs \<Longrightarrow> I v \<Longrightarrow> \<exists>y v'. f x v = (Inr y, v') \<and> P x y \<and> I v'" "I w"
  shows "\<exists>ys w'. each f xs w = (Inr ys, w') \<and> list_all2 P xs ys \<and> I w'"
  using assms
proof (induction xs arbitrary: w)
  case Nil
  then show ?case by (simp add: ret_def)
next
  case (Cons x xs)
  then obtain y v where *: "f x w = (Inr y, v)" "P x y" "I v" by force
  obtain ys w' where "each f xs v = (Inr ys, w')" "list_all2 P xs ys" "I w'"
    using Cons.IH [of v] Cons.prems(1) *(3) by force
  then show ?case using * by (simp add: seq_def ret_def)
qed

end
