(* ===== verification/Podman.thy ===== *)
theory Podman
  imports Engine
begin

text \<open>
  The runtime crate over the host's endpoints: containers, images, volumes,
  networks and secrets (\<^verbatim>\<open>pgpod-runtime/src/container.rs, volume.rs, network.rs,
  secret.rs, exec.rs\<close>).  Each operation comes with the lemma that names the
  requests it can make; none of them touches the store.
\<close>

datatype rt_error = ErrContainer string | ErrVolume string | ErrNetwork string | ErrSecret string
  | ErrExec string

fun show_rt_error :: "rt_error \<Rightarrow> string" where
  "show_rt_error (ErrContainer m) = ''container operation failed: '' @ m"
| "show_rt_error (ErrVolume m) = ''volume operation failed: '' @ m"
| "show_rt_error (ErrNetwork m) = ''network operation failed: '' @ m"
| "show_rt_error (ErrSecret m) = ''secret operation failed: '' @ m"
| "show_rt_error (ErrExec m) = ''exec failed: '' @ m"

type_synonym ('p, 'a) rt = "('p, rt_error, 'a) act"

definition request :: "(string \<Rightarrow> rt_error) \<Rightarrow> string \<Rightarrow> call \<Rightarrow> ('p, 'a) endpoint \<Rightarrow> ('p, 'a) rt" where
  "request kind what c e = act_err (\<lambda>m. kind (what @ '': '' @ m)) (perform c e)"

lemma request_within [within_intros]: "A c \<Longrightarrow> obeys (within A S) (request kind what c e)"
  by (auto simp: request_def intro: within_intros)

section \<open>Containers\<close>

record container_probe =
  cp_id :: string
  cp_name :: "string option"
  cp_running :: bool
  cp_status :: "string option"
  cp_exit_code :: "int option"
  cp_env :: "string list"
  cp_image_id :: "string option"
  cp_image_name :: "string option"

definition unwrap_or :: "'a \<Rightarrow> 'a option \<Rightarrow> 'a" where
  "unwrap_or d v = (case v of None \<Rightarrow> d | Some x \<Rightarrow> x)"

definition probe_of :: "string \<Rightarrow> inspect_data \<Rightarrow> container_probe" where
  "probe_of cid d = \<lparr> cp_id = unwrap_or cid (id_id d), cp_name = id_name d,
     cp_running = unwrap_or False (id_running d), cp_status = id_status d,
     cp_exit_code = id_exit_code d, cp_env = unwrap_or [] (id_env d),
     cp_image_id = id_image d, cp_image_name = id_image_name d \<rparr>"

definition env_var :: "container_probe \<Rightarrow> string \<Rightarrow> string option" where
  "env_var p key =
     (case find (\<lambda>e. strip_prefix (key @ ''='') e \<noteq> None) (cp_env p) of
        None \<Rightarrow> None | Some e \<Rightarrow> strip_prefix (key @ ''='') e)"

definition probe :: "'p host \<Rightarrow> string \<Rightarrow> ('p, container_probe option) rt" where
  "probe h c =
     seq (request ErrContainer (''exists '' @ c) (CallExists c) (h_exists h c)) (\<lambda>there.
     if \<not> there then ret None
     else seq (request ErrContainer (''inspect '' @ c) (CallInspect c) (h_inspect h c)) (\<lambda>d.
       ret (Some (probe_of c d))))"

definition start :: "'p host \<Rightarrow> string \<Rightarrow> ('p, unit) rt" where
  "start h c = request ErrContainer (''start '' @ c) (CallStart c) (h_start h c)"

definition is_netns_teardown_error :: "string \<Rightarrow> bool" where
  "is_netns_teardown_error detail \<longleftrightarrow>
     str_contains detail ''rootless netns'' \<and> str_contains detail ''kill network process''"

definition gone_or_stopped :: "rt_error + container_probe option \<Rightarrow> bool" where
  "gone_or_stopped r = (case r of Inl _ \<Rightarrow> False | Inr None \<Rightarrow> True | Inr (Some p) \<Rightarrow> \<not> cp_running p)"

definition forgive_netns_teardown :: "'p host \<Rightarrow> string \<Rightarrow> string \<Rightarrow> string \<Rightarrow> ('p, unit) rt" where
  "forgive_netns_teardown h c verb detail =
     (let refusal = fail (ErrContainer (verb @ '' '' @ c @ '': '' @ detail)) in
      if is_netns_teardown_error detail then
        attempt (probe h c) (\<lambda>r. if gone_or_stopped r then ret () else refusal)
      else refusal)"

definition stop :: "'p host \<Rightarrow> string \<Rightarrow> nat \<Rightarrow> ('p, unit) rt" where
  "stop h c secs = attempt (perform (CallStop c secs) (h_stop h c secs)) (\<lambda>r.
     case r of Inr _ \<Rightarrow> ret () | Inl e \<Rightarrow> forgive_netns_teardown h c ''stop'' e)"

definition remove :: "'p host \<Rightarrow> string \<Rightarrow> bool \<Rightarrow> ('p, unit) rt" where
  "remove h c force = attempt (perform (CallDelete c force) (h_delete h c force)) (\<lambda>r.
     case r of Inr _ \<Rightarrow> ret () | Inl e \<Rightarrow> forgive_netns_teardown h c ''delete'' e)"

definition logs_string :: "'p host \<Rightarrow> string \<Rightarrow> ('p, string) rt" where
  "logs_string h c = request ErrContainer (''logs '' @ c) (CallLogs c) (h_logs h c)"

text \<open>A command in a running container: create the exec, run it and collect both
  streams, then ask for the exit code, an \<^verbatim>\<open>i64\<close> kept as an \<^verbatim>\<open>i32\<close>.\<close>

record exec_output =
  eo_exit_code :: "int option"
  eo_stdout :: string
  eo_stderr :: string

definition as_i32 :: "int \<Rightarrow> int" where
  "as_i32 c = sint (word_of_int c :: 32 word)"

definition exec :: "'p host \<Rightarrow> string \<Rightarrow> string list \<Rightarrow> ('p, exec_output) rt" where
  "exec h c argv =
     seq (request ErrExec ''create exec'' (CallExec c argv) (h_exec_create h c argv)) (\<lambda>x.
     seq (request ErrExec ''start exec'' (CallExec c argv) (h_exec_start h x)) (\<lambda>(out, err).
     seq (request ErrExec ''inspect exec'' (CallExec c argv) (h_exec_inspect h x)) (\<lambda>code.
     ret \<lparr> eo_exit_code = map_option as_i32 code, eo_stdout = out, eo_stderr = err \<rparr>)))"

definition exec_success :: "exec_output \<Rightarrow> bool" where
  "exec_success out \<longleftrightarrow> eo_exit_code out = Some 0"

definition show_int :: "int \<Rightarrow> string" where
  "show_int i = (if i < 0 then CHR ''-'' # show_nat (nat (- i)) else show_nat (nat i))"

definition require_success :: "string \<Rightarrow> exec_output \<Rightarrow> rt_error + exec_output" where
  "require_success what out =
     (if exec_success out then Inr out
      else Inl (ErrExec (what @ '' exited with '' @
        (case eo_exit_code out of None \<Rightarrow> ''no exit code'' | Some c \<Rightarrow> show_int c) @ '': '' @
        (if trim (eo_stderr out) = [] then trim (eo_stdout out) else trim (eo_stderr out)))))"

definition wait_for_exit :: "'p host \<Rightarrow> string \<Rightarrow> ('p, int) rt" where
  "wait_for_exit h c =
     seq (request ErrContainer (''wait '' @ c) (CallWait c) (h_wait h c)) (\<lambda>_.
     seq (probe h c) (\<lambda>p.
     of_result (ok_or (ErrContainer (c @ '': exited without an exit code''))
       (case p of None \<Rightarrow> None | Some q \<Rightarrow> cp_exit_code q))))"

definition http_ok :: "nat \<Rightarrow> bool" where "http_ok status \<longleftrightarrow> 200 \<le> status \<and> status < 300"

definition created_id :: "'p host \<Rightarrow> string \<Rightarrow> rt_error + string" where
  "created_id h response =
     and_then (map_err (\<lambda>e. ErrContainer (''parse create response: '' @ e @ '': '' @ response))
         (h_parse_json h response)) (\<lambda>j.
     case json_get ''Id'' j of
       Some (JStr i) \<Rightarrow> Inr i
     | _ \<Rightarrow> Inl (ErrContainer (''create response had no Id: '' @ response)))"

definition create_container :: "'p host \<Rightarrow> container_spec \<Rightarrow> ('p, string) rt" where
  "create_container h s =
     seq (of_result (map_err (\<lambda>e. ErrContainer (''serialize create options: '' @ e))
            (h_serialize h (build_opts s)))) (\<lambda>j.
     seq (of_result (map_err ErrContainer
            (patch_create_payload j (cs_no_new_privileges s) (cs_log_driver s)))) (\<lambda>body.
     seq (act_err ErrContainer (perform (CallCreate body) (h_post_create h body))) (\<lambda>(status, response).
     if \<not> http_ok status
     then fail (ErrContainer (''create returned HTTP '' @ show_nat status @ '': '' @ trim response))
     else of_result (created_id h response))))"

lemma probe_within [within_intros]:
  "A (CallExists c) \<Longrightarrow> A (CallInspect c) \<Longrightarrow> obeys (within A S) (probe h c)"
  unfolding probe_def by (intro within_intros)

lemma start_within [within_intros]: "A (CallStart c) \<Longrightarrow> obeys (within A S) (start h c)"
  unfolding start_def by (intro within_intros)

lemma forgive_within [within_intros]:
  "A (CallExists c) \<Longrightarrow> A (CallInspect c) \<Longrightarrow>
    obeys (within A S) (forgive_netns_teardown h c verb detail)"
  unfolding forgive_netns_teardown_def Let_def by (intro within_intros)

lemma stop_within [within_intros]:
  "A (CallStop c n) \<Longrightarrow> A (CallExists c) \<Longrightarrow> A (CallInspect c) \<Longrightarrow> obeys (within A S) (stop h c n)"
  unfolding stop_def by (intro within_intros)

lemma remove_within [within_intros]:
  "A (CallDelete c f) \<Longrightarrow> A (CallExists c) \<Longrightarrow> A (CallInspect c) \<Longrightarrow> obeys (within A S) (remove h c f)"
  unfolding remove_def by (intro within_intros)

lemma logs_within [within_intros]: "A (CallLogs c) \<Longrightarrow> obeys (within A S) (logs_string h c)"
  unfolding logs_string_def by (intro within_intros)

lemma exec_within [within_intros]: "A (CallExec c argv) \<Longrightarrow> obeys (within A S) (exec h c argv)"
  unfolding exec_def by (intro within_intros)

lemma wait_for_exit_within [within_intros]:
  "A (CallWait c) \<Longrightarrow> A (CallExists c) \<Longrightarrow> A (CallInspect c) \<Longrightarrow> obeys (within A S) (wait_for_exit h c)"
  unfolding wait_for_exit_def by (intro within_intros)

lemma create_within [within_intros]:
  "(\<And>j. A (CallCreate j)) \<Longrightarrow> obeys (within A S) (create_container h s)"
  unfolding create_container_def by (intro within_intros)

section \<open>Images\<close>

definition image_present :: "'p host \<Rightarrow> string \<Rightarrow> ('p, bool) rt" where
  "image_present h i = attempt (perform (CallImageExists i) (h_image_exists h i)) (\<lambda>r.
     ret (case r of Inl _ \<Rightarrow> False | Inr b \<Rightarrow> b))"

definition pull_image_if_absent :: "'p host \<Rightarrow> string \<Rightarrow> ('p, unit) rt" where
  "pull_image_if_absent h i =
     seq (image_present h i) (\<lambda>there. if there then ret () else
     seq (request ErrContainer (''pull '' @ i) (CallImagePull i) (h_image_pull h i)) (\<lambda>_.
     seq (image_present h i) (\<lambda>there. if there then ret ()
       else fail (ErrContainer (''pulled '' @ i @ '' but it is still not present '' @ em_dash @
         '' check the name and tag exist in the registry, and that this host can reach it'')))))"

definition image_id :: "'p host \<Rightarrow> string \<Rightarrow> ('p, string option) rt" where
  "image_id h i =
     seq (image_present h i) (\<lambda>there. if \<not> there then ret None
       else request ErrContainer (''inspect image '' @ i) (CallImageInspect i) (h_image_inspect h i))"

lemma image_present_within [within_intros]:
  "A (CallImageExists i) \<Longrightarrow> obeys (within A S) (image_present h i)"
  unfolding image_present_def by (intro within_intros)

lemma pull_within [within_intros]:
  "A (CallImageExists i) \<Longrightarrow> A (CallImagePull i) \<Longrightarrow> obeys (within A S) (pull_image_if_absent h i)"
  unfolding pull_image_if_absent_def by (intro within_intros)

lemma image_id_within [within_intros]:
  "A (CallImageExists i) \<Longrightarrow> A (CallImageInspect i) \<Longrightarrow> obeys (within A S) (image_id h i)"
  unfolding image_id_def by (intro within_intros)

section \<open>Volumes\<close>

definition find_volume :: "'p host \<Rightarrow> string \<Rightarrow> ('p, volume_info option) rt" where
  "find_volume h v =
     seq (request ErrVolume (''exists '' @ v) (CallVolumeExists v) (h_volume_exists h v)) (\<lambda>there.
     if \<not> there then ret None
     else seq (request ErrVolume (''inspect '' @ v) (CallVolumeInspect v) (h_volume_inspect h v)) (\<lambda>i.
       ret (Some i)))"

definition create_volume :: "'p host \<Rightarrow> string \<Rightarrow> (string \<times> string) list \<Rightarrow> ('p, volume_info) rt" where
  "create_volume h v labels =
     seq (find_volume h v) (\<lambda>old. case old of Some i \<Rightarrow> ret i | None \<Rightarrow>
     seq (request ErrVolume (''create '' @ v) (CallVolumeCreate v)
            (h_volume_create h v (collect_map labels))) (\<lambda>_.
     seq (find_volume h v) (\<lambda>new. of_result
       (ok_or (ErrVolume (''created volume '' @ v @ '' but it is not visible'')) new))))"

definition remove_volume_destroying_data :: "'p host \<Rightarrow> string \<Rightarrow> ('p, unit) rt" where
  "remove_volume_destroying_data h v =
     request ErrVolume (''delete '' @ v) (CallVolumeDelete v) (h_volume_delete h v)"

definition list_volumes_labelled :: "'p host \<Rightarrow> string \<Rightarrow> ('p, volume_info list) rt" where
  "list_volumes_labelled h l = request ErrVolume ''list'' (CallVolumeList l) (h_volume_list h l)"

definition prune_unlabelled_volumes :: "'p host \<Rightarrow> ('p, nat) rt" where
  "prune_unlabelled_volumes h = request ErrVolume ''prune'' CallVolumePrune (h_volume_prune h)"

lemma find_volume_within [within_intros]:
  "A (CallVolumeExists v) \<Longrightarrow> A (CallVolumeInspect v) \<Longrightarrow> obeys (within A S) (find_volume h v)"
  unfolding find_volume_def by (intro within_intros)

lemma create_volume_within [within_intros]:
  "A (CallVolumeExists v) \<Longrightarrow> A (CallVolumeInspect v) \<Longrightarrow> A (CallVolumeCreate v) \<Longrightarrow>
    obeys (within A S) (create_volume h v labels)"
  unfolding create_volume_def by (intro within_intros)

lemma remove_volume_within [within_intros]:
  "A (CallVolumeDelete v) \<Longrightarrow> obeys (within A S) (remove_volume_destroying_data h v)"
  unfolding remove_volume_destroying_data_def by (intro within_intros)

section \<open>Networks\<close>

record network_info =
  ni_name :: string
  ni_id :: "string option"
  ni_driver :: "string option"
  ni_dns_enabled :: bool
  ni_subnet :: "string option"

definition network_info_of :: "string \<Rightarrow> network_data \<Rightarrow> network_info" where
  "network_info_of n d = \<lparr> ni_name = unwrap_or n (nd_name d), ni_id = nd_id d,
     ni_driver = nd_driver d, ni_dns_enabled = unwrap_or False (nd_dns_enabled d),
     ni_subnet = (case nd_subnets d of Some (s # _) \<Rightarrow> s | _ \<Rightarrow> None) \<rparr>"

definition find_network :: "'p host \<Rightarrow> string \<Rightarrow> ('p, network_info option) rt" where
  "find_network h n =
     seq (request ErrNetwork (''exists '' @ n) (CallNetworkExists n) (h_network_exists h n)) (\<lambda>there.
     if \<not> there then ret None
     else seq (request ErrNetwork (''inspect '' @ n) (CallNetworkInspect n) (h_network_inspect h n)) (\<lambda>d.
       ret (Some (network_info_of n d))))"

definition ensure_network :: "'p host \<Rightarrow> string \<Rightarrow> (string \<times> string) list \<Rightarrow> ('p, network_info) rt" where
  "ensure_network h n labels =
     seq (find_network h n) (\<lambda>old. case old of Some i \<Rightarrow> ret i | None \<Rightarrow>
     seq (request ErrNetwork (''create '' @ n) (CallNetworkCreate n)
            (h_network_create h n (collect_map labels))) (\<lambda>_.
     seq (find_network h n) (\<lambda>new. of_result
       (ok_or (ErrNetwork (''created network '' @ n @ '' but it is not visible'')) new))))"

definition remove_network :: "'p host \<Rightarrow> string \<Rightarrow> ('p, unit) rt" where
  "remove_network h n = request ErrNetwork (''remove '' @ n) (CallNetworkDelete n) (h_network_delete h n)"

definition list_networks_labelled :: "'p host \<Rightarrow> string \<Rightarrow> ('p, network_info list) rt" where
  "list_networks_labelled h l =
     seq (request ErrNetwork ''list'' (CallNetworkList l) (h_network_list h l)) (\<lambda>ns.
     ret (map (\<lambda>n. network_info_of (unwrap_or [] (nd_name n)) n) ns))"

lemma find_network_within [within_intros]:
  "A (CallNetworkExists n) \<Longrightarrow> A (CallNetworkInspect n) \<Longrightarrow> obeys (within A S) (find_network h n)"
  unfolding find_network_def by (intro within_intros)

lemma ensure_network_within [within_intros]:
  "A (CallNetworkExists n) \<Longrightarrow> A (CallNetworkInspect n) \<Longrightarrow> A (CallNetworkCreate n) \<Longrightarrow>
    obeys (within A S) (ensure_network h n labels)"
  unfolding ensure_network_def by (intro within_intros)

lemma remove_network_within [within_intros]:
  "A (CallNetworkDelete n) \<Longrightarrow> obeys (within A S) (remove_network h n)"
  unfolding remove_network_def by (intro within_intros)

section \<open>Secrets\<close>

definition secret_exists :: "'p host \<Rightarrow> string \<Rightarrow> ('p, bool) rt" where
  "secret_exists h n =
     seq (request ErrSecret ''list'' CallSecretList (h_secret_list h)) (\<lambda>names.
     ret (Some n \<in> set names))"

definition remove_secret :: "'p host \<Rightarrow> string \<Rightarrow> ('p, unit) rt" where
  "remove_secret h n = request ErrSecret (''delete '' @ n) (CallSecretDelete n) (h_secret_delete h n)"

text \<open>A rotation is a delete and a create; a failed delete is the ordinary first time.\<close>

definition put_secret :: "'p host \<Rightarrow> string \<Rightarrow> string \<Rightarrow> ('p, unit) rt" where
  "put_secret h n v =
     attempt (remove_secret h n) (\<lambda>_.
     seq (act_err ErrSecret (perform (CallSecretPost n) (h_secret_post h n v))) (\<lambda>(status, response).
     if \<not> http_ok status
     then fail (ErrSecret (''failed to create secret '' @ n @ '': HTTP '' @ show_nat status))
     else case h_parse_json h response of
         Inl _ \<Rightarrow> fail (ErrSecret (''create secret '' @ n @ '': unreadable response''))
       | Inr _ \<Rightarrow> ret ()))"

definition secret_value :: "'p host \<Rightarrow> string \<Rightarrow> ('p, string option) rt" where
  "secret_value h n =
     seq (act_err ErrSecret (perform (CallSecretGet n) (h_secret_get h n))) (\<lambda>(status, body).
     if status = 404 then ret None
     else if \<not> http_ok status
     then fail (ErrSecret (''failed to read secret '' @ n @ '': HTTP '' @ show_nat status))
     else case h_parse_json h body of
         Inl _ \<Rightarrow> fail (ErrSecret (''read secret '' @ n @ '': unreadable response''))
       | Inr j \<Rightarrow> ret (case json_get ''SecretData'' j of Some (JStr s) \<Rightarrow> Some s | _ \<Rightarrow> None))"

lemma secret_exists_within [within_intros]:
  "A CallSecretList \<Longrightarrow> obeys (within A S) (secret_exists h n)"
  unfolding secret_exists_def by (intro within_intros)

lemma remove_secret_within [within_intros]:
  "A (CallSecretDelete n) \<Longrightarrow> obeys (within A S) (remove_secret h n)"
  unfolding remove_secret_def by (intro within_intros)

lemma put_secret_within [within_intros]:
  "A (CallSecretDelete n) \<Longrightarrow> A (CallSecretPost n) \<Longrightarrow> obeys (within A S) (put_secret h n v)"
  unfolding put_secret_def by (intro within_intros)

lemma secret_value_within [within_intros]:
  "A (CallSecretGet n) \<Longrightarrow> obeys (within A S) (secret_value h n)"
  unfolding secret_value_def by (intro within_intros)

section \<open>A concrete host\<close>

text \<open>A host to evaluate the operations on: its state says which containers there are
  and which of them run.  Every image, volume and network it is asked for is there, secrets
  can be written and are not listed, and every command run in a container succeeds.\<close>

type_synonym demo_podman = "(string \<times> bool) list"

definition demo_set :: "string \<Rightarrow> bool \<Rightarrow> demo_podman \<Rightarrow> demo_podman" where
  "demo_set c b s = map (\<lambda>(n, r). (n, if n = c then b else r)) s"

definition demo_inspect :: "string \<Rightarrow> demo_podman \<Rightarrow> inspect_data" where
  "demo_inspect c s = \<lparr> id_id = Some c, id_name = Some c, id_running = map_of s c,
     id_status = None, id_exit_code = None, id_env = Some [], id_image = Some ''img'',
     id_image_name = Some ''img'' \<rparr>"

definition demo_volume :: "string \<Rightarrow> volume_info" where
  "demo_volume v = \<lparr> vi_name = v, vi_mountpoint = ''/mnt/'' @ v, vi_driver = ''local'',
     vi_labels = (\<lambda>_. None) \<rparr>"

definition demo_network :: "string \<Rightarrow> network_data" where
  "demo_network n = \<lparr> nd_name = Some n, nd_id = None, nd_driver = Some ''bridge'',
     nd_dns_enabled = Some True, nd_subnets = Some [Some ''10.89.3.0/24''] \<rparr>"

definition answer :: "'a \<Rightarrow> ('p, 'a) endpoint" where
  "answer x s = (Inr x, 1, s)"

definition demo_host :: "demo_podman host" where
  "demo_host = \<lparr>
     h_exists = \<lambda>c s. answer (map_of s c \<noteq> None) s,
     h_inspect = \<lambda>c s. answer (demo_inspect c s) s,
     h_start = \<lambda>c s. (Inr (), 1, demo_set c True s),
     h_stop = \<lambda>c n s. (Inr (), 1, demo_set c False s),
     h_delete = \<lambda>c f s. (Inr (), 1, filter (\<lambda>x. fst x \<noteq> c) s),
     h_serialize = \<lambda>o'. Inr (JObj [(''image'', JStr (co_image o'))]),
     h_post_create = \<lambda>j s. (Inr (201, ''{}''), 1, (''new'', False) # s),
     h_parse_json = \<lambda>_. Inr (JObj [(''Id'', JStr ''new'')]),
     h_exec_create = \<lambda>c argv. answer ''x'', h_exec_start = \<lambda>x. answer (''f'', []),
     h_exec_inspect = \<lambda>x. answer (Some 0), h_wait = \<lambda>c. answer (),
     h_logs = \<lambda>c. answer [],
     h_image_exists = \<lambda>i. answer True, h_image_pull = \<lambda>i. answer (),
     h_image_inspect = \<lambda>i. answer (Some i),
     h_volume_exists = \<lambda>v. answer True, h_volume_inspect = \<lambda>v. answer (demo_volume v),
     h_volume_create = \<lambda>v l. answer (), h_volume_delete = \<lambda>v. answer (),
     h_volume_list = \<lambda>l. answer [], h_volume_prune = answer 0,
     h_network_exists = \<lambda>n. answer True, h_network_inspect = \<lambda>n. answer (demo_network n),
     h_network_create = \<lambda>n l. answer (), h_network_delete = \<lambda>n. answer (),
     h_network_list = \<lambda>l. answer [],
     h_secret_list = answer [], h_secret_get = \<lambda>n. answer (404, []),
     h_secret_post = \<lambda>n v. answer (200, ''{}''), h_secret_delete = \<lambda>n. answer (),
     h_bind_port = \<lambda>p. answer (), h_free_port = answer 40000,
     h_random = \<lambda>n s. (replicate n 0, s), h_is_file = \<lambda>f. answer True \<rparr>"

definition demo_world :: "demo_podman \<Rightarrow> registry \<Rightarrow> demo_podman world" where
  "demo_world s db = \<lparr> wd_podman = s, wd_now = 0, wd_db = db, wd_calls = [] \<rparr>"

lemmas act_defs = ret_def fail_def of_result_def seq_def attempt_def act_err_def read_db_def
  write_db_def sleep_def now_ms_def perform_def request_def

lemmas demo_defs = demo_host_def demo_world_def demo_set_def demo_inspect_def demo_volume_def
  demo_network_def answer_def probe_of_def unwrap_or_def

section \<open>Properties\<close>

text \<open>A refused stop counts as done in one case only: the engine's message is the
  known teardown complaint and a look at the container afterwards finds it gone
  or not running.  In every other case the refusal, with the engine's own words,
  is what the caller gets.\<close>

theorem stop_forgives_narrowly:
  assumes "perform (CallStop c n) (h_stop h c n) w = (r, w1)"
  shows "(case r of Inr _ \<Rightarrow> stop h c n w = (Inr (), w1)
    | Inl e \<Rightarrow> (fst (stop h c n w) = Inr () \<longleftrightarrow>
          is_netns_teardown_error e \<and> gone_or_stopped (fst (probe h c w1))) \<and>
        (fst (stop h c n w) \<noteq> Inr () \<longrightarrow>
          fst (stop h c n w) = Inl (ErrContainer (''stop '' @ c @ '': '' @ e))))"
proof (cases r)
  case (Inl e)
  obtain p w2 where "probe h c w1 = (p, w2)" by (cases "probe h c w1")
  then show ?thesis using assms Inl
    by (cases "is_netns_teardown_error e"; cases "gone_or_stopped p")
      (simp_all add: stop_def attempt_def forgive_netns_teardown_def ret_def fail_def)
next
  case (Inr u)
  then show ?thesis using assms by (simp add: stop_def attempt_def ret_def)
qed

definition flaky_host :: "demo_podman host" where
  "flaky_host = demo_host\<lparr> h_stop := \<lambda>c n s.
     (Inl ''rootless netns: kill network process: denied'', 1, demo_set c False s) \<rparr>"

theorem stop_forgives_narrowly_witness:
  shows "fst (stop flaky_host ''c'' 30 (demo_world [(''c'', True)] empty_registry)) = Inr ()"
proof -
  let ?w = "demo_world [(''c'', True)] empty_registry"
  let ?e = "''rootless netns: kill network process: denied''"
  obtain w1 where w1: "perform (CallStop ''c'' 30) (h_stop flaky_host ''c'' 30) ?w = (Inl ?e, w1)"
    "wd_podman w1 = [(''c'', False)]"
    by (simp add: flaky_host_def perform_def demo_defs)
  have "is_netns_teardown_error ?e" by (simp add: is_netns_teardown_error_def str_contains_def sublist_Cons_right)
  moreover have "gone_or_stopped (fst (probe flaky_host ''c'' w1))"
    using w1(2) by (simp add: probe_def flaky_host_def act_defs demo_defs gone_or_stopped_def)
  ultimately show ?thesis using stop_forgives_narrowly [OF w1(1)] by simp
qed

end
