(* ===== verification/Control.thy ===== *)
theory Control
  imports Podman
begin

text \<open>
  What every command of the control plane shares: its error type, the paths
  inside a container, the password generator and the polling loops
  (\<^verbatim>\<open>pgpod-control/src/lib.rs, password.rs, status.rs, pooler.rs\<close> and the
  constants of \<^verbatim>\<open>pgpod-core/src/paths.rs\<close>).  A duration is a number of
  milliseconds.

  A loop of the code runs while the clock is before a deadline and sleeps 500 ms
  in every turn.  \<open>wait_until\<close> gives it one unit of fuel per 500 ms of the time that is left,
  and \<open>wait_until_unfold\<close> shows that this is the loop of the code: whatever the
  host answers and however long it takes, the fuel does not run out before the deadline.
\<close>

section \<open>Errors\<close>

datatype control_error = EPodman rt_error | ERegistry registry_error | EPostgres string
  | EManifest string | ESpec string | EBackup string | EPgBackRest string string
  | EUpgrade string string | EPgBackRestMissing string | EAgentMissing string
  | EPortAllocation string | ENotReady string nat string | EDiverged string string
  | EPoolerDiverged string string | EInvalid string

fun show_registry_error :: "registry_error \<Rightarrow> string" where
  "show_registry_error ForeignKeyFailed = ''registry database: FOREIGN KEY constraint failed''"
| "show_registry_error UniqueFailed = ''registry database: UNIQUE constraint failed''"
| "show_registry_error (UnknownCluster c) = ''cluster '' @ c @ '' is not known to pgpod''"
| "show_registry_error (UnknownPooler p) = ''pooler '' @ p @ '' is not known to pgpod''"
| "show_registry_error (PoolerInUse c p) = ''cluster '' @ c @ '' is still fronted by pooler '' @ p @
     ''. Delete the pooler first (`pgpod pooler delete '' @ p @
     ''`), or it would be left accepting connections for a cluster that no longer exists.''"
| "show_registry_error (Corrupt m) = ''stored data is corrupt: '' @ m"

definition nl :: string where "nl = [CHR 0x0A]"

fun show_control_error :: "control_error \<Rightarrow> string" where
  "show_control_error (EPodman e) = show_rt_error e"
| "show_control_error (ERegistry e) = show_registry_error e"
| "show_control_error (EPostgres m) = m"
| "show_control_error (EManifest m) = m"
| "show_control_error (ESpec m) = m"
| "show_control_error (EBackup m) = m"
| "show_control_error (EPgBackRest c d) = ''pgbackrest '' @ c @ '' failed'' @ nl @ nl @ d"
| "show_control_error (EUpgrade s d) = ''the '' @ s @ '' step of the upgrade failed'' @ nl @ nl @ d"
| "show_control_error (EPgBackRestMissing p) = ''the pgBackRest bundle is not installed at '' @ p @
     '' '' @ em_dash @ '' build it with ops/build-pgbackrest.sh''"
| "show_control_error (EAgentMissing p) = ''the pgpod agent is not installed at '' @ p @
     '' '' @ em_dash @ '' build and install it with ops/build-agent.sh''"
| "show_control_error (EPortAllocation m) = ''could not allocate a host port: '' @ m"
| "show_control_error (ENotReady i s d) = ''instance '' @ i @ '' did not become ready within '' @
     show_nat s @ ''s'' @ nl @ d"
| "show_control_error (EDiverged i d) = i @ '' is running a different spec than the manifest describes, and '' @
     ''the spec is fixed when the container is created '' @ em_dash @
     '' a restart would re-run the agent with the old one.'' @ nl @ nl @ d @ nl @ nl @
     ''Applying this means replacing the container:'' @ nl @ nl @
     ''  pgpod apply -f <manifest> --recreate'' @ nl @ nl @
     ''With a pooler in front, clients are held across that window rather '' @
     ''than dropped (ADR 05). Without one, every open connection goes. '' @
     ''`pgpod delete <cluster>` followed by `pgpod apply` does the same '' @
     ''thing the long way and keeps the volume either way.''"
| "show_control_error (EPoolerDiverged p d) = ''pooler '' @ p @ '' is running a different spec than the manifest '' @
     ''describes, and the spec is fixed when the container is created.'' @ nl @ nl @ d @ nl @ nl @
     ''Replacing it drops every connection through it '' @ em_dash @ '' there is nothing in '' @
     ''front of a pooler to hold them '' @ em_dash @ '' so pgpod will not do it implicitly:'' @ nl @
     ''  pgpod pooler delete '' @ p @ nl @ ''  pgpod apply -f <manifest>'' @ nl @ nl @
     ''Nothing durable is destroyed: a pooler has no volume and re-renders its config on every start.''"
| "show_control_error (EInvalid m) = m"

type_synonym ('p, 'a) ctl = "('p, control_error, 'a) act"

definition pod :: "('p, 'a) rt \<Rightarrow> ('p, 'a) ctl" where "pod = act_err EPodman"

definition look :: "(registry \<Rightarrow> registry_error + 'a) \<Rightarrow> ('p, 'a) ctl" where
  "look f = read_db (\<lambda>db. map_err ERegistry (f db))"

definition store :: "(int \<Rightarrow> registry \<Rightarrow> registry_error + registry) \<Rightarrow> ('p, unit) ctl" where
  "store f = write_db (\<lambda>now db. and_then (map_err ERegistry (f now db)) (\<lambda>db'. Inr (db', ())))"

definition store_get :: "(int \<Rightarrow> registry \<Rightarrow> registry_error + registry \<times> 'a) \<Rightarrow> ('p, 'a) ctl" where
  "store_get f = write_db (\<lambda>now db. map_err ERegistry (f now db))"

definition note_event :: "string \<Rightarrow> 32 word option \<Rightarrow> string \<Rightarrow> string \<Rightarrow> ('p, unit) ctl" where
  "note_event c n level msg = store (\<lambda>now db. Inr (record_event now c n level msg db))"

lemma look_run: "f (wd_db w) = Inr x \<Longrightarrow> seq (look f) k w = k x w"
  by (simp add: look_def read_db_def seq_def)

lemma look_stop: "f (wd_db w) = Inl e \<Longrightarrow> seq (look f) k w = (Inl (ERegistry e), w)"
  by (simp add: look_def read_db_def seq_def)

lemma pod_within [within_intros]: "obeys (within A S) m \<Longrightarrow> obeys (within A S) (pod m)"
  unfolding pod_def by (rule within.act_err)

lemma look_within [within_intros]: "obeys (within A S) (look f)"
  unfolding look_def by (rule within.read_db)

lemma store_within [within_intros]:
  "(\<And>now db db'. f now db = Inr db' \<Longrightarrow> S db db') \<Longrightarrow> obeys (within A S) (store f)"
  unfolding store_def by (rule write_db_within) auto

lemma store_get_within [within_intros]:
  "(\<And>now db db' x. f now db = Inr (db', x) \<Longrightarrow> S db db') \<Longrightarrow> obeys (within A S) (store_get f)"
  unfolding store_get_def by (rule write_db_within) auto

lemma note_event_within [within_intros]:
  "(\<And>now db. S db (record_event now c n l m db)) \<Longrightarrow> obeys (within A S) (note_event c n l m)"
  unfolding note_event_def by (rule store_within) auto

section \<open>Paths inside a container\<close>

definition socket_dir :: string where "socket_dir = ''/pgdata/run''"
definition agent_bin :: string where "agent_bin = ''/usr/local/bin/pgpod-agent''"
definition volume_mount :: string where "volume_mount = ''/pgdata''"
definition archive_mount :: string where "archive_mount = ''/archive''"
definition pgbackrest_bundle_mount :: string where "pgbackrest_bundle_mount = ''/opt/pgpod''"
definition secret_superuser :: string where "secret_superuser = ''/run/secrets/pgpod-superuser''"
definition secret_replication :: string where "secret_replication = ''/run/secrets/pgpod-replication''"
definition secret_monitor :: string where "secret_monitor = ''/run/secrets/pgpod-monitor''"
definition secret_app_owner :: string where "secret_app_owner = ''/run/secrets/pgpod-app-owner''"
definition secret_pooler_admin :: string where "secret_pooler_admin = ''/run/secrets/pgpod-pooler-admin''"

section \<open>Passwords\<close>

definition alphabet :: string where
  "alphabet = ''ABCDEFGHIJKLMNOPQRSTUVWXYZabcdefghijklmnopqrstuvwxyz0123456789''"

definition password_length :: nat where "password_length = 32"

text \<open>The host draws numbers; the code keeps each inside the alphabet's range.\<close>

definition password_of :: "nat list \<Rightarrow> string" where
  "password_of rs = map (\<lambda>r. alphabet ! (r mod length alphabet)) rs"

definition generate :: "'p host \<Rightarrow> ('p, 'e, string) act" where
  "generate h w = (case h_random h password_length (wd_podman w) of
     (rs, p) \<Rightarrow> (Inr (password_of rs), w\<lparr> wd_podman := p \<rparr>))"

lemma generate_within [within_intros]: "obeys (within A S) (generate h)"
  by (rule obeysI) (auto simp: generate_def within_def split: prod.splits)

section \<open>Polling\<close>

text \<open>What one turn of a loop finds: it is done, it stops waiting, or it sleeps and
  looks again; the string is what the code keeps as the last thing it saw.\<close>

datatype poll = Ready | GaveUp string | Again string

definition poll_interval :: nat where "poll_interval = 500"

definition doze :: "'p world \<Rightarrow> 'p world" where
  "doze w = snd (sleep poll_interval w :: (unit + unit) \<times> 'p world)"

fun poll_n :: "nat \<Rightarrow> ('p, 'e, poll) act \<Rightarrow> (string \<Rightarrow> ('p, 'e, unit) act) \<Rightarrow> nat \<Rightarrow> string \<Rightarrow>
    ('p, 'e, unit) act" where
  "poll_n 0 body give_up deadline seen w = give_up seen w"
| "poll_n (Suc n) body give_up deadline seen w =
     (if wd_now w < deadline then
        (case body w of
           (Inl e, w') \<Rightarrow> (Inl e, w')
         | (Inr Ready, w') \<Rightarrow> (Inr (), w')
         | (Inr (GaveUp seen'), w') \<Rightarrow> give_up seen' w'
         | (Inr (Again seen'), w') \<Rightarrow> poll_n n body give_up deadline seen' (doze w'))
      else give_up seen w)"

definition turns_left :: "nat \<Rightarrow> 'p world \<Rightarrow> nat" where
  "turns_left deadline w = (deadline - wd_now w + (poll_interval - 1)) div poll_interval"

definition wait_until :: "('p, 'e, poll) act \<Rightarrow> (string \<Rightarrow> ('p, 'e, unit) act) \<Rightarrow> nat \<Rightarrow>
    string \<Rightarrow> ('p, 'e, unit) act" where
  "wait_until body give_up deadline seen w =
     poll_n (turns_left deadline w) body give_up deadline seen w"

definition forward :: "'p world \<Rightarrow> 'p world \<Rightarrow> bool" where
  "forward w w' \<longleftrightarrow> wd_now w \<le> wd_now w'"

interpretation forward: effect forward
  by unfold_locales (auto simp: forward_def)

lemma within_forward: "obeys (within A S) m \<Longrightarrow> obeys forward m"
  by (auto simp: obeys_def within_def forward_def)

lemma turns_left_doze:
  assumes "forward w w'" "wd_now w < deadline"
  shows "turns_left deadline (doze w') < turns_left deadline w"
proof -
  have step: "x div 500 < y div 500" if "x + 500 \<le> y" for x y :: nat
    using div_le_mono [OF that, of 500] by simp
  show ?thesis
  proof (cases "wd_now w' + 500 < deadline")
    case True
    then show ?thesis using assms
      by (auto simp: turns_left_def doze_def sleep_def poll_interval_def forward_def intro!: step)
  next
    case False
    then show ?thesis using assms
      by (auto simp: turns_left_def doze_def sleep_def poll_interval_def forward_def intro!: step)
  qed
qed

lemma turns_left_pos: "wd_now w < deadline \<longleftrightarrow> 0 < turns_left deadline w"
  by (auto simp: turns_left_def poll_interval_def)

lemma poll_n_enough:
  assumes "obeys forward body" "turns_left deadline w \<le> n"
  shows "poll_n n body give_up deadline seen w = poll_n (turns_left deadline w) body give_up deadline seen w"
  using assms(2)
proof (induction n arbitrary: w seen rule: less_induct)
  case (less n)
  show ?case
  proof (cases "wd_now w < deadline")
    case False
    then show ?thesis using turns_left_pos [of w deadline] by (cases n) simp_all
  next
    case True
    then obtain m where m: "turns_left deadline w = Suc m" using turns_left_pos [of w deadline]
      by (cases "turns_left deadline w") auto
    with less.prems obtain n' where n: "n = Suc n'" by (cases n) auto
    have "poll_n n' body give_up deadline s (doze w') = poll_n m body give_up deadline s (doze w')"
      if "body w = (r, w')" for s r w'
    proof -
      have le: "turns_left deadline (doze w') \<le> m"
        using turns_left_doze [OF obeysD [OF assms(1) that] True] m by simp
      show ?thesis using less.IH [of n' "doze w'" s] less.IH [of m "doze w'" s] le n m less.prems
        by simp
    qed
    then show ?thesis using True by (simp add: n m split: prod.split sum.split poll.split)
  qed
qed

lemma wait_until_unfold:
  assumes "obeys forward body"
  shows "wait_until body give_up deadline seen w =
    (if wd_now w < deadline then
       (case body w of
          (Inl e, w') \<Rightarrow> (Inl e, w')
        | (Inr Ready, w') \<Rightarrow> (Inr (), w')
        | (Inr (GaveUp seen'), w') \<Rightarrow> give_up seen' w'
        | (Inr (Again seen'), w') \<Rightarrow> wait_until body give_up deadline seen' (doze w'))
     else give_up seen w)"
proof (cases "wd_now w < deadline")
  case False
  then show ?thesis using turns_left_pos [of w deadline] by (simp add: wait_until_def)
next
  case True
  then obtain m where m: "turns_left deadline w = Suc m" using turns_left_pos [of w deadline]
    by (cases "turns_left deadline w") auto
  have "poll_n m body give_up deadline s (doze w') = wait_until body give_up deadline s (doze w')"
    if "body w = (r, w')" for s r w'
    unfolding wait_until_def
    by (rule poll_n_enough [OF assms]) (use turns_left_doze [OF obeysD [OF assms that] True] m in simp)
  then show ?thesis using True by (simp add: wait_until_def m split: prod.split sum.split poll.split)
qed

lemma poll_n_effect:
  assumes "effect R" "obeys R body" "\<And>s. obeys R (give_up s)" "\<And>w. R w (doze w)"
  shows "R w (snd (poll_n n body give_up deadline seen w))"
proof (induction n arbitrary: w seen)
  case 0
  then show ?case using assms(3) by (simp add: obeys_def)
next
  case (Suc n)
  note trans = effect.trans [OF assms(1)]
  obtain r w' where b: "body w = (r, w')" by (cases "body w")
  have 1: "R w w'" by (rule obeysD [OF assms(2) b])
  have 2: "R w (snd (give_up s w'))" for s
    using trans [OF 1] assms(3) by (simp add: obeys_def)
  have 3: "R w (snd (poll_n n body give_up deadline s (doze w')))" for s
    by (rule trans [OF trans [OF 1 assms(4)] Suc.IH])
  show ?case using b 1 2 3 assms(3) [unfolded obeys_def]
    by (simp split: sum.split poll.split)
qed

lemma doze_within: "within A S w (doze w)"
  by (simp add: within_def doze_def sleep_def)

lemma wait_until_within [within_intros]:
  "obeys (within A S) body \<Longrightarrow> (\<And>s. obeys (within A S) (give_up s)) \<Longrightarrow>
    obeys (within A S) (wait_until body give_up deadline seen)"
  unfolding obeys_def wait_until_def
  by (intro allI poll_n_effect [OF within.effect_axioms]) (auto simp: obeys_def doze_within)

section \<open>Waiting for an instance\<close>

definition psql_recovery_probe :: "string list" where
  "psql_recovery_probe = [''psql'', ''-X'', ''-tA'', ''-h'', socket_dir, ''-U'', ''postgres'', ''-c'',
     ''SELECT pg_is_in_recovery()'']"

definition isready_probe :: "string list" where
  "isready_probe = [''pg_isready'', ''-h'', socket_dir, ''-U'', ''postgres'']"

definition secs_of :: "nat \<Rightarrow> nat" where "secs_of ms = ms div 1000"

definition not_ready :: "'p host \<Rightarrow> instance_id \<Rightarrow> nat \<Rightarrow> string \<Rightarrow> ('p, 'a) ctl" where
  "not_ready h inst timeout seen =
     attempt (logs_string h (container_name inst)) (\<lambda>r.
     let logs = (case r of Inr l \<Rightarrow> l | Inl e \<Rightarrow> ''<logs unavailable: '' @ show_rt_error e @ ''>'') in
     fail (ENotReady (instance_id_display inst) (secs_of timeout)
       (''last probe: '' @ seen @ nl @ nl @ ''container logs:'' @ nl @ logs)))"

definition exec_report :: "exec_output \<Rightarrow> string" where
  "exec_report out = trim (eo_stdout out) @ trim (eo_stderr out)"

text \<open>The two steps of a turn after a failed probe: a container that exited ends the wait.\<close>

definition still_up :: "'p host \<Rightarrow> string \<Rightarrow> string \<Rightarrow> ('p, poll) ctl" where
  "still_up h c seen = seq (pod (probe h c)) (\<lambda>p.
     ret (case p of Some q \<Rightarrow> if cp_running q then Again seen else GaveUp seen | None \<Rightarrow> Again seen))"

definition mark_running :: "instance_id \<Rightarrow> ('p, unit) ctl" where
  "mark_running inst = seq (look (\<lambda>db. get_instance db (iid_cluster inst) (iid_ordinal inst))) (\<lambda>rec.
     case rec of None \<Rightarrow> ret ()
     | Some r \<Rightarrow> store (\<lambda>now. put_instance now (r\<lparr> in_phase := InstRunning \<rparr>)))"

definition ready_turn :: "'p host \<Rightarrow> instance_id \<Rightarrow> ('p, poll) ctl" where
  "ready_turn h inst = attempt (exec h (container_name inst) isready_probe) (\<lambda>r.
     case r of
       Inr out \<Rightarrow> if exec_success out then seq (mark_running inst) (\<lambda>_. ret Ready)
                  else still_up h (container_name inst) (exec_report out)
     | Inl e \<Rightarrow> still_up h (container_name inst) (show_rt_error e))"

definition wait_ready :: "'p host \<Rightarrow> instance_id \<Rightarrow> nat \<Rightarrow> ('p, unit) ctl" where
  "wait_ready h inst timeout w =
     wait_until (ready_turn h inst) (not_ready h inst timeout) (wd_now w + timeout) [] w"

definition writable_turn :: "'p host \<Rightarrow> instance_id \<Rightarrow> ('p, poll) ctl" where
  "writable_turn h inst = attempt (exec h (container_name inst) psql_recovery_probe) (\<lambda>r.
     case r of
       Inr out \<Rightarrow> if exec_success out \<and> trim (eo_stdout out) = ''f'' then ret Ready
                  else still_up h (container_name inst)
                    (if exec_success out then ''still in recovery'' else exec_report out)
     | Inl e \<Rightarrow> still_up h (container_name inst) (show_rt_error e))"

definition wait_writable :: "'p host \<Rightarrow> instance_id \<Rightarrow> nat \<Rightarrow> ('p, unit) ctl" where
  "wait_writable h inst timeout w =
     wait_until (writable_turn h inst)
       (\<lambda>seen. fail (ENotReady (instance_id_display inst) (secs_of timeout)
          (''never left recovery: '' @ seen)))
       (wd_now w + timeout) [] w"

definition running_container :: "'p host \<Rightarrow> instance_id \<Rightarrow> ('p, string) ctl" where
  "running_container h inst = seq (pod (probe h (container_name inst))) (\<lambda>p.
     case p of
       Some q \<Rightarrow> if cp_running q then ret (container_name inst)
         else fail (EInvalid (''instance '' @ instance_id_display inst @ '' is not running (state: '' @
           unwrap_or ''unknown'' (cp_status q) @ '')''))
     | None \<Rightarrow> fail (EInvalid (''instance '' @ instance_id_display inst @ '' has no container '' @
           em_dash @ '' has it been created?'')))"

section \<open>Waiting for a pooler\<close>

definition pooler_control :: "'p host \<Rightarrow> pooler_id \<Rightarrow> string \<Rightarrow> string list \<Rightarrow> ('p, string) ctl" where
  "pooler_control h p verb args =
     seq (pod (exec h (pooler_container_name p) ([agent_bin, ''pooler'', verb] @ args))) (\<lambda>out.
     if exec_success out then ret (eo_stdout out)
     else fail (EInvalid (''pooler '' @ pooler_str p @ '': '' @ trim (eo_stdout out) @ '' '' @
       trim (eo_stderr out))))"

definition pooler_turn :: "'p host \<Rightarrow> pooler_id \<Rightarrow> ('p, poll) ctl" where
  "pooler_turn h p = attempt (pooler_control h p ''pools'' []) (\<lambda>r.
     case r of Inr _ \<Rightarrow> ret Ready
     | Inl e \<Rightarrow> still_up h (pooler_container_name p) (show_control_error e))"

definition pooler_not_ready :: "'p host \<Rightarrow> pooler_id \<Rightarrow> nat \<Rightarrow> string \<Rightarrow> ('p, 'a) ctl" where
  "pooler_not_ready h p timeout seen =
     attempt (logs_string h (pooler_container_name p)) (\<lambda>r.
     let logs = (case r of Inr l \<Rightarrow> l | Inl e \<Rightarrow> ''<logs unavailable: '' @ show_rt_error e @ ''>'') in
     fail (ENotReady (pooler_str p) (secs_of timeout)
       (''last probe: '' @ seen @ nl @ nl @ ''container logs:'' @ nl @ logs)))"

definition wait_pooler_ready :: "'p host \<Rightarrow> pooler_id \<Rightarrow> nat \<Rightarrow> ('p, unit) ctl" where
  "wait_pooler_ready h p timeout w =
     wait_until (pooler_turn h p) (pooler_not_ready h p timeout) (wd_now w + timeout) [] w"

section \<open>What the shared operations do to the world\<close>

text \<open>The requests that only ask, of one container.\<close>

fun asks :: "string \<Rightarrow> call \<Rightarrow> bool" where
  "asks c (CallExists d) = (d = c)"
| "asks c (CallInspect d) = (d = c)"
| "asks c (CallExec d argv) = (d = c)"
| "asks c (CallLogs d) = (d = c)"
| "asks c _ = False"

definition marks :: "cluster_id \<Rightarrow> registry \<Rightarrow> registry \<Rightarrow> bool" where
  "marks c db db' \<longleftrightarrow> (\<exists>now r n. get_instance db c n = Inr (Some r) \<and>
     put_instance now (r\<lparr> in_phase := InstRunning \<rparr>) db = Inr db')"

lemma obeys_at: "(\<And>v. obeys R (m v)) \<Longrightarrow> obeys R (\<lambda>w. m w w)"
  by (simp add: obeys_def)

lemma not_ready_within [within_intros]:
  "A (CallLogs (container_name i)) \<Longrightarrow> obeys (within A S) (not_ready h i t s)"
  unfolding not_ready_def Let_def by (intro within_intros)

lemma pooler_not_ready_within [within_intros]:
  "A (CallLogs (pooler_container_name p)) \<Longrightarrow> obeys (within A S) (pooler_not_ready h p t s)"
  unfolding pooler_not_ready_def Let_def by (intro within_intros)

lemma still_up_within [within_intros]:
  "A (CallExists c) \<Longrightarrow> A (CallInspect c) \<Longrightarrow> obeys (within A S) (still_up h c s)"
  unfolding still_up_def by (intro within_intros)

lemma mark_running_within [within_intros]:
  assumes "\<And>db db'. marks (iid_cluster i) db db' \<Longrightarrow> S db db'"
  shows "obeys (within A S) (mark_running i)"
proof (rule obeysI)
  fix w :: "'a world" and r w' assume *: "mark_running i w = (r, w')"
  show "within A S w w'"
  proof (cases "wd_db w' = wd_db w \<and> wd_calls w' = wd_calls w \<and> wd_now w' = wd_now w")
    case True then show ?thesis by (simp add: within_def)
  next
    case False
    then have "marks (iid_cluster i) (wd_db w) (wd_db w') \<and> wd_calls w' = wd_calls w \<and> wd_now w' = wd_now w"
      using * by (auto simp: mark_running_def look_def store_def read_db_def write_db_def seq_def ret_def
          marks_def split: sum.splits option.splits prod.splits) blast
    then show ?thesis using assms by (auto simp: within_def)
  qed
qed

lemma ready_turn_within [within_intros]:
  assumes "\<And>db db'. marks (iid_cluster i) db db' \<Longrightarrow> S db db'" "\<And>c. asks (container_name i) c \<Longrightarrow> A c"
  shows "obeys (within A S) (ready_turn h i)"
  unfolding ready_turn_def by (intro within_intros assms) auto

lemma wait_ready_within [within_intros]:
  assumes "\<And>db db'. marks (iid_cluster i) db db' \<Longrightarrow> S db db'" "\<And>c. asks (container_name i) c \<Longrightarrow> A c"
  shows "obeys (within A S) (wait_ready h i t)"
  unfolding wait_ready_def by (rule obeys_at) (intro within_intros assms; simp)

lemma writable_turn_within [within_intros]:
  assumes "\<And>c. asks (container_name i) c \<Longrightarrow> A c"
  shows "obeys (within A S) (writable_turn h i)"
  unfolding writable_turn_def by (intro within_intros assms) auto

lemma wait_writable_within [within_intros]:
  assumes "\<And>c. asks (container_name i) c \<Longrightarrow> A c"
  shows "obeys (within A S) (wait_writable h i t)"
  unfolding wait_writable_def by (rule obeys_at) (intro within_intros assms; simp)

lemma running_container_within [within_intros]:
  "A (CallExists (container_name i)) \<Longrightarrow> A (CallInspect (container_name i)) \<Longrightarrow>
    obeys (within A S) (running_container h i)"
  unfolding running_container_def by (intro within_intros)

lemma pooler_control_within [within_intros]:
  "(\<And>argv. A (CallExec (pooler_container_name p) argv)) \<Longrightarrow> obeys (within A S) (pooler_control h p verb args)"
  unfolding pooler_control_def by (intro within_intros)

lemma pooler_turn_within [within_intros]:
  assumes "\<And>c. asks (pooler_container_name p) c \<Longrightarrow> A c"
  shows "obeys (within A S) (pooler_turn h p)"
  unfolding pooler_turn_def by (intro within_intros assms) auto

lemma wait_pooler_ready_within [within_intros]:
  assumes "\<And>c. asks (pooler_container_name p) c \<Longrightarrow> A c"
  shows "obeys (within A S) (wait_pooler_ready h p t)"
  unfolding wait_pooler_ready_def by (rule obeys_at) (intro within_intros assms; simp)

end
