(* ===== verification/Postgres.thy ===== *)
theory Postgres
  imports Versions Control
begin

text \<open>
  What pgpod says to PostgreSQL (\<^verbatim>\<open>pgpod-pg\<close>): \<^verbatim>\<open>postgresql.conf\<close> and \<^verbatim>\<open>pg_hba.conf\<close>,
  the arguments of \<^verbatim>\<open>initdb\<close> and \<^verbatim>\<open>pg_upgrade\<close>, and the SQL of the bootstrap.  All of it
  is text, so the theorems are about the text: what the lines are and what a value can
  put into them.
\<close>

section \<open>Errors\<close>

datatype pg_error = ReservedParameter string | InvalidParameterName string | InvalidIdentifier string

fun show_pg_error :: "pg_error \<Rightarrow> string" where
  "show_pg_error (ReservedParameter p) = p @ '' is managed by pgpod and cannot be set in '' @
     ''spec.postgresql.parameters '' @ em_dash @
     '' changing it would break backups, replication, or recovery''"
| "show_pg_error (InvalidParameterName p) = debug_str p @ '' is not a valid PostgreSQL parameter name''"
| "show_pg_error (InvalidIdentifier p) = debug_str p @ '' is not a valid PostgreSQL identifier '' @ em_dash @
     '' use lowercase letters, digits, and underscores, starting with a letter or underscore''"

section \<open>postgresql.conf\<close>

definition lf :: string where "lf = [CHR 0x0A]"

definition include_dir_line :: string where "include_dir_line = ''include_dir '' @ [CHR 0x27] @ ''conf.d'' @ [CHR 0x27]"

definition reserved_parameters :: "string list" where
  "reserved_parameters = [''archive_command'', ''archive_mode'', ''hot_standby'', ''listen_addresses'',
     ''max_replication_slots'', ''max_wal_senders'', ''port'', ''primary_conninfo'', ''primary_slot_name'',
     ''recovery_target'', ''recovery_target_action'', ''recovery_target_lsn'', ''recovery_target_name'',
     ''recovery_target_time'', ''recovery_target_timeline'', ''recovery_target_xid'', ''restore_command'',
     ''unix_socket_directories'', ''wal_level'', ''wal_log_hints'']"

definition pgbackrest_bin :: string where "pgbackrest_bin = ''/opt/pgpod/bin/pgbackrest''"
definition pgbackrest_conf :: string where "pgbackrest_conf = ''/pgdata/conf/pgbackrest.conf''"

definition archive_command :: "string \<Rightarrow> string" where
  "archive_command stanza = pgbackrest_bin @ '' --config='' @ pgbackrest_conf @ '' --stanza='' @ stanza @
     '' archive-push %p''"

definition restore_command :: "string \<Rightarrow> string" where
  "restore_command stanza = pgbackrest_bin @ '' --config='' @ pgbackrest_conf @ '' --stanza='' @ stanza @
     '' archive-get %f '' @ [CHR 0x22] @ ''%p'' @ [CHR 0x22]"

datatype archive_setting = ArchiveOff | ArchiveOn string

record recovery_conf =
  rc_restore_command :: string
  rc_target_time :: "string option"

record standby_conf =
  sb_primary_conninfo :: string
  sb_primary_slot_name :: string
  sb_restore_command :: "string option"

record managed_conf =
  mc_port :: "16 word"
  mc_archive :: archive_setting
  mc_shared_preload_libraries :: "string list"
  mc_standby :: "standby_conf option"
  mc_recovery :: "recovery_conf option"

definition primary_conf :: "16 word \<Rightarrow> managed_conf" where
  "primary_conf port = \<lparr> mc_port = port, mc_archive = ArchiveOff, mc_shared_preload_libraries = [],
     mc_standby = None, mc_recovery = None \<rparr>"

definition with_recovery :: "recovery_conf option \<Rightarrow> managed_conf \<Rightarrow> managed_conf" where
  "with_recovery r c = c\<lparr> mc_recovery := r \<rparr>"

definition with_archive :: "archive_setting \<Rightarrow> managed_conf \<Rightarrow> managed_conf" where
  "with_archive a c = c\<lparr> mc_archive := a \<rparr>"

definition with_shared_preload_libraries :: "string list \<Rightarrow> managed_conf \<Rightarrow> managed_conf" where
  "with_shared_preload_libraries libs c = c\<lparr> mc_shared_preload_libraries := libs \<rparr>"

text \<open>A quote is doubled; nothing else is escaped.\<close>

definition quote :: "string \<Rightarrow> string" where
  "quote v = [CHR 0x27] @ replace_char (CHR 0x27) [CHR 0x27, CHR 0x27] v @ [CHR 0x27]"

text \<open>A file is written line by line, every line with its end.\<close>

definition unlines :: "string list \<Rightarrow> string" where
  "unlines ls = concat (map (\<lambda>l. l @ lf) ls)"

definition setting :: "string \<Rightarrow> string \<Rightarrow> string" where
  "setting key value = key @ '' = '' @ value"

definition archive_section :: "archive_setting \<Rightarrow> string list" where
  "archive_section a = [[], ''# --- archiving ---''] @
     (case a of
        ArchiveOff \<Rightarrow> [''# No backup destination configured. archive_mode stays off rather'',
          ''# than archiving to nowhere '' @ em_dash @ '' turning it on needs a restart.'',
          setting ''archive_mode'' ''off'']
      | ArchiveOn command \<Rightarrow> [setting ''archive_mode'' ''on'', setting ''archive_command'' (quote command),
          setting ''archive_timeout'' (quote ''5min'')])"

definition recovery_section :: "recovery_conf \<Rightarrow> string list" where
  "recovery_section r = [[], ''# --- recovery ---'', setting ''restore_command'' (quote (rc_restore_command r))] @
     (case rc_target_time r of
        Some t \<Rightarrow> [setting ''recovery_target_time'' (quote t),
          setting ''recovery_target_action'' (quote ''promote''),
          setting ''recovery_target_timeline'' (quote ''current'')]
      | None \<Rightarrow> [''# No recovery target: replay everything the archive has, then'',
          ''# promote. This is what `pgpod fork` asks for.'',
          setting ''recovery_target_timeline'' (quote ''current'')])"

definition standby_section :: "standby_conf \<Rightarrow> string list" where
  "standby_section s = [[], ''# --- standby ---'',
     setting ''primary_conninfo'' (quote (sb_primary_conninfo s)),
     setting ''primary_slot_name'' (quote (sb_primary_slot_name s))] @
     (case sb_restore_command s of Some rc \<Rightarrow> [setting ''restore_command'' (quote rc)] | None \<Rightarrow> [])"

definition managed_lines :: "managed_conf \<Rightarrow> string list" where
  "managed_lines c =
     [''# Managed by pgpod. Rewritten on every instance start.'',
      ''# Edits here are lost; put overrides in spec.postgresql.parameters.'', [],
      ''# --- connectivity ---'',
      setting ''listen_addresses'' (quote ''*''),
      setting ''port'' (show_nat (unat (mc_port c))),
      setting ''unix_socket_directories'' (quote socket_dir),
      [], ''# --- write-ahead log ---'',
      setting ''wal_level'' (quote ''replica''),
      setting ''wal_log_hints'' ''on'',
      setting ''max_wal_senders'' ''10'',
      setting ''max_replication_slots'' ''10''] @
     archive_section (mc_archive c) @
     [[], ''# --- replication ---'',
      setting ''hot_standby'' ''on'',
      setting ''hot_standby_feedback'' ''on'',
      [], ''# --- supervision ---'',
      setting ''restart_after_crash'' ''off'',
      setting ''logging_collector'' ''off'',
      setting ''log_destination'' (quote ''stderr'')] @
     (if mc_shared_preload_libraries c = [] then []
      else [[], ''# --- extensions ---'',
        setting ''shared_preload_libraries'' (quote (str_join '','' (mc_shared_preload_libraries c)))]) @
     (case mc_recovery c of Some r \<Rightarrow> recovery_section r | None \<Rightarrow> []) @
     (case mc_standby c of Some s \<Rightarrow> standby_section s | None \<Rightarrow> [])"

definition render_managed_conf :: "managed_conf \<Rightarrow> string" where
  "render_managed_conf c = unlines (managed_lines c)"

definition is_valid_parameter_name :: "string \<Rightarrow> bool" where
  "is_valid_parameter_name name \<longleftrightarrow> name \<noteq> [] \<and> is_ascii_alphabetic (hd name) \<and>
     list_all (\<lambda>c. is_ascii_alphanumeric c \<or> c = CHR ''_'') name"

definition normalized_name :: "string \<Rightarrow> string" where
  "normalized_name key = to_ascii_lowercase (trim key)"

definition user_conf_header :: "string list" where
  "user_conf_header = [''# Rendered by pgpod from spec.postgresql.parameters.'',
     ''# Included after 00-pgpod.conf, so these win where they overlap.'', []]"

definition user_setting :: "string \<times> string \<Rightarrow> pg_error + string" where
  "user_setting p =
     (let key = normalized_name (fst p) in
      if key \<in> set reserved_parameters then Inl (ReservedParameter key)
      else if \<not> is_valid_parameter_name key then Inl (InvalidParameterName (fst p))
      else Inr (setting key (quote (snd p))))"

definition render_user_conf :: "(string \<times> string) list \<Rightarrow> pg_error + string" where
  "render_user_conf params =
     and_then (try_map user_setting (sort_key fst params)) (\<lambda>ls. Inr (unlines (user_conf_header @ ls)))"

section \<open>pg\_hba.conf\<close>

datatype auth_method = Peer | Scram | Trust

fun auth_method_as_str :: "auth_method \<Rightarrow> string" where
  "auth_method_as_str Peer = ''peer''"
| "auth_method_as_str Scram = ''scram-sha-256''"
| "auth_method_as_str Trust = ''trust''"

datatype conn_type = Local | Host

record hba_rule =
  hr_conn :: conn_type
  hr_database :: string
  hr_user :: string
  hr_address :: "string option"
  hr_method :: auth_method
  hr_comment :: "string option"

record hba_config =
  hc_network_cidr :: "string option"
  hc_replication_role :: string
  hc_extra :: "string list"

definition hba_new :: "string \<Rightarrow> hba_config" where
  "hba_new role = \<lparr> hc_network_cidr = None, hc_replication_role = role, hc_extra = [] \<rparr>"

definition with_hba_network :: "string \<Rightarrow> hba_config \<Rightarrow> hba_config" where
  "with_hba_network cidr c = c\<lparr> hc_network_cidr := Some cidr \<rparr>"

definition hba_rules :: "hba_config \<Rightarrow> hba_rule list" where
  "hba_rules c =
     [\<lparr> hr_conn = Local, hr_database = ''all'', hr_user = ''all'', hr_address = None, hr_method = Peer,
        hr_comment = Some ''agent and pgpod psql, over the unix socket'' \<rparr>,
      \<lparr> hr_conn = Host, hr_database = ''all'', hr_user = ''all'', hr_address = Some ''127.0.0.1/32'',
        hr_method = Scram, hr_comment = Some ''container-local loopback'' \<rparr>,
      \<lparr> hr_conn = Host, hr_database = ''all'', hr_user = ''all'', hr_address = Some ''::1/128'',
        hr_method = Scram, hr_comment = None \<rparr>] @
     (case hc_network_cidr c of
        None \<Rightarrow> []
      | Some cidr \<Rightarrow>
          [\<lparr> hr_conn = Host, hr_database = ''all'', hr_user = ''all'', hr_address = Some cidr,
             hr_method = Scram, hr_comment = Some ''application traffic from the cluster network'' \<rparr>,
           \<lparr> hr_conn = Host, hr_database = ''replication'', hr_user = hc_replication_role c,
             hr_address = Some cidr, hr_method = Scram,
             hr_comment = Some ''standbys streaming from this instance'' \<rparr>])"

definition pad :: "nat \<Rightarrow> string \<Rightarrow> string" where
  "pad n s = s @ replicate (n - length s) (CHR '' '')"

definition hba_line :: "hba_rule \<Rightarrow> string" where
  "hba_line r = pad 7 (case hr_conn r of Local \<Rightarrow> ''local'' | Host \<Rightarrow> ''host'') @ '' '' @
     pad 15 (hr_database r) @ '' '' @ pad 18 (hr_user r) @ '' '' @
     pad 20 (case hr_address r of Some a \<Rightarrow> a | None \<Rightarrow> []) @ '' '' @ auth_method_as_str (hr_method r)"

definition hba_header :: "string list" where
  "hba_header = [''# Managed by pgpod. Rewritten on every instance start.'',
     ''# Edits here are lost; use spec.postgresql.pg_hba for extra rules.'', ''#'',
     ''# First match wins, so order matters.'', [],
     ''# TYPE  DATABASE        USER               ADDRESS              METHOD'']"

text \<open>The lines in order; each is written with its line end.\<close>

definition hba_lines :: "hba_config \<Rightarrow> string list" where
  "hba_lines c = hba_header @
     concat (map (\<lambda>r. (case hr_comment r of Some t \<Rightarrow> [''# '' @ t] | None \<Rightarrow> []) @ [hba_line r]) (hba_rules c)) @
     (if hc_extra c = [] then [] else [[], ''# --- from spec.postgresql.pg_hba ---''] @ hc_extra c)"

definition render_hba :: "hba_config \<Rightarrow> string" where
  "render_hba c = unlines (hba_lines c)"

section \<open>initdb and pg\_upgrade\<close>

definition pwfile_path :: string where "pwfile_path = ''/pgdata/conf/.initdb-pw''"
definition pgdata_dir :: string where "pgdata_dir = ''/pgdata/pgdata''"

record initdb_options =
  io_superuser :: string
  io_encoding :: string
  io_locale :: string
  io_extra :: "string list"

definition initdb_options_default :: initdb_options where
  "initdb_options_default = \<lparr> io_superuser = ''postgres'', io_encoding = ''UTF8'', io_locale = ''C'', io_extra = [] \<rparr>"

datatype data_checksums = ChecksumsOn | ChecksumsOff

definition initdb_argv_for :: "string \<Rightarrow> string option \<Rightarrow> data_checksums \<Rightarrow> 32 word \<Rightarrow>
    initdb_options \<Rightarrow> string list" where
  "initdb_argv_for pgdata pwfile checksums target_major o' =
     (let encoding = (if trim (io_encoding o') = [] then ''UTF8'' else trim (io_encoding o'));
          locale = (if trim (io_locale o') = [] then ''C'' else trim (io_locale o')) in
      [''initdb'', ''--pgdata'', pgdata, ''--username='' @ io_superuser o', ''--encoding='' @ encoding,
       ''--locale='' @ locale, ''--auth-local=peer'', ''--auth-host=scram-sha-256''] @
      (case checksums of
         ChecksumsOn \<Rightarrow> [''--data-checksums'']
       | ChecksumsOff \<Rightarrow> if 18 \<le> target_major then [''--no-data-checksums''] else []) @
      (case pwfile of Some p \<Rightarrow> [''--pwfile='' @ p] | None \<Rightarrow> []) @
      io_extra o')"

definition initdb_argv :: "initdb_options \<Rightarrow> string list" where
  "initdb_argv o' = initdb_argv_for pgdata_dir (Some pwfile_path) ChecksumsOn 0 o'"

record pg_upgrade_plan =
  pu_old_bindir :: string
  pu_new_bindir :: string
  pu_old_data :: string
  pu_new_data :: string
  pu_socket_dir :: string
  pu_method :: upgrade_method
  pu_jobs :: "32 word"
  pu_new_preload :: "string list"
  pu_check_only :: bool

definition old_options :: string where "old_options = ''-c archive_mode=off -c jit=off''"

definition new_options :: "pg_upgrade_plan \<Rightarrow> string" where
  "new_options p = ''-c shared_preload_libraries='' @ str_join '','' (pu_new_preload p)"

definition trim_end_slashes :: "string \<Rightarrow> string" where
  "trim_end_slashes s = rev (dropWhile (\<lambda>c. c = CHR ''/'') (rev s))"

definition pg_upgrade_argv :: "pg_upgrade_plan \<Rightarrow> string list" where
  "pg_upgrade_argv p =
     [trim_end_slashes (pu_new_bindir p) @ ''/pg_upgrade'', ''--old-bindir='' @ pu_old_bindir p,
      ''--new-bindir='' @ pu_new_bindir p, ''--old-datadir='' @ pu_old_data p,
      ''--new-datadir='' @ pu_new_data p, ''--socketdir='' @ pu_socket_dir p,
      ''--jobs='' @ show_nat (unat (max (pu_jobs p) 1)), ''--old-options='' @ old_options] @
     (case upgrade_flag (pu_method p) of Some f \<Rightarrow> [f] | None \<Rightarrow> []) @
     (if pu_new_preload p = [] then [] else [''--new-options='' @ new_options p]) @
     (if pu_check_only p then [''--check''] else [])"

section \<open>SQL\<close>

definition replication_role :: string where "replication_role = ''streaming_replica''"
definition monitor_role :: string where "monitor_role = ''pgpod_monitor''"
definition pooler_role :: string where "pooler_role = ''pgpod_pooler''"

definition pooler_lookup_function :: string where "pooler_lookup_function = pooler_role @ ''_lookup''"

definition validate_identifier :: "string \<Rightarrow> pg_error + unit" where
  "validate_identifier name =
     (if name \<noteq> [] \<and> length name \<le> 63 \<and> (is_ascii_lowercase (hd name) \<or> hd name = CHR ''_'') \<and>
         list_all (\<lambda>c. is_ascii_lowercase c \<or> is_ascii_digit c \<or> c = CHR ''_'') name
      then Inr () else Inl (InvalidIdentifier name))"

definition quote_ident :: "string \<Rightarrow> string" where
  "quote_ident name = [CHR 0x22] @ replace_char (CHR 0x22) [CHR 0x22, CHR 0x22] name @ [CHR 0x22]"

definition quote_literal :: "string \<Rightarrow> string" where
  "quote_literal v = [CHR 0x27] @ replace_char (CHR 0x27) [CHR 0x27, CHR 0x27] v @ [CHR 0x27]"

definition create_role_if_absent :: "string \<Rightarrow> string \<Rightarrow> string \<Rightarrow> string" where
  "create_role_if_absent name attrs password =
     ''DO $pgpod$ BEGIN IF NOT EXISTS (SELECT FROM pg_roles WHERE rolname = '' @ quote_literal name @
     '') THEN CREATE ROLE '' @ quote_ident name @ '' '' @ attrs @ ''; END IF; END $pgpod$; ALTER ROLE '' @
     quote_ident name @ '' WITH '' @ attrs @ '' PASSWORD '' @ quote_literal password @ '';''"

definition alter_role_password_sql :: "string \<Rightarrow> string \<Rightarrow> pg_error + string" where
  "alter_role_password_sql role password =
     and_then (validate_identifier role) (\<lambda>_.
     Inr (''ALTER ROLE '' @ quote_ident role @ '' WITH PASSWORD '' @ quote_literal password @ '';''))"

definition pooler_lookup_sql :: "string \<Rightarrow> pg_error + string list" where
  "pooler_lookup_sql password =
     and_then (validate_identifier pooler_role) (\<lambda>_.
     (let fn = quote_ident pooler_lookup_function in
      Inr [create_role_if_absent pooler_role ''LOGIN'' password,
        ''CREATE OR REPLACE FUNCTION '' @ fn @ ''(uname text) RETURNS TABLE(passwd text) LANGUAGE sql '' @
        ''SECURITY DEFINER SET search_path = pg_catalog, pg_temp '' @
        ''AS $pgpod$ SELECT passwd FROM pg_shadow WHERE usename = uname; $pgpod$;'',
        ''REVOKE ALL ON FUNCTION '' @ fn @ ''(text) FROM PUBLIC;'',
        ''GRANT EXECUTE ON FUNCTION '' @ fn @ ''(text) TO '' @ quote_ident pooler_role @ '';'']))"

record app_database =
  ad_database :: string
  ad_owner :: string
  ad_owner_password :: string

record bootstrap_roles =
  br_superuser :: string
  br_superuser_password :: string
  br_replication_password :: string
  br_monitor_password :: string
  br_app :: "app_database option"

definition bootstrap_statements :: "bootstrap_roles \<Rightarrow> pg_error + string list" where
  "bootstrap_statements r =
     and_then (try_each validate_identifier [br_superuser r, replication_role, monitor_role]) (\<lambda>_.
     (let out = [''ALTER ROLE '' @ quote_ident (br_superuser r) @ '' WITH PASSWORD '' @
            quote_literal (br_superuser_password r) @ '';'',
          create_role_if_absent replication_role ''LOGIN REPLICATION'' (br_replication_password r),
          create_role_if_absent monitor_role ''LOGIN'' (br_monitor_password r),
          ''GRANT pg_monitor TO '' @ quote_ident monitor_role @ '';''] in
      case br_app r of
        None \<Rightarrow> Inr out
      | Some app \<Rightarrow>
          and_then (validate_identifier (ad_owner app)) (\<lambda>_.
          and_then (validate_identifier (ad_database app)) (\<lambda>_.
          Inr (out @ [create_role_if_absent (ad_owner app) ''LOGIN'' (ad_owner_password app)])))))"

definition app_database_sql :: "bootstrap_roles \<Rightarrow> pg_error + (string \<times> string) option" where
  "app_database_sql r =
     (case br_app r of
        None \<Rightarrow> Inr None
      | Some app \<Rightarrow>
          and_then (validate_identifier (ad_owner app)) (\<lambda>_.
          and_then (validate_identifier (ad_database app)) (\<lambda>_.
          Inr (Some (''SELECT 1 FROM pg_database WHERE datname = '' @ quote_literal (ad_database app) @ '';'',
            ''CREATE DATABASE '' @ quote_ident (ad_database app) @ '' OWNER '' @ quote_ident (ad_owner app) @ '';'')))))"

section \<open>Lines of text\<close>

lemma str_lines_unlines:
  "\<forall>l\<in>set ls. CHR 0x0A \<notin> set l \<Longrightarrow> str_lines (unlines ls) = map strip_cr ls"
proof (induction ls)
  case (Cons l ls)
  have "str_lines (l @ CHR 0x0A # unlines ls) = map strip_cr (split_on (CHR 0x0A) l) @ str_lines (unlines ls)"
    by (rule str_lines_append)
  then show ?case using Cons by (simp add: unlines_def lf_def split_on_no_sep)
qed (simp add: unlines_def str_lines_def)

lemma unlines_append: "unlines (xs @ ys) = unlines xs @ unlines ys"
  by (simp add: unlines_def)

lemma set_quote: "set (quote v) = insert (CHR 0x27) (set v)"
  by (induction v) (auto simp: quote_def split: if_splits)

lemma set_setting: "set (setting k v) = set k \<union> {CHR '' '', CHR ''=''} \<union> set v"
  by (auto simp: setting_def)

lemma last_quote: "last (quote v) = CHR 0x27" "quote v \<noteq> []"
  by (simp_all add: quote_def)

lemma strip_cr_id: "l = [] \<or> last l \<noteq> CHR 0x0D \<Longrightarrow> strip_cr l = l"
  by (auto simp: strip_cr_def)

text \<open>The parameter a line sets, as far as a line-based reader is concerned.\<close>

definition sets :: "string \<Rightarrow> string" where
  "sets l = trim (takeWhile (\<lambda>c. c \<noteq> CHR ''='') l)"

lemma valid_name_chars:
  "is_valid_parameter_name k \<Longrightarrow> c \<in> set k \<Longrightarrow> \<not> is_space c \<and> c \<noteq> CHR ''='' \<and> c \<noteq> CHR 0x0A"
  by (auto simp: is_valid_parameter_name_def list_all_iff char_class_defs)

lemma sets_setting: "is_valid_parameter_name k \<Longrightarrow> sets (setting k v) = k"
proof -
  assume k: "is_valid_parameter_name k"
  have "takeWhile (\<lambda>c. c \<noteq> CHR ''='') (k @ '' = '' @ v) = k @ '' ''"
    using valid_name_chars [OF k] by (subst takeWhile_append2) auto
  moreover have "trim (k @ '' '') = k"
  proof -
    have "k \<noteq> []" using k by (simp add: is_valid_parameter_name_def)
    then have "trim_start (k @ '' '') = k @ '' ''" "trim_end k = k"
      using valid_name_chars [OF k] by (auto simp: trim_start_id trim_end_id)
    moreover have "trim_end (k @ '' '') = trim_end k" by (simp add: trim_end_def is_space_def)
    ultimately show ?thesis by (simp add: trim_def)
  qed
  ultimately show ?thesis by (simp add: sets_def setting_def)
qed

lemma sets_comment: "sets (CHR ''#'' # l) \<noteq> k" if "k = [] \<or> hd k \<noteq> CHR ''#''"
proof -
  have "trim_start (CHR ''#'' # r) = CHR ''#'' # r" for r
    by (simp add: trim_start_def is_space_def less_eq_char_def)
  moreover have "trim_end (CHR ''#'' # r) \<noteq> [] \<and> hd (trim_end (CHR ''#'' # r)) = CHR ''#''" for r
    using trim_end_append [of r "[CHR ''#'']"] by (simp add: is_space_def less_eq_char_def)
  ultimately show ?thesis using that by (auto simp: sets_def trim_def)
qed

lemma reserved_names:
  "k \<in> set reserved_parameters \<Longrightarrow> k \<noteq> [] \<and> hd k \<noteq> CHR ''#''"
  by (auto simp: reserved_parameters_def)

definition user_line :: "string \<times> string \<Rightarrow> string" where
  "user_line p = setting (normalized_name (fst p)) (quote (snd p))"

lemma user_setting_Inr:
  "user_setting p = Inr l \<longleftrightarrow> normalized_name (fst p) \<notin> set reserved_parameters \<and>
     is_valid_parameter_name (normalized_name (fst p)) \<and> l = user_line p"
  by (auto simp: user_setting_def user_line_def Let_def)

lemma render_user_conf_Inr:
  "render_user_conf params = Inr out \<longleftrightarrow>
     (\<forall>p\<in>set params. normalized_name (fst p) \<notin> set reserved_parameters \<and>
        is_valid_parameter_name (normalized_name (fst p))) \<and>
     out = unlines (user_conf_header @ map user_line (sort_key fst params))"
proof -
  have "list_all2 (\<lambda>p l. user_setting p = Inr l) ps ls \<longleftrightarrow>
      (\<forall>p\<in>set ps. normalized_name (fst p) \<notin> set reserved_parameters \<and>
        is_valid_parameter_name (normalized_name (fst p))) \<and> ls = map user_line ps" for ps ls
    by (induction ps arbitrary: ls) (auto simp: list_all2_Cons1 user_setting_Inr)
  then show ?thesis by (auto simp: render_user_conf_def try_map_ok)
qed

lemma user_lines_text:
  assumes "is_valid_parameter_name (normalized_name (fst p))" "CHR 0x0A \<notin> set (snd p)"
  shows "CHR 0x0A \<notin> set (user_line p)" "strip_cr (user_line p) = user_line p"
  using valid_name_chars [OF assms(1)] assms(2)
  by (auto simp: user_line_def set_setting set_quote setting_def last_quote intro!: strip_cr_id)

lemma str_lines_behind: "str_lines (unlines xs @ b) = str_lines (unlines xs) @ str_lines b"
proof (cases xs rule: rev_cases)
  case Nil
  then show ?thesis by (simp add: unlines_def str_lines_def)
next
  case (snoc ys y)
  then obtain a where a: "unlines xs = a @ [CHR 0x0A]" by (simp add: unlines_def lf_def)
  have "str_lines [] = []" by (simp add: str_lines_def)
  then show ?thesis using str_lines_append [of a b] str_lines_append [of a "[]"] by (simp add: a)
qed

lemma user_lines_sets:
  assumes "render_user_conf params = Inr user" "\<forall>p\<in>set params. CHR 0x0A \<notin> set (snd p)"
    and "l \<in> set (str_lines user)"
  shows "l = [] \<or> hd l = CHR ''#'' \<or>
    (\<exists>p\<in>set params. l = user_line p \<and> sets l = normalized_name (fst p) \<and> sets l \<notin> set reserved_parameters)"
proof -
  let ?ls = "map user_line (sort_key fst params)"
  note ok = assms(1) [unfolded render_user_conf_Inr]
  have clean: "\<forall>l\<in>set (user_conf_header @ ?ls). CHR 0x0A \<notin> set l"
    using ok assms(2) user_lines_text(1) by (auto simp: user_conf_header_def)
  have "str_lines user = map strip_cr (user_conf_header @ ?ls)"
    using ok str_lines_unlines [OF clean] by simp
  also have "\<dots> = user_conf_header @ map (strip_cr \<circ> user_line) (sort_key fst params)"
    by (simp add: user_conf_header_def strip_cr_def)
  finally consider "l \<in> set user_conf_header" | p where "p \<in> set params" "l = strip_cr (user_line p)"
    using assms(3) by auto
  then show ?thesis
  proof cases
    case (2 p)
    then have "strip_cr (user_line p) = user_line p" using ok assms(2) user_lines_text(2) by blast
    then show ?thesis using 2 ok by (auto simp: user_line_def sets_setting)
  qed (auto simp: user_conf_header_def)
qed

section \<open>Quoted text\<close>

text \<open>How SQL reads a quoted string or identifier: up to the first quote that is not doubled.\<close>

fun read_quoted_rest :: "char \<Rightarrow> string \<Rightarrow> (string \<times> string) option" where
  "read_quoted_rest q [] = None"
| "read_quoted_rest q (c # cs) =
     (if c \<noteq> q then map_option (\<lambda>(v, r). (c # v, r)) (read_quoted_rest q cs)
      else (case cs of
          d # ds \<Rightarrow> if d = q then map_option (\<lambda>(v, r). (q # v, r)) (read_quoted_rest q ds) else Some ([], cs)
        | [] \<Rightarrow> Some ([], [])))"

fun read_quoted :: "char \<Rightarrow> string \<Rightarrow> (string \<times> string) option" where
  "read_quoted q [] = None"
| "read_quoted q (c # cs) = (if c = q then read_quoted_rest q cs else None)"

lemma read_quoted_doubled:
  "rest = [] \<or> hd rest \<noteq> q \<Longrightarrow> read_quoted_rest q (replace_char q [q, q] v @ q # rest) = Some (v, rest)"
  by (induction v) (auto split: list.split)

lemma read_quote_literal:
  "rest = [] \<or> hd rest \<noteq> CHR 0x27 \<Longrightarrow> read_quoted (CHR 0x27) (quote_literal v @ rest) = Some (v, rest)"
  using read_quoted_doubled [of rest "CHR 0x27" v] by (simp add: quote_literal_def)

lemma read_quote_ident:
  "rest = [] \<or> hd rest \<noteq> CHR 0x22 \<Longrightarrow> read_quoted (CHR 0x22) (quote_ident v @ rest) = Some (v, rest)"
  using read_quoted_doubled [of rest "CHR 0x22" v] by (simp add: quote_ident_def)

lemma validate_identifier_ok:
  "validate_identifier n = Inr () \<longleftrightarrow> n \<noteq> [] \<and> length n \<le> 63 \<and> (is_ascii_lowercase (hd n) \<or> hd n = CHR ''_'') \<and>
     (\<forall>c\<in>set n. is_ascii_lowercase c \<or> is_ascii_digit c \<or> c = CHR ''_'')"
  by (auto simp: validate_identifier_def list_all_iff)

section \<open>The lines of pg\_hba.conf\<close>

lemma set_pad: "set (pad n s) \<subseteq> set s \<union> {CHR '' ''}"
  by (auto simp: pad_def)

lemma method_text: "CHR 0x0A \<notin> set (auth_method_as_str m)" "auth_method_as_str m \<noteq> []"
  "last (auth_method_as_str m) \<noteq> CHR 0x0D"
  by (cases m; simp)+

lemma hba_line_text:
  assumes "CHR 0x0A \<notin> set (hr_database r)" "CHR 0x0A \<notin> set (hr_user r)"
    "\<forall>a. hr_address r = Some a \<longrightarrow> CHR 0x0A \<notin> set a"
  shows "CHR 0x0A \<notin> set (hba_line r)" "strip_cr (hba_line r) = hba_line r"
proof -
  have "CHR 0x0A \<notin> set (pad n s)" if "CHR 0x0A \<notin> set s" for n s
    using that set_pad [of n s] by auto
  then show "CHR 0x0A \<notin> set (hba_line r)"
    using assms method_text(1) by (auto simp: hba_line_def split: conn_type.split option.split)
  show "strip_cr (hba_line r) = hba_line r"
    using method_text(2,3) by (intro strip_cr_id) (simp add: hba_line_def)
qed

lemma hba_line_ends: "prefix (case hr_conn r of Local \<Rightarrow> ''local'' | Host \<Rightarrow> ''host'') (hba_line r)"
  "suffix (auth_method_as_str (hr_method r)) (hba_line r)"
  by (auto simp: hba_line_def pad_def prefix_def suffix_def)

definition rule_lines :: "hba_rule \<Rightarrow> string list" where
  "rule_lines r = (case hr_comment r of Some t \<Rightarrow> [''# '' @ t] | None \<Rightarrow> []) @ [hba_line r]"

lemma hba_lines_rules:
  "hba_lines c = (hba_header @ concat (map rule_lines (hba_rules c))) @
     (if hc_extra c = [] then [] else [[], ''# --- from spec.postgresql.pg_hba ---''] @ hc_extra c)"
  by (simp add: hba_lines_def rule_lines_def [abs_def])

lemma hba_address_in_line: "hr_address r = Some a \<Longrightarrow> sublist a (hba_line r)"
proof -
  assume "hr_address r = Some a"
  then have "hba_line r =
      (pad 7 (case hr_conn r of Local \<Rightarrow> ''local'' | Host \<Rightarrow> ''host'') @ '' '' @ pad 15 (hr_database r) @ '' '' @
        pad 18 (hr_user r) @ '' '') @
      a @ (replicate (20 - length a) (CHR '' '') @ '' '' @ auth_method_as_str (hr_method r))"
    by (simp add: hba_line_def pad_def)
  then show ?thesis by (auto simp only: sublist_appendI)
qed

lemma hba_rules_scram:
  "r \<in> set (hba_rules c) \<Longrightarrow>
     hr_conn r = Local \<and> hr_method r = Peer \<or>
     hr_conn r = Host \<and> hr_method r = Scram \<and>
       (\<exists>a. hr_address r = Some a \<and> a \<in> {''127.0.0.1/32'', ''::1/128''} \<union> set_option (hc_network_cidr c))"
  by (cases "hc_network_cidr c") (auto simp: hba_rules_def)

lemma hba_rules_text:
  assumes "r \<in> set (hba_rules c)" "CHR 0x0A \<notin> set (hc_replication_role c)"
    "\<forall>a\<in>set_option (hc_network_cidr c). CHR 0x0A \<notin> set a"
  shows "CHR 0x0A \<notin> set (hba_line r)" "strip_cr (hba_line r) = hba_line r"
proof -
  have "CHR 0x0A \<notin> set (hr_database r) \<and> CHR 0x0A \<notin> set (hr_user r) \<and>
      (\<forall>a. hr_address r = Some a \<longrightarrow> CHR 0x0A \<notin> set a)"
    using assms by (auto simp: hba_rules_def split: option.splits)
  then show "CHR 0x0A \<notin> set (hba_line r)" "strip_cr (hba_line r) = hba_line r"
    using hba_line_text [of r] by simp_all
qed

lemma hba_comments_text:
  "r \<in> set (hba_rules c) \<Longrightarrow> hr_comment r = Some t \<Longrightarrow> CHR 0x0A \<notin> set t \<and> strip_cr (''# '' @ t) = ''# '' @ t"
  by (auto simp: hba_rules_def strip_cr_def split: option.splits)

section \<open>Properties\<close>


text \<open>C28: Nobody is trusted over TCP.  Every line of the rendered file is empty, a comment, a
  rule for the unix socket that ends in peer, or a rule for a host that ends in
  scram-sha-256 and admits loopback or the cluster's own network; the operator's extra lines
  come behind all of them, so by the first-match rule they cannot shadow one.\<close>

theorem hba_never_trusts:
  assumes "CHR 0x0A \<notin> set (hc_replication_role c)"
    and "\<forall>a\<in>set_option (hc_network_cidr c). CHR 0x0A \<notin> set a"
    and "\<forall>l\<in>set (hc_extra c). CHR 0x0A \<notin> set l \<and> strip_cr l = l"
  shows "\<exists>managed. str_lines (render_hba c) = managed @
      (if hc_extra c = [] then [] else [[], ''# --- from spec.postgresql.pg_hba ---''] @ hc_extra c) \<and>
    (\<forall>l\<in>set managed. l = [] \<or> hd l = CHR ''#'' \<or> prefix ''local'' l \<and> suffix ''peer'' l \<or>
      prefix ''host'' l \<and> suffix ''scram-sha-256'' l \<and>
      (\<exists>a\<in>{''127.0.0.1/32'', ''::1/128''} \<union> set_option (hc_network_cidr c). sublist a l))"
proof -
  let ?managed = "hba_header @ concat (map rule_lines (hba_rules c))"
  note clean = hba_rules_text [OF _ assms(1,2)]
  have rule: "CHR 0x0A \<notin> set l \<and> strip_cr l = l \<and> (hd l = CHR ''#'' \<or> (\<exists>r\<in>set (hba_rules c). l = hba_line r))"
    if "l \<in> set (concat (map rule_lines (hba_rules c)))" for l
    using that clean hba_comments_text by (fastforce simp: rule_lines_def split: option.splits)
  have header: "CHR 0x0A \<notin> set l \<and> strip_cr l = l \<and> (l = [] \<or> hd l = CHR ''#'')" if "l \<in> set hba_header" for l
    using that by (auto simp: hba_header_def strip_cr_def)
  have "\<forall>l\<in>set (hba_lines c). CHR 0x0A \<notin> set l \<and> strip_cr l = l"
    using rule header assms(3) strip_cr_id [of "[]"] strip_cr_id [of "''# --- from spec.postgresql.pg_hba ---''"]
    by (auto simp: hba_lines_rules)
  then have "str_lines (render_hba c) = hba_lines c"
    by (simp add: render_hba_def str_lines_unlines map_idI)
  moreover
  let ?ok = "\<lambda>l. l = [] \<or> hd l = CHR ''#'' \<or> prefix ''local'' l \<and> suffix ''peer'' l \<or>
      prefix ''host'' l \<and> suffix ''scram-sha-256'' l \<and>
      (\<exists>a\<in>{''127.0.0.1/32'', ''::1/128''} \<union> set_option (hc_network_cidr c). sublist a l)"
  have line: "?ok (hba_line r)" if "r \<in> set (hba_rules c)" for r
    using hba_rules_scram [OF that] hba_line_ends [of r] hba_address_in_line [of r] by auto
  have "?ok l" if "l \<in> set ?managed" for l
  proof (cases "l \<in> set hba_header")
    case True
    then show ?thesis using header by blast
  next
    case False
    then have "l \<in> set (concat (map rule_lines (hba_rules c)))" using that by simp
    then show ?thesis using rule [of l] line by blast
  qed
  ultimately show ?thesis
    unfolding hba_lines_rules by (intro exI [of _ ?managed]) blast
qed

text \<open>A password never leaves its literal.  The statement that rotates a role's password is
  refused for a name that is no plain identifier; otherwise a reader of SQL finds exactly
  that name between the identifier quotes and exactly the password between the literal's
  quotes, whatever quotes the password holds, and only the semicolon behind it.\<close>

theorem rotation_statement_reads_back:
  "alter_role_password_sql role password = Inr sql \<longleftrightarrow> validate_identifier role = Inr () \<and>
     (\<exists>rest. strip_prefix ''ALTER ROLE '' sql = Some rest \<and>
       (\<exists>rest'. read_quoted (CHR 0x22) rest = Some (role, '' WITH PASSWORD '' @ rest') \<and>
          rest = quote_ident role @ '' WITH PASSWORD '' @ rest' \<and> rest' = quote_literal password @ '';'' \<and>
          read_quoted (CHR 0x27) rest' = Some (password, '';'')))"
  by (auto simp: alter_role_password_sql_def strip_prefix_Some read_quote_ident read_quote_literal)

text \<open>A value that holds a line break does start a line of its own.  Behind a backslash the
  doubled quote ends the string in front of it, as PostgreSQL reads this file.\<close>

lemma user_value_starts_a_line:
  "\<exists>v out. render_user_conf [(''application_name'', v)] = Inr out \<and>
     str_lines out = user_conf_header @
       [''application_name = '' @ [CHR 0x27, CHR 0x5C, CHR 0x27, CHR 0x27], ''archive_mode = off #'' @ [CHR 0x27]]"
proof -
  let ?v = "[CHR 0x5C, CHR 0x27, CHR 0x0A] @ ''archive_mode = off #''"
  have n: "normalized_name ''application_name'' = ''application_name''" by code_simp
  have "render_user_conf [(''application_name'', ?v)] =
      Inr (unlines (user_conf_header @ [user_line (''application_name'', ?v)]))"
    unfolding render_user_conf_Inr by (simp add: n reserved_parameters_def) code_simp
  moreover have "user_line (''application_name'', ?v) @ lf = unlines
      [''application_name = '' @ [CHR 0x27, CHR 0x5C, CHR 0x27, CHR 0x27], ''archive_mode = off #'' @ [CHR 0x27]]"
    by (simp add: user_line_def n setting_def quote_def unlines_def lf_def)
  then have "unlines (user_conf_header @ [user_line (''application_name'', ?v)]) = unlines (user_conf_header @
      [''application_name = '' @ [CHR 0x27, CHR 0x5C, CHR 0x27, CHR 0x27], ''archive_mode = off #'' @ [CHR 0x27]])"
    unfolding unlines_append by (simp add: unlines_def)
  ultimately show ?thesis
    by (intro exI [of _ ?v] exI) (auto simp: str_lines_unlines user_conf_header_def strip_cr_def)
qed

section \<open>Witnesses\<close>

definition demo_managed_conf :: managed_conf where
  "demo_managed_conf = with_archive (ArchiveOn (archive_command ''mydb'')) (primary_conf 5432)"


theorem hba_never_trusts_witness:
  "\<exists>managed. str_lines (render_hba (with_hba_network ''10.89.0.0/24'' (hba_new replication_role))) = managed \<and>
     (\<forall>l\<in>set managed. l = [] \<or> hd l = CHR ''#'' \<or> suffix ''peer'' l \<or> suffix ''scram-sha-256'' l)"
proof -
  let ?c = "with_hba_network ''10.89.0.0/24'' (hba_new replication_role)"
  have c: "CHR 0x0A \<notin> set (hc_replication_role ?c)" "\<forall>a\<in>set_option (hc_network_cidr ?c). CHR 0x0A \<notin> set a"
    "\<forall>l\<in>set (hc_extra ?c). CHR 0x0A \<notin> set l \<and> strip_cr l = l" "hc_extra ?c = []"
    by (simp_all add: with_hba_network_def hba_new_def replication_role_def)
  show ?thesis using hba_never_trusts [OF c(1-3)] unfolding c(4) by auto
qed

end
