(* ===== verification/UpgradeRun.thy ===== *)
theory UpgradeRun
  imports Volume Postgres
begin

text \<open>
  The upgrade job that touches data: the agent's \<^verbatim>\<open>upgrade run\<close>
  (\<^verbatim>\<open>pgpod-agent/src/upgrade/mod.rs\<close>), from the spec to the swap of the two data
  directories, with the line its configuration needs
  (\<^verbatim>\<open>append_include_dir\<close> of \<^verbatim>\<open>bootstrap.rs\<close>).  The commands it runs are the machine's.
\<close>

section \<open>Where things are\<close>

definition pgdata :: path where "pgdata = [''pgdata'', ''pgdata'']"
definition new_data :: path where "new_data = [''pgdata'', ''pgdata.new'']"
definition upgrade_dir :: path where "upgrade_dir = [''pgdata'', ''upgrade'']"
definition wrapper_dir :: path where "wrapper_dir = [''pgdata'', ''upgrade'', ''bin'']"
definition run_dir :: path where "run_dir = [''pgdata'', ''run'']"
definition old_prefix :: string where "old_prefix = ''/pgdata/pgdata.old-''"

lemmas places = pgdata_def new_data_def upgrade_dir_def wrapper_dir_def run_dir_def

definition join_str :: "string \<Rightarrow> string \<Rightarrow> string" where
  "join_str a b = (if a = [] \<or> last a = CHR ''/'' then a @ b else a @ ''/'' @ b)"

section \<open>Reading\<close>

definition read_pg_version :: "machine \<Rightarrow> path \<Rightarrow> string agent" where
  "read_pg_version m dir =
     (let p = dir @ [''PG_VERSION''] in
      chain (context_of (''failed to read '' @ show_path p @ '' '' @ em_dash @ '' is this a data directory?'') (read_to_string m p))
        (\<lambda>raw. lift_res (ok_or (show_path p @ '' does not name a version: '' @ debug_str raw) (major_label raw))))"

definition is_cluster :: "machine \<Rightarrow> path \<Rightarrow> bool agent" where
  "is_cluster m dir =
     chain (is_file m (dir @ [''PG_VERSION''])) (\<lambda>a. if a then is_file m (dir @ [''global'', ''pg_control'']) else give False)"

definition pg_config :: "machine \<Rightarrow> string \<Rightarrow> string agent" where
  "pg_config m flag =
     chain (context_of (''failed to run pg_config '' @ em_dash @ '' is it on PATH in this image?'')
       (run_tool m [''pg_config'', flag] None)) (\<lambda>out.
     if \<not> exit_ok (to_status out)
     then bail (''pg_config '' @ flag @ '' failed ('' @ show_exit (to_status out) @ ''): '' @ trim (lossy (to_stderr out)))
     else give (trim (lossy (to_stdout out))))"

definition debug_opt :: "string option \<Rightarrow> string" where
  "debug_opt v = (case v of None \<Rightarrow> ''None'' | Some s \<Rightarrow> ''Some('' @ debug_str s @ '')'')"

definition verify_staged_binaries :: "machine \<Rightarrow> path \<Rightarrow> string \<Rightarrow> unit agent" where
  "verify_staged_binaries m wrappers expected =
     chain (context_of (''failed to run '' @ show_path wrappers @ ''/pg_ctl'')
       (run_tool m [show_path (wrappers @ [''pg_ctl'']), ''--version''] None)) (\<lambda>out.
     let stdout = trim (lossy (to_stdout out)); stderr = trim (lossy (to_stderr out)) in
     if \<not> exit_ok (to_status out)
     then bail (''the staged PostgreSQL '' @ expected @ '' binaries cannot run in this image ('' @ show_exit (to_status out) @
       ''): '' @ stderr @ [CHR 0x0A] @ ''This is the compatibility check, and it ran before anything was changed '' @ em_dash @
       '' the cluster is untouched. It usually means the two images do not share a libc (glibc and musl, say), or that the '' @
       ''new image'' @ [CHR 0x27] @ ''s glibc is older than the old image'' @ [CHR 0x27] @ ''s.'')
     else if major_label stdout = Some expected then give ()
     else bail (''the staged binaries report '' @ debug_opt (major_label stdout) @ '', not the expected PostgreSQL '' @ expected))"

record control_data =
  cd_state :: string
  cd_clean :: bool
  cd_checksums :: data_checksums

definition control_field :: "string \<Rightarrow> string \<Rightarrow> string option" where
  "control_field txt name =
     map_option (\<lambda>kv. trim (snd kv)) (find (\<lambda>kv. trim (fst kv) = name)
       (List.map_filter (split_once (CHR '':'')) (str_lines txt)))"

definition control_data_of :: "string \<Rightarrow> control_data" where
  "control_data_of txt =
     (let state = (case control_field txt ''Database cluster state'' of Some s \<Rightarrow> s | None \<Rightarrow> ''unknown'') in
      \<lparr> cd_state = state, cd_clean = prefix ''shut down'' state,
        cd_checksums = (if control_field txt ''Data page checksum version'' = Some ''0'' then ChecksumsOff else ChecksumsOn) \<rparr>)"

definition read_control_data :: "machine \<Rightarrow> path \<Rightarrow> path \<Rightarrow> control_data agent" where
  "read_control_data m wrappers dir =
     chain (context_of ''failed to run the staged pg_controldata''
       (run_tool m [show_path (wrappers @ [''pg_controldata'']), ''-D'', show_path dir] None)) (\<lambda>out.
     if \<not> exit_ok (to_status out)
     then bail (''pg_controldata could not read '' @ show_path dir @ '': '' @ trim (lossy (to_stderr out)))
     else give (control_data_of (lossy (to_stdout out))))"

section \<open>The wrappers\<close>

definition wrapper_script :: "string \<Rightarrow> string \<Rightarrow> string" where
  "wrapper_script libs target =
     ''#!/bin/sh'' @ [CHR 0x0A] @
     ''# Written by pgpod-agent for a major-version upgrade (ADR 06 '' @ [CHR 0xC2, CHR 0xA7] @ ''3).'' @ [CHR 0x0A] @
     ''LD_LIBRARY_PATH='' @ [CHR 0x27] @ libs @ [CHR 0x27, CHR 0x0A] @
     ''export LD_LIBRARY_PATH'' @ [CHR 0x0A] @
     ''exec '' @ [CHR 0x27] @ target @ [CHR 0x27] @ '' '' @ [CHR 0x22] @ ''$@'' @ [CHR 0x22, CHR 0x0A]"

text \<open>One wrapper; whether the entry was one that gets a wrapper.\<close>

definition write_wrapper :: "machine \<Rightarrow> upgrade_spec \<Rightarrow> string \<Rightarrow> bool agent" where
  "write_wrapper m spec name =
     chain (stat m (path_of (us_staged_bindir spec) @ [name])) (\<lambda>n. case n of
       Folder _ \<Rightarrow> give False
     | File _ _ \<Rightarrow>
         (let p = wrapper_dir @ [name] in
          chain (context_of (''failed to write '' @ show_path p)
            (write_file m p (wrapper_script (library_path spec) (join_str (us_staged_bindir spec) name)))) (\<lambda>_.
          chain (set_mode m p 448) (\<lambda>_. give True))))"

definition write_wrappers :: "machine \<Rightarrow> upgrade_spec \<Rightarrow> path agent" where
  "write_wrappers m spec =
     chain (path_exists m wrapper_dir) (\<lambda>there.
     chain (if there then context_of (''failed to clear '' @ show_path wrapper_dir) (remove_dir_all m wrapper_dir) else give ()) (\<lambda>_.
     chain (context_of (''failed to create '' @ show_path wrapper_dir) (create_dir_all m wrapper_dir)) (\<lambda>_.
     chain (context_of (''failed to read the staged bin directory '' @ us_staged_bindir spec)
       (read_dir m (path_of (us_staged_bindir spec)))) (\<lambda>names.
     chain (in_turn (write_wrapper m spec) names) (\<lambda>made.
     if True \<notin> set made
     then bail (''the staged bin directory '' @ us_staged_bindir spec @ '' is empty '' @ em_dash @
       '' the staging step did not produce an installation'')
     else give wrapper_dir)))))"

section \<open>The new cluster\<close>

definition clear_new :: "machine \<Rightarrow> unit agent" where
  "clear_new m = chain (path_exists m new_data) (\<lambda>there.
     if there then context_of (''failed to clear '' @ show_path new_data) (remove_dir_all m new_data) else give ())"

definition parse_u32_res :: "string \<Rightarrow> string + 32 word" where
  "parse_u32_res s = (case parse_u32 s of
      Some n \<Rightarrow> Inr n
    | None \<Rightarrow> Inl (if s = [] then ''cannot parse integer from empty string''
        else if list_all is_ascii_digit s then ''number too large to fit in target type'' else ''invalid digit found in string''))"

definition init_new :: "machine \<Rightarrow> upgrade_spec \<Rightarrow> control_data \<Rightarrow> unit agent" where
  "init_new m spec control =
     (let ib = us_initdb spec;
          opts = \<lparr> io_superuser = ''postgres'', io_encoding = ib_encoding ib, io_locale = ib_locale ib, io_extra = ib_options ib \<rparr> in
      chain (lift_res (parse_u32_res (hd (split_on (CHR ''.'') (us_to_version spec))))) (\<lambda>major.
      chain (context_of (''failed to run initdb '' @ em_dash @ '' is it on PATH in this image?'')
        (run_tool m (initdb_argv_for (show_path new_data) None (cd_checksums control) major opts) None)) (\<lambda>out.
      if exit_ok (to_status out) then give ()
      else bail (''initdb for the new cluster failed with '' @ show_exit (to_status out)))))"

definition upgrade_plan_of :: "upgrade_spec \<Rightarrow> path \<Rightarrow> string \<Rightarrow> pg_upgrade_plan" where
  "upgrade_plan_of spec wrappers bindir = \<lparr> pu_old_bindir = show_path wrappers, pu_new_bindir = bindir,
     pu_old_data = show_path pgdata, pu_new_data = show_path new_data, pu_socket_dir = show_path run_dir,
     pu_method = us_method spec, pu_jobs = us_jobs spec, pu_new_preload = us_preload_libraries spec,
     pu_check_only = us_check spec \<rparr>"

definition elapsed :: "machine \<Rightarrow> nat \<Rightarrow> nat \<Rightarrow> 64 word" where
  "elapsed m a b = word_of_nat ((ma_millis m b - ma_millis m a) div 1000)"

definition ticks :: "nat agent" where "ticks v = (Inr (vo_tick v), v)"

definition run_pg_upgrade :: "machine \<Rightarrow> upgrade_spec \<Rightarrow> path \<Rightarrow> 64 word agent" where
  "run_pg_upgrade m spec wrappers =
     chain (pg_config m ''--bindir'') (\<lambda>bindir.
     chain ticks (\<lambda>t0.
     chain (context_of ''failed to run pg_upgrade''
       (run_tool m (pg_upgrade_argv (upgrade_plan_of spec wrappers bindir)) (Some upgrade_dir))) (\<lambda>out.
     chain ticks (\<lambda>t1.
     if exit_ok (to_status out) then give (elapsed m t0 t1)
     else caught (remove_dir_all m new_data) (\<lambda>_.
       bail (''pg_upgrade failed with '' @ show_exit (to_status out) @ ''. The cluster at '' @ show_path pgdata @
         '' is unchanged '' @ em_dash @ '' its own output above says why.''))))))"

section \<open>The swap\<close>

text \<open>The configuration line, added once.\<close>

definition include_text :: string where
  "include_text = [CHR 0x0A] @ ''# Added by pgpod. Configuration lives in conf.d/.'' @ [CHR 0x0A] @ include_dir_line @ [CHR 0x0A]"

definition has_include :: "string \<Rightarrow> bool" where
  "has_include conf \<longleftrightarrow> list_ex (\<lambda>l. trim l = include_dir_line) (str_lines conf)"

definition append_include_dir :: "machine \<Rightarrow> path \<Rightarrow> unit agent" where
  "append_include_dir m dir =
     (let p = dir @ [''postgresql.conf''] in
      chain (context_of (''failed to read '' @ show_path p) (read_to_string m p)) (\<lambda>existing.
      if has_include existing then give ()
      else context_of ''failed to append include_dir'' (append_file m p include_text)))"

text \<open>What the job is given: its environment and the two ends of its JSON.\<close>

record job_env =
  je_env :: "string \<rightharpoonup> string"
  je_decode :: "string \<Rightarrow> string + upgrade_spec"
  je_encode :: "upgrade_run_report \<Rightarrow> string + string"

definition send_report :: "job_env \<Rightarrow> upgrade_run_report \<Rightarrow> unit agent" where
  "send_report j r = chain (lift_res (print_report (je_encode j) r)) prints"

definition run_report :: "upgrade_spec \<Rightarrow> string \<Rightarrow> 64 word \<Rightarrow> upgrade_run_report" where
  "run_report spec old secs = \<lparr> ur_from_version = us_from_version spec, ur_to_version = us_to_version spec,
     ur_method = us_method spec, ur_old_data_dir = old, ur_seconds = secs \<rparr>"

definition finish_swap :: "machine \<Rightarrow> job_env \<Rightarrow> upgrade_spec \<Rightarrow> unit agent" where
  "finish_swap m j spec =
     chain (context_of ''failed to complete the interrupted swap'' (rename m new_data pgdata)) (\<lambda>_.
     send_report j (run_report spec [] 0))"

definition old_dir_name :: "upgrade_spec \<Rightarrow> nat \<Rightarrow> string" where
  "old_dir_name spec secs = old_prefix @ us_from_version spec @ ''-'' @ show_nat secs"

definition swap_in :: "machine \<Rightarrow> string \<Rightarrow> unit agent" where
  "swap_in m old_dir =
     chain (context_of (''failed to move the old cluster aside to '' @ old_dir) (rename m pgdata (path_of old_dir))) (\<lambda>_.
     caught (rename m new_data pgdata) (\<lambda>r. case r of
       Inr _ \<Rightarrow> give ()
     | Inl e \<Rightarrow> caught (rename m (path_of old_dir) pgdata) (\<lambda>_.
         rethrow (''failed to move the upgraded cluster into place'' # e))))"

definition after_swap :: "machine \<Rightarrow> unit agent" where
  "after_swap m =
     chain (context_of (''failed to create '' @ show_path pgdata @ ''/conf.d'') (create_dir_all m (pgdata @ [''conf.d'']))) (\<lambda>_.
     chain (append_include_dir m pgdata) (\<lambda>_.
     caught (remove_dir_all m upgrade_dir) (\<lambda>_. give ())))"

text \<open>What is checked before the new cluster is made.\<close>

definition ready_to_upgrade :: "machine \<Rightarrow> upgrade_spec \<Rightarrow> (path \<times> control_data) agent" where
  "ready_to_upgrade m spec =
     chain (read_pg_version m pgdata) (\<lambda>data_version.
     if data_version \<noteq> us_from_version spec
     then bail (''the cluster in the volume is PostgreSQL '' @ data_version @ '', but the staged installation is '' @
       us_from_version spec @ ''. Nothing has been changed.'')
     else chain (pg_config m ''--version'') (\<lambda>v.
     let here = (case major_label v of Some l \<Rightarrow> l | None \<Rightarrow> []) in
     if here \<noteq> us_to_version spec
     then bail (''this image carries PostgreSQL '' @ here @ '', but the upgrade was planned for '' @ us_to_version spec @
       ''. Nothing has been changed.'')
     else chain (context_of (''failed to create '' @ show_path run_dir) (create_dir_all m run_dir)) (\<lambda>_.
     chain (write_wrappers m spec) (\<lambda>wrappers.
     chain (verify_staged_binaries m wrappers (us_from_version spec)) (\<lambda>_.
     chain (read_control_data m wrappers pgdata) (\<lambda>control.
     if \<not> cd_clean control
     then bail (''the old cluster was not shut down cleanly (pg_controldata says '' @ debug_str (cd_state control) @
       ''), and pg_upgrade cannot read a cluster that still needs recovery. Start the instance, let it finish recovery, '' @
       ''and stop it again.'')
     else give (wrappers, control)))))))"

definition upgrade_in_place :: "machine \<Rightarrow> job_env \<Rightarrow> upgrade_spec \<Rightarrow> unit agent" where
  "upgrade_in_place m j spec =
     chain (ready_to_upgrade m spec) (\<lambda>(wrappers, control).
     chain (clear_new m) (\<lambda>_.
     chain (init_new m spec control) (\<lambda>_.
     chain (run_pg_upgrade m spec wrappers) (\<lambda>secs.
     if us_check spec
     then chain (context_of ''failed to remove the trial cluster'' (remove_dir_all m new_data)) (\<lambda>_.
       send_report j (run_report spec [] secs))
     else chain (clock_secs m) (\<lambda>now.
       let old_dir = old_dir_name spec now in
       chain (swap_in m old_dir) (\<lambda>_.
       chain (after_swap m) (\<lambda>_.
       send_report j (run_report spec old_dir secs))))))))"

definition upgrade_run :: "machine \<Rightarrow> job_env \<Rightarrow> unit agent" where
  "upgrade_run m j =
     chain (context_of ''could not read the upgrade spec''
       (lift_res (map_err show_spec_error (upgrade_spec_from_env (je_decode j) (je_env j))))) (\<lambda>spec.
     chain (path_exists m pgdata) (\<lambda>here.
     chain (if here then give False else is_cluster m new_data) (\<lambda>interrupted.
     if interrupted then finish_swap m j spec else upgrade_in_place m j spec)))"

section \<open>What the commands are taken to do\<close>

text \<open>Files below the data directory that no command changes; and a finished \<^verbatim>\<open>pg_upgrade\<close> has made a cluster.\<close>

definition tools_spare :: "machine \<Rightarrow> path set \<Rightarrow> bool" where
  "tools_spare m Q \<longleftrightarrow> (\<forall>t argv cwd d. \<forall>q\<in>Q. entry (snd (ma_tool m t argv cwd d)) (pgdata @ q) = entry d (pgdata @ q))"

definition cluster_at :: "disk \<Rightarrow> path \<Rightarrow> bool" where
  "cluster_at d p \<longleftrightarrow> is_plain d (p @ [''PG_VERSION'']) \<and> is_plain d (p @ [''global'', ''pg_control''])"

definition upgrade_delivers :: "machine \<Rightarrow> bool" where
  "upgrade_delivers m \<longleftrightarrow> (\<forall>t plan cwd d out d'. ma_tool m t (pg_upgrade_argv plan) cwd d = (Inr out, d') \<and>
     exit_ok (to_status out) \<and> \<not> pu_check_only plan \<and> pu_new_data plan = show_path new_data \<longrightarrow> cluster_at d' new_data)"

text \<open>The files of the old cluster are all under a directory, as they were under the data directory.\<close>

definition kept :: "path set \<Rightarrow> disk \<Rightarrow> path \<Rightarrow> disk \<Rightarrow> bool" where
  "kept Q d0 home d \<longleftrightarrow> (\<forall>q\<in>Q. entry d (home @ q) = entry d0 (pgdata @ q))"

definition set_aside :: "path \<Rightarrow> bool" where
  "set_aside home \<longleftrightarrow> (\<exists>x. home = [''pgdata'', ''pgdata.old-'' @ x])"

definition upgrade_safe :: "path set \<Rightarrow> disk \<Rightarrow> disk \<Rightarrow> bool" where
  "upgrade_safe Q d0 d \<longleftrightarrow> kept Q d0 pgdata d \<or>
     (\<exists>home. set_aside home \<and> kept Q d0 home d \<and> (cluster_at d pgdata \<or> entry d pgdata = None \<and> cluster_at d new_data))"

section \<open>Before the swap\<close>

definition spares :: "path set \<Rightarrow> path \<Rightarrow> bool" where
  "spares Q p \<longleftrightarrow> (\<forall>q\<in>Q. p \<noteq> pgdata @ q)"

lemma spares_simps [simp]:
  "[] \<notin> Q \<Longrightarrow> spares Q [''pgdata'']" "[] \<notin> Q \<Longrightarrow> spares Q pgdata" "x \<noteq> ''pgdata'' \<Longrightarrow> spares Q (''pgdata'' # x # p)"
  by (auto simp: spares_def pgdata_def)

lemma kept_touches: "touches (spares Q) v w \<Longrightarrow> [] \<notin> Q \<Longrightarrow> kept Q d0 pgdata (vo_disk v) \<Longrightarrow> kept Q d0 pgdata (vo_disk w)"
  by (auto simp: kept_def touches_def spares_def pgdata_def)

lemma tool_spares [touch_intros]: "tools_spare m Q \<Longrightarrow> obeys (touches (spares Q)) (run_tool m argv cwd)"
  by (rule touches_tool) (auto simp: tools_spare_def spares_def)

lemma spares_where:
  assumes "prefix wrapper_dir q \<or> prefix new_data q \<or> prefix upgrade_dir q \<or>
     q \<noteq> [] \<and> [] \<notin> Q \<and> (prefix q wrapper_dir \<or> prefix q run_dir)"
  shows "spares Q q"
proof (cases "prefix q wrapper_dir \<or> prefix q run_dir")
  case True
  then have "spares Q q \<or> q = [] \<or> [] \<in> Q" by (auto simp: places prefix_Cons)
  with assms True show ?thesis by (auto simp: places spares_def)
next
  case False
  with assms show ?thesis by (auto simp: places prefix_def)
qed

lemma ready_spares [touch_intros]:
  assumes "tools_spare m Q" "[] \<notin> Q"
  shows "obeys (touches (spares Q)) (ready_to_upgrade m spec)"
proof -
  have "wrapper_dir @ [n] \<noteq> []" for n by simp
  then show ?thesis
    unfolding ready_to_upgrade_def read_pg_version_def pg_config_def verify_staged_binaries_def read_control_data_def
      write_wrappers_def write_wrapper_def
    using assms by (auto intro!: touch_intros spares_where)
qed

lemma new_spares [touch_intros]:
  assumes "tools_spare m Q" "[] \<notin> Q"
  shows "obeys (touches (spares Q)) (clear_new m)" "obeys (touches (spares Q)) (init_new m spec control)"
    "obeys (touches (spares Q)) (pg_config m flag)" "obeys (touches (spares Q)) (remove_dir_all m new_data)"
  using assms unfolding clear_new_def init_new_def pg_config_def
  by (auto intro!: touch_intros spares_where)

lemma kept_leads:
  "obeys (touches (spares Q)) a \<Longrightarrow> [] \<notin> Q \<Longrightarrow> leads (\<lambda>v. kept Q d0 pgdata (vo_disk v)) a
     (\<lambda>_ v. kept Q d0 pgdata (vo_disk v)) (\<lambda>v. kept Q d0 pgdata (vo_disk v))"
  by (erule leads_obeys) (rule kept_touches)

lemma plan_places: "pu_new_data (upgrade_plan_of spec wrappers bindir) = show_path new_data"
  "pu_check_only (upgrade_plan_of spec wrappers bindir) = us_check spec"
  by (simp_all add: upgrade_plan_of_def)

lemma tool_leads:
  assumes "tools_spare m Q" "upgrade_delivers m"
  shows "leads (\<lambda>v. kept Q d0 pgdata (vo_disk v)) (run_tool m (pg_upgrade_argv (upgrade_plan_of spec wrappers bindir)) cwd)
     (\<lambda>out v. kept Q d0 pgdata (vo_disk v) \<and> (exit_ok (to_status out) \<and> \<not> us_check spec \<longrightarrow> cluster_at (vo_disk v) new_data))
     (\<lambda>v. kept Q d0 pgdata (vo_disk v))"
proof -
  let ?argv = "pg_upgrade_argv (upgrade_plan_of spec wrappers bindir)"
  have keep: "kept Q d0 pgdata (snd (ma_tool m t ?argv cwd d))" if "kept Q d0 pgdata d" for t d
    using assms(1) that by (simp add: tools_spare_def kept_def)
  have made: "cluster_at d' new_data"
    if "ma_tool m t ?argv cwd d = (Inr out, d')" "exit_ok (to_status out)" "\<not> us_check spec" for t d out d'
    using assms(2) that plan_places unfolding upgrade_delivers_def by metis
  show ?thesis
    by (rule leadsI; auto simp: run_tool_def sys_def split: option.splits prod.splits)
      (metis keep snd_conv map_err.simps Inr_Inl_False sum.sel old.sum.exhaust made)+
qed

lemma pg_upgrade_leads:
  assumes "tools_spare m Q" "[] \<notin> Q" "upgrade_delivers m"
  shows "leads (\<lambda>v. kept Q d0 pgdata (vo_disk v)) (run_pg_upgrade m spec wrappers)
     (\<lambda>_ v. kept Q d0 pgdata (vo_disk v) \<and> (us_check spec \<or> cluster_at (vo_disk v) new_data))
     (\<lambda>v. kept Q d0 pgdata (vo_disk v))"
proof -
  have ok: "leads (\<lambda>v. P (vo_disk v)) ticks (\<lambda>_ v. P (vo_disk v)) E" for P E
    by (simp add: leads_def ticks_def)
  have ended: "leads (\<lambda>v. kept Q d0 pgdata (vo_disk v)) (caught (remove_dir_all m new_data) (\<lambda>_. bail e)) Q'
      (\<lambda>v. kept Q d0 pgdata (vo_disk v))" for e Q'
    using assms by (intro leads_caught [OF kept_leads] new_spares leads_bail)
  show ?thesis
    unfolding run_pg_upgrade_def
  proof (rule leads_chain [OF kept_leads leads_chain [OF ok leads_chain [OF leads_context [OF tool_leads] leads_chain [OF ok]]]])
    fix out :: tool_output and t0 t1
    show "leads (\<lambda>v. kept Q d0 pgdata (vo_disk v) \<and>
        (exit_ok (to_status out) \<and> \<not> us_check spec \<longrightarrow> cluster_at (vo_disk v) new_data))
      (if exit_ok (to_status out) then give (elapsed m t0 t1)
       else caught (remove_dir_all m new_data) (\<lambda>_. bail (''pg_upgrade failed with '' @ show_exit (to_status out) @
         ''. The cluster at '' @ show_path pgdata @ '' is unchanged '' @ em_dash @ '' its own output above says why.'')))
      (\<lambda>_ v. kept Q d0 pgdata (vo_disk v) \<and> (us_check spec \<or> cluster_at (vo_disk v) new_data))
      (\<lambda>v. kept Q d0 pgdata (vo_disk v))"
      by (intro leads_cond leads_give) (auto intro: leads_mono [OF ended])
  qed (use assms in \<open>auto intro: new_spares\<close>)
qed

section \<open>The swap\<close>

lemma far_apart [simp]: "apart pgdata new_data" "apart new_data pgdata"
  "set_aside h \<Longrightarrow> apart h new_data" "set_aside h \<Longrightarrow> apart pgdata h" "set_aside h \<Longrightarrow> apart h pgdata" "set_aside h \<Longrightarrow> apart new_data h"
  "pgdata \<noteq> new_data" "new_data \<noteq> pgdata" "\<not> set_aside pgdata"
  by (auto simp: places set_aside_def apart_def)

lemma kept_moved: "[] \<notin> Q \<Longrightarrow> apart a b \<Longrightarrow> kept Q d0 a d \<Longrightarrow> kept Q d0 b (moved a b d)"
  unfolding kept_def by (metis moved_tree)

lemma kept_moved_other: "[] \<notin> Q \<Longrightarrow> apart a h \<Longrightarrow> apart b h \<Longrightarrow> kept Q d0 h d \<Longrightarrow> kept Q d0 h (moved a b d)"
  unfolding kept_def by (metis moved_apart)

lemma cluster_moved: "apart a b \<Longrightarrow> cluster_at d a \<Longrightarrow> cluster_at (moved a b d) b"
  by (simp add: cluster_at_def is_plain_def moved_tree)

lemma cluster_moved_other: "apart a h \<Longrightarrow> apart b h \<Longrightarrow> cluster_at d h \<Longrightarrow> cluster_at (moved a b d) h"
  by (simp add: cluster_at_def is_plain_def moved_apart)

lemma gone_moved: "set_aside b \<Longrightarrow> entry (moved pgdata b d) pgdata = None"
  using entry_moved_from [of pgdata pgdata b d] far_apart(4) [of b] by (auto simp: apart_def pgdata_def)

definition swapped :: "path set \<Rightarrow> disk \<Rightarrow> disk \<Rightarrow> bool" where
  "swapped Q d0 d \<longleftrightarrow> (\<exists>home. set_aside home \<and> kept Q d0 home d \<and> cluster_at d pgdata)"

lemma swap_leads:
  assumes "[] \<notin> Q" "set_aside (path_of old)"
  shows "leads (\<lambda>v. kept Q d0 pgdata (vo_disk v) \<and> cluster_at (vo_disk v) new_data) (swap_in m old)
     (\<lambda>_ v. swapped Q d0 (vo_disk v)) (\<lambda>v. upgrade_safe Q d0 (vo_disk v))"
proof -
  let ?old = "path_of old"
  let ?mid = "\<lambda>v. kept Q d0 ?old (vo_disk v) \<and> entry (vo_disk v) pgdata = None \<and> cluster_at (vo_disk v) new_data"
  have mid: "upgrade_safe Q d0 (vo_disk v)" if "?mid v" for v
    using that assms(2) unfolding upgrade_safe_def by blast
  have first: "leads (\<lambda>v. kept Q d0 pgdata (vo_disk v) \<and> cluster_at (vo_disk v) new_data) (rename m pgdata ?old)
      (\<lambda>_. ?mid) (\<lambda>v. upgrade_safe Q d0 (vo_disk v))"
  proof (rule leadsI)
    fix v x w assume *: "kept Q d0 pgdata (vo_disk v) \<and> cluster_at (vo_disk v) new_data" "rename m pgdata ?old v = (Inr x, w)"
    then have "vo_disk w = moved pgdata ?old (vo_disk v)" using assms(2) by (metis rename_cases far_apart(9) Inr_Inl_False)
    then show "?mid w" using * assms by (simp add: kept_moved cluster_moved_other gone_moved)
  next
    fix v e w assume *: "kept Q d0 pgdata (vo_disk v) \<and> cluster_at (vo_disk v) new_data" "rename m pgdata ?old v = (Inl e, w)"
    then have "vo_disk w = vo_disk v" using assms(2) by (metis rename_cases far_apart(9) Inr_Inl_False)
    with * show "upgrade_safe Q d0 (vo_disk w)" by (simp add: upgrade_safe_def)
  qed
  have undone: "upgrade_safe Q d0 (vo_disk w)" if "?mid v" "rename m ?old pgdata v = (r, w)" for v r w
    using that(2)
  proof (rule rename_cases)
    show "?old \<noteq> pgdata" using assms(2) by auto
  next
    assume "r = Inr ()" "vo_disk w = moved ?old pgdata (vo_disk v)"
    then show ?thesis using that(1) assms by (simp add: upgrade_safe_def kept_moved)
  next
    fix e assume "vo_disk w = vo_disk v" then show ?thesis using mid [OF that(1)] by simp
  qed
  have second: "leads ?mid (caught (rename m new_data pgdata) (\<lambda>r. case r of Inr _ \<Rightarrow> give ()
       | Inl e \<Rightarrow> caught (rename m ?old pgdata) (\<lambda>_. rethrow (c # e))))
     (\<lambda>_ v. swapped Q d0 (vo_disk v)) (\<lambda>v. upgrade_safe Q d0 (vo_disk v))" for c
    unfolding leads_def
  proof (intro allI impI)
    fix v r w
    assume v: "?mid v" and run: "caught (rename m new_data pgdata) (\<lambda>r. case r of Inr _ \<Rightarrow> give ()
       | Inl e \<Rightarrow> caught (rename m ?old pgdata) (\<lambda>_. rethrow (c # e))) v = (r, w)"
    obtain r1 u where r1: "rename m new_data pgdata v = (r1, u)" by force
    obtain r2 t where r2: "rename m ?old pgdata u = (r2, t)" by force
    show "case r of Inr _ \<Rightarrow> swapped Q d0 (vo_disk w) | Inl _ \<Rightarrow> upgrade_safe Q d0 (vo_disk w)"
      using r1
    proof (rule rename_cases)
      assume ok: "r1 = Inr ()" "vo_disk u = moved new_data pgdata (vo_disk v)"
      then have "swapped Q d0 (vo_disk u)"
        using v assms unfolding swapped_def by (auto intro!: exI [of _ ?old] kept_moved_other cluster_moved)
      then show ?thesis using run r1 ok by (auto simp: caught_def give_def)
    next
      fix e assume "r1 = Inl e" and u: "vo_disk u = vo_disk v"
      then have "?mid u" using v by simp
      from undone [OF this r2] mid [OF this]
      show ?thesis using run r1 r2 \<open>r1 = Inl e\<close>
        by (cases e) (auto simp: caught_def rethrow_def split: prod.splits sum.splits agent_error.splits)
    qed simp
  qed
  show ?thesis unfolding swap_in_def
    by (intro leads_chain [OF leads_context [OF first]] second)
qed

text \<open>What follows the swap stays away from the old cluster and from the files that make the new one a cluster.\<close>

definition swap_tail :: "path \<Rightarrow> bool" where
  "swap_tail p \<longleftrightarrow> prefix p (pgdata @ [''conf.d'']) \<or> p = pgdata @ [''postgresql.conf''] \<or> prefix upgrade_dir p"

lemma after_swap_tail: "obeys (touches swap_tail) (after_swap m)"
  unfolding after_swap_def append_include_dir_def
  by (auto intro!: touch_intros simp: swap_tail_def pgdata_def)

lemma swapped_tail:
  assumes "[] \<notin> Q" "swapped Q d0 (vo_disk v)" "touches swap_tail v w"
  shows "swapped Q d0 (vo_disk w)"
proof -
  have same: "entry (vo_disk w) p = entry (vo_disk v) p" if "p \<noteq> []" "\<not> swap_tail p" for p
    using assms(3) that by (simp add: touches_def)
  obtain home where home: "set_aside home" "kept Q d0 home (vo_disk v)" "cluster_at (vo_disk v) pgdata"
    using assms(2) unfolding swapped_def by blast
  have "\<not> swap_tail (home @ q)" if "q \<in> Q" for q
    using home(1) that assms(1) by (auto simp: swap_tail_def set_aside_def places)
  moreover have "\<not> swap_tail (pgdata @ [''PG_VERSION''])" "\<not> swap_tail (pgdata @ [''global'', ''pg_control''])"
    by (auto simp: swap_tail_def places)
  moreover have "home @ q \<noteq> []" for q using home(1) by (auto simp: set_aside_def)
  ultimately have "kept Q d0 home (vo_disk w)" "cluster_at (vo_disk w) pgdata"
    using home same by (auto simp: kept_def cluster_at_def is_plain_def)
  with home(1) show ?thesis unfolding swapped_def by blast
qed

text \<open>The new cluster reads the managed configuration.\<close>

definition configured :: "disk \<Rightarrow> bool" where
  "configured d \<longleftrightarrow> is_folder d (pgdata @ [''conf.d'']) \<and>
     (\<exists>mode c. entry d (pgdata @ [''postgresql.conf'']) = Some (File mode c) \<and> has_include c)"

lemma include_is_found: "has_include (c @ include_text)"
proof -
  have "str_lines (include_dir_line @ [CHR 0x0A]) = [include_dir_line]" "trim include_dir_line = include_dir_line"
    by code_simp+
  then have line: "has_include (x @ CHR 0x0A # include_dir_line @ [CHR 0x0A])" for x
    by (simp add: has_include_def str_lines_append)
  show ?thesis
    using line [of "c @ CHR 0x0A # ''# Added by pgpod. Configuration lives in conf.d/.''"] by (simp add: include_text_def)
qed

lemma append_configures:
  assumes "append_include_dir m dir v = (Inr x, w)"
  shows "\<exists>mode c. entry (vo_disk w) (dir @ [''postgresql.conf'']) = Some (File mode c) \<and> has_include c"
proof -
  obtain c u where read: "read_to_string m (dir @ [''postgresql.conf'']) v = (Inr c, u)"
    and rest: "(if has_include c then give () else context_of ''failed to append include_dir''
      (append_file m (dir @ [''postgresql.conf'']) include_text)) u = (Inr x, w)"
    using assms by (auto simp: append_include_dir_def Let_def chain_Inr)
  show ?thesis
  proof (cases "has_include c")
    case True
    then show ?thesis using rest read_makes [OF read] by (auto simp: give_def)
  next
    case False
    then have "append_file m (dir @ [''postgresql.conf'']) include_text u = (Inr x, w)" using rest by simp
    from append_makes [OF this] show ?thesis using include_is_found by auto
  qed
qed

lemma after_swap_configures:
  assumes "after_swap m v = (Inr x, w)"
  shows "configured (vo_disk w)"
proof -
  obtain u t where made: "create_dir_all m (pgdata @ [''conf.d'']) v = (Inr (), u)"
    and added: "append_include_dir m pgdata u = (Inr (), t)"
    and ended: "caught (remove_dir_all m upgrade_dir) (\<lambda>_. give ()) t = (Inr x, w)"
    using assms by (auto simp: after_swap_def chain_Inr)
  have "obeys (touches (\<lambda>p. p = pgdata @ [''postgresql.conf''])) (append_include_dir m pgdata)"
    unfolding append_include_dir_def by (auto intro!: touch_intros)
  from touchesD [OF this added] have "entry (vo_disk t) (pgdata @ [''conf.d'']) = entry (vo_disk u) (pgdata @ [''conf.d''])" by simp
  then have "is_folder (vo_disk t) (pgdata @ [''conf.d''])" using create_dir_all_makes [OF made] by (simp add: is_folder_def)
  then have "configured (vo_disk t)" using append_configures [OF added] by (simp add: configured_def)
  moreover have "obeys (touches (prefix upgrade_dir)) (caught (remove_dir_all m upgrade_dir) (\<lambda>_. give ()))"
    by (intro touch_intros)
  from touchesD [OF this ended] have "entry (vo_disk w) (pgdata @ q) = entry (vo_disk t) (pgdata @ q)" for q
    by (simp add: places)
  ultimately show ?thesis by (simp add: configured_def is_folder_def)
qed

lemma slashless_label:
  assumes "major_label raw = Some l"
  shows "CHR ''/'' \<notin> set l"
proof -
  have "is_ascii_digit c \<Longrightarrow> c \<noteq> CHR ''/''" for c by (auto simp: is_ascii_digit_def)
  then have "CHR ''/'' \<notin> set (show_nat n)" for n using show_nat_digits by blast
  with assms show ?thesis
    by (auto simp: major_label_def Let_def split: prod.splits option.splits if_splits)
qed

lemma split_on_none: "c \<notin> set s \<Longrightarrow> split_on c s = [s]"
  by (induction s) auto

lemma old_dir_aside:
  assumes "CHR ''/'' \<notin> set (us_from_version spec)"
  shows "set_aside (path_of (old_dir_name spec n))"
proof -
  let ?x = "us_from_version spec @ ''-'' @ show_nat n"
  have digits: "CHR ''/'' \<notin> set (show_nat n)" using show_nat_digits [of n] by (auto simp: is_ascii_digit_def)
  have "old_dir_name spec n = [] @ CHR ''/'' # (''pgdata'' @ CHR ''/'' # (''pgdata.old-'' @ ?x))"
    by (simp add: old_dir_name_def old_prefix_def)
  moreover have "split_on (CHR ''/'') \<dots> = [[], ''pgdata'', ''pgdata.old-'' @ ?x]"
    by (subst split_on_append_sep)+ (use assms digits in \<open>simp add: split_on_none\<close>)
  ultimately have "path_of (old_dir_name spec n) = [''pgdata'', ''pgdata.old-'' @ ?x]" by (simp add: path_of_def)
  then show ?thesis unfolding set_aside_def by blast
qed

lemma ready_names_version:
  "ready_to_upgrade m spec v = (Inr x, w) \<Longrightarrow> CHR ''/'' \<notin> set (us_from_version spec)"
  by (auto simp: ready_to_upgrade_def read_pg_version_def Let_def chain_Inr lift_res_def bail_def
      dest: slashless_label split: if_splits option.splits)

lemma ready_leads:
  assumes "tools_spare m Q" "[] \<notin> Q"
  shows "leads (\<lambda>v. kept Q d0 pgdata (vo_disk v)) (ready_to_upgrade m spec)
     (\<lambda>_ v. kept Q d0 pgdata (vo_disk v) \<and> CHR ''/'' \<notin> set (us_from_version spec)) (\<lambda>v. kept Q d0 pgdata (vo_disk v))"
  using kept_leads [OF ready_spares [OF assms] assms(2), of d0] ready_names_version [of m spec]
  unfolding leads_def by (auto split: sum.splits)

lemma report_leads: "leads (\<lambda>v. P (vo_disk v)) (send_report j r) (\<lambda>_ v. P (vo_disk v)) (\<lambda>v. P (vo_disk v))"
  by (auto simp: leads_def send_report_def chain_def lift_res_def prints_def split: sum.splits)

lemma in_place_leads:
  assumes "tools_spare m Q" "[] \<notin> Q" "upgrade_delivers m"
  shows "leads (\<lambda>v. kept Q d0 pgdata (vo_disk v)) (upgrade_in_place m j spec)
     (\<lambda>_ v. if us_check spec then kept Q d0 pgdata (vo_disk v) else swapped Q d0 (vo_disk v) \<and> configured (vo_disk v))
     (\<lambda>v. upgrade_safe Q d0 (vo_disk v))"
proof -
  let ?R = "\<lambda>v. if us_check spec then kept Q d0 pgdata (vo_disk v) else swapped Q d0 (vo_disk v) \<and> configured (vo_disk v)"
  let ?K = "\<lambda>v. kept Q d0 pgdata (vo_disk v)" and ?S = "\<lambda>v. upgrade_safe Q d0 (vo_disk v)"
  have safe: "?K v \<Longrightarrow> ?S v" for v by (simp add: upgrade_safe_def)
  have safe': "swapped Q d0 (vo_disk v) \<Longrightarrow> ?S v" for v unfolding swapped_def upgrade_safe_def by blast
  have keeps: "leads (\<lambda>v. ?K v \<and> S) a (\<lambda>_ v. ?K v \<and> S) ?S" if "obeys (touches (spares Q)) a" for a :: "unit agent" and S
    by (rule leads_mono [OF leads_if [OF kept_leads [OF that assms(2)]]]) (auto simp: safe)
  have start: "leads ?K (ready_to_upgrade m spec) (\<lambda>_ v. ?K v \<and> CHR ''/'' \<notin> set (us_from_version spec)) ?S"
    by (rule leads_mono [OF ready_leads [OF assms(1,2)]]) (auto simp: safe)
  have made: "leads (\<lambda>v. ?K v \<and> S) (run_pg_upgrade m spec wrappers)
      (\<lambda>_ v. (?K v \<and> (us_check spec \<or> cluster_at (vo_disk v) new_data)) \<and> S) ?S" for wrappers S
    by (rule leads_mono [OF leads_if [OF pg_upgrade_leads [OF assms]]]) (auto simp: safe)
  have cleared: "leads ?K (context_of c (remove_dir_all m new_data)) (\<lambda>_. ?K) ?S" for c
    by (rule leads_mono [OF kept_leads [OF touches.context_of assms(2)]]) (auto simp: safe new_spares(4) [OF assms(1,2)])
  have tail: "leads (\<lambda>v. swapped Q d0 (vo_disk v)) (after_swap m)
      (\<lambda>_ v. swapped Q d0 (vo_disk v) \<and> configured (vo_disk v)) ?S"
    using swapped_tail [OF assms(2)] after_swap_tail after_swap_configures safe'
    by (intro leadsI) (blast dest: obeysD)+
  have clock: "leads P (clock_secs m) (\<lambda>_. P) E" for P E by (simp add: leads_def clock_secs_def)
  have ending: "leads (\<lambda>v. (?K v \<and> (us_check spec \<or> cluster_at (vo_disk v) new_data)) \<and> CHR ''/'' \<notin> set (us_from_version spec))
      (if us_check spec
       then chain (context_of ''failed to remove the trial cluster'' (remove_dir_all m new_data)) (\<lambda>_.
         send_report j (run_report spec [] secs))
       else chain (clock_secs m) (\<lambda>now. let old_dir = old_dir_name spec now in
         chain (swap_in m old_dir) (\<lambda>_. chain (after_swap m) (\<lambda>_. send_report j (run_report spec old_dir secs)))))
      (\<lambda>_. ?R) ?S" for secs
  proof (rule leads_cond)
    assume "us_check spec"
    show "leads (\<lambda>v. (?K v \<and> (us_check spec \<or> cluster_at (vo_disk v) new_data)) \<and> CHR ''/'' \<notin> set (us_from_version spec))
      (chain (context_of ''failed to remove the trial cluster'' (remove_dir_all m new_data)) (\<lambda>_.
         send_report j (run_report spec [] secs))) (\<lambda>_. ?R) ?S"
      using \<open>us_check spec\<close> safe
      by (intro leads_mono [OF leads_chain [OF cleared leads_mono [OF report_leads [where P = "kept Q d0 pgdata"]]]]) auto
  next
    assume "\<not> us_check spec"
    have "leads (\<lambda>v. ?K v \<and> cluster_at (vo_disk v) new_data)
        (chain (swap_in m (old_dir_name spec now)) (\<lambda>_. chain (after_swap m) (\<lambda>_. send_report j r))) (\<lambda>_ v. swapped Q d0 (vo_disk v) \<and> configured (vo_disk v)) ?S"
      if "CHR ''/'' \<notin> set (us_from_version spec)" for now r
      by (intro leads_chain [OF swap_leads [OF assms(2) old_dir_aside [OF that]]]
          leads_chain [OF tail leads_mono [OF report_leads [where P = "\<lambda>d. swapped Q d0 d \<and> configured d"]]]) (auto simp: safe')
    with \<open>\<not> us_check spec\<close> show "leads (\<lambda>v. (?K v \<and> (us_check spec \<or> cluster_at (vo_disk v) new_data)) \<and>
        CHR ''/'' \<notin> set (us_from_version spec))
      (chain (clock_secs m) (\<lambda>now. let old_dir = old_dir_name spec now in
         chain (swap_in m old_dir) (\<lambda>_. chain (after_swap m) (\<lambda>_. send_report j (run_report spec old_dir secs)))))
      (\<lambda>_. ?R) ?S"
      by (cases "CHR ''/'' \<in> set (us_from_version spec)")
        (auto simp: Let_def leads_def [of "\<lambda>_. False"] intro!: leads_chain [OF clock] intro: leads_mono)
  qed
  show ?thesis
    unfolding upgrade_in_place_def
    by (intro leads_chain [OF start] leads_chain [OF keeps] leads_chain [OF made] ending leads_pair new_spares assms)
qed

section \<open>The job\<close>

lemma untouched:
  "leads (\<lambda>v. vo_disk v = d) (path_exists m p) (\<lambda>_ v. vo_disk v = d) (\<lambda>v. vo_disk v = d)"
  "leads (\<lambda>v. vo_disk v = d) (is_cluster m p) (\<lambda>_ v. vo_disk v = d) (\<lambda>v. vo_disk v = d)"
proof -
  have one: "leads (\<lambda>v. vo_disk v = d) (tests m X) (\<lambda>_ v. vo_disk v = d) (\<lambda>v. vo_disk v = d)" for X
    by (rule leads_tests) simp_all
  then show "leads (\<lambda>v. vo_disk v = d) (path_exists m p) (\<lambda>_ v. vo_disk v = d) (\<lambda>v. vo_disk v = d)"
    by (simp add: path_exists_def)
  show "leads (\<lambda>v. vo_disk v = d) (is_cluster m p) (\<lambda>_ v. vo_disk v = d) (\<lambda>v. vo_disk v = d)"
    unfolding is_cluster_def is_file_def by (intro leads_chain [OF one] leads_cond one leads_give)
qed

lemma no_swap_onto:
  assumes "is_folder d pgdata" "entry d (pgdata @ [x]) \<noteq> None"
  shows "leads (\<lambda>v. vo_disk v = d) (finish_swap m j spec) (\<lambda>_ _. False) (\<lambda>v. vo_disk v = d)"
proof -
  obtain e where "rename_at new_data pgdata d = (Inl e, d)" using rename_onto [OF assms, of new_data] by auto
  then have "leads (\<lambda>v. vo_disk v = d) (rename m new_data pgdata) (\<lambda>_ _. False) (\<lambda>v. vo_disk v = d)"
    by (auto simp: leads_def rename_def sys_def unchanged_def split: option.splits)
  then show ?thesis unfolding finish_swap_def
    by (rule leads_chain [OF leads_context]) (simp add: leads_def)
qed

lemma run_leads:
  assumes "tools_spare m Q" "[] \<notin> Q" "upgrade_delivers m" "is_folder d pgdata" "entry d (pgdata @ [''PG_VERSION'']) \<noteq> None"
  shows "leads (\<lambda>v. vo_disk v = d) (upgrade_run m j)
     (\<lambda>_ v. \<exists>spec. upgrade_spec_from_env (je_decode j) (je_env j) = Inr spec \<and>
       (if us_check spec then kept Q d pgdata (vo_disk v) else swapped Q d (vo_disk v) \<and> configured (vo_disk v)))
     (\<lambda>v. upgrade_safe Q d (vo_disk v))" (is "leads _ _ (\<lambda>_. ?R) ?S")
proof -
  have dd: "upgrade_safe Q x x" for x by (simp add: upgrade_safe_def kept_def)
  then have safe: "?S v" if "vo_disk v = d" for v using that by simp
  have read: "leads (\<lambda>v. vo_disk v = d) (context_of c (lift_res (map_err f (upgrade_spec_from_env (je_decode j) (je_env j)))))
      (\<lambda>spec v. vo_disk v = d \<and> upgrade_spec_from_env (je_decode j) (je_env j) = Inr spec) ?S" for c f
    using safe by (cases "upgrade_spec_from_env (je_decode j) (je_env j)")
      (auto simp: leads_def lift_res_def context_of_def)
  have there: "leads (\<lambda>v. vo_disk v = d \<and> X) (path_exists m p) (\<lambda>_ v. vo_disk v = d \<and> X) ?S" for p X
    by (rule leads_mono [OF leads_if [OF untouched(1)]]) (auto simp: dd)
  have look: "leads (\<lambda>v. vo_disk v = d \<and> X) (if b then give False else is_cluster m p) (\<lambda>_ v. vo_disk v = d \<and> X) ?S" for b p X
    by (intro leads_cond leads_give leads_mono [OF leads_if [OF untouched(2)]]) (auto simp: dd)
  have finish: "leads (\<lambda>v. vo_disk v = d \<and> X) (finish_swap m j spec) (\<lambda>_. ?R) ?S" for spec X
    by (rule leads_mono [OF no_swap_onto [OF assms(4,5)]]) (auto simp: dd)
  have work: "leads (\<lambda>v. vo_disk v = d \<and> upgrade_spec_from_env (je_decode j) (je_env j) = Inr spec)
      (upgrade_in_place m j spec) (\<lambda>_. ?R) ?S" for spec
    by (rule leads_mono [OF leads_if [OF in_place_leads [OF assms(1-3), of d],
        of "upgrade_spec_from_env (je_decode j) (je_env j) = Inr spec"]]) (simp add: kept_def, rule exI [of _ spec], simp_all)
  show ?thesis unfolding upgrade_run_def
    by (intro leads_chain [OF read] leads_chain [OF there] leads_chain [OF look] leads_cond finish work)
qed

text \<open>C5: No upgrade loses the old cluster.  Wherever an operation fails or the power is lost, the files the commands leave
  alone are all where they were, or all in a directory beside it; and in that case there is an upgraded
  cluster, in place or, with no data directory at all, beside it where the next run looks for it.\<close>

theorem upgrade_keeps_old_cluster:
  assumes "tools_spare m Q" "[] \<notin> Q" "upgrade_delivers m"
    "is_folder (vo_disk v) pgdata" "entry (vo_disk v) (pgdata @ [''PG_VERSION'']) \<noteq> None"
  shows "upgrade_safe Q (vo_disk v) (vo_disk (snd (upgrade_run m j v)))"
proof -
  obtain r w where run: "upgrade_run m j v = (r, w)" by force
  have "leads (\<lambda>u. vo_disk u = vo_disk v) (upgrade_run m j) (\<lambda>_ u. upgrade_safe Q (vo_disk v) (vo_disk u))
      (\<lambda>u. upgrade_safe Q (vo_disk v) (vo_disk u))"
    by (rule leads_mono [OF run_leads [OF assms]])
      (auto simp: upgrade_safe_def swapped_def split: if_splits)
  from leads_same [OF this refl run] show ?thesis by (simp add: run)
qed


text \<open>C33: An interrupted swap is finished by the next run.  When there is no data directory and the upgraded cluster is
  beside it, a run that meets no failure puts it in place as it is, touches nothing else, and reports.\<close>

theorem interrupted_swap_finishes:
  assumes "\<And>t. ma_fault m t = None" "entry (vo_disk v) pgdata = None" "is_folder (vo_disk v) [''pgdata'']"
    "is_folder (vo_disk v) new_data" "cluster_at (vo_disk v) new_data"
    "upgrade_spec_from_env (je_decode j) (je_env j) = Inr spec" "je_encode j (run_report spec [] 0) = Inr json"
  shows "\<exists>w. upgrade_run m j v = (Inr (), w) \<and> vo_out w = vo_out v @ report_marker @ json @ [CHR 0x0A] \<and>
     (\<forall>x. x \<noteq> [] \<longrightarrow> entry (vo_disk w) (pgdata @ x) = entry (vo_disk v) (new_data @ x)) \<and>
     (\<forall>p. p \<noteq> [] \<longrightarrow> prefix new_data p \<or> prefix pgdata p \<or> entry (vo_disk w) p = entry (vo_disk v) p)"
proof -
  have at: "rename_at new_data pgdata (vo_disk v) = (Inr (), moved new_data pgdata (vo_disk v))"
    using assms(2-4) by (auto simp: rename_at_def parent_ok_def is_folder_def pgdata_def new_data_def split: option.splits node.splits)
  moreover have "prefix new_data p \<or> prefix pgdata p \<or> entry (moved new_data pgdata (vo_disk v)) p = entry (vo_disk v) p"
    if "p \<noteq> []" for p using entry_moved_other [OF that] by metis
  ultimately show ?thesis
    using assms
    by (auto simp: upgrade_run_def finish_swap_def send_report_def path_exists_def is_cluster_def is_file_def tests_def
      rename_def agent_defs cluster_at_def print_report_def moved_tree)
qed

section \<open>Witnesses\<close>

text \<open>A small volume, and tools that do what the real ones do to it: \<^verbatim>\<open>pg_upgrade\<close> makes a cluster
  beside the old one, every other command prints what it is asked and leaves the disk alone.\<close>

definition demo_disk :: disk where
  "demo_disk =
     [([''pgdata''], Folder 448), (pgdata, Folder 448), (pgdata @ [''PG_VERSION''], File 384 ''17''),
      (pgdata @ [''global''], Folder 448), (pgdata @ [''global'', ''pg_control''], File 384 ''old''),
      ([''pgdata'', ''upgrade''], Folder 448), ([''pgdata'', ''upgrade'', ''old''], Folder 448),
      ([''pgdata'', ''upgrade'', ''old'', ''pg_ctl''], File 448 ''elf'')]"

definition said :: "string \<Rightarrow> string + tool_output" where
  "said s = Inr \<lparr> to_status = Exited 0, to_stdout = s, to_stderr = [] \<rparr>"

definition demo_tool :: "nat \<Rightarrow> string list \<Rightarrow> path option \<Rightarrow> disk \<Rightarrow> (string + tool_output) \<times> disk" where
  "demo_tool t argv cwd d =
     (if list_ex (prefix ''--old-options='') argv
      then (said [], place (new_data @ [''PG_VERSION'']) (File 384 ''18'') (place (new_data @ [''global'', ''pg_control'']) (File 384 ''new'')
        (place (new_data @ [''postgresql.conf'']) (File 384 []) (place new_data (Folder 448) d))))
      else if argv = [''pg_config'', ''--version''] then (said ''PostgreSQL 18.1'', d)
      else if argv = [''pg_config'', ''--bindir''] then (said ''/new'', d)
      else if list_ex (\<lambda>a. a = ''--version'') argv then (said ''pg_ctl (PostgreSQL) 17.2'', d)
      else if list_ex (\<lambda>a. a = ''-D'') argv then (said ''Database cluster state: shut down'', d)
      else (said [], d))"

definition demo_machine :: machine where
  "demo_machine = \<lparr> ma_fault = \<lambda>_. None, ma_tool = demo_tool, ma_millis = \<lambda>t. t, ma_epoch = \<lambda>_. 7 \<rparr>"

definition demo_job_spec :: upgrade_spec where
  "demo_job_spec = \<lparr> us_from_version = ''17'', us_to_version = ''18'', us_staged_bindir = ''/pgdata/upgrade/old'',
     us_staged_lib_dirs = [], us_method = Copy, us_jobs = 1, us_preload_libraries = [], us_check = False, us_initdb = initdb_default \<rparr>"

definition demo_job :: job_env where
  "demo_job = \<lparr> je_env = [upgrade_spec_env \<mapsto> ''spec''], je_decode = \<lambda>_. Inr demo_job_spec, je_encode = \<lambda>_. Inr ''done'' \<rparr>"

definition demo_volume :: volume where "demo_volume = \<lparr> vo_disk = demo_disk, vo_tick = 0, vo_out = [] \<rparr>"

definition demo_files :: "path set" where "demo_files = {[''PG_VERSION''], [''global'', ''pg_control'']}"

lemma demo_spares: "tools_spare demo_machine demo_files" "[] \<notin> demo_files"
  by (auto simp: tools_spare_def demo_machine_def demo_tool_def demo_files_def entry_place places)

lemma demo_delivers: "upgrade_delivers demo_machine"
  by (auto simp: upgrade_delivers_def demo_machine_def demo_tool_def pg_upgrade_argv_def cluster_at_def is_plain_def entry_place places
    split: if_splits)

lemma demo_start: "is_folder (vo_disk demo_volume) pgdata" "entry (vo_disk demo_volume) (pgdata @ [''PG_VERSION'']) \<noteq> None"
  by (simp_all add: demo_volume_def demo_disk_def is_folder_def entry_def places)

text \<open>The run on this volume, step by step: it succeeds.\<close>

lemma no_trim: "trim ''PostgreSQL 18.1'' = ''PostgreSQL 18.1''" "trim ''pg_ctl (PostgreSQL) 17.2'' = ''pg_ctl (PostgreSQL) 17.2''" "trim ''/new'' = ''/new''"
  by (simp_all add: std_simps)

lemma plain_texts: "lossy ''PostgreSQL 18.1'' = ''PostgreSQL 18.1''" "lossy ''pg_ctl (PostgreSQL) 17.2'' = ''pg_ctl (PostgreSQL) 17.2''"
  "lossy ''/new'' = ''/new''" "lossy ''Database cluster state: shut down'' = ''Database cluster state: shut down''" "utf8 ''17''" "utf8 []"
  by ((rule lossy_ascii | rule ascii_utf8), simp add: byte_def)+

lemma numbers: "parse_u32 ''17'' = Some 17" "parse_u32 ''18'' = Some 18" by (simp_all add: std_simps)
lemma shown: "show_nat 17 = ''17''" "show_nat 18 = ''18''" "show_nat 7 = ''7''" by code_simp+

lemma labels: "major_label ''17'' = Some ''17''" "major_label ''PostgreSQL 18.1'' = Some ''18''"
  "major_label ''pg_ctl (PostgreSQL) 17.2'' = Some ''17''"
  by (simp_all add: major_label_def no_trim trim_id is_space_def is_ascii_digit_def less_eq_char_def version_piece_def is_version_sep_def numbers shown)

lemma demo_texts: "\<not> has_include []" "path_of ''/pgdata/upgrade/old'' = [''pgdata'', ''upgrade'', ''old'']"
  "parse_u32_res (hd (split_on (CHR ''.'') ''18'')) = Inr 18" "path_of (old_dir_name demo_job_spec 7) = [''pgdata'', ''pgdata.old-17-7'']"
  by (simp_all add: has_include_def str_lines_def path_of_def parse_u32_res_def numbers old_dir_name_def old_prefix_def demo_job_spec_def shown)

lemma demo_clean:  "cd_clean (control_data_of ''Database cluster state: shut down'')"
  by (simp add: control_data_of_def control_field_def str_lines_def List.map_filter_simps strip_cr_def std_simps)

lemmas demo_defs = demo_machine_def demo_volume_def demo_disk_def demo_job_def said_def exit_ok_def
lemmas op_defs = run_tool_def read_to_string_def read_dir_def stat_def write_file_def write_mode_def write_at_def set_mode_def
  path_exists_def is_file_def is_dir_def tests_def mkdir_def mkdir_or_dir_def parent_ok_def unchanged_def place_def prune_def listing_def
  is_plain_def is_folder_def entry_def agent_defs

lemma demo_says:
  "demo_tool t [''pg_config'', ''--version''] cwd d = (said ''PostgreSQL 18.1'', d)"
  "demo_tool t [''pg_config'', ''--bindir''] cwd d = (said ''/new'', d)"
  "demo_tool t [show_path (wrapper_dir @ [''pg_ctl'']), ''--version''] cwd d = (said ''pg_ctl (PostgreSQL) 17.2'', d)"
  "demo_tool t [show_path (wrapper_dir @ [''pg_controldata'']), ''-D'', show_path pgdata] cwd d = (said ''Database cluster state: shut down'', d)"
  by (simp_all add: demo_tool_def show_path_def places)

lemma demo_version: "read_pg_version demo_machine pgdata (demo_volume\<lparr> vo_tick := Suc 0 \<rparr>) = (Inr ''17'', demo_volume\<lparr> vo_tick := Suc (Suc 0) \<rparr>)"
  by (simp add: read_pg_version_def Let_def op_defs demo_defs plain_texts labels places)

lemma demo_config: "pg_config demo_machine ''--version'' v = (Inr ''PostgreSQL 18.1'', v\<lparr> vo_tick := Suc (vo_tick v) \<rparr>)"
 "pg_config demo_machine ''--bindir'' v = (Inr ''/new'', v\<lparr> vo_tick := Suc (vo_tick v) \<rparr>)"
  by (simp_all add: pg_config_def op_defs demo_defs demo_says plain_texts no_trim del: lossy.simps)

lemma demo_verify: "verify_staged_binaries demo_machine wrapper_dir ''17'' v = (Inr (), v\<lparr> vo_tick := Suc (vo_tick v) \<rparr>)"
  by (simp add: verify_staged_binaries_def Let_def op_defs demo_defs demo_says plain_texts no_trim labels del: lossy.simps)

lemma demo_control: "read_control_data demo_machine wrapper_dir pgdata v =
   (Inr (control_data_of ''Database cluster state: shut down''), v\<lparr> vo_tick := Suc (vo_tick v) \<rparr>)"
  by (simp add: read_control_data_def op_defs demo_defs demo_says plain_texts del: lossy.simps)


definition disk1 :: disk where "disk1 = (run_dir, Folder 493) # demo_disk"

definition disk2 :: disk where
  "disk2 = (wrapper_dir @ [''pg_ctl''], File 448 (wrapper_script (library_path demo_job_spec) (join_str (us_staged_bindir demo_job_spec) ''pg_ctl'')))
     # (wrapper_dir, Folder 493) # disk1"

lemma demo_run_dir: "\<exists>t. create_dir_all demo_machine run_dir (demo_volume\<lparr> vo_tick := n \<rparr>) =
   (Inr (), demo_volume\<lparr> vo_disk := disk1, vo_tick := t \<rparr>)"
  by (subst create_dir_all.simps) (simp add: op_defs demo_defs disk1_def places)

lemma demo_wrappers: "\<exists>t. write_wrappers demo_machine demo_job_spec (demo_volume\<lparr> vo_disk := disk1, vo_tick := n \<rparr>) =
   (Inr wrapper_dir, demo_volume\<lparr> vo_disk := disk2, vo_tick := t \<rparr>)"
proof -
  have dirs: "\<exists>t. create_dir_all demo_machine wrapper_dir (demo_volume\<lparr> vo_disk := disk1, vo_tick := n \<rparr>) =
      (Inr (), demo_volume\<lparr> vo_disk := (wrapper_dir, Folder 493) # disk1, vo_tick := t \<rparr>)" for n
    by (subst create_dir_all.simps) (simp add: op_defs demo_defs disk1_def places)
  have exists: "path_exists demo_machine wrapper_dir (demo_volume\<lparr> vo_disk := disk1, vo_tick := n \<rparr>) =
      (Inr False, demo_volume\<lparr> vo_disk := disk1, vo_tick := Suc n \<rparr>)" for n
    by (simp add: op_defs demo_defs disk1_def places)
  have staged: "path_of (us_staged_bindir demo_job_spec) = [''pgdata'', ''upgrade'', ''old'']"
    using demo_texts by (simp add: demo_job_spec_def)
  have list: "read_dir demo_machine [''pgdata'', ''upgrade'', ''old''] (demo_volume\<lparr> vo_disk := (wrapper_dir, Folder 493) # disk1, vo_tick := t \<rparr>) =
      (Inr [''pg_ctl''], demo_volume\<lparr> vo_disk := (wrapper_dir, Folder 493) # disk1, vo_tick := Suc t \<rparr>)" for t
    by (simp add: op_defs demo_defs disk1_def places)
  have one: "\<exists>t'. write_wrapper demo_machine demo_job_spec ''pg_ctl'' (demo_volume\<lparr> vo_disk := (wrapper_dir, Folder 493) # disk1, vo_tick := t \<rparr>) =
      (Inr True, demo_volume\<lparr> vo_disk := disk2, vo_tick := t' \<rparr>)" for t
    by (simp add: write_wrapper_def staged op_defs demo_defs disk1_def disk2_def places Let_def)
  obtain t1 where d: "create_dir_all demo_machine wrapper_dir (demo_volume\<lparr> vo_disk := disk1, vo_tick := Suc n \<rparr>) =
      (Inr (), demo_volume\<lparr> vo_disk := (wrapper_dir, Folder 493) # disk1, vo_tick := t1 \<rparr>)" using dirs by blast
  obtain t2 where o: "write_wrapper demo_machine demo_job_spec ''pg_ctl'' (demo_volume\<lparr> vo_disk := (wrapper_dir, Folder 493) # disk1, vo_tick := Suc t1 \<rparr>) =
      (Inr True, demo_volume\<lparr> vo_disk := disk2, vo_tick := t2 \<rparr>)" using one by blast
  show ?thesis
    by (auto simp: write_wrappers_def exists d staged list o chain_def context_of_def give_def)
qed

lemma demo_ready: "\<exists>t. ready_to_upgrade demo_machine demo_job_spec (demo_volume\<lparr> vo_tick := Suc 0 \<rparr>) =
   (Inr (wrapper_dir, control_data_of ''Database cluster state: shut down''), demo_volume\<lparr> vo_disk := disk2, vo_tick := t \<rparr>)"
proof -
  obtain t1 where d: "create_dir_all demo_machine run_dir (demo_volume\<lparr> vo_tick := Suc (Suc (Suc 0)) \<rparr>) =
      (Inr (), demo_volume\<lparr> vo_disk := disk1, vo_tick := t1 \<rparr>)" using demo_run_dir by blast
  obtain t2 where w: "write_wrappers demo_machine demo_job_spec (demo_volume\<lparr> vo_disk := disk1, vo_tick := t1 \<rparr>) =
      (Inr wrapper_dir, demo_volume\<lparr> vo_disk := disk2, vo_tick := t2 \<rparr>)" using demo_wrappers by blast
  have "us_from_version demo_job_spec = ''17''" "us_to_version demo_job_spec = ''18''" by (simp_all add: demo_job_spec_def)
  then show ?thesis
    by (auto simp: ready_to_upgrade_def chain_def context_of_def give_def demo_version demo_config d w demo_verify demo_control demo_clean labels
      numeral_2_eq_2)
qed

definition disk3 :: disk where
  "disk3 = snd (demo_tool 0 (pg_upgrade_argv (upgrade_plan_of demo_job_spec wrapper_dir ''/new'')) (Some upgrade_dir) disk2)"

lemma disk3_eq: "demo_tool t (pg_upgrade_argv (upgrade_plan_of demo_job_spec wrapper_dir ''/new'')) cwd disk2 = (said [], disk3)"
  "disk3 = [(new_data @ [''PG_VERSION''], File 384 ''18''), (new_data @ [''global'', ''pg_control''], File 384 ''new''),
     (new_data @ [''postgresql.conf''], File 384 []), (new_data, Folder 448)] @ disk2"
  unfolding disk3_def
  by (simp_all add: demo_tool_def pg_upgrade_argv_def place_def disk2_def disk1_def demo_disk_def places)

lemma demo_clear: "clear_new demo_machine (demo_volume\<lparr> vo_disk := disk2, vo_tick := t \<rparr>) =
   (Inr (), demo_volume\<lparr> vo_disk := disk2, vo_tick := Suc t \<rparr>)"
  by (simp add: clear_new_def op_defs demo_defs disk2_def disk1_def places)

lemma demo_init: "init_new demo_machine demo_job_spec c (demo_volume\<lparr> vo_disk := disk2, vo_tick := t \<rparr>) =
   (Inr (), demo_volume\<lparr> vo_disk := disk2, vo_tick := Suc t \<rparr>)"
proof -
  have "demo_tool t (initdb_argv_for p None k n \<lparr> io_superuser = ''postgres'', io_encoding = ib_encoding initdb_default,
      io_locale = ib_locale initdb_default, io_extra = ib_options initdb_default \<rparr>) cwd d = (said [], d)" if "p = show_path new_data" for p k n cwd d t
    using that by (auto simp: demo_tool_def initdb_argv_for_def initdb_default_def show_path_def places Let_def split: data_checksums.split)
  moreover have "us_initdb demo_job_spec = initdb_default" "us_to_version demo_job_spec = ''18''" by (simp_all add: demo_job_spec_def)
  ultimately show ?thesis
    by (simp add: init_new_def Let_def op_defs demo_machine_def demo_volume_def said_def exit_ok_def demo_texts(3) [simplified])
qed

lemma demo_upgrades: "\<exists>secs. run_pg_upgrade demo_machine demo_job_spec wrapper_dir (demo_volume\<lparr> vo_disk := disk2, vo_tick := t \<rparr>) =
   (Inr secs, demo_volume\<lparr> vo_disk := disk3, vo_tick := Suc (Suc t) \<rparr>)"
  by (simp add: run_pg_upgrade_def demo_config ticks_def chain_def context_of_def run_tool_def sys_def give_def)
   (simp add: demo_machine_def disk3_eq(1) said_def exit_ok_def chain_def ticks_def give_def)

definition disk4 :: disk where
  "disk4 = moved new_data pgdata (moved pgdata [''pgdata'', ''pgdata.old-17-7''] disk3)"

lemma demo_swap: "swap_in demo_machine (old_dir_name demo_job_spec 7) (demo_volume\<lparr> vo_disk := disk3, vo_tick := t \<rparr>) =
   (Inr (), demo_volume\<lparr> vo_disk := disk4, vo_tick := Suc (Suc t) \<rparr>)"
proof -
  have "rename_at pgdata [''pgdata'', ''pgdata.old-17-7''] disk3 = (Inr (), moved pgdata [''pgdata'', ''pgdata.old-17-7''] disk3)"
    "rename_at new_data pgdata (moved pgdata [''pgdata'', ''pgdata.old-17-7''] disk3) = (Inr (), disk4)"
    by (simp_all add: rename_at_def disk4_def disk3_eq(2) disk2_def disk1_def demo_disk_def places parent_ok_def entry_def moved_def prune_def)
  moreover have "rename demo_machine a b (demo_volume\<lparr> vo_disk := d, vo_tick := n \<rparr>) =
      (Inr (), demo_volume\<lparr> vo_disk := d', vo_tick := Suc n \<rparr>)" if "rename_at a b d = (Inr (), d')" for a b d d' n
    using that by (simp add: rename_def sys_def demo_machine_def)
  ultimately show ?thesis
    by (simp add: swap_in_def demo_texts chain_def context_of_def caught_def give_def)
qed

lemma disk4_eq: "disk4 = [(pgdata @ [''PG_VERSION''], File 384 ''18''), (pgdata @ [''global'', ''pg_control''], File 384 ''new''),
     (pgdata @ [''postgresql.conf''], File 384 []), (pgdata, Folder 448),
     (wrapper_dir @ [''pg_ctl''], File 448 (wrapper_script (library_path demo_job_spec) (join_str (us_staged_bindir demo_job_spec) ''pg_ctl''))),
     (wrapper_dir, Folder 493), (run_dir, Folder 493), ([''pgdata''], Folder 448), ([''pgdata'', ''pgdata.old-17-7''], Folder 448),
     ([''pgdata'', ''pgdata.old-17-7'', ''PG_VERSION''], File 384 ''17''), ([''pgdata'', ''pgdata.old-17-7'', ''global''], Folder 448),
     ([''pgdata'', ''pgdata.old-17-7'', ''global'', ''pg_control''], File 384 ''old''),
     ([''pgdata'', ''upgrade''], Folder 448), ([''pgdata'', ''upgrade'', ''old''], Folder 448),
     ([''pgdata'', ''upgrade'', ''old'', ''pg_ctl''], File 448 ''elf'')]"
  by (simp add: disk4_def disk3_eq(2) disk2_def disk1_def demo_disk_def places moved_def prune_def)

lemma demo_ends: "\<exists>w. after_swap demo_machine (demo_volume\<lparr> vo_disk := disk4, vo_tick := t \<rparr>) = (Inr (), w)"
proof -
  let ?d = "(pgdata @ [''conf.d''], Folder 493) # disk4"
  have dir: "\<exists>n. create_dir_all demo_machine (pgdata @ [''conf.d'']) (demo_volume\<lparr> vo_disk := disk4, vo_tick := t \<rparr>) =
      (Inr (), demo_volume\<lparr> vo_disk := ?d, vo_tick := n \<rparr>)"
    by (subst create_dir_all.simps) (simp add: op_defs demo_defs disk4_eq places)
  have conf: "\<exists>w. append_include_dir demo_machine pgdata (demo_volume\<lparr> vo_disk := ?d, vo_tick := n \<rparr>) = (Inr (), w)" for n
    by (simp add: append_include_dir_def Let_def append_file_def append_at_def op_defs demo_defs disk4_eq plain_texts demo_texts places)
  obtain n where n: "create_dir_all demo_machine (pgdata @ [''conf.d'']) (demo_volume\<lparr> vo_disk := disk4, vo_tick := t \<rparr>) =
      (Inr (), demo_volume\<lparr> vo_disk := ?d, vo_tick := n \<rparr>)" using dir by blast
  obtain w where w: "append_include_dir demo_machine pgdata (demo_volume\<lparr> vo_disk := ?d, vo_tick := n \<rparr>) = (Inr (), w)" using conf by blast
  show ?thesis
    by (simp add: after_swap_def chain_def context_of_def n w)
      (simp add: caught_def remove_dir_all_def sys_def demo_machine_def give_def split: prod.split sum.split option.split node.split)
qed

lemma demo_runs: "\<exists>w. upgrade_run demo_machine demo_job demo_volume = (Inr (), w)"
proof -
  obtain t where r: "ready_to_upgrade demo_machine demo_job_spec (demo_volume\<lparr> vo_tick := Suc 0 \<rparr>) =
     (Inr (wrapper_dir, control_data_of ''Database cluster state: shut down''), demo_volume\<lparr> vo_disk := disk2, vo_tick := t \<rparr>)"
    using demo_ready by blast
  obtain secs where u: "run_pg_upgrade demo_machine demo_job_spec wrapper_dir (demo_volume\<lparr> vo_disk := disk2, vo_tick := Suc (Suc t) \<rparr>) =
     (Inr secs, demo_volume\<lparr> vo_disk := disk3, vo_tick := Suc (Suc (Suc (Suc t))) \<rparr>)" using demo_upgrades by blast
  obtain w where e: "after_swap demo_machine (demo_volume\<lparr> vo_disk := disk4, vo_tick := Suc (Suc (Suc (Suc (Suc (Suc t))))) \<rparr>) = (Inr (), w)"
    using demo_ends by blast
  have there: "path_exists demo_machine pgdata demo_volume = (Inr True, demo_volume\<lparr> vo_tick := Suc 0 \<rparr>)"
    by (simp add: op_defs demo_defs places)
  have "upgrade_spec_from_env (je_decode demo_job) (je_env demo_job) = Inr demo_job_spec" "je_encode demo_job r = Inr ''done''"
    "\<not> us_check demo_job_spec" "ma_epoch demo_machine n = 7" for r n
    by (simp_all add: demo_job_def upgrade_spec_from_env_def demo_job_spec_def demo_machine_def)
  then show ?thesis
    by (simp add: upgrade_run_def upgrade_in_place_def chain_def context_of_def lift_res_def there give_def r demo_clear demo_init u
      clock_secs_def Let_def demo_swap e send_report_def print_report_def prints_def)
qed

theorem upgrade_keeps_old_cluster_witness:
  "upgrade_safe demo_files demo_disk (vo_disk (snd (upgrade_run demo_machine demo_job demo_volume)))"
  using upgrade_keeps_old_cluster [OF demo_spares demo_delivers demo_start] by (simp add: demo_volume_def)


text \<open>The volume as a crash between the two renames leaves it.\<close>

definition torn_volume :: volume where
  "torn_volume = \<lparr> vo_disk = [([''pgdata''], Folder 448), (new_data, Folder 448), (new_data @ [''PG_VERSION''], File 384 ''18''),
     (new_data @ [''global'', ''pg_control''], File 384 ''new'')], vo_tick = 0, vo_out = [] \<rparr>"

theorem interrupted_swap_finishes_witness:
  "\<exists>w. upgrade_run demo_machine demo_job torn_volume = (Inr (), w) \<and>
     entry (vo_disk w) (pgdata @ [''PG_VERSION'']) = Some (File 384 ''18'')"
proof -
  have "ma_fault demo_machine t = None" for t by (simp add: demo_machine_def)
  moreover have "entry (vo_disk torn_volume) pgdata = None" "is_folder (vo_disk torn_volume) [''pgdata'']"
    "is_folder (vo_disk torn_volume) new_data" "cluster_at (vo_disk torn_volume) new_data"
    by (simp_all add: torn_volume_def entry_def is_folder_def cluster_at_def is_plain_def places)
  moreover have "upgrade_spec_from_env (je_decode demo_job) (je_env demo_job) = Inr demo_job_spec"
    "je_encode demo_job (run_report demo_job_spec [] 0) = Inr ''done''"
    by (simp_all add: demo_job_def upgrade_spec_from_env_def)
  ultimately obtain w where "upgrade_run demo_machine demo_job torn_volume = (Inr (), w)"
    "\<forall>x. x \<noteq> [] \<longrightarrow> entry (vo_disk w) (pgdata @ x) = entry (vo_disk torn_volume) (new_data @ x)"
    using interrupted_swap_finishes [of demo_machine torn_volume demo_job] by blast
  then show ?thesis by (simp add: torn_volume_def entry_def places)
qed

end
