(* ===== verification/Repository.thy ===== *)
theory Repository
  imports Manifest Postgres
begin

text \<open>
  The configuration of pgBackRest (\<^verbatim>\<open>pgpod-backup/src/config.rs\<close>): a destination of the manifest becomes a
  repository, the repositories, the retention and the stanzas become the file.  The file is read back by the
  rules of its format.
\<close>

section \<open>Errors\<close>

datatype backup_error = BDestination string string | BNoDestinations | BTooManyRepositories nat nat
  | BInfo string | BInvalid string

fun show_backup_error :: "backup_error \<Rightarrow> string" where
  "show_backup_error (BDestination url detail) = ''backup destination '' @ debug_str url @ '': '' @ detail"
| "show_backup_error BNoDestinations = ''no backup destination is configured''"
| "show_backup_error (BTooManyRepositories limit given) = ''pgBackRest supports at most '' @ show_nat limit @
     '' repositories, but '' @ show_nat given @ '' destinations are configured''"
| "show_backup_error (BInfo e) = ''could not read pgBackRest'' @ [CHR 0x27] @ ''s output: '' @ e"
| "show_backup_error (BInvalid e) = e"

definition max_repositories :: nat where "max_repositories = 4"

section \<open>Repositories\<close>

datatype repo_kind = RPosix | RS3 string "string option" "string option" | RGcs string | RAzure string "string option"

record repository =
  rp_kind :: repo_kind
  rp_path :: string
  rp_port :: "16 word option"
  rp_verify_tls :: bool
  rp_extra :: "(string \<times> string) list"

text \<open>The ports a number names; a host and its port.\<close>

definition parse_u16 :: "string \<Rightarrow> 16 word option" where
  "parse_u16 s = map_option word_of_nat (parse_uint u16_max s)"

definition split_endpoint :: "string option \<Rightarrow> backup_error + (string option \<times> 16 word option)" where
  "split_endpoint endpoint = (case endpoint of
     None \<Rightarrow> Inr (None, None)
   | Some text0 \<Rightarrow>
      let raw = trim text0 in
      if str_contains raw ''://''
      then Inl (BDestination raw (''endpoint must be a host, not a URL '' @ em_dash @ '' pgBackRest always uses TLS, so the '' @
        ''scheme has no meaning. Write `garage.internal` and set a port if it is not 443''))
      else (case rsplit_once (CHR '':'') raw of
          Some (host, port) \<Rightarrow> and_then (ok_or (BDestination raw (debug_str port @ '' is not a port'')) (parse_u16 port))
            (\<lambda>p. Inr (Some host, Some p))
        | None \<Rightarrow> Inr (Some raw, None)))"

definition trim_slash :: "string \<Rightarrow> string" where
  "trim_slash s = rev (trim_slashes (rev (trim_slashes s)))"

definition split_head :: "string \<Rightarrow> string \<times> string" where
  "split_head rest = (case split_once (CHR ''/'') rest of Some p \<Rightarrow> p | None \<Rightarrow> (rest, []))"

definition kind_of :: "destination \<Rightarrow> string \<Rightarrow> string \<Rightarrow> string \<Rightarrow> string \<Rightarrow>
    backup_error + (repo_kind \<times> 16 word option)" where
  "kind_of dest url scheme host tail =
     (let bad = BDestination url in
      if scheme \<in> {''s3'', ''s3a''} then
        (if host = [] then Inl (bad ''names no bucket'')
         else and_then (split_endpoint (ds_endpoint dest)) (\<lambda>(endpoint, port). Inr (RS3 host endpoint (ds_region dest), port)))
      else if scheme = ''gs'' then
        (if host = [] then Inl (bad ''names no bucket'')
         else and_then (split_endpoint (ds_endpoint dest)) (\<lambda>(_, port). Inr (RGcs host, port)))
      else if scheme \<in> {''az'', ''abfs'', ''abfss''} then
        (if host = [] then Inl (bad ''names no container'')
         else and_then (split_endpoint (ds_endpoint dest)) (\<lambda>(_, port). Inr (RAzure host (ds_region dest), port)))
      else Inl (bad (''unsupported scheme '' @ debug_str scheme @ '' '' @ em_dash @ '' pgBackRest handles file, s3, gs, az'')))"

definition from_destination :: "destination \<Rightarrow> backup_error + repository" where
  "from_destination dest =
     (let url = trim (ds_url dest); bad = BDestination url in
      and_then (ok_or (bad ''expected something like gs://bucket/prefix'') (split_once_str ''://'' url)) (\<lambda>(scheme, rest).
      let (host, tail) = split_head rest; path = ''/'' @ trim_slash tail in
      if scheme = ''file'' then
        (if host = [] \<and> tail = [] then Inl (bad ''names no path'')
         else if host \<noteq> [] then Inl (bad (''a file:// URL must have an empty host '' @ em_dash @ '' write file:///path''))
         else Inr \<lparr> rp_kind = RPosix, rp_path = path, rp_port = None, rp_verify_tls = True, rp_extra = ds_options dest \<rparr>)
      else and_then (kind_of dest url scheme host tail) (\<lambda>(kind, port).
        Inr \<lparr> rp_kind = kind, rp_path = path, rp_port = port, rp_verify_tls = ds_verify_tls dest,
              rp_extra = ds_options dest \<rparr>)))"

section \<open>The lines of a repository\<close>

definition pgbackrest_ca_file :: string where "pgbackrest_ca_file = ''/opt/pgpod/share/ca-bundle.crt''"
definition spool_dir :: string where "spool_dir = ''/pgdata/spool''"
definition log_dir :: string where "log_dir = ''/pgdata/log''"

definition opt_setting :: "string \<Rightarrow> string option \<Rightarrow> (string \<times> string) list" where
  "opt_setting k v = (case v of None \<Rightarrow> [] | Some x \<Rightarrow> [(k, x)])"

fun kind_settings :: "repo_kind \<Rightarrow> (string \<times> string) list" where
  "kind_settings RPosix = [(''type'', ''posix'')]"
| "kind_settings (RS3 bucket endpoint region) = [(''type'', ''s3''), (''s3-bucket'', bucket)] @
     opt_setting ''s3-endpoint'' endpoint @ opt_setting ''s3-region'' region @ [(''s3-uri-style'', ''path'')]"
| "kind_settings (RGcs bucket) = [(''type'', ''gcs''), (''gcs-bucket'', bucket), (''gcs-key-type'', ''auto'')]"
| "kind_settings (RAzure box account) = [(''type'', ''azure''), (''azure-container'', box)] @
     opt_setting ''azure-account'' account"

definition repository_settings :: "repository \<Rightarrow> (string \<times> string) list" where
  "repository_settings r = kind_settings (rp_kind r) @ [(''path'', rp_path r)] @
     (case rp_port r of None \<Rightarrow> [] | Some p \<Rightarrow> [(''storage-port'', show_nat (unat p))]) @
     (if rp_verify_tls r then [] else [(''storage-verify-tls'', ''n'')]) @
     (if rp_kind r = RPosix then [] else [(''storage-ca-file'', pgbackrest_ca_file)]) @
     rp_extra r"

definition repo_key :: "nat \<Rightarrow> string \<Rightarrow> string" where
  "repo_key n k = ''repo'' @ show_nat n @ ''-'' @ k"

definition ini_line :: "string \<times> string \<Rightarrow> string" where
  "ini_line kv = fst kv @ ''='' @ snd kv"

definition render_repository :: "nat \<Rightarrow> repository \<Rightarrow> string list" where
  "render_repository n r = map (\<lambda>(k, v). ini_line (repo_key n k, v)) (repository_settings r)"

section \<open>The whole configuration\<close>

record pgbackrest_config =
  pb_stanza :: string
  pb_repositories :: "repository list"
  pb_retention_days :: "32 word option"
  pb_compress_level :: "8 word"
  pb_recovery_stanza :: "string option"

definition parse_days :: "string \<Rightarrow> backup_error + 32 word" where
  "parse_days window =
     (let w = trim window; value = takeWhile is_ascii_digit w; unit = dropWhile is_ascii_digit w in
      if unit = [] then Inl (BInvalid (debug_str w @ '' has no unit '' @ em_dash @ '' try 14d''))
      else and_then (ok_or (BInvalid (debug_str w @ '' does not start with a number'')) (parse_u32 value)) (\<lambda>n.
      if n = 0 then Inl (BInvalid (debug_str w @ '' is not a positive duration''))
      else if unit = ''d'' then Inr n
      else Inl (BInvalid (''unknown unit '' @ debug_str unit @ '' in '' @ debug_str w @ '' '' @ em_dash @
        '' pgBackRest'' @ [CHR 0x27] @ ''s time-based retention counts whole days, so only `d` is accepted''))))"

definition retention_of :: "string option \<Rightarrow> retention_mode \<Rightarrow> backup_error + 32 word option" where
  "retention_of retention mode = (case mode of
      Report \<Rightarrow> Inr None
    | Enforce \<Rightarrow> (case retention of None \<Rightarrow> Inr None | Some r \<Rightarrow> and_then (parse_days r) (\<lambda>n. Inr (Some n))))"

definition pgbackrest_config_new :: "string \<Rightarrow> destination list \<Rightarrow> string option \<Rightarrow> retention_mode \<Rightarrow>
    backup_error + pgbackrest_config" where
  "pgbackrest_config_new stanza destinations retention mode =
     (if destinations = [] then Inl BNoDestinations
      else if length destinations > max_repositories then Inl (BTooManyRepositories max_repositories (length destinations))
      else and_then (try_map from_destination destinations) (\<lambda>repositories.
      and_then (retention_of retention mode) (\<lambda>days.
      Inr \<lparr> pb_stanza = stanza, pb_repositories = repositories, pb_retention_days = days, pb_compress_level = 3,
            pb_recovery_stanza = None \<rparr>)))"

text \<open>Credentials of the mounted secrets go behind the options of the manifest, as far as both lists reach.\<close>

fun extend_each :: "repository list \<Rightarrow> (string \<times> string) list list \<Rightarrow> repository list" where
  "extend_each (r # rs) (c # cs) = r\<lparr> rp_extra := rp_extra r @ c \<rparr> # extend_each rs cs"
| "extend_each rs _ = rs"

definition with_credentials :: "(string \<times> string) list list \<Rightarrow> pgbackrest_config \<Rightarrow> pgbackrest_config" where
  "with_credentials creds c = c\<lparr> pb_repositories := extend_each (pb_repositories c) creds \<rparr>"

definition with_recovery_stanza :: "string option \<Rightarrow> pgbackrest_config \<Rightarrow> pgbackrest_config" where
  "with_recovery_stanza stanza c = c\<lparr> pb_recovery_stanza :=
     (case stanza of Some s \<Rightarrow> if s \<noteq> pb_stanza c then Some s else None | None \<Rightarrow> None) \<rparr>"

section \<open>The file\<close>

fun render_repositories :: "nat \<Rightarrow> repository list \<Rightarrow> string list" where
  "render_repositories n [] = []"
| "render_repositories n (r # rs) = render_repository n r @ render_repositories (Suc n) rs"

definition stanza_lines :: "string \<Rightarrow> string list" where
  "stanza_lines s = [[], ''['' @ s @ '']'', ini_line (''pg1-path'', ''/pgdata/pgdata''), ini_line (''pg1-port'', ''5432''),
     ini_line (''pg1-socket-path'', socket_dir)]"

definition retention_lines :: "32 word option \<Rightarrow> string list" where
  "retention_lines days = (case days of None \<Rightarrow> [] | Some d \<Rightarrow>
     [[], ''# Retention. Only present when spec.backup.retentionMode'',
      ''# is `enforce` '' @ em_dash @ '' unset means pgBackRest keeps everything.'',
      ini_line (''repo1-retention-full-type'', ''time''), ini_line (''repo1-retention-full'', show_nat (unat d))])"

definition stanzas_of :: "pgbackrest_config \<Rightarrow> string list" where
  "stanzas_of c = pb_stanza c # (case pb_recovery_stanza c of None \<Rightarrow> [] | Some s \<Rightarrow> [s])"

definition reinvoke_lines :: "string list" where
  "reinvoke_lines = [[], ''# --- how pgBackRest re-invokes itself ---'',
     ''# pgBackRest forks worker processes by re-executing its own'',
     ''# binary, which it finds via /proc/self/exe '' @ em_dash @ '' the *real* binary,'',
     ''# not the wrapper that set the library path. Without this the'',
     ''# parent runs fine and every worker dies with'',
     ''# `libssh2.so.1: cannot open shared object file` (ADR 04 '' @ section_sign @ ''2).'',
     ini_line (''cmd'', pgbackrest_bin)]"

definition fixed_lines :: "8 word \<Rightarrow> string list" where
  "fixed_lines level = reinvoke_lines @
    [[], ''# --- compression ---'',
     ''# pgBackRest spells it `zst`, not `zstd`, and rejects the latter'',
     ''# outright: allowed values are none, bz2, gz, lz4, zst.'',
     ini_line (''compress-type'', ''zst''), ini_line (''compress-level'', show_nat (unat level)),
     [], ''# --- paths ---'',
     ''# All inside the volume: the container'' @ [CHR 0x27] @ ''s rootfs is read-only, so'',
     ''# pgBackRest'' @ [CHR 0x27] @ ''s own defaults under /var and /etc are not writable'',
     ''# (ADR 04 '' @ section_sign @ ''3).'',
     ini_line (''lock-path'', socket_dir), ini_line (''spool-path'', spool_dir), ini_line (''log-path'', log_dir),
     [], ''# --- logging ---'',
     ''# To the container stream, which is where every other pgpod log'',
     ''# line goes and what `pgpod logs` reads.'',
     ini_line (''log-level-console'', ''info''), ini_line (''log-level-file'', ''off''),
     [], ''# --- archiving ---'',
     ''# Synchronous, deliberately. With archive-async the command can'',
     ''# return before the segment is durable, and `archive_command`'',
     ''# returning 0 is PostgreSQL'' @ [CHR 0x27] @ ''s signal that pg_wal may recycle it'',
     ''# (ADR 01 '' @ section_sign @ ''1, kept by ADR 04 '' @ section_sign @ ''4).'',
     ''#'',
     ''# archive-push-queue-max is deliberately absent: it makes'',
     ''# pgBackRest *drop* WAL to keep the primary running, which turns'',
     ''# a loud, recoverable outage into a silent gap in the archive.'',
     ini_line (''archive-async'', ''n'')]"

definition config_lines :: "pgbackrest_config \<Rightarrow> string list" where
  "config_lines c =
     [''# Managed by pgpod. Rewritten on every instance start.'',
      ''# Edits here are lost; change spec.backup in the cluster manifest.'', [], ''[global]''] @
     render_repositories 1 (pb_repositories c) @ retention_lines (pb_retention_days c) @
     fixed_lines (pb_compress_level c) @ concat (map stanza_lines (stanzas_of c))"

definition render_config :: "pgbackrest_config \<Rightarrow> string" where
  "render_config c = unlines (config_lines c)"

section \<open>Reading the file\<close>

text \<open>The format: blank lines and comments are nothing, a name in brackets opens a section, any other line is a key and
  its value.  What stands before the first section comes first in the result.\<close>

fun read_ini_lines :: "string list \<Rightarrow> (string \<times> string) list \<times> (string \<times> (string \<times> string) list) list" where
  "read_ini_lines [] = ([], [])"
| "read_ini_lines (l # ls) = (case read_ini_lines ls of (settings, rest) \<Rightarrow>
     if l = [] \<or> hd l = CHR ''#'' then (settings, rest)
     else if hd l = CHR ''['' then ([], (butlast (tl l), settings) # rest)
     else (case split_once (CHR ''='') l of None \<Rightarrow> (settings, rest) | Some kv \<Rightarrow> (kv # settings, rest)))"

definition read_ini :: "string \<Rightarrow> (string \<times> (string \<times> string) list) list" where
  "read_ini s = snd (read_ini_lines (str_lines s))"

text \<open>What the configuration is to say.\<close>

fun numbered :: "nat \<Rightarrow> repository list \<Rightarrow> (string \<times> string) list" where
  "numbered n [] = []"
| "numbered n (r # rs) = map (\<lambda>(k, v). (repo_key n k, v)) (repository_settings r) @ numbered (Suc n) rs"

definition global_settings :: "pgbackrest_config \<Rightarrow> (string \<times> string) list" where
  "global_settings c = numbered 1 (pb_repositories c) @
     (case pb_retention_days c of None \<Rightarrow> []
      | Some d \<Rightarrow> [(''repo1-retention-full-type'', ''time''), (''repo1-retention-full'', show_nat (unat d))]) @
     [(''cmd'', pgbackrest_bin), (''compress-type'', ''zst''), (''compress-level'', show_nat (unat (pb_compress_level c))),
      (''lock-path'', ''/pgdata/run''), (''spool-path'', ''/pgdata/spool''), (''log-path'', ''/pgdata/log''),
      (''log-level-console'', ''info''), (''log-level-file'', ''off''), (''archive-async'', ''n'')]"

definition stanza_settings :: "(string \<times> string) list" where
  "stanza_settings = [(''pg1-path'', ''/pgdata/pgdata''), (''pg1-port'', ''5432''), (''pg1-socket-path'', ''/pgdata/run'')]"

text \<open>Text that keeps to its line, and a key that ends at its sign.\<close>

definition one_line :: "string \<Rightarrow> bool" where
  "one_line s \<longleftrightarrow> CHR 0x0A \<notin> set s \<and> CHR 0x0D \<notin> set s"

definition plain_setting :: "string \<times> string \<Rightarrow> bool" where
  "plain_setting kv \<longleftrightarrow> one_line (fst kv) \<and> CHR ''='' \<notin> set (fst kv) \<and> one_line (snd kv)"

definition plain_config :: "pgbackrest_config \<Rightarrow> bool" where
  "plain_config c \<longleftrightarrow> (\<forall>r\<in>set (pb_repositories c). \<forall>kv\<in>set (repository_settings r). plain_setting kv) \<and>
     (\<forall>s\<in>set (stanzas_of c). one_line s)"

lemma read_ini_front:
  assumes "read_ini_lines ls = (settings, rest)"
    and "\<forall>kv\<in>set kvs. fst kv \<noteq> [] \<and> hd (fst kv) \<noteq> CHR ''#'' \<and> hd (fst kv) \<noteq> CHR ''['' \<and> CHR ''='' \<notin> set (fst kv)"
  shows "read_ini_lines (map ini_line kvs @ ls) = (kvs @ settings, rest)"
  using assms(2)
proof (induction kvs)
  case (Cons kv kvs)
  obtain k v where kv: "kv = (k, v)" by force
  from Cons.prems have k: "k \<noteq> []" "hd k \<noteq> CHR ''#''" "hd k \<noteq> CHR ''[''" "CHR ''='' \<notin> set k" by (auto simp: kv)
  have "split_once (CHR ''='') (k @ CHR ''='' # v) = Some (k, v)" using k(4) by simp
  with Cons k show ?case by (simp add: kv ini_line_def)
qed (use assms(1) in simp)

definition noise :: "string \<Rightarrow> bool" where "noise l \<longleftrightarrow> l = [] \<or> hd l = CHR ''#''"

lemma read_ini_noise: "\<forall>l\<in>set xs. noise l \<Longrightarrow> read_ini_lines (xs @ ls) = read_ini_lines ls"
  by (induction xs) (auto simp: noise_def split: prod.splits)

lemma one_line_append [simp]: "one_line (a @ b) \<longleftrightarrow> one_line a \<and> one_line b"
  by (auto simp: one_line_def)

lemma one_line_show_nat [simp]: "one_line (show_nat n)"
  using show_nat_digits [of n] by (auto simp: one_line_def is_ascii_digit_def)

lemma str_lines_rendered:
  assumes "\<forall>l\<in>set ls. one_line l"
  shows "str_lines (unlines ls) = ls"
proof -
  have "strip_cr l = l" if "l \<in> set ls" for l
    using assms that by (cases l rule: rev_cases) (auto simp: strip_cr_def one_line_def)
  then show ?thesis using assms str_lines_unlines [of ls] by (simp add: one_line_def map_idI)
qed

lemma equals_not_digit [simp]: "CHR ''='' \<notin> set (show_nat n)"
  using show_nat_digits [of n] by (auto simp: is_ascii_digit_def)

lemma read_repositories:
  assumes "read_ini_lines ls = (settings, rest)" "\<forall>r\<in>set rs. \<forall>kv\<in>set (repository_settings r). plain_setting kv"
  shows "read_ini_lines (render_repositories n rs @ ls) = (numbered n rs @ settings, rest)"
  using assms(2)
proof (induction rs arbitrary: n)
  case (Cons r rs)
  have keys: "\<forall>kv\<in>set (map (\<lambda>(k, v). (repo_key n k, v)) (repository_settings r)).
      fst kv \<noteq> [] \<and> hd (fst kv) \<noteq> CHR ''#'' \<and> hd (fst kv) \<noteq> CHR ''['' \<and> CHR ''='' \<notin> set (fst kv)"
    using Cons.prems by (auto simp: repo_key_def plain_setting_def)
  have lines: "map (\<lambda>(k, v). ini_line (repo_key n k, v)) (repository_settings r) =
      map ini_line (map (\<lambda>(k, v). (repo_key n k, v)) (repository_settings r))" by auto
  show ?case
    using read_ini_front [OF Cons.IH keys] Cons.prems by (simp add: render_repository_def lines)
qed (use assms(1) in simp)

lemma read_stanzas:
  "read_ini_lines (concat (map stanza_lines ss)) = ([], map (\<lambda>s. (s, stanza_settings)) ss)"
  by (induction ss) (simp_all add: stanza_lines_def stanza_settings_def ini_line_def socket_dir_def)

lemma read_retention:
  assumes "read_ini_lines ls = (settings, rest)"
  shows "read_ini_lines (retention_lines days @ ls) = ((case days of None \<Rightarrow> []
      | Some d \<Rightarrow> [(''repo1-retention-full-type'', ''time''), (''repo1-retention-full'', show_nat (unat d))]) @ settings, rest)"
  using assms by (cases days) (simp_all add: retention_lines_def ini_line_def)

lemma read_fixed:
  assumes "read_ini_lines ls = ([], rest)"
  shows "read_ini_lines (fixed_lines level @ ls) = ([(''cmd'', pgbackrest_bin), (''compress-type'', ''zst''),
      (''compress-level'', show_nat (unat level)), (''lock-path'', ''/pgdata/run''), (''spool-path'', ''/pgdata/spool''),
      (''log-path'', ''/pgdata/log''), (''log-level-console'', ''info''), (''log-level-file'', ''off''), (''archive-async'', ''n'')], rest)"
  using assms by (simp add: fixed_lines_def reinvoke_lines_def ini_line_def socket_dir_def spool_dir_def log_dir_def)

lemma one_line_const [simp]: "one_line []" "one_line (c # s) \<longleftrightarrow> c \<noteq> CHR 0x0A \<and> c \<noteq> CHR 0x0D \<and> one_line s"
  by (auto simp: one_line_def)

lemma config_lines_plain:
  assumes "plain_config c" "l \<in> set (config_lines c)"
  shows "one_line l"
proof -
  have "one_line l" if "l \<in> set (render_repositories n rs)" "\<forall>r\<in>set rs. \<forall>kv\<in>set (repository_settings r). plain_setting kv" for n rs
    using that by (induction n rs rule: render_repositories.induct)
      (auto simp: render_repository_def ini_line_def repo_key_def plain_setting_def)
  moreover have "one_line l" if "l \<in> set (fixed_lines (pb_compress_level c))"
    using that by (auto simp: fixed_lines_def reinvoke_lines_def ini_line_def socket_dir_def spool_dir_def log_dir_def
      pgbackrest_bin_def section_sign_def em_dash_def)
  moreover have "one_line l" if "l \<in> set (retention_lines (pb_retention_days c))"
    using that by (auto simp: retention_lines_def ini_line_def em_dash_def split: option.splits)
  moreover have "one_line l" if "l \<in> set (stanza_lines s)" "s \<in> set (stanzas_of c)" for s
    using that assms(1) by (auto simp: stanza_lines_def plain_config_def ini_line_def socket_dir_def)
  ultimately show ?thesis using assms by (auto simp: config_lines_def plain_config_def)
qed

text \<open>C39: The configuration says what it is to say.  Read back by the rules of its format, the file of a configuration
  whose strings keep to their line has one global section, with every repository's settings under its number in
  the order of the destinations and an operator's own behind the derived ones, then the retention and the fixed
  settings; and one section for each stanza, naming the same data directory.\<close>

theorem rendered_config_reads_back:
  assumes "plain_config c"
  shows "read_ini (render_config c) = (''global'', global_settings c) # map (\<lambda>s. (s, stanza_settings)) (stanzas_of c)"
proof -
  have "str_lines (render_config c) = config_lines c"
    unfolding render_config_def by (rule str_lines_rendered) (use config_lines_plain [OF assms] in blast)
  moreover have "read_ini_lines (render_repositories 1 (pb_repositories c) @ retention_lines (pb_retention_days c) @
      fixed_lines (pb_compress_level c) @ concat (map stanza_lines (stanzas_of c))) =
    (global_settings c, map (\<lambda>s. (s, stanza_settings)) (stanzas_of c))"
    unfolding global_settings_def
    by (intro read_repositories read_retention read_fixed read_stanzas) (use assms in \<open>simp add: plain_config_def\<close>)
  ultimately show ?thesis by (simp add: read_ini_def config_lines_def)
qed

section \<open>What the manifest lets through\<close>

definition bucket_schemes :: "string list" where
  "bucket_schemes = [''s3'', ''s3a'', ''gs'', ''az'', ''abfs'', ''abfss'']"

definition endpoint_ok :: "string option \<Rightarrow> bool" where
  "endpoint_ok e \<longleftrightarrow> (\<forall>t. e = Some t \<longrightarrow> \<not> str_contains (trim t) ''://'' \<and>
     (\<forall>h p. rsplit_once (CHR '':'') (trim t) = Some (h, p) \<longrightarrow> parse_uint u16_max p \<noteq> None))"

lemma split_endpoint_ok: "is_ok (split_endpoint e) \<longleftrightarrow> endpoint_ok e"
proof (cases e)
  case (Some t)
  then show ?thesis
    by (cases "rsplit_once (CHR '':'') (trim t)")
      (auto simp: split_endpoint_def endpoint_ok_def parse_u16_def Let_def is_ok_iff simp del: rsplit_once_None)
qed (simp add: split_endpoint_def endpoint_ok_def)

text \<open>Where the first slash is decides what the URL names.\<close>

definition starts_with_slash :: "string \<Rightarrow> bool" where
  "starts_with_slash s \<longleftrightarrow> (\<exists>t. s = CHR ''/'' # t)"

lemma split_head_Nil: "fst (split_head rest) = [] \<longleftrightarrow> rest = [] \<or> starts_with_slash rest"
  by (cases rest) (auto simp: split_head_def starts_with_slash_def split: option.splits)

definition usable :: "destination \<Rightarrow> bool" where
  "usable d \<longleftrightarrow> (\<exists>scheme rest. split_once_str ''://'' (trim (ds_url d)) = Some (scheme, rest) \<and>
     (if scheme = ''file'' then starts_with_slash rest
      else scheme \<in> set bucket_schemes \<and> \<not> starts_with_slash rest \<and> endpoint_ok (ds_endpoint d)))"

lemma is_ok_pair: "is_ok (and_then r (\<lambda>(a, b). Inr (f a b))) = is_ok r"
  by (cases r) auto

lemma kind_of_ok: "is_ok (kind_of d url scheme h t) \<longleftrightarrow> scheme \<in> set bucket_schemes \<and> h \<noteq> [] \<and> endpoint_ok (ds_endpoint d)"
  by (cases "h = []") (simp_all add: kind_of_def bucket_schemes_def Let_def is_ok_pair split_endpoint_ok)

text \<open>What the manifest accepts and the agent refuses.  A destination that the validation of the manifest lets
  through becomes a repository exactly when it is a path with an empty host, or a bucket named before the first
  slash in a store pgBackRest knows, with an endpoint that is a host and not a URL.  The \<^verbatim>\<open>memory\<close> scheme,
  \<^verbatim>\<open>file://host/path\<close> and \<^verbatim>\<open>s3:///bucket\<close> are let through and refused only when the instance starts.\<close>

theorem accepted_destination_usable_exactly:
  assumes "validate_destination volume d = Inr ()"
  shows "is_ok (from_destination d) \<longleftrightarrow> usable d"
proof -
  from assms obtain scheme rest where url: "split_once_str ''://'' (trim (ds_url d)) = Some (scheme, rest)"
    and some: "\<exists>c\<in>set rest. c \<noteq> CHR ''/''"
    by (auto simp: validate_destination_ok destination_ok_def)
  obtain h t where head: "split_head rest = (h, t)" by force
  have h: "h = [] \<longleftrightarrow> starts_with_slash rest" using split_head_Nil [of rest] head some by auto
  have t: "t \<noteq> []" if "h = []"
    using that some head h by (auto simp: split_head_def starts_with_slash_def split: option.splits)
  have "is_ok (from_destination d) \<longleftrightarrow>
      (if scheme = ''file'' then h = [] \<and> t \<noteq> [] else is_ok (kind_of d (trim (ds_url d)) scheme h t))"
    by (simp add: from_destination_def url head Let_def is_ok_pair)
  then show ?thesis using h t by (auto simp: usable_def url kind_of_ok)
qed

section \<open>A configuration\<close>

definition demo_destination :: destination where
  "demo_destination = \<lparr> ds_url = ''s3://b/p'', ds_endpoint = Some ''g:39'', ds_region = None, ds_verify_tls = False,
     ds_credentials = None, ds_options = [(''k'', ''v'')] \<rparr>"

definition demo_repository :: repository where
  "demo_repository = \<lparr> rp_kind = RS3 ''b'' (Some ''g'') None, rp_path = ''/p'', rp_port = Some 39, rp_verify_tls = False,
     rp_extra = [(''k'', ''v'')] \<rparr>"

lemma demo_becomes: "from_destination demo_destination = Inr demo_repository"
  by (simp add: from_destination_def demo_destination_def demo_repository_def split_head_def kind_of_def split_endpoint_def
    trim_slash_def trim_slashes_def parse_u16_def std_simps str_contains_def sublist_Cons_right Let_def strip_prefix_def)

definition demo_config :: pgbackrest_config where
  "demo_config = \<lparr> pb_stanza = ''c'', pb_repositories = [demo_repository], pb_retention_days = Some 14,
     pb_compress_level = 3, pb_recovery_stanza = Some ''s'' \<rparr>"

theorem rendered_config_reads_back_witness:
  "read_ini (render_config demo_config) = (''global'', global_settings demo_config) # [(''c'', stanza_settings), (''s'', stanza_settings)]"
  using rendered_config_reads_back [of demo_config]
  by (simp add: plain_config_def plain_setting_def demo_config_def demo_repository_def repository_settings_def opt_setting_def
    stanzas_of_def pgbackrest_ca_file_def)

theorem accepted_destination_usable_exactly_witness:
  "\<not> is_ok (from_destination (destination_new ''memory://x''))"
proof -
  have "validate_destination None (destination_new ''memory://x'') = Inr ()"
    by (simp add: validate_destination_def destination_new_def known_schemes_def trim_slashes_def std_simps Let_def strip_prefix_def)
  from accepted_destination_usable_exactly [OF this] show ?thesis
    by (simp add: usable_def destination_new_def bucket_schemes_def std_simps strip_prefix_def)
qed

end
