(* ===== verification/Bootstrap.thy ===== *)
theory Bootstrap
  imports UpgradeRun Repository Specs
begin

text \<open>
  What the agent of an instance does before it starts PostgreSQL: the layout of the volume, the data directory
  by \<^verbatim>\<open>initdb\<close> or from the repository, the configuration files, the roles
  (\<^verbatim>\<open>pgpod-agent/src/bootstrap.rs\<close>, \<^verbatim>\<open>secrets.rs\<close>, \<^verbatim>\<open>recovery.rs\<close>, \<^verbatim>\<open>pgbackrest.rs\<close>,
  \<^verbatim>\<open>psql.rs\<close>, \<^verbatim>\<open>run\<close> of \<^verbatim>\<open>main.rs\<close>).
\<close>

section \<open>Places\<close>

definition conf_dir :: path where "conf_dir = [''pgdata'', ''conf'']"
definition spool_path :: path where "spool_path = [''pgdata'', ''spool'']"
definition log_path :: path where "log_path = [''pgdata'', ''log'']"
definition conf_d :: path where "conf_d = pgdata @ [''conf.d'']"
definition managed_conf_file :: string where "managed_conf_file = ''00-pgpod.conf''"
definition user_conf_file :: string where "user_conf_file = ''10-user.conf''"
definition pg_port :: nat where "pg_port = 5432"
definition bootstrap_port :: nat where "bootstrap_port = 5433"
definition dir_mode :: nat where "dir_mode = 448"

definition layout_dirs :: "path list" where
  "layout_dirs = [pgdata, conf_dir, spool_path, log_path, run_dir]"

definition for_each :: "('x \<Rightarrow> unit agent) \<Rightarrow> 'x list \<Rightarrow> unit agent" where
  "for_each f xs = chain (in_turn f xs) (\<lambda>_. give ())"

definition ensure_layout :: "machine \<Rightarrow> unit agent" where
  "ensure_layout m = for_each (\<lambda>dir.
     chain (context_of (''failed to create '' @ show_path dir) (create_dir_all m dir)) (\<lambda>_.
     context_of (''failed to chmod '' @ show_path dir @ '' to 0700'') (set_mode m dir dir_mode))) layout_dirs"

section \<open>The mounted secrets\<close>

record instance_secrets =
  se_superuser :: string
  se_replication :: string
  se_monitor :: string
  se_app_owner :: "string option"


definition trim_line_ends :: "string \<Rightarrow> string" where
  "trim_line_ends s = rev (dropWhile (\<lambda>c. c = CHR 0x0A \<or> c = CHR 0x0D) (rev s))"

definition read_optional :: "machine \<Rightarrow> string \<Rightarrow> string option agent" where
  "read_optional m p =
     chain (path_exists m (path_of p)) (\<lambda>there.
     if \<not> there then give None
     else chain (context_of (''failed to read '' @ p) (read_to_string m (path_of p))) (\<lambda>raw.
       if trim_line_ends raw = [] then bail (''secret '' @ p @ '' is empty'') else give (Some (trim_line_ends raw))))"

definition read_required :: "machine \<Rightarrow> string \<Rightarrow> string agent" where
  "read_required m p = chain (read_optional m p) (\<lambda>s. lift_res (ok_or
     (''required secret '' @ p @ '' is not mounted '' @ em_dash @ '' the daemon did not attach it to this container'') s))"

definition secrets_from_mounts :: "machine \<Rightarrow> instance_secrets agent" where
  "secrets_from_mounts m =
     chain (read_required m secret_superuser) (\<lambda>su.
     chain (read_required m secret_replication) (\<lambda>re.
     chain (read_required m secret_monitor) (\<lambda>mo.
     chain (read_optional m secret_app_owner) (\<lambda>ao.
     give \<lparr> se_superuser = su, se_replication = re, se_monitor = mo, se_app_owner = ao \<rparr>))))"

section \<open>Commands\<close>

definition is_initialised :: "machine \<Rightarrow> path \<Rightarrow> bool agent" where
  "is_initialised m dir = is_file m (dir @ [''PG_VERSION''])"

definition query_on :: "machine \<Rightarrow> nat \<Rightarrow> string \<Rightarrow> string \<Rightarrow> string agent" where
  "query_on m port database sql =
     chain (context_of (''failed to run psql '' @ em_dash @ '' is it on PATH in this image?'')
       (run_tool m [''psql'', ''-X'', ''-v'', ''ON_ERROR_STOP=1'', ''-tA'', ''-h'', socket_dir, ''-p'', show_nat port,
         ''-U'', ''postgres'', ''-d'', database, ''-c'', sql] None)) (\<lambda>out.
     if \<not> exit_ok (to_status out)
     then bail (''psql failed ('' @ show_exit (to_status out) @ ''): '' @ trim (lossy (to_stderr out)))
     else give (trim (lossy (to_stdout out))))"

definition execute_on :: "machine \<Rightarrow> nat \<Rightarrow> string \<Rightarrow> string \<Rightarrow> string \<Rightarrow> unit agent" where
  "execute_on m port database sql what =
     chain (context_of ''failed to run psql''
       (run_tool m [''psql'', ''-X'', ''-v'', ''ON_ERROR_STOP=1'', ''-q'', ''-h'', socket_dir, ''-p'', show_nat port,
         ''-U'', ''postgres'', ''-d'', database, ''-c'', sql] None)) (\<lambda>out.
     if \<not> exit_ok (to_status out) then bail (what @ '' failed: '' @ trim (lossy (to_stderr out))) else give ())"

definition pgbackrest_detail :: "tool_output \<Rightarrow> string" where
  "pgbackrest_detail out =
     str_join [CHR 0x0A] (filter (\<lambda>s. s \<noteq> []) [trim (lossy (to_stderr out)), trim (lossy (to_stdout out))])"

definition pgbackrest_run :: "machine \<Rightarrow> string \<Rightarrow> string list \<Rightarrow> string agent" where
  "pgbackrest_run m stanza args =
     chain (context_of (''failed to run '' @ pgbackrest_bin @ '' '' @ em_dash @ '' the pgBackRest bundle is not mounted. '' @
         ''Build it with ops/build-pgbackrest.sh'')
       (run_tool m ([pgbackrest_bin, ''--config='' @ pgbackrest_conf, ''--stanza='' @ stanza] @ args) None)) (\<lambda>out.
     if \<not> exit_ok (to_status out)
     then bail (''pgbackrest '' @ str_join '' '' args @ '' failed ('' @ show_exit (to_status out) @ ''):'' @ [CHR 0x0A] @
       (if pgbackrest_detail out = [] then ''(no output)'' else pgbackrest_detail out))
     else give (lossy (to_stdout out)))"

definition ensure_stanza :: "machine \<Rightarrow> string \<Rightarrow> nat \<Rightarrow> unit agent" where
  "ensure_stanza m stanza port =
     caught (pgbackrest_run m stanza [''stanza-create'', ''--pg1-port='' @ show_nat port]) (\<lambda>_. give ())"

definition restore_args :: "string option \<Rightarrow> string option \<Rightarrow> string list" where
  "restore_args label target = [''restore''] @ (case label of None \<Rightarrow> [] | Some l \<Rightarrow> [''--set='' @ l]) @
     (case target of None \<Rightarrow> [] | Some t \<Rightarrow> [''--type=time'', ''--target='' @ t, ''--target-action=promote''])"

definition pgbackrest_restore :: "machine \<Rightarrow> string \<Rightarrow> string option \<Rightarrow> string option \<Rightarrow> unit agent" where
  "pgbackrest_restore m stanza label target = chain (pgbackrest_run m stanza (restore_args label target)) (\<lambda>_. give ())"

definition restore_data :: "machine \<Rightarrow> recovery_bootstrap \<Rightarrow> unit agent" where
  "restore_data m r =
     chain (context_of ''pgbackrest restore failed''
       (pgbackrest_restore m (rb_source_stanza r) (rb_backup_label r) (rb_target_time r))) (\<lambda>_.
     context_of ''failed to chmod PGDATA to 0700'' (set_mode m pgdata dir_mode))"

definition recovery_finished :: "machine \<Rightarrow> bool agent" where
  "recovery_finished m = chain (path_exists m (pgdata @ [''recovery.signal''])) (\<lambda>there. give (\<not> there))"

section \<open>The data directory\<close>

definition pwfile :: path where "pwfile = [''pgdata'', ''conf'', ''.initdb-pw'']"

text \<open>The password file is opened, and emptied, before anything is written to it.\<close>

definition write_pwfile :: "machine \<Rightarrow> string \<Rightarrow> unit agent" where
  "write_pwfile m password =
     chain (context_of (''failed to create '' @ pwfile_path) (write_mode m 384 pwfile [])) (\<lambda>_.
     context_of ''failed to write the initdb password file'' (append_file m pwfile password))"

definition run_initdb :: "machine \<Rightarrow> initdb_options \<Rightarrow> unit agent" where
  "run_initdb m opts =
     chain (context_of (''failed to run initdb '' @ em_dash @ '' is it on PATH in this image?'')
       (run_tool m (initdb_argv opts) None)) (\<lambda>out.
     if \<not> exit_ok (to_status out) then bail (''initdb failed with '' @ show_exit (to_status out)) else give ())"

definition give_back :: "string list + 'a \<Rightarrow> 'a agent" where
  "give_back r = (case r of Inr x \<Rightarrow> give x | Inl e \<Rightarrow> rethrow e)"

definition run_initdb_bootstrap :: "machine \<Rightarrow> initdb_bootstrap \<Rightarrow> instance_secrets \<Rightarrow> unit agent" where
  "run_initdb_bootstrap m init secrets =
     (let opts = \<lparr> io_superuser = ''postgres'', io_encoding = ib_encoding init, io_locale = ib_locale init,
            io_extra = ib_options init \<rparr> in
      chain (write_pwfile m (se_superuser secrets)) (\<lambda>_.
      chain (caught (run_initdb m opts) (\<lambda>r. caught (remove_file m pwfile) (\<lambda>_. give_back r))) (\<lambda>_.
      append_include_dir m pgdata)))"

section \<open>Configuration files\<close>

text \<open>\<^verbatim>\<open>Path::with_extension\<close>; a name's leading dot starts no extension.\<close>

definition with_extension :: "path \<Rightarrow> string \<Rightarrow> path" where
  "with_extension p ext = butlast p @ [(case rsplit_once (CHR ''.'') (last p) of
      Some (stem, _) \<Rightarrow> if stem = [] then last p else stem | None \<Rightarrow> last p) @ ''.'' @ ext]"

definition tmp_of :: "path \<Rightarrow> path" where "tmp_of p = with_extension p ''pgpod-tmp''"

definition write_atomically :: "machine \<Rightarrow> path \<Rightarrow> string \<Rightarrow> unit agent" where
  "write_atomically m p contents =
     chain (context_of (''failed to write '' @ show_path (tmp_of p)) (write_file m (tmp_of p) contents)) (\<lambda>_.
     chain (context_of (''failed to chmod '' @ show_path (tmp_of p)) (set_mode m (tmp_of p) 384)) (\<lambda>_.
     context_of (''failed to move '' @ show_path p @ '' into place'') (rename m (tmp_of p) p)))"

fun credential_lines :: "string \<Rightarrow> string list \<Rightarrow> string + (string \<times> string) list" where
  "credential_lines p [] = Inr []"
| "credential_lines p (l # ls) =
     (let line = trim l in
      if line = [] \<or> hd line = CHR ''#'' then credential_lines p ls
      else and_then (ok_or (p @ '' has a line that is not KEY=value'') (split_once (CHR ''='') line)) (\<lambda>(k, v).
        and_then (credential_lines p ls) (\<lambda>out. Inr ((trim k, trim v) # out))))"

definition read_store_credentials :: "machine \<Rightarrow> nat \<Rightarrow> (string \<times> string) list agent" where
  "read_store_credentials m index =
     (let p = credentials_path index in
      caught (read_to_string m (path_of p)) (\<lambda>r. case r of
          Inr c \<Rightarrow> lift_res (credential_lines p (str_lines c))
        | Inl e \<Rightarrow> if e = [enoent] then give []
            else bail (p @ '' exists but could not be read: '' @ str_join '': '' e)))"

text \<open>The recovery that is still going on.\<close>

definition recovery_now :: "machine \<Rightarrow> instance_spec \<Rightarrow> recovery_bootstrap option agent" where
  "recovery_now m spec = (case recovery_of spec of
      None \<Rightarrow> give None
    | Some r \<Rightarrow> chain (recovery_finished m) (\<lambda>finished. give (if finished then None else Some r)))"

definition pgbackrest_conf_of :: "instance_spec \<Rightarrow> destination list \<Rightarrow> (string \<times> string) list list \<Rightarrow>
    backup_error + pgbackrest_config" where
  "pgbackrest_conf_of spec destinations credentials =
     and_then (pgbackrest_config_new (cluster_str (iid_cluster (is_instance spec))) destinations
       (bs_retention (is_backup spec)) (bs_retention_mode (is_backup spec))) (\<lambda>c.
     Inr (with_recovery_stanza (map_option rb_source_stanza (recovery_of spec)) (with_credentials credentials c)))"

definition active_destinations :: "instance_spec \<Rightarrow> recovery_bootstrap option \<Rightarrow> destination list" where
  "active_destinations spec r = (case r of Some b \<Rightarrow> rb_destinations b | None \<Rightarrow> bs_destinations (is_backup spec))"

definition pgbackrest_conf_path :: path where "pgbackrest_conf_path = [''pgdata'', ''conf'', ''pgbackrest.conf'']"

definition write_pgbackrest_conf :: "machine \<Rightarrow> instance_spec \<Rightarrow> unit agent" where
  "write_pgbackrest_conf m spec =
     chain (recovery_now m spec) (\<lambda>r.
     let destinations = active_destinations spec r in
     if destinations = [] then give ()
     else chain (in_turn (read_store_credentials m) [0..<length destinations]) (\<lambda>credentials.
       chain (context_of ''could not build the pgbackrest configuration''
         (lift_res (map_err show_backup_error (pgbackrest_conf_of spec destinations credentials)))) (\<lambda>config.
       write_atomically m pgbackrest_conf_path (render_config config))))"

definition managed_of :: "instance_spec \<Rightarrow> recovery_bootstrap option \<Rightarrow> managed_conf" where
  "managed_of spec r =
     with_shared_preload_libraries (is_shared_preload_libraries spec)
       (with_recovery (map_option (\<lambda>b. \<lparr> rc_restore_command = restore_command (rb_source_stanza b),
            rc_target_time = rb_target_time b \<rparr>) r)
         (with_archive (case is_archive_command spec of Some cmd \<Rightarrow> ArchiveOn cmd | None \<Rightarrow> ArchiveOff)
           (primary_conf (is_port spec))))"

definition hba_of :: "instance_spec \<Rightarrow> hba_config" where
  "hba_of spec = (case is_network_cidr spec of
      Some cidr \<Rightarrow> with_hba_network cidr (hba_new replication_role) | None \<Rightarrow> hba_new replication_role)"

definition write_rendered :: "machine \<Rightarrow> instance_spec \<Rightarrow> unit agent" where
  "write_rendered m spec =
     chain (recovery_now m spec) (\<lambda>r.
     chain (write_pgbackrest_conf m spec) (\<lambda>_.
     chain (write_atomically m (conf_d @ [managed_conf_file]) (render_managed_conf (managed_of spec r))) (\<lambda>_.
     chain (context_of ''spec.postgresql.parameters could not be rendered''
       (lift_res (map_err show_pg_error (render_user_conf (is_parameters spec))))) (\<lambda>user_conf.
     chain (write_atomically m (conf_d @ [user_conf_file]) user_conf) (\<lambda>_.
     write_atomically m (pgdata @ [''pg_hba.conf'']) (render_hba (hba_of spec)))))))"

definition render_config_files :: "machine \<Rightarrow> instance_spec \<Rightarrow> unit agent" where
  "render_config_files m spec =
     chain (context_of (''failed to create '' @ show_path conf_d) (create_dir_all m conf_d)) (\<lambda>_. write_rendered m spec)"

datatype bootstrapped = BExisting | BInitdb | BRestored

definition bootstrap_if_needed :: "machine \<Rightarrow> instance_spec \<Rightarrow> instance_secrets \<Rightarrow> bootstrapped agent" where
  "bootstrap_if_needed m spec secrets =
     chain (is_initialised m pgdata) (\<lambda>there.
     if there then give BExisting
     else (case is_bootstrap spec of
         Initdb init \<Rightarrow> chain (run_initdb_bootstrap m init secrets) (\<lambda>_. give BInitdb)
       | Recovery r \<Rightarrow> chain (write_pgbackrest_conf m spec) (\<lambda>_. chain (restore_data m r) (\<lambda>_. give BRestored))))"

section \<open>Roles\<close>

definition roles_for :: "initdb_bootstrap \<Rightarrow> instance_secrets \<Rightarrow> string + bootstrap_roles" where
  "roles_for init secrets =
     and_then (case (ib_database init, ib_owner init) of
         (Some database, Some owner) \<Rightarrow> Inr (Some \<lparr> ad_database = database, ad_owner = owner, ad_owner_password =
           (case se_app_owner secrets of Some p \<Rightarrow> p | None \<Rightarrow> se_superuser secrets) \<rparr>)
       | (None, None) \<Rightarrow> Inr None
       | _ \<Rightarrow> Inl ''spec.bootstrap.initdb needs both `database` and `owner`, or neither'') (\<lambda>app.
     Inr \<lparr> br_superuser = ''postgres'', br_superuser_password = se_superuser secrets,
       br_replication_password = se_replication secrets, br_monitor_password = se_monitor secrets, br_app = app \<rparr>)"

definition create_app_database :: "machine \<Rightarrow> bootstrap_roles \<Rightarrow> unit agent" where
  "create_app_database m roles =
     chain (lift_res (map_err show_pg_error (app_database_sql roles))) (\<lambda>sql. case sql of
         None \<Rightarrow> give ()
       | Some (check, create) \<Rightarrow> chain (query_on m bootstrap_port ''postgres'' check) (\<lambda>found.
           if trim found = [] then execute_on m bootstrap_port ''postgres'' create ''create application database''
           else give ()))"

definition create_roles :: "machine \<Rightarrow> instance_spec \<Rightarrow> instance_secrets \<Rightarrow> unit agent" where
  "create_roles m spec secrets = (case is_bootstrap spec of
      Recovery _ \<Rightarrow> bail ''create_roles was called on an instance that was not initdb-bootstrapped''
    | Initdb init \<Rightarrow>
        chain (lift_res (roles_for init secrets)) (\<lambda>roles.
        chain (context_of ''failed to render bootstrap SQL'' (lift_res (map_err show_pg_error (bootstrap_statements roles)))) (\<lambda>stmts.
        chain (for_each (\<lambda>stmt. execute_on m bootstrap_port ''postgres'' stmt ''role bootstrap'') stmts) (\<lambda>_.
        create_app_database m roles))))"

text \<open>With PostgreSQL up privately.  It is stopped however the action ends.\<close>

definition with_local_postgres :: "machine \<Rightarrow> 'a agent \<Rightarrow> 'a agent" where
  "with_local_postgres m f =
     chain (context_of ''failed to run pg_ctl start'' (run_tool m [''pg_ctl'', ''-D'', show_path pgdata, ''-w'', ''start'', ''-o'',
       ''-c listen_addresses='' @ [CHR 0x27, CHR 0x27] @ '' -c unix_socket_directories='' @ socket_dir @
       '' -c port='' @ show_nat bootstrap_port] None)) (\<lambda>start.
     if \<not> exit_ok (to_status start) then bail (''pg_ctl start failed with '' @ show_exit (to_status start))
     else caught f (\<lambda>result.
       chain (context_of ''failed to run pg_ctl stop''
         (run_tool m [''pg_ctl'', ''-D'', show_path pgdata, ''-m'', ''fast'', ''-w'', ''stop''] None)) (\<lambda>_.
       give_back result)))"

section \<open>Up to the start of PostgreSQL\<close>

definition cluster_of_spec :: "instance_spec \<Rightarrow> string" where
  "cluster_of_spec spec = cluster_str (iid_cluster (is_instance spec))"

definition first_start :: "machine \<Rightarrow> instance_spec \<Rightarrow> instance_secrets \<Rightarrow> unit agent" where
  "first_start m spec secrets = with_local_postgres m (
     chain (create_roles m spec secrets) (\<lambda>_.
     if is_enabled (is_backup spec) then ensure_stanza m (cluster_of_spec spec) bootstrap_port else give ()))"

definition prepare_instance :: "machine \<Rightarrow> spec_codec \<Rightarrow> (string \<rightharpoonup> string) \<Rightarrow> (instance_spec \<times> bootstrapped) agent" where
  "prepare_instance m sc env =
     chain (context_of ''could not read the instance spec'' (lift_res (map_err show_spec_error (spec_from_env sc env)))) (\<lambda>spec.
     chain (context_of ''could not read the mounted secrets'' (secrets_from_mounts m)) (\<lambda>secrets.
     chain (ensure_layout m) (\<lambda>_.
     chain (bootstrap_if_needed m spec secrets) (\<lambda>b.
     chain (render_config_files m spec) (\<lambda>_.
     chain (if b = BInitdb then first_start m spec secrets else give ()) (\<lambda>_.
     give (spec, b)))))))"

text \<open>What runs beside PostgreSQL afterwards: the stanza, once the server answers.\<close>

definition stanza_later :: "instance_spec \<Rightarrow> bootstrapped \<Rightarrow> bool" where
  "stanza_later spec b \<longleftrightarrow> is_enabled (is_backup spec) \<and> b \<noteq> BInitdb"

section \<open>Where a start writes\<close>

definition written_files :: "path list" where
  "written_files = [pgbackrest_conf_path, conf_d @ [managed_conf_file], conf_d @ [user_conf_file], pgdata @ [''pg_hba.conf'']]"

definition start_place :: "path \<Rightarrow> bool" where
  "start_place p \<longleftrightarrow> (\<exists>dir\<in>set (conf_d # layout_dirs). prefix p dir) \<or>
     (\<exists>f\<in>set written_files. prefix f p \<or> prefix (tmp_of f) p)"

lemmas place_defs = pgdata_def conf_dir_def spool_path_def log_path_def run_dir_def conf_d_def managed_conf_file_def
  user_conf_file_def pgbackrest_conf_path_def

lemma tmp_of_written: "map tmp_of written_files =
    [[''pgdata'', ''conf'', ''pgbackrest.pgpod-tmp''], [''pgdata'', ''pgdata'', ''conf.d'', ''00-pgpod.pgpod-tmp''],
     [''pgdata'', ''pgdata'', ''conf.d'', ''10-user.pgpod-tmp''], [''pgdata'', ''pgdata'', ''pg_hba.pgpod-tmp'']]"
  by (simp add: written_files_def tmp_of_def with_extension_def place_defs)

lemma touches_for_each: "(\<And>x. x \<in> set xs \<Longrightarrow> obeys (touches T) (f x)) \<Longrightarrow> obeys (touches T) (for_each f xs)"
  unfolding for_each_def by (intro touch_intros)

lemma touches_layout: "obeys (touches start_place) (ensure_layout m)"
  unfolding ensure_layout_def
  by (rule touches_for_each) (intro touch_intros; auto simp: start_place_def layout_dirs_def place_defs)

lemma touches_atomically: "f \<in> set written_files \<Longrightarrow> obeys (touches start_place) (write_atomically m f s)"
  unfolding write_atomically_def
  by (intro touch_intros) (auto simp: start_place_def tmp_of_def with_extension_def)

lemma touches_recovery_now: "obeys (touches T) (recovery_now m spec)"
  unfolding recovery_now_def recovery_finished_def by (cases "recovery_of spec") (auto intro!: touch_intros)

lemma touches_credentials: "obeys (touches T) (read_store_credentials m i)"
  unfolding read_store_credentials_def Let_def by (intro touch_intros)

lemma touches_pgbackrest_conf: "obeys (touches start_place) (write_pgbackrest_conf m spec)"
  unfolding write_pgbackrest_conf_def Let_def
  by (intro touch_intros touches_recovery_now touches_credentials touches_atomically) (simp add: written_files_def)

lemma touches_rendered: "obeys (touches start_place) (write_rendered m spec)"
  unfolding write_rendered_def
  by (intro touch_intros touches_recovery_now touches_pgbackrest_conf touches_atomically) (simp_all add: written_files_def)

lemma touches_render_config: "obeys (touches start_place) (render_config_files m spec)"
  unfolding render_config_files_def by (intro touch_intros touches_rendered) (simp add: start_place_def)

lemma touches_secrets: "obeys (touches T) (secrets_from_mounts m)"
  unfolding secrets_from_mounts_def read_required_def read_optional_def Let_def by (intro touch_intros)

section \<open>A restart\<close>

text \<open>No operation is refused; the power may still go.\<close>

definition no_refusal :: "machine \<Rightarrow> bool" where
  "no_refusal m \<longleftrightarrow> (\<forall>t ft. ma_fault m t = Some ft \<longrightarrow> ft_kind ft = PowerLoss)"

definition initialised :: "volume \<Rightarrow> bool" where
  "initialised v \<longleftrightarrow> is_plain (vo_disk v) (pgdata @ [''PG_VERSION''])"

definition restarts :: "volume \<Rightarrow> volume \<Rightarrow> bool" where
  "restarts v w \<longleftrightarrow> (initialised v \<longrightarrow> touches start_place v w \<and> initialised w)"

interpretation restarts: agent_effect restarts
  by unfold_locales (auto simp: restarts_def intro: touches.refl touches.trans)

lemma version_file_apart: "\<not> start_place (pgdata @ [''PG_VERSION''])"
  using tmp_of_written by (simp add: start_place_def written_files_def layout_dirs_def place_defs)

lemma touches_restarts: "obeys (touches start_place) a \<Longrightarrow> obeys restarts a"
proof (rule obeysI)
  fix v r w assume a: "obeys (touches start_place) a" "a v = (r, w)"
  from obeysD [OF this] touchesD [OF a version_file_apart] show "restarts v w"
    by (simp add: restarts_def initialised_def is_plain_def)
qed

lemma steady_tests:
  "no_refusal m \<Longrightarrow> tests m P v = (r, w) \<Longrightarrow> (r = Inr (P (vo_disk v)) \<or> r = Inl Crashed) \<and> vo_disk w = vo_disk v"
  by (auto simp: no_refusal_def tests_def caught_def sys_def unchanged_def give_def split: option.splits)

lemma restarts_bootstrap:
  assumes "no_refusal m" "obeys restarts (k BExisting)"
  shows "obeys restarts (chain (bootstrap_if_needed m spec secrets) k)"
proof (rule obeysI)
  fix v r w assume run: "chain (bootstrap_if_needed m spec secrets) k v = (r, w)"
  obtain b u where t: "is_initialised m pgdata v = (b, u)" by force
  then have b: "(b = Inr (initialised v) \<or> b = Inl Crashed) \<and> vo_disk u = vo_disk v"
    using steady_tests [OF assms(1), of "\<lambda>d. is_plain d (pgdata @ [''PG_VERSION''])" v b u]
    by (simp add: is_initialised_def is_file_def initialised_def)
  then have same: "restarts v u" by (simp add: restarts_def touches_def initialised_def)
  show "restarts v w"
  proof (cases "initialised v")
    case True
    from b consider "r = Inl Crashed" "w = u" | "k BExisting u = (r, w)"
      using run t True by (auto simp: bootstrap_if_needed_def chain_def give_def)
    then show ?thesis using same assms(2) by cases (auto intro: restarts.trans dest: obeysD)
  qed (simp add: restarts_def)
qed


section \<open>The password file\<close>

lemma steady_sys:
  "no_refusal m \<Longrightarrow> sys m partial act v = (r, w) \<Longrightarrow> r \<noteq> Inl Crashed \<Longrightarrow>
     \<exists>r'. act (vo_disk v) = (r', vo_disk w) \<and> r = map_err (\<lambda>e. Failed [e]) r'"
  by (auto simp: no_refusal_def sys_def split: option.splits prod.splits sum.splits)

text \<open>An action after which the password file is no file, unless the power went.\<close>

definition unlinked :: "volume \<Rightarrow> bool" where "unlinked v \<longleftrightarrow> \<not> is_plain (vo_disk v) pwfile"

definition ends_unlinked :: "'a agent \<Rightarrow> bool" where
  "ends_unlinked a \<longleftrightarrow> (\<forall>v r w. a v = (r, w) \<longrightarrow> r \<noteq> Inl Crashed \<longrightarrow> unlinked w)"

lemma unlinked_chain:
  "ends_unlinked a \<Longrightarrow> (\<And>x. obeys (touches (\<lambda>p. p \<noteq> pwfile)) (k x)) \<Longrightarrow> ends_unlinked (chain a k)"
  unfolding ends_unlinked_def chain_def
  by (fastforce simp: unlinked_def is_plain_def dest: touchesD split: prod.splits sum.splits)

lemma remove_unlinks:
  assumes "no_refusal m"
  shows "ends_unlinked (caught a (\<lambda>r. caught (remove_file m pwfile) (\<lambda>_. give_back r)))"
proof -
  have "unlinked w" if "remove_file m pwfile v = (r, w)" "r \<noteq> Inl Crashed" for v w and r :: "agent_error + unit"
    using steady_sys [OF assms that(1) [unfolded remove_file_def] that(2)] entry_prune [of pwfile _ pwfile]
    by (auto simp: unlinked_def is_plain_def pwfile_def dest!: sym [of "prune _ _ _"] split: option.splits node.splits)
  then show ?thesis
    by (fastforce simp: ends_unlinked_def caught_def give_back_def give_def rethrow_def
      split: prod.splits sum.splits agent_error.splits)
qed

lemma write_pwfile_fails:
  assumes "no_refusal m" "write_pwfile m pw v = (Inl e, w)" "e \<noteq> Crashed"
  shows "unlinked w"
proof -
  obtain r u where open': "write_mode m 384 pwfile [] v = (r, u)" by force
  show ?thesis
  proof (cases r)
    case (Inl e')
    then have "r \<noteq> Inl Crashed" using assms(2,3) open'
      by (auto simp: write_pwfile_def chain_def context_of_def)
    from steady_sys [OF assms(1) open' [unfolded write_mode_def] this] Inl show ?thesis
      using assms(2) open'
      by (auto simp: write_pwfile_def chain_def context_of_def write_at_def unlinked_def is_plain_def
        split: option.splits node.splits sum.splits agent_error.splits)
  next
    case (Inr x)
    from steady_sys [OF assms(1) open' [unfolded write_mode_def]] Inr
    have "\<exists>k c. entry (vo_disk u) pwfile = Some (File k c)"
      by (auto simp: write_at_def pwfile_def entry_place dest!: sym [of "place _ _ _"] split: option.splits node.splits sum.splits)
    moreover obtain r' where app: "append_file m pwfile pw u = (r', w)" "r' \<noteq> Inr ()" "r' \<noteq> Inl Crashed"
      using assms(2,3) open' Inr
      by (cases "append_file m pwfile pw u") (auto simp: write_pwfile_def chain_def context_of_def split: sum.splits agent_error.splits)
    from steady_sys [OF assms(1) app(1) [unfolded append_file_def] app(3)]
    obtain x where "append_at pwfile pw (vo_disk u) = (x, vo_disk w)" "r' = map_err (\<lambda>e. Failed [e]) x" by blast
    ultimately show ?thesis using app(2) by (auto simp: append_at_def)
  qed
qed

text \<open>C27: The password does not outlive the bootstrap.  Whatever \<^verbatim>\<open>initdb\<close> does and however it ends, when the bootstrap
  is over the file with the superuser's password is gone, unless the power went or an operation was refused.\<close>

theorem password_file_removed:
  assumes "no_refusal m" "run_initdb_bootstrap m init secrets v = (r, w)" "r \<noteq> Inl Crashed"
  shows "\<not> is_plain (vo_disk w) pwfile"
proof -
  let ?opts = "\<lparr> io_superuser = ''postgres'', io_encoding = ib_encoding init, io_locale = ib_locale init,
    io_extra = ib_options init \<rparr>"
  let ?rest = "chain (caught (run_initdb m ?opts) (\<lambda>r. caught (remove_file m pwfile) (\<lambda>_. give_back r)))
    (\<lambda>_. append_include_dir m pgdata)"
  have line: "obeys (touches (\<lambda>p. p \<noteq> pwfile)) (append_include_dir m pgdata)"
    unfolding append_include_dir_def Let_def by (intro touch_intros) (simp_all add: pgdata_def pwfile_def)
  have rest: "ends_unlinked ?rest" by (rule unlinked_chain [OF remove_unlinks [OF assms(1)] line])
  consider e where "write_pwfile m (se_superuser secrets) v = (Inl e, w)" "r = Inl e"
    | u where "?rest u = (r, w)"
    using assms(2) by (auto simp: run_initdb_bootstrap_def Let_def chain_def [of "write_pwfile _ _"] split: prod.splits sum.splits)
  then have "unlinked w"
  proof cases
    case 1
    then show ?thesis using write_pwfile_fails [OF assms(1)] assms(3) by blast
  next
    case 2
    then show ?thesis using rest assms(3) unfolding ends_unlinked_def by blast
  qed
  then show ?thesis by (simp add: unlinked_def)
qed

section \<open>Files are written whole\<close>

text \<open>What a file of the configuration may hold.\<close>

definition complete :: "instance_spec \<Rightarrow> path \<Rightarrow> string \<Rightarrow> bool" where
  "complete spec f s \<longleftrightarrow>
     (f = conf_d @ [managed_conf_file] \<and> (\<exists>r\<in>{None, recovery_of spec}. s = render_managed_conf (managed_of spec r))) \<or>
     (f = conf_d @ [user_conf_file] \<and> render_user_conf (is_parameters spec) = Inr s) \<or>
     (f = pgdata @ [''pg_hba.conf''] \<and> s = render_hba (hba_of spec)) \<or>
     (f = pgbackrest_conf_path \<and> (\<exists>r\<in>{None, recovery_of spec}. \<exists>creds c.
        pgbackrest_conf_of spec (active_destinations spec r) creds = Inr c \<and> s = render_config c))"

definition whole :: "path \<Rightarrow> (string \<Rightarrow> bool) \<Rightarrow> volume \<Rightarrow> volume \<Rightarrow> bool" where
  "whole f S v w \<longleftrightarrow> entry (vo_disk w) f = entry (vo_disk v) f \<or> (\<exists>s. S s \<and> entry (vo_disk w) f = Some (File 384 s))"

interpretation whole: agent_effect "whole f S" for f S
  by unfold_locales (auto simp: whole_def)

context agent_effect begin

lemma chain_known:
  assumes "obeys R a" "\<And>v x w. a v = (Inr x, w) \<Longrightarrow> P x" "\<And>x. P x \<Longrightarrow> obeys R (k x)"
  shows "obeys R (chain a k)"
proof (rule obeysI)
  fix v r v' assume "chain a k v = (r, v')"
  then consider e where "a v = (Inl e, v')" | x u where "a v = (Inr x, u)" "k x u = (r, v')"
    by (auto simp: chain_def split: prod.splits sum.splits)
  then show "R v v'"
    by cases (auto intro: trans [OF obeysD [OF assms(1)] obeysD [OF assms(3) [OF assms(2)]]] dest: obeysD [OF assms(1)])
qed

end

lemma touches_whole: "obeys (touches (\<lambda>p. p \<noteq> f)) a \<Longrightarrow> obeys (whole f S) a"
  by (auto intro!: obeysI simp: whole_def dest: touchesD)

lemma write_makes: "write_file m p s v = (Inr x, w) \<Longrightarrow> p \<noteq> [] \<Longrightarrow> \<exists>mode. entry (vo_disk w) p = Some (File mode s)"
  by (auto simp: write_file_def write_mode_def write_at_def sys_def entry_place split: option.splits node.splits sum.splits)

lemma mode_makes:
  "set_mode m p n v = (Inr x, w) \<Longrightarrow> p \<noteq> [] \<Longrightarrow> entry (vo_disk v) p = Some (File k s) \<Longrightarrow> entry (vo_disk w) p = Some (File n s)"
  by (auto simp: set_mode_def sys_def entry_place split: option.splits)

text \<open>The one place where a file is replaced.\<close>

lemma atomically_whole:
  assumes "S s" "apart (tmp_of f) f" "f \<noteq> []"
  shows "obeys (whole f S) (write_atomically m f s)"
proof -
  have tmp: "tmp_of f \<noteq> []" "tmp_of f \<noteq> f" "\<not> prefix (tmp_of f) f"
    using assms(2) by (auto simp: apart_def)
  have steps: "obeys (touches (\<lambda>p. p \<noteq> f)) (write_file m (tmp_of f) s)" "obeys (touches (\<lambda>p. p \<noteq> f)) (set_mode m (tmp_of f) 384)"
    by (intro touch_intros tmp)+
  show ?thesis
  proof (rule obeysI)
    fix v r w assume run: "write_atomically m f s v = (r, w)"
    obtain r1 u1 where 1: "write_file m (tmp_of f) s v = (r1, u1)" by force
    obtain r2 u2 where 2: "set_mode m (tmp_of f) 384 u1 = (r2, u2)" by force
    have same: "entry (vo_disk u1) f = entry (vo_disk v) f" "entry (vo_disk u2) f = entry (vo_disk u1) f"
      using touchesD [OF steps(1) 1] touchesD [OF steps(2) 2] by simp_all
    consider "w = u1" | "w = u2" | r3 where "r1 = Inr ()" "r2 = Inr ()" "rename m (tmp_of f) f u2 = (r3, w)"
      using run 1 2 by (cases r1; cases r2; cases "rename m (tmp_of f) f u2")
        (auto simp: write_atomically_def chain_def context_of_def split: sum.splits agent_error.splits)
    then show "whole f S v w"
    proof cases
      case 3
      obtain k where "entry (vo_disk u1) (tmp_of f) = Some (File k s)"
        using write_makes [OF 1 [unfolded 3(1)] tmp(1)] by blast
      from mode_makes [OF 2 [unfolded 3(2)] tmp(1) this]
      have "entry (vo_disk u2) (tmp_of f) = Some (File 384 s)" .
      with 3(3) tmp(2) show ?thesis
      proof (cases rule: rename_cases)
        case renamed
        then show ?thesis using entry_moved_to [of f "[]" "tmp_of f" "vo_disk u2"] assms tmp
            \<open>entry (vo_disk u2) (tmp_of f) = _\<close> by (simp add: whole_def apart_def)
      qed (use same in \<open>simp add: whole_def\<close>)
    qed (use same in \<open>simp_all add: whole_def\<close>)
  qed
qed

lemma atomically_other:
  assumes "\<not> prefix f g" "\<not> prefix (tmp_of f) g" "f \<noteq> []" "tmp_of f \<noteq> []"
  shows "obeys (whole g S) (write_atomically m f s)"
  unfolding write_atomically_def
  by (rule touches_whole) (intro touch_intros; use assms in \<open>auto dest: prefix_order.eq_refl\<close>)

lemma files_apart:
  "\<forall>f\<in>set written_files. \<forall>g\<in>set written_files. apart (tmp_of f) g \<and> tmp_of f \<noteq> [] \<and> f \<noteq> [] \<and> (f \<noteq> g \<longrightarrow> \<not> prefix f g)"
  by code_simp

lemma written_atomically:
  assumes "f \<in> set written_files" "g \<in> set written_files" "f = g \<Longrightarrow> S s"
  shows "obeys (whole g S) (write_atomically m f s)"
proof (cases "f = g")
  case True
  have "obeys (whole g S) (write_atomically m g s)"
    by (rule atomically_whole) (use files_apart assms True in auto)
  then show ?thesis by (simp add: True)
next
  case False
  then show ?thesis using files_apart assms(1,2) by (intro atomically_other) (auto simp: apart_def)
qed

lemma recovery_known: "recovery_now m spec v = (Inr r, w) \<Longrightarrow> r \<in> {None, recovery_of spec}"
  by (auto simp: recovery_now_def chain_Inr give_def split: option.splits if_splits)

lemma whole_after_recovery:
  "(\<And>r. r \<in> {None, recovery_of spec} \<Longrightarrow> obeys (whole f S) (k r)) \<Longrightarrow> obeys (whole f S) (chain (recovery_now m spec) k)"
  by (rule whole.chain_known [where P = "\<lambda>r. r \<in> {None, recovery_of spec}", OF touches_whole [OF touches_recovery_now] recovery_known])

lemma whole_pgbackrest:
  assumes "f \<in> set written_files"
  shows "obeys (whole f (complete spec f)) (write_pgbackrest_conf m spec)"
proof -
  have render: "obeys (whole f (complete spec f)) (chain (context_of e (lift_res (map_err show_backup_error
      (pgbackrest_conf_of spec (active_destinations spec r) creds)))) (\<lambda>c. write_atomically m pgbackrest_conf_path (render_config c)))"
    if "r \<in> {None, recovery_of spec}" for e r creds
  proof (rule whole.chain_known)
    show "pgbackrest_conf_of spec (active_destinations spec r) creds = Inr c"
      if "context_of e (lift_res (map_err show_backup_error (pgbackrest_conf_of spec (active_destinations spec r) creds))) v = (Inr c, w)"
      for v c w using that by (auto simp: lift_res_def)
    show "obeys (whole f (complete spec f)) (write_atomically m pgbackrest_conf_path (render_config c))"
      if "pgbackrest_conf_of spec (active_destinations spec r) creds = Inr c" for c
      by (rule written_atomically) (use assms \<open>r \<in> _\<close> that in \<open>auto simp: written_files_def complete_def\<close>)
  qed (intro whole.combinators)
  show ?thesis
    unfolding write_pgbackrest_conf_def Let_def
    by (intro whole_after_recovery whole.cond whole.give whole.chain whole.in_turn render touches_whole touches_credentials)
qed

lemma whole_rendered:
  assumes "f \<in> set written_files"
  shows "obeys (whole f (complete spec f)) (write_rendered m spec)"
proof -
  have user: "obeys (whole f (complete spec f)) (chain (context_of e (lift_res (map_err show_pg_error
      (render_user_conf (is_parameters spec))))) (\<lambda>c. chain (write_atomically m (conf_d @ [user_conf_file]) c)
      (\<lambda>_. write_atomically m (pgdata @ [''pg_hba.conf'']) (render_hba (hba_of spec)))))" for e
  proof (rule whole.chain_known)
    show "render_user_conf (is_parameters spec) = Inr c"
      if "context_of e (lift_res (map_err show_pg_error (render_user_conf (is_parameters spec)))) v = (Inr c, w)" for v c w
      using that by (auto simp: lift_res_def)
    show "obeys (whole f (complete spec f)) (chain (write_atomically m (conf_d @ [user_conf_file]) c)
        (\<lambda>_. write_atomically m (pgdata @ [''pg_hba.conf'']) (render_hba (hba_of spec))))"
      if "render_user_conf (is_parameters spec) = Inr c" for c
      by (intro whole.chain written_atomically assms) (use that in \<open>auto simp: written_files_def complete_def\<close>)
  qed (intro whole.combinators)
  show ?thesis
    unfolding write_rendered_def
    by (intro whole_after_recovery whole.chain whole_pgbackrest written_atomically user assms)
      (auto simp: written_files_def complete_def)
qed

text \<open>C21: A configuration file is the old one or the new one.  However the rendering of the configuration ends, the loss of
  power at any operation included, each of the four files is as it was, or holds, for its owner only, the complete
  text of a rendering of the spec.\<close>

theorem configuration_written_whole:
  assumes "f \<in> set written_files"
  shows "entry (vo_disk (snd (render_config_files m spec v))) f = entry (vo_disk v) f \<or>
    (\<exists>s. complete spec f s \<and> entry (vo_disk (snd (render_config_files m spec v))) f = Some (File 384 s))"
proof -
  have "\<forall>f\<in>set written_files. \<not> prefix f conf_d" by code_simp
  then have "obeys (touches (\<lambda>p. p \<noteq> f)) (create_dir_all m conf_d)"
    using assms by (intro touch_intros) auto
  then have "obeys (whole f (complete spec f)) (render_config_files m spec)"
    unfolding render_config_files_def by (intro whole.combinators whole_rendered touches_whole assms)
  from obeysD [OF this surjective_pairing] show ?thesis by (simp add: whole_def)
qed

section \<open>A volume whose bootstrap was killed\<close>

text \<open>The cluster is there, and so is the password file: no later start removes it.\<close>

definition idle_machine :: machine where
  "idle_machine = \<lparr> ma_fault = (\<lambda>_. None), ma_tool = (\<lambda>_ _ _ d. (Inl enoent, d)), ma_millis = (\<lambda>_. 0), ma_epoch = (\<lambda>_. 0) \<rparr>"

definition killed_volume :: volume where
  "killed_volume = \<lparr> vo_disk = [(pgdata @ [''PG_VERSION''], File 384 ''17''), (pwfile, File 384 ''secret''),
     (conf_dir, Folder 448)], vo_tick = 0, vo_out = [] \<rparr>"

lemma idle_no_refusal: "no_refusal idle_machine"
  by (simp add: no_refusal_def idle_machine_def)


theorem password_file_removed_witness:
  "\<not> is_plain (vo_disk (snd (run_initdb_bootstrap idle_machine initdb_default \<lparr> se_superuser = ''pw'', se_replication = ''r'',
     se_monitor = ''m'', se_app_owner = None \<rparr> killed_volume))) pwfile"
proof -
  let ?s = "\<lparr> se_superuser = ''pw'', se_replication = ''r'', se_monitor = ''m'', se_app_owner = None \<rparr>"
  have "fst (run_initdb_bootstrap idle_machine initdb_default ?s killed_volume) \<noteq> Inl Crashed"
    by (simp add: run_initdb_bootstrap_def write_pwfile_def run_initdb_def write_mode_def append_file_def remove_file_def
      run_tool_def agent_defs idle_machine_def write_at_def append_at_def killed_volume_def entry_def place_def prune_def
      give_back_def pwfile_def pgdata_def conf_dir_def)
  from password_file_removed [OF idle_no_refusal surjective_pairing this] show ?thesis .
qed

theorem configuration_written_whole_witness:
  "entry (vo_disk (snd (render_config_files idle_machine demo_instance_spec killed_volume))) pgbackrest_conf_path = None \<or>
   (\<exists>s. complete demo_instance_spec pgbackrest_conf_path s \<and>
     entry (vo_disk (snd (render_config_files idle_machine demo_instance_spec killed_volume))) pgbackrest_conf_path = Some (File 384 s))"
proof -
  have "pgbackrest_conf_path \<in> set written_files" by (simp add: written_files_def)
  moreover have "entry (vo_disk killed_volume) pgbackrest_conf_path = None" by code_simp
  ultimately show ?thesis using configuration_written_whole [of pgbackrest_conf_path idle_machine demo_instance_spec killed_volume]
    by simp
qed

end
