(* ===== verification/Instances.thy ===== *)
theory Instances
  imports Postgres
begin

text \<open>
  What a cluster manifest becomes: the spec of an instance, the container it runs in,
  and the comparison with a container that already exists
  (\<^verbatim>\<open>pgpod-control/src/lib.rs\<close>).  The control plane is the record \<open>control\<close>: the host, the
  two paths of the host it mounts from, and the JSON codecs.
\<close>

section \<open>The control plane\<close>

record 'p control =
  cn_host :: "'p host"
  cn_agent :: string
  cn_bundle :: string
  cn_clusters :: "cluster_manifest manifest_codec"
  cn_poolers :: "pooler_manifest manifest_codec"
  cn_spec :: spec_codec
  cn_pooler_encode :: "pooler_spec \<Rightarrow> string + string"
  cn_pooler_decode :: "string \<Rightarrow> string + pooler_spec"
  cn_upgrade_encode :: "upgrade_spec \<Rightarrow> string + string"
  cn_read_stage :: "string \<Rightarrow> string + stage_report"
  cn_read_probe :: "string \<Rightarrow> string + probe_report"
  cn_read_run :: "string \<Rightarrow> string + upgrade_run_report"

record apply_context =
  ax_bootstrap :: bootstrap
  ax_network_cidr :: "string option"
  ax_secrets :: secret_names
  ax_recreate :: bool
  ax_desired_image_id :: "string option"

record apply_options =
  ao_wait :: nat
  ao_recreate :: bool

definition apply_options_default :: apply_options where
  "apply_options_default = \<lparr> ao_wait = 180000, ao_recreate = False \<rparr>"

text \<open>\<^verbatim>\<open>Path::exists\<close>: an error counts as absent.\<close>

definition path_exists :: "'p host \<Rightarrow> string \<Rightarrow> ('p, 'e, bool) act" where
  "path_exists h f = attempt (perform (CallIsFile f) (h_is_file h f)) (\<lambda>r.
     ret (case r of Inl _ \<Rightarrow> False | Inr b \<Rightarrow> b))"

definition agent_binary :: "'p control \<Rightarrow> ('p, string) ctl" where
  "agent_binary cn = seq (path_exists (cn_host cn) (cn_agent cn)) (\<lambda>there.
     if there then ret (cn_agent cn) else fail (EAgentMissing (cn_agent cn)))"

definition pgbackrest_bundle :: "'p control \<Rightarrow> ('p, string) ctl" where
  "pgbackrest_bundle cn = seq (path_exists (cn_host cn) (cn_bundle cn @ ''/bin/pgbackrest'')) (\<lambda>there.
     if there then ret (cn_bundle cn) else fail (EPgBackRestMissing (cn_bundle cn)))"

lemma path_exists_within [within_intros]: "A (CallIsFile f) \<Longrightarrow> obeys (within A S) (path_exists h f)"
  unfolding path_exists_def by (intro within_intros)

lemma agent_binary_within [within_intros]: "(\<And>f. A (CallIsFile f)) \<Longrightarrow> obeys (within A S) (agent_binary cn)"
  unfolding agent_binary_def by (intro within_intros)

lemma pgbackrest_bundle_within [within_intros]:
  "(\<And>f. A (CallIsFile f)) \<Longrightarrow> obeys (within A S) (pgbackrest_bundle cn)"
  unfolding pgbackrest_bundle_def by (intro within_intros)

section \<open>The instance spec\<close>

definition spec_err :: "spec_error + 'a \<Rightarrow> control_error + 'a" where
  "spec_err r = map_err (\<lambda>e. ESpec (show_spec_error e)) r"

definition shipped_backup :: "cluster_manifest \<Rightarrow> backup_spec" where
  "shipped_backup m = (sp_backup (mf_spec m))\<lparr>
     bs_destinations := map sanitized (bs_destinations (sp_backup (mf_spec m))) \<rparr>"

definition desired_spec :: "cluster_manifest \<Rightarrow> instance_id \<Rightarrow> apply_context \<Rightarrow> instance_spec" where
  "desired_spec m inst ctx = (let backup = shipped_backup m in
     \<lparr> is_instance = inst, is_port = 5432, is_bootstrap = ax_bootstrap ctx,
       is_parameters = manifest_parameters m,
       is_shared_preload_libraries = pg_shared_preload_libraries (sp_postgresql (mf_spec m)),
       is_network_cidr = ax_network_cidr ctx,
       is_archive_command = (if is_enabled backup
         then Some (archive_command (cluster_str (iid_cluster inst))) else None),
       is_backup = backup \<rparr>)"

definition instance_spec_of :: "spec_codec \<Rightarrow> cluster_manifest \<Rightarrow> instance_id \<Rightarrow> apply_context \<Rightarrow>
    control_error + instance_spec" where
  "instance_spec_of sc m inst ctx =
     (let spec = desired_spec m inst ctx in
      and_then (spec_err (validate_spec (sc_rfc3339 sc) spec)) (\<lambda>_. Inr spec))"

section \<open>The container\<close>

definition archive_volume :: "cluster_manifest \<Rightarrow> string option" where
  "archive_volume m = bs_volume (sp_backup (mf_spec m))"

definition secret_at :: "cluster_manifest \<Rightarrow> string \<Rightarrow> string \<Rightarrow> secret_mount" where
  "secret_at m name target = \<lparr> sm_name = name, sm_target = target, sm_mode = 0x100,
     sm_uid = sp_postgres_uid (mf_spec m), sm_gid = sp_postgres_gid (mf_spec m) \<rparr>"

definition role_mounts :: "cluster_manifest \<Rightarrow> secret_names \<Rightarrow> secret_mount list" where
  "role_mounts m s =
     [secret_at m (sn_superuser s) secret_superuser, secret_at m (sn_replication s) secret_replication,
      secret_at m (sn_monitor s) secret_monitor] @
     (if ib_database (sp_initdb (mf_spec m)) \<noteq> None
      then [secret_at m (sn_app_owner s) secret_app_owner] else [])"

definition store_mounts :: "cluster_manifest \<Rightarrow> secret_mount list" where
  "store_mounts m = List.map_filter (\<lambda>(index, d).
     map_option (\<lambda>name. secret_at m name (credentials_path index)) (ds_credentials d))
     (enumerate 0 (bs_destinations (sp_backup (mf_spec m))))"

definition user_of :: "cluster_manifest \<Rightarrow> string" where
  "user_of m = show_nat (unat (sp_postgres_uid (mf_spec m))) @ '':'' @ show_nat (unat (sp_postgres_gid (mf_spec m)))"

definition instance_container :: "string \<Rightarrow> cluster_manifest \<Rightarrow> instance_id \<Rightarrow> apply_context \<Rightarrow> 16 word \<Rightarrow>
    string \<Rightarrow> mount list \<Rightarrow> container_spec" where
  "instance_container agent m inst ctx host_port env bundle =
     (let c = hardened (sp_image_name (mf_spec m));
          c = with_name (container_name inst) c;
          c = with_hostname (container_name inst) c;
          c = with_user (user_of m) c;
          c = with_entrypoint [agent_bin, ''instance'', ''run''] c;
          c = with_env spec_env env c;
          c = with_network (network_name (iid_cluster inst)) c;
          c = with_publish (loopback host_port 5432) c;
          c = with_mount (Volume (volume_name inst) volume_mount False) c;
          c = with_mount (BindReadOnly agent agent_bin) c;
          c = fold with_mount bundle c;
          c = (case archive_volume m of Some v \<Rightarrow> with_mount (Volume v archive_mount False) c | None \<Rightarrow> c);
          c = fold with_secret (role_mounts m (ax_secrets ctx)) c;
          c = fold with_secret (store_mounts m) c
      in fold with_label (instance_labels inst) c)"

definition container_spec_of :: "'p control \<Rightarrow> cluster_manifest \<Rightarrow> instance_id \<Rightarrow> apply_context \<Rightarrow>
    16 word \<Rightarrow> ('p, container_spec) ctl" where
  "container_spec_of cn m inst ctx host_port =
     seq (of_result (instance_spec_of (cn_spec cn) m inst ctx)) (\<lambda>spec.
     seq (of_result (spec_err (spec_to_env (cn_spec cn) spec))) (\<lambda>env.
     seq (if is_enabled (is_backup spec) \<or> recovery_of spec \<noteq> None
          then seq (pgbackrest_bundle cn) (\<lambda>b. ret [BindReadOnly b pgbackrest_bundle_mount])
          else ret []) (\<lambda>bundle.
     ret (instance_container (cn_agent cn) m inst ctx host_port env bundle))))"

lemma container_spec_of_within [within_intros]:
  "(\<And>f. A (CallIsFile f)) \<Longrightarrow> obeys (within A S) (container_spec_of cn m inst ctx port)"
  unfolding container_spec_of_def by (intro within_intros)

section \<open>Divergence\<close>

text \<open>\<^verbatim>\<open>trim_start_matches\<close> takes the prefix off as often as it is there.\<close>

function strip_all :: "string \<Rightarrow> string" where
  "strip_all s = (if prefix ''sha256:'' s then strip_all (drop 7 s) else s)"
  by pat_completeness auto

termination strip_all
  by (relation "measure length") (auto simp: prefix_def)

declare strip_all.simps [simp del]

definition short_id :: "string \<Rightarrow> string" where
  "short_id i = take 12 (strip_all i)"

text \<open>The \<^verbatim>\<open>{:?}\<close> of the types the message prints.\<close>

definition debug_list :: "('a \<Rightarrow> string) \<Rightarrow> 'a list \<Rightarrow> string" where
  "debug_list f xs = ''['' @ str_join '', '' (map f xs) @ '']''"

definition debug_opt :: "string option \<Rightarrow> string" where
  "debug_opt v = (case v of None \<Rightarrow> ''None'' | Some s \<Rightarrow> ''Some('' @ debug_str s @ '')'')"

definition debug_pair :: "string \<times> string \<Rightarrow> string" where
  "debug_pair p = ''('' @ debug_str (fst p) @ '', '' @ debug_str (snd p) @ '')''"

definition debug_destination :: "destination \<Rightarrow> string" where
  "debug_destination d = ''Destination { url: '' @ debug_str (ds_url d) @ '', endpoint: '' @ debug_opt (ds_endpoint d) @
     '', region: '' @ debug_opt (ds_region d) @ '', verify_tls: '' @ (if ds_verify_tls d then ''true'' else ''false'') @
     '', credentials: '' @ debug_opt (ds_credentials d) @ '', options: {'' @
     str_join '', '' (map (\<lambda>kv. debug_str (fst kv) @ '': '' @ debug_str (snd kv)) (ds_options d)) @ ''} }''"

fun debug_bootstrap :: "bootstrap \<Rightarrow> string" where
  "debug_bootstrap (Initdb b) = ''Initdb(InitdbBootstrap { database: '' @ debug_opt (ib_database b) @
     '', owner: '' @ debug_opt (ib_owner b) @ '', encoding: '' @ debug_str (ib_encoding b) @
     '', locale: '' @ debug_str (ib_locale b) @ '', options: '' @ debug_list debug_str (ib_options b) @ '' })''"
| "debug_bootstrap (Recovery r) = ''Recovery(RecoveryBootstrap { source_stanza: '' @ debug_str (rb_source_stanza r) @
     '', backup_label: '' @ debug_opt (rb_backup_label r) @ '', target_time: '' @ debug_opt (rb_target_time r) @
     '', destinations: '' @ debug_list debug_destination (rb_destinations r) @ '' })''"

definition archive_mode_of :: "instance_spec \<Rightarrow> string" where
  "archive_mode_of s = (if is_archive_command s \<noteq> None then ''on'' else ''off'')"

definition destination_urls :: "instance_spec \<Rightarrow> string" where
  "destination_urls s = (if bs_destinations (is_backup s) = [] then ''none''
     else str_join '', '' (map ds_url (bs_destinations (is_backup s))))"

definition retention_text :: "instance_spec \<Rightarrow> string" where
  "retention_text s = debug_opt (bs_retention (is_backup s)) @ '' ('' @
     (case bs_retention_mode (is_backup s) of Report \<Rightarrow> ''Report'' | Enforce \<Rightarrow> ''Enforce'') @ '')''"

definition note_change :: "string \<times> string \<times> string \<Rightarrow> string list" where
  "note_change c = (case c of (field, a, b) \<Rightarrow>
     if a \<noteq> b then [''  '' @ field @ '': '' @ a @ '' -> '' @ b] else [])"

definition differences :: "instance_spec \<Rightarrow> instance_spec \<Rightarrow> (string \<times> string) option \<Rightarrow> string list" where
  "differences running desired image_change =
     (let out = concat (map note_change
        ((case image_change of Some (a, b) \<Rightarrow> [(''image'', a, b)] | None \<Rightarrow> []) @
         [(''bootstrap'', debug_bootstrap (is_bootstrap running), debug_bootstrap (is_bootstrap desired)),
          (''parameters'', debug_list debug_pair (is_parameters running),
             debug_list debug_pair (is_parameters desired)),
          (''sharedPreloadLibraries'', debug_list debug_str (is_shared_preload_libraries running),
             debug_list debug_str (is_shared_preload_libraries desired)),
          (''archive_mode'', archive_mode_of running, archive_mode_of desired),
          (''backup.destinations'', destination_urls running, destination_urls desired),
          (''backup.retention'', retention_text running, retention_text desired)]))
      in if out = [] then [''  (a field this diff does not yet name)''] else out)"

definition image_change_of :: "cluster_manifest \<Rightarrow> apply_context \<Rightarrow> container_probe \<Rightarrow>
    (string \<times> string) option" where
  "image_change_of m ctx p =
     (case (ax_desired_image_id ctx, cp_image_id p) of
        (Some desired, Some running) \<Rightarrow>
          if desired \<noteq> running
          then Some (unwrap_or (short_id running) (cp_image_name p), sp_image_name (mf_spec m)) else None
      | _ \<Rightarrow> None)"

definition refuse_if_diverged :: "spec_codec \<Rightarrow> cluster_manifest \<Rightarrow> instance_id \<Rightarrow> apply_context \<Rightarrow>
    container_probe \<Rightarrow> control_error + unit" where
  "refuse_if_diverged sc m inst ctx p =
     (case env_var p spec_env of
        None \<Rightarrow> Inl (EDiverged (instance_id_display inst) (''the running container has no '' @ spec_env))
      | Some raw \<Rightarrow>
          and_then (instance_spec_of sc m inst ctx) (\<lambda>desired.
          and_then (spec_err (map_err SpecMalformed (sc_decode sc raw))) (\<lambda>running.
          if running = desired \<and> image_change_of m ctx p = None then Inr ()
          else Inl (EDiverged (instance_id_display inst)
            (str_join nl (differences running desired (image_change_of m ctx p)))))))"

definition connection_uri :: "16 word \<Rightarrow> cluster_manifest \<Rightarrow> string" where
  "connection_uri port m =
     (let (user, database) = (case (ib_owner (sp_initdb (mf_spec m)), ib_database (sp_initdb (mf_spec m))) of
          (Some owner, Some db) \<Rightarrow> (owner, db)
        | _ \<Rightarrow> (''postgres'', ''postgres''))
      in ''postgresql://'' @ user @ ''@127.0.0.1:'' @ show_nat (unat port) @ ''/'' @ database)"

section \<open>What the container is\<close>

lemma fold_with_mount: "fold with_mount ms c = c\<lparr> cs_mounts := cs_mounts c @ ms \<rparr>"
  by (induction ms arbitrary: c) (simp_all add: with_mount_def)

lemma fold_with_secret: "fold with_secret ms c = c\<lparr> cs_secrets := cs_secrets c @ ms \<rparr>"
  by (induction ms arbitrary: c) (simp_all add: with_secret_def)

lemma fold_with_label: "fold with_label ls c = c\<lparr> cs_labels := cs_labels c @ ls \<rparr>"
  by (induction ls arbitrary: c) (simp_all add: with_label_def)

lemmas fold_builders = fold_with_mount fold_with_secret fold_with_label

lemma instance_container_fields:
  fixes agent m inst ctx port env extra
  defines "c \<equiv> instance_container agent m inst ctx port env extra"
  shows "cs_cap_drop c = [''ALL'']" "cs_no_new_privileges c" "cs_read_only_fs c"
    "cs_env c = [(spec_env, env)]" "cs_port_publishes c = [loopback port 5432]"
    "cs_secrets c = role_mounts m (ax_secrets ctx) @ store_mounts m"
    "cs_mounts c = [Tmpfs ''/tmp'', Tmpfs secrets_dir, Volume (volume_name inst) volume_mount False,
       BindReadOnly agent agent_bin] @ extra @
       (case archive_volume m of Some v \<Rightarrow> [Volume v archive_mount False] | None \<Rightarrow> [])"
    "cs_labels c = instance_labels inst"
    "cs_restart_policy c = RestartNo" "cs_name c = Some (container_name inst)"
  by (simp_all add: c_def instance_container_def Let_def builder_defs fold_builders hardened_def
      plain_spec_def split: option.split)

lemma container_spec_of_Inr:
  assumes "container_spec_of cn m inst ctx port w = (Inr cs, w')"
  shows "\<exists>spec env bundle. instance_spec_of (cn_spec cn) m inst ctx = Inr spec \<and>
     spec_to_env (cn_spec cn) spec = Inr env \<and> (bundle = [] \<or> (\<exists>b. bundle = [BindReadOnly b pgbackrest_bundle_mount])) \<and>
     cs = instance_container (cn_agent cn) m inst ctx port env bundle"
proof -
  obtain spec where spec: "instance_spec_of (cn_spec cn) m inst ctx = Inr spec"
    using assms by (cases "instance_spec_of (cn_spec cn) m inst ctx")
      (auto simp: container_spec_of_def seq_def of_result_def)
  obtain env where env: "spec_to_env (cn_spec cn) spec = Inr env"
    using assms by (cases "spec_to_env (cn_spec cn) spec")
      (auto simp: container_spec_of_def seq_def of_result_def spec spec_err_def)
  show ?thesis using assms
    by (auto simp: container_spec_of_def seq_def of_result_def spec env spec_err_def ret_def fail_def
        pgbackrest_bundle_def split: sum.splits prod.splits if_splits)
qed

lemma instance_spec_of_Inr:
  "instance_spec_of sc m inst ctx = Inr spec \<longleftrightarrow>
     spec = desired_spec m inst ctx \<and> validate_spec (sc_rfc3339 sc) spec = Inr ()"
  by (auto simp: instance_spec_of_def Let_def spec_err_def)

lemma volumes_of_container:
  "Volume v t ch \<in> set (cs_mounts (instance_container agent m inst ctx port env bundle)) \<Longrightarrow>
   bundle = [] \<or> (\<exists>b. bundle = [BindReadOnly b pgbackrest_bundle_mount]) \<Longrightarrow>
   v = volume_name inst \<and> t = volume_mount \<or> archive_volume m = Some v \<and> t = archive_mount"
  by (auto simp: instance_container_fields split: option.splits)

lemma env_var_single: "cp_env p = [key @ ''='' @ v] \<Longrightarrow> env_var p key = Some v"
  using strip_prefix_append [of "key @ ''=''" v] by (simp add: env_var_def)

lemma store_mount_mode: "s \<in> set (role_mounts m n @ store_mounts m) \<Longrightarrow>
    sm_mode s = 0x100 \<and> sm_uid s = sp_postgres_uid (mf_spec m) \<and> sm_gid s = sp_postgres_gid (mf_spec m)"
  by (auto simp: role_mounts_def store_mounts_def secret_at_def List.map_filter_def)

section \<open>Properties\<close>

text \<open>C20: The container of an instance is contained.  It has no capabilities, may gain no
  privileges and writes only to its volumes and two scratch directories; it is published on
  loopback only; the volumes it mounts are the instance's own and the archive volume the manifest
  names; every secret is readable by the PostgreSQL user alone; and its environment is
  one variable, the encoding of a spec that passed validation.\<close>

theorem instance_container_contained:
  assumes "container_spec_of cn m inst ctx port w = (Inr cs, w')"
  shows "cs_cap_drop cs = [''ALL''] \<and> cs_no_new_privileges cs \<and> cs_read_only_fs cs \<and>
    (\<forall>p\<in>set (cs_port_publishes cs). pub_host_ip p = Some ''127.0.0.1'') \<and>
    (\<forall>v t ch. Volume v t ch \<in> set (cs_mounts cs) \<longrightarrow>
       v = volume_name inst \<and> t = volume_mount \<or> archive_volume m = Some v \<and> t = archive_mount) \<and>
    (\<forall>s\<in>set (cs_secrets cs). sm_mode s = 0x100 \<and> sm_uid s = sp_postgres_uid (mf_spec m) \<and>
       sm_gid s = sp_postgres_gid (mf_spec m)) \<and>
    (\<exists>spec env. cs_env cs = [(spec_env, env)] \<and> spec_to_env (cn_spec cn) spec = Inr env \<and>
       validate_spec (sc_rfc3339 (cn_spec cn)) spec = Inr ())"
proof -
  obtain spec env extra where *: "instance_spec_of (cn_spec cn) m inst ctx = Inr spec"
    "spec_to_env (cn_spec cn) spec = Inr env" "extra = [] \<or> (\<exists>b. extra = [BindReadOnly b pgbackrest_bundle_mount])"
    "cs = instance_container (cn_agent cn) m inst ctx port env extra"
    using container_spec_of_Inr [OF assms] by blast
  then show ?thesis
    using volumes_of_container [OF _ *(3)] store_mount_mode instance_spec_of_Inr
    by (auto simp: instance_container_fields loopback_def)
qed


section \<open>Witnesses\<close>

definition demo_instance :: instance_id where
  "demo_instance = mk_instance (ClusterId ''mydb'') 1"

definition demo_context :: apply_context where
  "demo_context = \<lparr> ax_bootstrap = Initdb (sp_initdb (mf_spec demo_manifest)), ax_network_cidr = Some ''10.89.3.0/24'',
     ax_secrets = secret_names_for (ClusterId ''mydb''), ax_recreate = False, ax_desired_image_id = Some ''img'' \<rparr>"

definition demo_control :: "demo_podman control" where
  "demo_control = \<lparr> cn_host = demo_host, cn_agent = ''/srv/pgpod-agent'', cn_bundle = ''/srv/pgbackrest'',
     cn_clusters = \<lparr> mc_name = mf_name, mc_encode = \<lambda>m. Inr (mf_name m),
       mc_decode = \<lambda>s. Inr (demo_manifest\<lparr> mf_name := s \<rparr>) \<rparr>,
     cn_poolers = \<lparr> mc_name = pm_name, mc_encode = \<lambda>m. Inr (pm_name m),
       mc_decode = \<lambda>s. Inr (demo_pooler_manifest\<lparr> pm_name := s \<rparr>) \<rparr>,
     cn_spec = demo_spec_codec (desired_spec demo_manifest demo_instance demo_context),
     cn_pooler_encode = \<lambda>_. Inr ''{}'', cn_pooler_decode = \<lambda>_. Inl ''none'', cn_upgrade_encode = \<lambda>_. Inr ''{}'',
     cn_read_stage = \<lambda>_. Inl ''none'', cn_read_probe = \<lambda>_. Inl ''none'', cn_read_run = \<lambda>_. Inl ''none'' \<rparr>"

lemma demo_spec_valid:
  "validate_spec (\<lambda>_. True) (desired_spec demo_manifest demo_instance demo_context) = Inr ()"
  by (simp add: validate_spec_ok desired_spec_def Let_def shipped_backup_def sanitized_def demo_context_def
      demo_manifest_def destination_new_def is_enabled_def)

lemma demo_container:
  "\<exists>cs w'. container_spec_of demo_control demo_manifest demo_instance demo_context 40000
     (demo_world [] empty_registry) = (Inr cs, w')"
  by (simp add: container_spec_of_def instance_spec_of_def Let_def demo_control_def demo_spec_codec_def
      spec_err_def spec_to_env_def demo_spec_valid pgbackrest_bundle_def path_exists_def act_defs demo_defs)

theorem instance_container_contained_witness:
  "\<exists>cs w'. container_spec_of demo_control demo_manifest demo_instance demo_context 40000
     (demo_world [] empty_registry) = (Inr cs, w') \<and> cs_cap_drop cs = [''ALL''] \<and>
     (\<forall>p\<in>set (cs_port_publishes cs). pub_host_ip p = Some ''127.0.0.1'')"
  using demo_container instance_container_contained by blast


end
