(* ===== verification/PoolerHold.thy ===== *)
theory PoolerHold
  imports Instances
begin

text \<open>
  The hold over the poolers in front of a cluster, and the replacement of an
  instance's container behind it (\<^verbatim>\<open>pgpod-control/src/pooler.rs\<close>: \<^verbatim>\<open>PoolerHold\<close>,
  \<^verbatim>\<open>recreate_instance\<close>, \<^verbatim>\<open>recreate_held\<close>).  A hold is the list of the poolers that
  were paused; that a release takes the list out of it is written as the caller dropping it.
\<close>

section \<open>Pausing and resuming\<close>

definition pooler_pause :: "'p host \<Rightarrow> pooler_id \<Rightarrow> cluster_id \<Rightarrow> ('p, unit) ctl" where
  "pooler_pause h p c = seq (pooler_control h p ''pause'' [cluster_str c]) (\<lambda>_. ret ())"

definition pooler_resume :: "'p host \<Rightarrow> pooler_id \<Rightarrow> cluster_id \<Rightarrow> ('p, unit) ctl" where
  "pooler_resume h p c = seq (pooler_control h p ''resume'' [cluster_str c]) (\<lambda>_. ret ())"

definition hold_release :: "'p host \<Rightarrow> cluster_id \<Rightarrow> pooler_id list \<Rightarrow> ('p, unit) ctl" where
  "hold_release h c held =
     seq (each (\<lambda>p. attempt (pooler_resume h p c) (\<lambda>_. ret ())) held) (\<lambda>_. ret ())"

definition release_after_recreate :: "'p host \<Rightarrow> cluster_id \<Rightarrow> pooler_id list \<Rightarrow> ('p, unit) ctl" where
  "release_after_recreate h c held =
     seq (each (\<lambda>p. seq (pooler_control h p ''reconnect'' [cluster_str c]) (\<lambda>_. pooler_resume h p c)) held)
       (\<lambda>_. ret ())"

fun hold_poolers :: "'p host \<Rightarrow> cluster_id \<Rightarrow> 'q pooler_record list \<Rightarrow> pooler_id list \<Rightarrow>
    ('p, pooler_id list) ctl" where
  "hold_poolers h c [] held = ret held"
| "hold_poolers h c (r # rs) held =
     (case pooler_id_new (po_name r) of
        Inl e \<Rightarrow> fail (EInvalid (''stored pooler name: '' @ show_id_error e))
      | Inr p \<Rightarrow> attempt (pooler_pause h p c) (\<lambda>res. case res of
          Inr _ \<Rightarrow> hold_poolers h c rs (held @ [p])
        | Inl e \<Rightarrow> seq (hold_release h c held) (\<lambda>_. fail (EInvalid (''could not hold pooler '' @ po_name r @
            '' for '' @ cluster_str c @ '', so the switchover would drop connections it promised to keep: '' @
            show_control_error e)))))"

definition hold_acquire :: "'p control \<Rightarrow> cluster_id \<Rightarrow> ('p, pooler_id list) ctl" where
  "hold_acquire cn c =
     seq (look (\<lambda>db. poolers_for_cluster (cn_poolers cn) db c)) (\<lambda>recs.
     seq (hold_poolers (cn_host cn) c recs []) (\<lambda>held.
     seq (note_event (cluster_str c) None ''info'' (''held '' @ show_nat (length held) @ '' pooler(s)'')) (\<lambda>_.
     ret held)))"

section \<open>Replacing a container\<close>

definition recreate_held :: "'p control \<Rightarrow> cluster_manifest \<Rightarrow> instance_id \<Rightarrow> apply_context \<Rightarrow> 16 word \<Rightarrow>
    ('p, string) ctl" where
  "recreate_held cn m inst ctx port =
     (let h = cn_host cn; c = cluster_str (iid_cluster inst); n = Some (iid_ordinal inst) in
      seq (note_event c n ''info'' ''removing the container to apply a changed spec'') (\<lambda>_.
      attempt (stop h (container_name inst) 30) (\<lambda>_.
      seq (pod (remove h (container_name inst) True)) (\<lambda>_.
      seq (note_event c n ''info'' ''creating the replacement container'') (\<lambda>_.
      seq (container_spec_of cn m inst ctx port) (\<lambda>spec.
      seq (pod (create_container h spec)) (\<lambda>cid.
      seq (pod (start h cid)) (\<lambda>_.
      seq (wait_ready h inst 120000) (\<lambda>_.
      ret cid)))))))))"

definition note_recreated :: "string \<Rightarrow> 32 word option \<Rightarrow> nat \<Rightarrow> nat \<Rightarrow> ('p, unit) ctl" where
  "note_recreated c n started count w = note_event c n ''info'' (''recreated in '' @ show_nat (wd_now w - started) @
     ''ms; '' @ show_nat count @ '' pooler(s) held clients throughout'') w"

definition recreate_from :: "'p control \<Rightarrow> cluster_manifest \<Rightarrow> instance_id \<Rightarrow> apply_context \<Rightarrow> 16 word \<Rightarrow>
    nat \<Rightarrow> ('p, string) ctl" where
  "recreate_from cn m inst ctx port started =
     (let h = cn_host cn; cl = iid_cluster inst; c = cluster_str cl; n = Some (iid_ordinal inst) in
      seq (hold_acquire cn cl) (\<lambda>held.
      seq (if held = [] then note_event c n ''warn''
             (''recreating with no pooler in front '' @ em_dash @ '' open connections will drop'') else ret ()) (\<lambda>_.
      attempt (recreate_held cn m inst ctx port) (\<lambda>outcome. case outcome of
        Inr cid \<Rightarrow>
          seq (release_after_recreate h cl held) (\<lambda>_.
          seq (note_recreated c n started (length held)) (\<lambda>_.
          ret cid))
      | Inl e \<Rightarrow>
          seq (hold_release h cl held) (\<lambda>_.
          seq (note_event c n ''error'' (''recreate failed: '' @ show_control_error e)) (\<lambda>_.
          fail e))))))"

text \<open>The clock is read when it begins.\<close>

definition recreate_instance :: "'p control \<Rightarrow> cluster_manifest \<Rightarrow> instance_id \<Rightarrow> apply_context \<Rightarrow> 16 word \<Rightarrow>
    ('p, string) ctl" where
  "recreate_instance cn m inst ctx port w = recreate_from cn m inst ctx port (wd_now w) w"

section \<open>What it does to the world\<close>

lemma pooler_pause_within [within_intros]:
  "(\<And>argv. A (CallExec (pooler_container_name p) argv)) \<Longrightarrow> obeys (within A S) (pooler_pause h p c)"
  unfolding pooler_pause_def by (intro within_intros)

lemma pooler_resume_within [within_intros]:
  "(\<And>argv. A (CallExec (pooler_container_name p) argv)) \<Longrightarrow> obeys (within A S) (pooler_resume h p c)"
  unfolding pooler_resume_def by (intro within_intros)

lemma hold_release_within [within_intros]:
  "(\<And>p argv. A (CallExec (pooler_container_name p) argv)) \<Longrightarrow> obeys (within A S) (hold_release h c held)"
  unfolding hold_release_def by (intro within_intros within.each)

lemma release_after_recreate_within [within_intros]:
  "(\<And>p argv. A (CallExec (pooler_container_name p) argv)) \<Longrightarrow> obeys (within A S) (release_after_recreate h c held)"
  unfolding release_after_recreate_def by (intro within_intros within.each)

lemma hold_poolers_within [within_intros]:
  "(\<And>p argv. A (CallExec (pooler_container_name p) argv)) \<Longrightarrow> obeys (within A S) (hold_poolers h c recs held)"
  by (induction h c recs held rule: hold_poolers.induct) (simp_all only: hold_poolers.simps, (intro within_intros; simp)+)

lemma hold_acquire_within [within_intros]:
  "(\<And>p argv. A (CallExec (pooler_container_name p) argv)) \<Longrightarrow>
   (\<And>now n l m db. S db (record_event now (cluster_str c) n l m db)) \<Longrightarrow> obeys (within A S) (hold_acquire cn c)"
  unfolding hold_acquire_def by (intro within_intros)

text \<open>The requests a replacement may make.\<close>

fun replaces :: "instance_id \<Rightarrow> call \<Rightarrow> bool" where
  "replaces i (CallStop d secs) = (d = container_name i)"
| "replaces i (CallDelete d force) = (d = container_name i)"
| "replaces i (CallCreate j) = True"
| "replaces i (CallStart d) = True"
| "replaces i (CallIsFile f) = True"
| "replaces i (CallExec d argv) = True"
| "replaces i c = asks (container_name i) c"

lemma asks_replaces: "asks (container_name i) c \<Longrightarrow> replaces i c"
  by (cases c) auto

lemma recreate_held_within [within_intros]:
  assumes "\<And>c. replaces inst c \<Longrightarrow> A c" "\<And>now n l m db. S db (record_event now (cluster_str (iid_cluster inst)) n l m db)"
    "\<And>db db'. marks (iid_cluster inst) db db' \<Longrightarrow> S db db'"
  shows "obeys (within A S) (recreate_held cn m inst ctx port)"
  unfolding recreate_held_def Let_def
  by (intro within_intros) (auto intro!: assms dest: asks_replaces)

lemma note_recreated_within [within_intros]:
  "(\<And>now n l m db. S db (record_event now c n l m db)) \<Longrightarrow> obeys (within A S) (note_recreated c n started count)"
  unfolding note_recreated_def by (rule obeys_at) (intro within_intros)

lemma recreate_instance_within [within_intros]:
  assumes "\<And>c. replaces inst c \<Longrightarrow> A c" "\<And>now n l m db. S db (record_event now (cluster_str (iid_cluster inst)) n l m db)"
    "\<And>db db'. marks (iid_cluster inst) db db' \<Longrightarrow> S db db'"
  shows "obeys (within A S) (recreate_instance cn m inst ctx port)"
  unfolding recreate_instance_def recreate_from_def Let_def
  by (rule obeys_at) (intro within_intros; (rule assms; simp)?)

section \<open>What was asked for\<close>

definition asked_for :: "call \<Rightarrow> 'p world \<Rightarrow> 'p world \<Rightarrow> bool" where
  "asked_for c w w' \<longleftrightarrow> c \<in> set (drop (length (wd_calls w)) (wd_calls w'))"

abbreviation moves :: "'p world \<Rightarrow> 'p world \<Rightarrow> bool" where
  "moves \<equiv> within (\<lambda>_. True) (\<lambda>_ _. True)"

lemma moves_calls: "moves w w' \<Longrightarrow> \<exists>cs. wd_calls w' = wd_calls w @ cs"
  by (auto simp: within_def)

lemma asked_then: "asked_for c u v \<Longrightarrow> moves v w \<Longrightarrow> asked_for c u w"
  by (auto simp: asked_for_def dest!: moves_calls)

lemma asked_later: "moves u v \<Longrightarrow> asked_for c v w \<Longrightarrow> asked_for c u w"
  unfolding asked_for_def
  by (metis in_mono length_append le_add1 moves_calls set_drop_subset_set_drop)

lemma asked_within: "within A S w w' \<Longrightarrow> asked_for c w w' \<Longrightarrow> A c"
  by (auto simp: within_def asked_for_def)

lemma asked_split: "moves u v \<Longrightarrow> moves v w \<Longrightarrow> asked_for c u w \<Longrightarrow> asked_for c u v \<or> asked_for c v w"
  by (auto simp: asked_for_def dest!: moves_calls)

lemma asked_seq:
  "asked_for c w (snd (m w)) \<Longrightarrow> (\<And>x. obeys moves (k x)) \<Longrightarrow> asked_for c w (snd (seq m k w))"
  by (auto simp: seq_def obeys_def split: prod.split sum.split intro: asked_then)

lemma asked_attempt:
  "asked_for c w (snd (m w)) \<Longrightarrow> (\<And>x. obeys moves (k x)) \<Longrightarrow> asked_for c w (snd (attempt m k w))"
  by (auto simp: attempt_def obeys_def split: prod.split intro: asked_then)

lemma act_err_world: "snd (act_err f m w) = snd (m w)"
  by (simp add: act_err_def split: prod.split)

lemma exec_asks: "asked_for (CallExec c argv) w (snd (exec h c argv w))"
  unfolding exec_def
  by (rule asked_seq)
     (auto simp: request_def act_err_def perform_def asked_for_def split: prod.split intro!: within_intros)

definition pause_call :: "cluster_id \<Rightarrow> pooler_id \<Rightarrow> call" where
  "pause_call c p = CallExec (pooler_container_name p) [agent_bin, ''pooler'', ''pause'', cluster_str c]"

definition resume_call :: "cluster_id \<Rightarrow> pooler_id \<Rightarrow> call" where
  "resume_call c p = CallExec (pooler_container_name p) [agent_bin, ''pooler'', ''resume'', cluster_str c]"

lemma resume_asks: "asked_for (resume_call c p) w (snd (pooler_resume h p c w))"
  unfolding pooler_resume_def pooler_control_def pod_def
  using exec_asks [of "pooler_container_name p" "[agent_bin, ''pooler'', ''resume'', cluster_str c]" w h]
  by (intro asked_seq within_intros) (simp add: act_err_world resume_call_def)

lemma pause_call_inj: "pause_call c p = pause_call c q \<longleftrightarrow> p = q" "resume_call c p \<noteq> pause_call d q"
  by (cases p; cases q; simp add: pause_call_def resume_call_def pooler_container_name_def)+

lemma pause_only: "obeys (within (\<lambda>x. x = pause_call c p) (\<lambda>_ _. False)) (pooler_pause h p c)"
  unfolding pooler_pause_def pooler_control_def by (intro within_intros) (simp add: pause_call_def)

lemma resume_only: "obeys (within (\<lambda>x. \<exists>p. x = resume_call c p) (\<lambda>_ _. False)) (hold_release h c held)"
  unfolding hold_release_def pooler_resume_def pooler_control_def
  by (intro within_intros within.each) (auto simp: resume_call_def)

lemma moves_snd: "obeys moves m \<Longrightarrow> moves w (snd (m w))"
  by (simp add: obeys_def)

lemma seq_ret_world: "snd (seq m (\<lambda>x. ret (g x)) w) = snd (m w)"
  by (simp add: seq_def ret_def split: prod.split sum.split)

lemma each_step: "f x w = (Inr y, v) \<Longrightarrow> snd (each f (x # xs) w) = snd (each f xs v)"
  by (simp add: seq_def [of "f x"] seq_ret_world)

lemma hold_release_asks:
  fixes h :: "'p host"
  shows "p \<in> set held \<Longrightarrow> asked_for (resume_call c p) w (snd (hold_release h c held w))"
proof (induction held arbitrary: w)
  case (Cons q held)
  let ?f = "\<lambda>p. attempt (pooler_resume h p c) (\<lambda>_. ret ()) :: ('p, unit) ctl"
  have f: "asked_for (resume_call c q) v (snd (?f q v))" for v
    by (rule asked_attempt [OF resume_asks]) (intro within_intros)
  obtain v where v: "?f q w = (Inr (), v)" by (cases "pooler_resume h q c w") (auto simp: attempt_def ret_def)
  have step: "snd (hold_release h c (q # held) w) = snd (hold_release h c held v)"
    unfolding hold_release_def seq_ret_world by (rule each_step [where f = ?f, OF v])
  have "moves w v" using moves_snd [of "?f q" w] v by (auto intro!: within_intros)
  moreover have "moves v (snd (hold_release h c held v))"
    by (rule moves_snd) (intro within_intros; simp)
  ultimately show ?case
    using Cons f [of w] unfolding step by (auto simp: v intro: asked_later asked_then)
qed simp

lemma release_after_recreate_asks:
  "release_after_recreate h c held w = (Inr u, w') \<Longrightarrow> p \<in> set held \<Longrightarrow> asked_for (resume_call c p) w w'"
proof (induction held arbitrary: w)
  case (Cons q held)
  let ?f = "\<lambda>p. seq (pooler_control h p ''reconnect'' [cluster_str c]) (\<lambda>_. pooler_resume h p c)"
  from Cons.prems(1) obtain x v where v: "?f q w = (Inr x, v)"
    by (cases "?f q w") (auto simp: release_after_recreate_def seq_def split: sum.splits prod.splits)
  then have rest: "release_after_recreate h c held v = (Inr u, w')"
    using Cons.prems(1) by (auto simp: release_after_recreate_def seq_run [of "?f q" w] seq_def ret_def
        split: sum.splits prod.splits)
  from v obtain y v0 where v0: "pooler_control h q ''reconnect'' [cluster_str c] w = (Inr y, v0)"
    "pooler_resume h q c v0 = (Inr x, v)" by (auto simp: seq_def split: sum.splits prod.splits)
  have "moves w v0" using moves_snd [of "pooler_control h q ''reconnect'' [cluster_str c]" w] v0(1)
    by (auto intro: within_intros)
  then have "asked_for (resume_call c q) w v" using resume_asks [of c q v0 h] v0(2) by (auto intro: asked_later)
  moreover have "moves w v" using moves_snd [of "?f q" w] v by (auto intro!: within_intros)
  moreover have "moves v w'"
    using moves_snd [of "release_after_recreate h c held" v] rest by (auto intro: within_intros)
  ultimately show ?case using Cons.IH [OF rest] Cons.prems(2) by (auto intro: asked_later asked_then)
qed simp

text \<open>Between asking for a pause and the end, only the failing pooler can be left behind.\<close>

lemma hold_poolers_asks:
  assumes "hold_poolers h c recs held w = (r, w')" "\<forall>x\<in>set recs. \<exists>p. pooler_id_new (po_name x) = Inr p"
  shows "case r of
      Inr held' \<Rightarrow> map pooler_str held' = map pooler_str held @ map po_name recs
    | Inl _ \<Rightarrow> (\<forall>p\<in>set held. asked_for (resume_call c p) w w') \<and>
        (\<exists>f. \<forall>p. p \<noteq> f \<longrightarrow> asked_for (pause_call c p) w w' \<longrightarrow> asked_for (resume_call c p) w w')"
  using assms
proof (induction recs arbitrary: held w)
  case Nil
  then show ?case by (auto simp: ret_def)
next
  case (Cons x recs)
  obtain p where p: "pooler_id_new (po_name x) = Inr p" using Cons.prems(2) by auto
  obtain res v where pause: "pooler_pause h p c w = (res, v)" by (cases "pooler_pause h p c w")
  have only: "asked_for (pause_call c q) w v \<Longrightarrow> q = p" for q
    by (drule asked_within [OF obeysD [OF pause_only [of c p h] pause]]) (simp add: pause_call_inj)
  have wv: "moves w v" using moves_snd [of "pooler_pause h p c" w] pause by (auto intro!: within_intros)
  show ?case
  proof (cases res)
    case (Inr u)
    with Cons.prems(1) pause p have rest: "hold_poolers h c recs (held @ [p]) v = (r, w')"
      by (simp add: attempt_def)
    have vw: "moves v w'"
      using moves_snd [of "hold_poolers h c recs (held @ [p])" v] rest by (auto intro!: within_intros)
    note IH = Cons.IH [OF rest] Cons.prems(2)
    show ?thesis
    proof (cases r)
      case (Inr held')
      have "pooler_str p = po_name x" using p by (auto simp: pooler_id_new_def split: if_splits)
      then show ?thesis using IH Inr by simp
    next
      case (Inl e)
      then obtain f where f: "\<forall>q\<in>set (held @ [p]). asked_for (resume_call c q) v w'"
        "\<forall>q. q \<noteq> f \<longrightarrow> asked_for (pause_call c q) v w' \<longrightarrow> asked_for (resume_call c q) v w'"
        using IH by auto
      have "asked_for (pause_call c q) w w' \<longrightarrow> asked_for (resume_call c q) w w'" if "q \<noteq> f" for q
        using asked_split [OF wv vw] only f that asked_later [OF wv] by fastforce
      then show ?thesis using Inl f(1) asked_later [OF wv] by auto
    qed
  next
    case (Inl e)
    with Cons.prems(1) pause p obtain e' where r: "r = Inl e'" and w': "w' = snd (hold_release h c held v)"
      by (auto simp: attempt_def seq_def fail_def split: sum.splits prod.splits)
    have rel: "within (\<lambda>x. \<exists>p. x = resume_call c p) (\<lambda>_ _. False) v w'"
      using resume_only [of c h held] by (simp add: w' obeys_def)
    have vw: "moves v w'" using moves_snd [of "hold_release h c held" v] by (auto simp: w' intro!: within_intros)
    have "asked_for (pause_call c q) w w' \<longrightarrow> q = p" for q
      using asked_split [OF wv vw] only asked_within [OF rel] pause_call_inj by metis
    moreover have "\<forall>q\<in>set held. asked_for (resume_call c q) w w'"
      by (auto simp: w' intro!: asked_later [OF wv] hold_release_asks)
    ultimately show ?thesis unfolding r by auto
  qed
qed

lemma hold_release_ok: "\<exists>v. hold_release h c held w = (Inr (), v)"
proof -
  have "delivers (list_all2 (\<lambda>_ _. True) held) (each (\<lambda>p. attempt (pooler_resume h p c) (\<lambda>_. ret ())) held)"
    by (intro delivers_each delivers_attempt delivers_ret TrueI)
  then have "delivers (\<lambda>_. True) (hold_release h c held)"
    unfolding hold_release_def by (rule delivers_seq) (intro delivers_ret TrueI)
  then show ?thesis by (auto simp: delivers_def)
qed

lemma note_ok: "note_event c n l m w = (Inr (), w\<lparr> wd_db := record_event (now_ms w) c n l m (wd_db w) \<rparr>)"
  by (simp add: note_event_def store_def write_db_def)

lemma note_then: "seq (note_event c n l m) k w = k () (w\<lparr> wd_db := record_event (now_ms w) c n l m (wd_db w) \<rparr>)"
  by (simp add: seq_def note_ok)

lemma hold_acquire_asks:
  assumes "hold_acquire cn c w = (r, w')"
  shows "case r of
      Inr held \<Rightarrow> map pooler_str held = pooler_names_for_cluster (wd_db w) c
    | Inl _ \<Rightarrow> \<exists>f. \<forall>p. p \<noteq> f \<longrightarrow> asked_for (pause_call c p) w w' \<longrightarrow> asked_for (resume_call c p) w w'"
proof (cases "poolers_for_cluster (cn_poolers cn) (wd_db w) c")
  case (Inl e)
  then have "r = Inl (ERegistry e)" "w' = w" using assms by (simp_all add: hold_acquire_def look_stop)
  then show ?thesis by (simp add: asked_for_def)
next
  case (Inr recs)
  have names: "map po_name recs = pooler_names_for_cluster (wd_db w) c" "\<forall>x\<in>set recs. \<exists>p. pooler_id_new (po_name x) = Inr p"
    using Inr [unfolded poolers_for_cluster_def] unfolding try_map_ok
    by (induction rule: list_all2_induct)
       (auto simp: require_named_def require_pooler_def get_pooler_def pooler_id_new_def split: option.splits if_splits)
  obtain r0 w0 where h: "hold_poolers (cn_host cn) c recs [] w = (r0, w0)"
    by (cases "hold_poolers (cn_host cn) c recs [] w")
  note spec = hold_poolers_asks [OF h names(2)]
  show ?thesis
  proof (cases r0)
    case (Inl e)
    then have "r = Inl e" "w' = w0" using assms Inr h
      by (simp_all add: hold_acquire_def look_run seq_def [of "hold_poolers (cn_host cn) c recs []"])
    then show ?thesis using spec Inl by auto
  next
    case r0: (Inr held)
    then have "r = Inr held"
      using assms Inr h
      by (simp add: hold_acquire_def look_run seq_def [of "hold_poolers (cn_host cn) c recs []"] note_then ret_def)
    then show ?thesis using spec r0 names(1) by simp
  qed
qed

section \<open>Properties\<close>


text \<open>C9: A replacement lets go of the clients it held.  However it ends, every pooler it
  paused has been asked to resume; the one exception is a replacement that succeeded and
  whose release was then refused by a pooler, which is also what the caller gets.\<close>

theorem recreate_releases:
  assumes "recreate_instance cn m inst ctx port w = (r, w')"
    and "hold_acquire cn (iid_cluster inst) w = (Inr held, w1)"
  shows "(\<forall>p\<in>set held. asked_for (resume_call (iid_cluster inst) p) w w') \<or>
    (\<exists>v x e. fst (recreate_held cn m inst ctx port v) = Inr x \<and>
       fst (release_after_recreate (cn_host cn) (iid_cluster inst) held
         (snd (recreate_held cn m inst ctx port v))) = Inl e \<and> r = Inl e)"
proof -
  let ?h = "cn_host cn" and ?c = "iid_cluster inst" and ?n = "Some (iid_ordinal inst)"
  let ?warn = "if held = [] then note_event (cluster_str ?c) ?n ''warn''
      (''recreating with no pooler in front '' @ em_dash @ '' open connections will drop'') else ret ()"
  obtain v where v: "?warn w1 = (Inr (), v)"
    by (cases "held = []") (simp_all add: note_ok ret_def)
  obtain out v2 where out: "recreate_held cn m inst ctx port v = (out, v2)"
    by (cases "recreate_held cn m inst ctx port v")
  have "obeys moves (hold_acquire cn ?c)" "obeys moves ?warn" "obeys moves (recreate_held cn m inst ctx port)"
    by (auto intro!: within_intros)
  then have "moves w w1" "moves w1 v" "moves v v2"
    using obeysD assms(2) v out by metis+
  then have wv: "moves w v2" by (blast intro: within.trans)
  note unfolds = recreate_instance_def recreate_from_def Let_def seq_def [of "hold_acquire cn ?c"] assms(2)
    seq_def [of ?warn] v attempt_def out
  show ?thesis
  proof (cases out)
    case (Inl e)
    define v3 where "v3 = snd (hold_release ?h ?c held v2)"
    have rel: "hold_release ?h ?c held v2 = (Inr (), v3)"
      using hold_release_ok [of ?h ?c held v2] by (auto simp: v3_def)
    have "obeys moves (seq (note_event (cluster_str ?c) ?n ''error'' (''recreate failed: '' @ show_control_error e))
        (\<lambda>_. fail e) :: ('a, string) ctl)" by (intro within_intros; simp)
    moreover have "(r, w') = seq (note_event (cluster_str ?c) ?n ''error'' (''recreate failed: '' @ show_control_error e))
        (\<lambda>_. fail e) v3"
      using assms(1) Inl by (simp add: unfolds seq_def [of "hold_release ?h ?c held"] rel)
    ultimately have "moves v3 w'" by (metis obeysD)
    then have "asked_for (resume_call ?c p) w w'" if "p \<in> set held" for p
      using asked_later [OF wv asked_then [OF hold_release_asks [OF that]]] unfolding v3_def by blast
    then show ?thesis by blast
  next
    case (Inr cid)
    obtain res v3 where rel: "release_after_recreate ?h ?c held v2 = (res, v3)"
      by (cases "release_after_recreate ?h ?c held v2")
    show ?thesis
    proof (cases res)
      case (Inl e)
      then have "r = Inl e" using assms(1) Inr by (simp add: unfolds seq_def [of "release_after_recreate ?h ?c held"] rel)
      then show ?thesis using out Inr rel Inl by (intro disjI2 exI [of _ v]) simp
    next
      case res: (Inr u)
      let ?rest = "seq (note_recreated (cluster_str ?c) ?n (wd_now w) (length held)) (\<lambda>_. ret cid)"
      have "obeys moves ?rest" by (intro within_intros; simp)
      moreover have "(r, w') = ?rest v3"
        using assms(1) Inr res by (simp add: unfolds seq_def [of "release_after_recreate ?h ?c held"] rel)
      ultimately have "moves v3 w'" by (metis obeysD)
      then have "asked_for (resume_call ?c p) w w'" if "p \<in> set held" for p
        using asked_later [OF wv asked_then [OF release_after_recreate_asks [OF rel [unfolded res] that]]] by blast
      then show ?thesis by blast
    qed
  qed
qed

text \<open>The exception: a pooler that refuses to reconnect keeps the ones behind it paused.\<close>

lemma refused_reconnect_strands_the_rest:
  "pooler_control h p ''reconnect'' [cluster_str c] w = (Inl e, w') \<Longrightarrow>
   release_after_recreate h c (p # ps) w = (Inl e, w')"
  by (simp add: release_after_recreate_def seq_def)

section \<open>Witnesses\<close>

definition pooled_registry :: registry where
  "pooled_registry = (case put_pooler (cn_poolers demo_control) 2 demo_pooler_manifest ''pgpod-pooler-front'' None 6432
     ''running'' [\<lparr> pp_cluster = ''mydb'', pp_database = ''appdb'', pp_pool_name = ''main'' \<rparr>] demo_registry of
       Inr (db, g) \<Rightarrow> db | Inl _ \<Rightarrow> empty_registry)"

definition pooled_world :: "demo_podman world" where
  "pooled_world = demo_world [(''pgpod-mydb-1'', True), (''pgpod-pooler-front'', True)] pooled_registry"

lemma pooled_names: "pooler_names_for_cluster pooled_registry (ClusterId ''mydb'') = [''front'']"
  by code_simp

lemma pooled_recs:
  "\<exists>r. poolers_for_cluster (cn_poolers demo_control) pooled_registry (ClusterId ''mydb'') = Inr [r] \<and> po_name r = ''front''"
proof -
  have "is_ok (poolers_for_cluster (cn_poolers demo_control) pooled_registry (ClusterId ''mydb''))" by code_simp
  then obtain recs where recs: "poolers_for_cluster (cn_poolers demo_control) pooled_registry (ClusterId ''mydb'') = Inr recs"
    by (auto simp: is_ok_iff)
  then obtain r where "recs = [r]" "require_named (cn_poolers demo_control) pooled_registry ''front'' = Inr r"
    by (auto simp: poolers_for_cluster_def pooled_names)
  then show ?thesis using recs
    by (auto simp: require_named_def require_pooler_def get_pooler_def pooler_id_new_def split: option.splits if_splits)
qed

lemma demo_verb: "\<exists>w'. pooler_control demo_host p verb args w = (Inr ''f'', w')"
  by (simp add: pooler_control_def pod_def exec_def exec_success_def demo_host_def answer_def as_i32_def act_defs)

lemma demo_release: "\<exists>u w'. release_after_recreate demo_host c held w = (Inr u, w')"
proof (induction held arbitrary: w)
  case Nil
  then show ?case by (simp add: release_after_recreate_def seq_def ret_def)
next
  case (Cons p held)
  let ?f = "\<lambda>p. seq (pooler_control demo_host p ''reconnect'' [cluster_str c]) (\<lambda>_. pooler_resume demo_host p c)"
  obtain v where v: "?f p w = (Inr (), v)"
    using demo_verb [of p "''reconnect''" "[cluster_str c]"] demo_verb [of p "''resume''" "[cluster_str c]"]
    unfolding pooler_resume_def seq_def ret_def by (metis (no_types, lifting) case_prod_conv sum.case(2))
  then show ?case using Cons.IH [of v]
    by (auto simp: release_after_recreate_def seq_def ret_def split: prod.splits sum.splits)
qed

lemma demo_pause: "\<exists>w'. pooler_pause demo_host p c w = (Inr (), w')"
  using demo_verb [of p "''pause''" "[cluster_str c]" w] by (auto simp: pooler_pause_def seq_def ret_def)

lemma pooled_hold: "\<exists>held w'. hold_acquire demo_control (ClusterId ''mydb'') pooled_world = (Inr held, w')"
proof -
  obtain r where r: "poolers_for_cluster (cn_poolers demo_control) (wd_db pooled_world) (ClusterId ''mydb'') = Inr [r]"
    "po_name r = ''front''" using pooled_recs by (auto simp: pooled_world_def demo_world_def)
  have p: "pooler_id_new ''front'' = Inr (PoolerId ''front'')" by code_simp
  obtain w1 where "pooler_pause demo_host (PoolerId ''front'') (ClusterId ''mydb'') pooled_world = (Inr (), w1)"
    using demo_pause by blast
  then have "hold_poolers demo_host (ClusterId ''mydb'') [r] [] pooled_world = (Inr [PoolerId ''front''], w1)"
    by (simp add: r p attempt_def ret_def)
  moreover have "cn_host demo_control = demo_host" by (simp add: demo_control_def)
  ultimately show ?thesis
    by (simp add: hold_acquire_def look_run r seq_run [of _ pooled_world] note_then ret_def)
qed


theorem recreate_releases_witness:
  "\<exists>r w'. recreate_instance demo_control demo_manifest demo_instance demo_context 40000 pooled_world = (r, w') \<and>
     asked_for (resume_call (ClusterId ''mydb'') (PoolerId ''front'')) pooled_world w'"
proof -
  have inst: "iid_cluster demo_instance = ClusterId ''mydb''" by (simp add: demo_instance_def mk_instance_def)
  obtain held w1 where h: "hold_acquire demo_control (ClusterId ''mydb'') pooled_world = (Inr held, w1)"
    using pooled_hold by blast
  have "map pooler_str held = [''front'']"
    using hold_acquire_asks [OF h] pooled_names by (simp add: pooled_world_def demo_world_def)
  then have "held = [PoolerId ''front'']" by (cases held; cases "hd held") auto
  moreover obtain r w' where e: "recreate_instance demo_control demo_manifest demo_instance demo_context 40000 pooled_world = (r, w')"
    by (cases "recreate_instance demo_control demo_manifest demo_instance demo_context 40000 pooled_world")
  moreover have "fst (release_after_recreate (cn_host demo_control) c hs v) \<noteq> Inl x" for c hs v x
    using demo_release [of c hs v] by (auto simp: demo_control_def)
  ultimately show ?thesis using recreate_releases [OF e h [folded inst]] by (auto simp: inst)
qed

end
