(* ===== verification/Resume.thy ===== *)
theory Resume
  imports Control
begin

text \<open>
  Boot recovery (\<^verbatim>\<open>pgpod-control/src/daemon.rs\<close>): the judgement \<open>decide\<close>, what is
  done about one container, one cluster and the whole host, and the report.  Of the
  file, the daemon's lock and its readiness notice are not modelled: they are system
  calls of a long-running process.  Log lines of the tracing library leave no trace here.
\<close>

section \<open>Actions and decisions\<close>

datatype resume_action = Adopted | Started | WouldStart | Skipped | Missing | Failed

fun resume_action_as_str :: "resume_action \<Rightarrow> string" where
  "resume_action_as_str Adopted = ''adopted''"
| "resume_action_as_str Started = ''started''"
| "resume_action_as_str WouldStart = ''would-start''"
| "resume_action_as_str Skipped = ''skipped''"
| "resume_action_as_str Missing = ''missing''"
| "resume_action_as_str Failed = ''failed''"

fun action_needs_attention :: "resume_action \<Rightarrow> bool" where
  "action_needs_attention Missing = True"
| "action_needs_attention Failed = True"
| "action_needs_attention _ = False"

datatype decision = DAdopt | DStart | DSkip string | DMissing

fun why_blocked :: "instance_phase \<Rightarrow> string" where
  "why_blocked InstFenced = ''fenced during a failover '' @ em_dash @
     '' only an explicit rejoin or rebuild clears this''"
| "why_blocked InstNeedsRebuild = ''pg_rewind failed; it needs `pgpod rebuild`''"
| "why_blocked InstStopped = ''deliberately stopped '' @ em_dash @
     '' `pgpod apply -f <manifest>` brings it back''"
| "why_blocked InstTerminated = ''terminated''"
| "why_blocked _ = ''not in a restartable phase''"

definition decide :: "cluster_phase \<Rightarrow> instance_phase \<Rightarrow> container_probe option \<Rightarrow> decision" where
  "decide cl inst p =
     (case skip_reason cl of Some why \<Rightarrow> DSkip why
      | None \<Rightarrow>
        if blocks_restart inst then DSkip (why_blocked inst)
        else (case p of None \<Rightarrow> DMissing
              | Some q \<Rightarrow> if cp_running q then DAdopt else DStart))"

definition resume_order :: "instance_record list \<Rightarrow> instance_record list" where
  "resume_order rows = sort_key in_ordinal rows"

definition port_available :: "'p host \<Rightarrow> 16 word \<Rightarrow> ('p, string, unit) act" where
  "port_available h p = act_err (\<lambda>e. ''host port '' @ show_nat (unat p) @
     '' is held by another process ('' @ e @ '')'') (perform (CallBindPort p) (h_bind_port h p))"

section \<open>The report\<close>

record unit_resume =
  ur_name :: string
  ur_action :: resume_action
  ur_detail :: "string option"

record cluster_resume =
  rc_cluster :: string
  rc_phase :: string
  rc_instances :: "unit_resume list"
  rc_skipped :: "string option"

record resume_report =
  rr_clusters :: "cluster_resume list"
  rr_poolers :: "unit_resume list"
  rr_dry_run :: bool

record resume_counts =
  ct_adopted :: nat
  ct_started :: nat
  ct_would_start :: nat
  ct_skipped :: nat
  ct_missing :: nat
  ct_failed :: nat

definition no_counts :: resume_counts where
  "no_counts = \<lparr> ct_adopted = 0, ct_started = 0, ct_would_start = 0, ct_skipped = 0,
     ct_missing = 0, ct_failed = 0 \<rparr>"

fun count_action :: "resume_action \<Rightarrow> resume_counts \<Rightarrow> resume_counts" where
  "count_action Adopted c = c\<lparr> ct_adopted := ct_adopted c + 1 \<rparr>"
| "count_action Started c = c\<lparr> ct_started := ct_started c + 1 \<rparr>"
| "count_action WouldStart c = c\<lparr> ct_would_start := ct_would_start c + 1 \<rparr>"
| "count_action Skipped c = c\<lparr> ct_skipped := ct_skipped c + 1 \<rparr>"
| "count_action Missing c = c\<lparr> ct_missing := ct_missing c + 1 \<rparr>"
| "count_action Failed c = c\<lparr> ct_failed := ct_failed c + 1 \<rparr>"

definition tally :: "unit_resume list \<Rightarrow> resume_counts" where
  "tally us = fold (\<lambda>u. count_action (ur_action u)) us no_counts"

definition report_units :: "resume_report \<Rightarrow> unit_resume list" where
  "report_units r = concat (map rc_instances (rr_clusters r)) @ rr_poolers r"

definition report_counts :: "resume_report \<Rightarrow> resume_counts" where
  "report_counts r = (let c = tally (report_units r) in
     c\<lparr> ct_skipped := ct_skipped c + length (filter (\<lambda>x. rc_skipped x \<noteq> None) (rr_clusters r)) \<rparr>)"

definition report_needs_attention :: "resume_report \<Rightarrow> bool" where
  "report_needs_attention r = list_ex (\<lambda>u. action_needs_attention (ur_action u)) (report_units r)"

definition show_counts :: "resume_counts \<Rightarrow> string" where
  "show_counts c =
     (if 0 < ct_would_start c then show_nat (ct_would_start c) @ '' would start, '' else []) @
     show_nat (ct_adopted c) @ '' adopted, '' @ show_nat (ct_started c) @ '' started, '' @
     show_nat (ct_skipped c) @ '' skipped, '' @ show_nat (ct_missing c) @ '' missing, '' @
     show_nat (ct_failed c) @ '' failed''"

record resume_options =
  ro_wait :: nat
  ro_dry_run :: bool

definition default_resume_wait :: nat where "default_resume_wait = 600000"

definition default_options :: resume_options where
  "default_options = \<lparr> ro_wait = default_resume_wait, ro_dry_run = False \<rparr>"

section \<open>One container\<close>

definition unit_of :: "string \<Rightarrow> resume_action \<Rightarrow> string option \<Rightarrow> unit_resume" where
  "unit_of n a d = \<lparr> ur_name = n, ur_action = a, ur_detail = d \<rparr>"

definition start_container :: "'p host \<Rightarrow> string \<Rightarrow> string \<Rightarrow> 16 word option \<Rightarrow> bool \<Rightarrow>
    ('p, 'e, unit_resume) act" where
  "start_container h n c port dry =
     attempt (case port of None \<Rightarrow> ret () | Some p \<Rightarrow> port_available h p) (\<lambda>free.
     let problem = (case free of Inl d \<Rightarrow> Some d | Inr _ \<Rightarrow> None) in
     if dry then ret (unit_of n WouldStart
       (map_option (\<lambda>d. em_dash @ '' but '' @ d @ '', so it would not start'') problem))
     else case problem of
       Some why \<Rightarrow> ret (unit_of n Failed (Some (why @ ''; the container was not started. Free the '' @
         ''port and resume again, or re-apply the manifest to move it.'')))
     | None \<Rightarrow> attempt (start h c) (\<lambda>r. ret (case r of
           Inr _ \<Rightarrow> unit_of n Started None
         | Inl e \<Rightarrow> unit_of n Failed (Some (''start failed: '' @ show_rt_error e)))))"

definition resume_container :: "'p host \<Rightarrow> string \<Rightarrow> string \<Rightarrow> cluster_phase \<Rightarrow> instance_phase \<Rightarrow>
    16 word option \<Rightarrow> bool \<Rightarrow> ('p, 'e, unit_resume) act" where
  "resume_container h n c cl inst port dry =
     attempt (probe h c) (\<lambda>r. case r of
       Inl e \<Rightarrow> ret (unit_of n Failed (Some (''could not ask podman about it: '' @ show_rt_error e)))
     | Inr p \<Rightarrow> (case decide cl inst p of
         DAdopt \<Rightarrow> ret (unit_of n Adopted None)
       | DSkip why \<Rightarrow> ret (unit_of n Skipped (Some why))
       | DMissing \<Rightarrow> ret (unit_of n Missing (Some (''podman has no container '' @ c @
           ''. Its volume may still hold the data '' @ em_dash @
           '' `pgpod apply -f <manifest>` recreates the container around it.'')))
       | DStart \<Rightarrow> start_container h n c port dry))"

section \<open>One cluster\<close>

definition record_resume_event :: "string \<Rightarrow> string \<Rightarrow> string \<Rightarrow> ('p, 'e, unit) act" where
  "record_resume_event c level detail = attempt (note_event c None level detail) (\<lambda>_. ret ())"

definition resume_instance :: "'p host \<Rightarrow> cluster_id \<Rightarrow> string \<Rightarrow> cluster_phase \<Rightarrow> resume_options \<Rightarrow>
    instance_record \<Rightarrow> ('p, 'e, unit_resume) act" where
  "resume_instance h c name phase opts row =
     (let inst = mk_instance c (in_ordinal row) in
      seq (resume_container h (instance_id_display inst) (in_container_name row) phase (in_phase row)
             (Some (in_host_port row)) (ro_dry_run opts)) (\<lambda>outcome.
      if ur_action outcome = Started then
        attempt (wait_ready h inst (ro_wait opts)) (\<lambda>r. case r of
          Inr _ \<Rightarrow> ret outcome
        | Inl e \<Rightarrow> seq (record_resume_event name ''warn''
            (instance_id_display inst @ '' started but not ready: '' @ show_control_error e)) (\<lambda>_.
            ret outcome))
      else ret outcome))"

definition skip_cluster :: "string \<Rightarrow> cluster_phase \<Rightarrow> string \<Rightarrow> bool \<Rightarrow> ('p, 'e, cluster_resume) act" where
  "skip_cluster name phase why dry =
     seq (if dry then ret () else record_resume_event name
            (if phase = ClStopped then ''info'' else ''warn'')
            (''boot recovery skipped this cluster: '' @ why)) (\<lambda>_.
     ret \<lparr> rc_cluster = name, rc_phase = cluster_phase_as_str phase, rc_instances = [],
       rc_skipped = Some why \<rparr>)"

definition summary_event :: "string \<Rightarrow> bool \<Rightarrow> unit_resume list \<Rightarrow> ('p, 'e, unit) act" where
  "summary_event name dry units =
     (if units \<noteq> [] \<and> \<not> dry then record_resume_event name
        (if list_ex (\<lambda>u. action_needs_attention (ur_action u)) units then ''warn'' else ''info'')
        (''boot recovery: '' @ show_counts (tally units))
      else ret ())"

definition resume_cluster :: "'p host \<Rightarrow> string \<Rightarrow> string \<Rightarrow> resume_options \<Rightarrow> ('p, cluster_resume) ctl" where
  "resume_cluster h name stored_phase opts =
     (let phase = parse_lenient stored_phase in
      case cluster_id_new name of
        Inl e \<Rightarrow> ret \<lparr> rc_cluster = name, rc_phase = cluster_phase_as_str phase, rc_instances = [],
          rc_skipped = Some (''unusable cluster name in the registry: '' @ show_id_error e) \<rparr>
      | Inr c \<Rightarrow> (case skip_reason phase of
          Some why \<Rightarrow> skip_cluster name phase why (ro_dry_run opts)
        | None \<Rightarrow>
            seq (look (\<lambda>db. instances db c)) (\<lambda>rows.
            seq (each (resume_instance h c name phase opts) (resume_order rows)) (\<lambda>units.
            seq (summary_event name (ro_dry_run opts) units) (\<lambda>_.
            ret \<lparr> rc_cluster = name, rc_phase = cluster_phase_as_str phase, rc_instances = units,
              rc_skipped = None \<rparr>)))))"

section \<open>Poolers and the whole host\<close>

definition resume_pooler :: "'p host \<Rightarrow> resume_options \<Rightarrow> 'q pooler_record \<Rightarrow> ('p, unit_resume) ctl" where
  "resume_pooler h opts rec =
     seq (resume_container h (po_name rec) (po_container_name rec) (parse_lenient (po_phase rec))
            InstRunning (Some (po_host_port rec)) (ro_dry_run opts)) (\<lambda>outcome.
     if ur_action outcome = Started then
       (case pooler_id_new (po_name rec) of
          Inl _ \<Rightarrow> ret outcome
        | Inr p \<Rightarrow> attempt (wait_pooler_ready h p (ro_wait opts)) (\<lambda>r. ret (case r of
            Inr _ \<Rightarrow> outcome
          | Inl e \<Rightarrow> outcome\<lparr> ur_action := Failed, ur_detail := Some (''started, but it did not come up: '' @
              show_control_error e @ nl @ nl @ ''A pooler renders its config on every start and keeps '' @
              ''nothing durable, so `pgpod apply -f <pooler manifest>` recreates it safely.'') \<rparr>)))
     else ret outcome)"

definition resume_with :: "'p host \<Rightarrow> 'm manifest_codec \<Rightarrow> 'q manifest_codec \<Rightarrow> resume_options \<Rightarrow>
    ('p, resume_report) ctl" where
  "resume_with h cm pm opts =
     seq (look (list_clusters cm)) (\<lambda>recs.
     seq (each (\<lambda>r. resume_cluster h (cl_name r) (cl_phase r) opts) recs) (\<lambda>clusters.
     seq (look (list_poolers pm)) (\<lambda>pools.
     seq (each (resume_pooler h opts) pools) (\<lambda>poolers.
     ret \<lparr> rr_clusters = clusters, rr_poolers = poolers, rr_dry_run = ro_dry_run opts \<rparr>))))"

definition resume :: "'p host \<Rightarrow> 'm manifest_codec \<Rightarrow> 'q manifest_codec \<Rightarrow> ('p, resume_report) ctl" where
  "resume h cm pm = resume_with h cm pm default_options"

text \<open>The host ports the store remembers, for the diagnosis of port conflicts.\<close>

definition recorded_host_ports :: "'m manifest_codec \<Rightarrow> 'q manifest_codec \<Rightarrow> registry \<Rightarrow>
    registry_error + 16 word list" where
  "recorded_host_ports cm pm db =
     and_then (list_clusters cm db) (\<lambda>recs.
     and_then (try_map (\<lambda>r. case cluster_id_new (cl_name r) of
         Inl _ \<Rightarrow> Inr []
       | Inr c \<Rightarrow> and_then (instances db c) (\<lambda>rows. Inr (map in_host_port rows))) recs) (\<lambda>ports.
     and_then (list_poolers pm db) (\<lambda>ps. Inr (concat ports @ map po_host_port ps))))"

section \<open>What recovery does to the world\<close>

text \<open>The only change of the store: events, and the phase of instances of one cluster.\<close>

definition touches_only :: "string \<Rightarrow> registry \<Rightarrow> registry \<Rightarrow> bool" where
  "touches_only n db db' \<longleftrightarrow> db_clusters db' = db_clusters db \<and> db_poolers db' = db_poolers db \<and>
     db_pooler_clusters db' = db_pooler_clusters db \<and>
     (reg_ok db \<longrightarrow> reg_ok db' \<and> map fst (db_instances db') = map fst (db_instances db)) \<and>
     (\<forall>c. cluster_str c \<noteq> n \<longrightarrow> instances db' c = instances db c)"

lemma touches_only_refl: "touches_only n db db"
  by (simp add: touches_only_def)

lemma touches_only_trans: "touches_only n a b \<Longrightarrow> touches_only n b c \<Longrightarrow> touches_only n a c"
  by (simp add: touches_only_def)

lemma touches_only_star: "(touches_only n)\<^sup>*\<^sup>* a b \<longleftrightarrow> touches_only n a b"
proof
  show "(touches_only n)\<^sup>*\<^sup>* a b \<Longrightarrow> touches_only n a b"
    by (induction rule: rtranclp_induct) (auto intro: touches_only_refl touches_only_trans)
qed blast

lemma filter_tbl_put: "(\<And>r. \<not> P (k, r)) \<Longrightarrow> filter P (tbl_put k r t) = filter P t"
  by (induction t) auto

lemma instance_of_row_cluster: "instance_of_row k row = Inr r \<Longrightarrow> in_cluster r = fst k \<and> in_ordinal r = snd k"
  by (auto simp: instance_of_row_def)

lemma instance_of_row_fields: "instance_of_row k row = Inr r \<Longrightarrow>
    ir_container_name row = in_container_name r \<and> instance_phase_from_str (ir_phase row) = Inr (in_phase r)"
  by (auto simp: instance_of_row_def)

lemma instances_row:
  assumes "instances db c = Inr rs" "r \<in> set rs"
  shows "\<exists>row. (((cluster_str c), in_ordinal r), row) \<in> set (db_instances db) \<and>
    in_cluster r = cluster_str c \<and> instance_of_row (cluster_str c, in_ordinal r) row = Inr r"
proof -
  from try_map_mem [OF assms(1) [unfolded instances_def] assms(2)]
  obtain k row where "(k, row) \<in> set (db_instances db)" "fst k = cluster_str c"
    "instance_of_row k row = Inr r"
    by auto
  then show ?thesis using instance_of_row_cluster [of k row r] by (cases k) auto
qed

lemma in_cluster_get:
  assumes "get_instance db c n = Inr (Some r)"
  shows "in_cluster r = cluster_str c"
proof -
  obtain rs where "instances db c = Inr rs" "find (\<lambda>r. in_ordinal r = n) rs = Some r"
    using assms by (auto simp: get_instance_def)
  then show ?thesis using instances_row find_mem by metis
qed

lemma tbl_put_same_keys:
  "tbl_ok t \<Longrightarrow> tbl_get t k \<noteq> None \<Longrightarrow> map fst (tbl_put k r t) = map fst t"
proof (induction t)
  case (Cons a t)
  obtain k' r' where a: "a = (k', r')" by (cases a)
  have above: "\<forall>x\<in>fst ` set t. k' < x" and t: "tbl_ok t"
    using Cons.prems(1) by (auto simp: tbl_ok_def a)
  have "\<not> k < k'"
  proof
    assume less: "k < k'"
    then have "\<forall>x\<in>fst ` set t. k < x" using above by (auto intro: order.strict_trans)
    then show False using less Cons.prems(2) map_of_above [of t k] a by (auto simp: tbl_get_def split: if_splits)
  qed
  then show ?case using Cons.IH [OF t] Cons.prems(2) a by (auto simp: tbl_get_def split: if_splits)
qed simp

lemma marks_touches: "marks c db db' \<Longrightarrow> touches_only (cluster_str c) db db'"
  unfolding marks_def
proof clarify
  fix now r n
  assume get: "get_instance db c n = Inr (Some r)"
    and put: "put_instance now (r\<lparr>in_phase := InstRunning\<rparr>) db = Inr db'"
  obtain row where e: "db' = db\<lparr> db_instances := tbl_put (in_cluster r, in_ordinal r) row (db_instances db) \<rparr>"
    using put by (auto simp: put_instance_def Let_def split: if_splits)
  have "instances db' d = instances db d" if "cluster_str d \<noteq> cluster_str c" for d
    using that in_cluster_get [OF get] by (simp add: instances_def e filter_tbl_put)
  moreover have "map fst (db_instances db') = map fst (db_instances db)" if ok: "reg_ok db"
  proof -
    obtain rs where "instances db c = Inr rs" "r \<in> set rs"
      using get by (auto simp: get_instance_def dest: find_mem)
    then have "tbl_get (db_instances db) (in_cluster r, in_ordinal r) \<noteq> None"
      using instances_mem [OF ok] by auto
    then show ?thesis using reg_okD(2) [OF ok] by (simp add: e tbl_put_same_keys)
  qed
  ultimately show "touches_only (cluster_str c) db db'"
    using put_instance_ok [OF _ put] by (simp add: touches_only_def e)
qed

lemma event_touches: "touches_only n db (record_event now c m l d db)"
  using record_event_ok by (simp add: touches_only_def record_event_def instances_def)

lemma decide_start:
  "decide cl inst p = DStart \<longleftrightarrow> cl = ClRunning \<and> \<not> blocks_restart inst \<and> (\<exists>q. p = Some q \<and> \<not> cp_running q)"
  by (auto simp: decide_def skip_reason_iff split: option.splits)

lemma case_decision:
  assumes "d = DAdopt \<Longrightarrow> obeys R a" "\<And>y. obeys R (s y)" "obeys R m" "d = DStart \<Longrightarrow> obeys R b"
  shows "obeys R (case d of DAdopt \<Rightarrow> a | DStart \<Rightarrow> b | DSkip y \<Rightarrow> s y | DMissing \<Rightarrow> m)"
  using assms by (cases d) auto

lemma start_container_within [within_intros]:
  assumes "\<And>p. A (CallBindPort p)" "\<not> dry \<Longrightarrow> A (CallStart c)"
  shows "obeys (within A S) (start_container h n c port dry)"
  unfolding start_container_def Let_def port_available_def by (intro within_intros assms)

lemma resume_container_within [within_intros]:
  assumes "A (CallExists c)" "A (CallInspect c)" "\<And>p. A (CallBindPort p)"
    "cl = ClRunning \<Longrightarrow> \<not> blocks_restart inst \<Longrightarrow> \<not> dry \<Longrightarrow> A (CallStart c)"
  shows "obeys (within A S) (resume_container h n c cl inst port dry)"
  unfolding resume_container_def
  by (intro within_intros case_decision assms) (auto simp: decide_start)

lemma record_resume_event_within [within_intros]:
  "(\<And>now db. S db (record_event now c None l d db)) \<Longrightarrow> obeys (within A S) (record_resume_event c l d)"
  unfolding record_resume_event_def by (intro within_intros)

text \<open>A dry run cannot report a start.\<close>

lemma dry_not_started:
  "resume_container h n c cl inst port True w = (Inr u, w') \<Longrightarrow> ur_action u \<noteq> Started"
  by (auto simp: resume_container_def start_container_def attempt_def ret_def unit_of_def
      split: prod.splits sum.splits decision.splits)

lemma resume_instance_within [within_intros]:
  assumes "\<And>d. A (CallExists d)" "\<And>d. A (CallInspect d)" "\<And>p. A (CallBindPort p)"
    "\<not> ro_dry_run opts \<Longrightarrow> (\<forall>d argv. A (CallExec d argv) \<and> A (CallLogs d))"
    "ph = ClRunning \<Longrightarrow> \<not> blocks_restart (in_phase row) \<Longrightarrow> \<not> ro_dry_run opts \<Longrightarrow>
       A (CallStart (in_container_name row))"
    "\<And>db db'. \<not> ro_dry_run opts \<Longrightarrow> touches_only (cluster_str c) db db' \<Longrightarrow> S db db'"
  shows "obeys (within A S) (resume_instance h c n ph opts row :: ('p, 'e, unit_resume) act)"
proof (cases "ro_dry_run opts")
  case False
  have asks: "asks x d \<Longrightarrow> A d" for x d using assms(1,2,4) False by (cases d) auto
  show ?thesis
    unfolding resume_instance_def Let_def
    by (intro within_intros assms) (auto simp: mk_instance_def intro!: asks assms(6) False marks_touches event_touches)
next
  case True
  show ?thesis
  proof (rule obeysI)
    fix w :: "'p world" and r :: "'e + unit_resume" and w'
    let ?i = "mk_instance c (in_ordinal row)"
    let ?m = "resume_container h (instance_id_display ?i) (in_container_name row) ph (in_phase row)
       (Some (in_host_port row)) True :: ('p, 'e, unit_resume) act"
    assume *: "resume_instance h c n ph opts row w = (r, w')"
    obtain x v where x: "?m w = (x, v)" by (cases "?m w")
    have "v = w'"
    proof (cases x)
      case (Inr u)
      have "ur_action u \<noteq> Started" using x unfolding Inr by (rule dry_not_started)
      then show ?thesis using * x True Inr by (simp add: resume_instance_def Let_def seq_def ret_def)
    qed (use * x True in \<open>simp add: resume_instance_def Let_def seq_def\<close>)
    moreover have "obeys (within A S) ?m" by (intro within_intros assms) simp_all
    ultimately show "within A S w w'" using obeysD x by metis
  qed
qed

lemma resume_pooler_within [within_intros]:
  assumes "\<And>d. A (CallExists d)" "\<And>d. A (CallInspect d)" "\<And>p. A (CallBindPort p)"
    "\<not> ro_dry_run opts \<Longrightarrow> (\<forall>d argv. A (CallExec d argv) \<and> A (CallLogs d))"
    "parse_lenient (po_phase rec) = ClRunning \<Longrightarrow> \<not> ro_dry_run opts \<Longrightarrow>
       A (CallStart (po_container_name rec))"
  shows "obeys (within A S) (resume_pooler h opts rec :: ('p, unit_resume) ctl)"
proof (cases "ro_dry_run opts")
  case False
  have asks: "asks x d \<Longrightarrow> A d" for x d using assms(1,2,4) False by (cases d) auto
  show ?thesis
    unfolding resume_pooler_def by (intro within_intros assms) (auto intro!: asks assms(5) False)
next
  case True
  show ?thesis
  proof (rule obeysI)
    fix w :: "'p world" and r w'
    let ?m = "resume_container h (po_name rec) (po_container_name rec) (parse_lenient (po_phase rec))
       InstRunning (Some (po_host_port rec)) True :: ('p, unit_resume) ctl"
    assume *: "resume_pooler h opts rec w = (r, w')"
    obtain x v where x: "?m w = (x, v)" by (cases "?m w")
    have "v = w'"
    proof (cases x)
      case (Inr u)
      have "ur_action u \<noteq> Started" using x unfolding Inr by (rule dry_not_started)
      then show ?thesis using * x True Inr by (simp add: resume_pooler_def seq_def ret_def)
    qed (use * x True in \<open>simp add: resume_pooler_def seq_def\<close>)
    moreover have "obeys (within A S) ?m" by (intro within_intros assms) simp_all
    ultimately show "within A S w w'" using obeysD x by metis
  qed
qed

text \<open>What a container has to be for recovery to start it, read off the store.\<close>

definition restartable :: "registry \<Rightarrow> string \<Rightarrow> bool" where
  "restartable db d \<longleftrightarrow>
     (\<exists>k row cr p. (k, row) \<in> set (db_instances db) \<and> ir_container_name row = d \<and>
        tbl_get (db_clusters db) (fst k) = Some cr \<and> cr_phase cr = ''running'' \<and>
        instance_phase_from_str (ir_phase row) = Inr p \<and> \<not> blocks_restart p) \<or>
     (\<exists>n row. tbl_get (db_poolers db) n = Some row \<and> pw_container_name row = d \<and>
        pw_phase row = ''running'')"

fun restart_call :: "registry \<Rightarrow> bool \<Rightarrow> call \<Rightarrow> bool" where
  "restart_call db dry (CallExists d) = True"
| "restart_call db dry (CallInspect d) = True"
| "restart_call db dry (CallBindPort p) = True"
| "restart_call db dry (CallExec d argv) = (\<not> dry)"
| "restart_call db dry (CallLogs d) = (\<not> dry)"
| "restart_call db dry (CallStart d) = (\<not> dry \<and> restartable db d)"
| "restart_call db dry _ = False"

definition log_change :: "bool \<Rightarrow> string \<Rightarrow> registry \<Rightarrow> registry \<Rightarrow> bool" where
  "log_change dry n db db' \<longleftrightarrow> (if dry then db' = db else touches_only n db db')"

lemma running_word: "parse_lenient s = ClRunning \<longleftrightarrow> s = ''running''"
  using parse_lenient_known [of ClRunning s] by simp

lemma row_restartable:
  assumes "instances db c = Inr rows" "row \<in> set rows"
    "tbl_get (db_clusters db) (cluster_str c) = Some cr" "cr_phase cr = ''running''"
    "\<not> blocks_restart (in_phase row)"
  shows "restartable db (in_container_name row)"
proof -
  obtain r where "((cluster_str c, in_ordinal row), r) \<in> set (db_instances db)"
    "instance_of_row (cluster_str c, in_ordinal row) r = Inr row"
    using instances_row [OF assms(1,2)] by blast
  moreover note instance_of_row_fields [OF this(2)]
  ultimately show ?thesis using assms(3-5) unfolding restartable_def by (metis fst_conv)
qed

lemma cluster_id_new_str: "cluster_id_new n = Inr c \<Longrightarrow> cluster_str c = n"
  by (auto simp: cluster_id_new_def split: if_splits)

lemma skip_cluster_within [within_intros]:
  "(\<And>db db'. \<not> dry \<Longrightarrow> touches_only n db db' \<Longrightarrow> S db db') \<Longrightarrow>
    obeys (within A S) (skip_cluster n ph why dry)"
  unfolding skip_cluster_def by (intro within_intros) (auto intro!: event_touches)

lemma summary_event_within [within_intros]:
  "(\<And>db db'. \<not> dry \<Longrightarrow> touches_only n db db' \<Longrightarrow> S db db') \<Longrightarrow>
    obeys (within A S) (summary_event n dry units)"
  unfolding summary_event_def by (intro within_intros) (auto intro!: event_touches)

lemma resume_cluster_obeys:
  assumes "\<And>d. A (CallExists d)" "\<And>d. A (CallInspect d)" "\<And>p. A (CallBindPort p)"
    "\<not> ro_dry_run opts \<Longrightarrow> (\<forall>d argv. A (CallExec d argv) \<and> A (CallLogs d) \<and> A (CallStart d))"
    "\<And>db db'. \<not> ro_dry_run opts \<Longrightarrow> touches_only n db db' \<Longrightarrow> S db db'"
  shows "obeys (within A S) (resume_cluster h n ph opts)"
  unfolding resume_cluster_def Let_def
  by (intro within_intros within.each assms)
    (auto simp: cluster_id_new_str assms intro!: assms(5) event_touches)

definition recovery_change :: "bool \<Rightarrow> registry \<Rightarrow> registry \<Rightarrow> bool" where
  "recovery_change dry db db' \<longleftrightarrow> (\<exists>n. log_change dry n db db')"

lemma recovery_change_keeps:
  assumes "(recovery_change dry)\<^sup>*\<^sup>* db db'"
  shows "db_clusters db' = db_clusters db \<and> db_poolers db' = db_poolers db \<and>
    db_pooler_clusters db' = db_pooler_clusters db \<and>
    (reg_ok db \<longrightarrow> reg_ok db' \<and> map fst (db_instances db') = map fst (db_instances db)) \<and> (dry \<longrightarrow> db' = db)"
  using assms
  by (induction rule: rtranclp_induct)
    (auto simp: recovery_change_def log_change_def touches_only_def split: if_splits)

abbreviation recovers :: "registry \<Rightarrow> bool \<Rightarrow> 'p world \<Rightarrow> 'p world \<Rightarrow> bool" where
  "recovers db dry \<equiv> within (restart_call db dry) (recovery_change dry)"

lemma log_change_recovery: "\<not> dry \<Longrightarrow> touches_only n a b \<Longrightarrow> recovery_change dry a b"
  unfolding recovery_change_def log_change_def by auto

lemma resume_cluster_recovers:
  fixes w :: "'p world"
  assumes agree: "\<And>c. cluster_str c = n \<Longrightarrow> instances (wd_db w) c = instances db c"
    and row: "tbl_get (db_clusters db) n = Some cr" "cr_phase cr = ph"
  shows "recovers db (ro_dry_run opts) w (snd (resume_cluster h n ph opts w))"
proof (cases "cluster_id_new n")
  case (Inl e)
  then show ?thesis by (simp add: resume_cluster_def ret_def within.refl)
next
  case (Inr c)
  note n = cluster_id_new_str [OF Inr]
  let ?R = "recovers db (ro_dry_run opts)"
  show ?thesis
  proof (cases "skip_reason (parse_lenient ph)")
    case (Some why)
    have "obeys ?R (skip_cluster n (parse_lenient ph) why (ro_dry_run opts) :: ('p, cluster_resume) ctl)"
      by (intro within_intros log_change_recovery)
    then show ?thesis using Inr Some by (simp add: resume_cluster_def obeys_def)
  next
    case None
    then have run: "parse_lenient ph = ClRunning" "ph = ''running''"
      using running_word by (simp_all add: skip_reason_iff)
    show ?thesis
    proof (cases "instances (wd_db w) c")
      case (Inl e)
      then show ?thesis using Inr None by (simp add: resume_cluster_def Let_def look_stop within.refl)
    next
      case rows: (Inr rows)
      have start: "restartable db (in_container_name x)"
        if "x \<in> set rows" "\<not> blocks_restart (in_phase x)" for x
        using row_restartable [of db c rows x cr] agree [OF n] rows row run that n by simp
      have "obeys ?R (seq (each (resume_instance h c n ClRunning opts) (resume_order rows))
          (\<lambda>units. seq (summary_event n (ro_dry_run opts) units) (\<lambda>_. ret (f units))) :: ('p, cluster_resume) ctl)"
        for f :: "unit_resume list \<Rightarrow> cluster_resume"
        by (intro within.seq within.each resume_instance_within summary_event_within within.ret)
          (auto simp: resume_order_def start intro: log_change_recovery)
      from this [unfolded obeys_def] show ?thesis using Inr None rows run
        by (simp only: resume_cluster_def Let_def look_run sum.case option.case)
    qed
  qed
qed

lemma list_clusters_rows:
  assumes "list_clusters cm db = Inr recs"
  shows "map cl_name recs = map fst (db_clusters db) \<and>
    (\<forall>r\<in>set recs. \<exists>row. tbl_get (db_clusters db) (cl_name r) = Some row \<and> cl_phase r = cr_phase row)"
proof -
  have *: "list_all2 (\<lambda>n r. cl_name r = n \<and>
      (\<exists>row. tbl_get (db_clusters db) (cl_name r) = Some row \<and> cl_phase r = cr_phase row))
    (map fst (db_clusters db)) recs"
    using assms unfolding list_clusters_def try_map_ok
    by (rule list_all2_mono)
      (auto simp: require_cluster_def get_cluster_def split: option.splits; metis cluster_id_new_str)
  then have "map cl_name recs = map fst (db_clusters db)"
    by (induction rule: list_all2_induct) auto
  moreover from * have "\<forall>r\<in>set recs. \<exists>row. tbl_get (db_clusters db) (cl_name r) = Some row \<and>
      cl_phase r = cr_phase row"
    by (induction rule: list_all2_induct) auto
  ultimately show ?thesis by blast
qed

lemma list_poolers_rows:
  assumes "list_poolers pm db = Inr recs"
  shows "map po_name recs = map fst (db_poolers db) \<and>
    (\<forall>r\<in>set recs. \<exists>row. tbl_get (db_poolers db) (po_name r) = Some row \<and> po_phase r = pw_phase row \<and>
       po_container_name r = pw_container_name row)"
proof -
  have id: "pooler_str p = n" if "pooler_id_new n = Inr p" for n p
    using that by (auto simp: pooler_id_new_def)
  have *: "list_all2 (\<lambda>n r. po_name r = n \<and>
      (\<exists>row. tbl_get (db_poolers db) (po_name r) = Some row \<and> po_phase r = pw_phase row \<and>
         po_container_name r = pw_container_name row))
    (map fst (db_poolers db)) recs"
    using assms unfolding list_poolers_def try_map_ok
    by (rule list_all2_mono)
      (auto simp: require_named_def require_pooler_def get_pooler_def split: option.splits; metis id)
  then have "map po_name recs = map fst (db_poolers db)"
    by (induction rule: list_all2_induct) auto
  moreover from * have "\<forall>r\<in>set recs. \<exists>row. tbl_get (db_poolers db) (po_name r) = Some row \<and>
      po_phase r = pw_phase row \<and> po_container_name r = pw_container_name row"
    by (induction rule: list_all2_induct) auto
  ultimately show ?thesis by blast
qed

lemma list_poolers_same:
  "db_poolers db' = db_poolers db \<Longrightarrow> db_pooler_clusters db' = db_pooler_clusters db \<Longrightarrow>
    list_poolers pm db' = list_poolers pm db"
proof -
  assume "db_poolers db' = db_poolers db" "db_pooler_clusters db' = db_pooler_clusters db"
  moreover from this have "pools_of db' = pools_of db" by (intro ext) (simp add: pools_of_def)
  moreover from calculation have "require_named pm db' = require_named pm db"
    by (intro ext) (simp add: require_named_def require_pooler_def get_pooler_def cong del: option.case_cong_weak)
  ultimately show ?thesis by (simp add: list_poolers_def)
qed

lemma touches_other:
  assumes "obeys (within (\<lambda>_. True) (touches_only n)) m" "cluster_str c \<noteq> n"
  shows "instances (wd_db (snd (m v))) c = instances (wd_db v) c"
  using assms unfolding obeys_def within_def touches_only_star by (simp add: touches_only_def)

lemma resume_clusters_recover:
  assumes ok: "reg_ok (wd_db w)" and recs: "list_clusters cm (wd_db w) = Inr recs"
  shows "recovers (wd_db w) (ro_dry_run opts) w
    (snd (each (\<lambda>r. resume_cluster h (cl_name r) (cl_phase r) opts) recs w))"
proof (rule each_within [where I = "\<lambda>r v. \<forall>c. cluster_str c = cl_name r \<longrightarrow>
    instances (wd_db v) c = instances (wd_db w) c"])
  have names: "distinct (map cl_name recs)"
    using list_clusters_rows [OF recs] reg_okD(1) [OF ok]
    by (simp add: tbl_ok_def strict_sorted_iff)
  then show "distinct recs" by (simp add: distinct_map)
  show "recovers (wd_db w) (ro_dry_run opts) v (snd (resume_cluster h (cl_name r) (cl_phase r) opts v))"
    if "r \<in> set recs" "\<forall>c. cluster_str c = cl_name r \<longrightarrow> instances (wd_db v) c = instances (wd_db w) c" for r v
  proof -
    note r = that
    obtain row where "tbl_get (db_clusters (wd_db w)) (cl_name r) = Some row" "cr_phase row = cl_phase r"
      using list_clusters_rows [OF recs] r(1) by force
    then show ?thesis using r(2) by (intro resume_cluster_recovers) auto
  qed
  show "\<forall>c. cluster_str c = cl_name r \<longrightarrow>
      instances (wd_db (snd (resume_cluster h (cl_name s) (cl_phase s) opts v))) c = instances (wd_db w) c"
    if "r \<in> set recs" "s \<in> set recs" "r \<noteq> s"
      "\<forall>c. cluster_str c = cl_name r \<longrightarrow> instances (wd_db v) c = instances (wd_db w) c" for r s v
  proof -
    have "cl_name r \<noteq> cl_name s" using that(1-3) names by (auto simp: distinct_map dest: inj_onD)
    moreover have "obeys (within (\<lambda>_. True) (touches_only (cl_name s)))
        (resume_cluster h (cl_name s) (cl_phase s) opts)"
      by (rule resume_cluster_obeys) auto
    ultimately show ?thesis using touches_other that(4) by metis
  qed
qed simp

lemma recovers_keeps: "recovers db dry w w' \<Longrightarrow>
    db_clusters (wd_db w') = db_clusters (wd_db w) \<and> db_poolers (wd_db w') = db_poolers (wd_db w) \<and>
    db_pooler_clusters (wd_db w') = db_pooler_clusters (wd_db w) \<and>
    (reg_ok (wd_db w) \<longrightarrow> reg_ok (wd_db w') \<and>
       map fst (db_instances (wd_db w')) = map fst (db_instances (wd_db w))) \<and>
    (dry \<longrightarrow> wd_db w' = wd_db w)"
  using recovery_change_keeps unfolding within_def by blast

lemma pooler_restartable:
  assumes "list_poolers pm db = Inr pools" "x \<in> set pools" "parse_lenient (po_phase x) = ClRunning"
  shows "restartable db (po_container_name x)"
  using list_poolers_rows [OF assms(1)] assms(2,3) running_word unfolding restartable_def by metis

lemma resume_recovers:
  assumes ok: "reg_ok (wd_db w)"
  shows "recovers (wd_db w) (ro_dry_run opts) w (snd (resume_with h cm pm opts w))"
proof (cases "list_clusters cm (wd_db w)")
  case (Inl e)
  then show ?thesis by (simp add: resume_with_def look_stop within.refl)
next
  case (Inr recs)
  let ?R = "recovers (wd_db w) (ro_dry_run opts)"
  obtain r v where r: "each (\<lambda>r. resume_cluster h (cl_name r) (cl_phase r) opts) recs w = (r, v)"
    by (cases "each (\<lambda>r. resume_cluster h (cl_name r) (cl_phase r) opts) recs w")
  have 1: "?R w v" using resume_clusters_recover [OF ok Inr, of opts h] r by simp
  have same: "list_poolers pm (wd_db v) = list_poolers pm (wd_db w)"
    using recovers_keeps [OF 1] by (intro list_poolers_same) auto
  have 2: "?R v (snd (seq (look (list_poolers pm)) (\<lambda>pools. seq (each (resume_pooler h opts) pools)
      (\<lambda>poolers. ret (f poolers))) v))" for f :: "unit_resume list \<Rightarrow> resume_report"
  proof (cases "list_poolers pm (wd_db w)")
    case (Inl e)
    then show ?thesis using same by (simp add: look_stop within.refl)
  next
    case pools: (Inr pools)
    have "obeys ?R (seq (each (resume_pooler h opts) pools) (\<lambda>poolers. ret (f poolers)))"
      using pooler_restartable [OF pools] by (intro within_intros within.each) simp_all
    then show ?thesis using pools same by (simp add: look_run obeys_def)
  qed
  show ?thesis using Inr r 1 within.trans [OF 1 2]
    by (cases r) (simp_all add: resume_with_def look_run seq_stop seq_run [of _ w])
qed

section \<open>Recovery goes on\<close>

text \<open>The names a cluster's instances have in the report, in the order of their ordinals.\<close>

definition unit_names :: "registry \<Rightarrow> string \<Rightarrow> string list" where
  "unit_names db n = map (\<lambda>(k, row). instance_id_display (mk_instance (ClusterId n) (snd k)))
     (filter (\<lambda>(k, row). fst k = n) (db_instances db))"

lemma case_decision_delivers:
  assumes "delivers P a" "\<And>y. delivers P (s y)" "delivers P m" "delivers P b"
  shows "delivers P (case d of DAdopt \<Rightarrow> a | DStart \<Rightarrow> b | DSkip y \<Rightarrow> s y | DMissing \<Rightarrow> m)"
  using assms by (cases d) auto

lemma resume_container_delivers:
  "delivers (\<lambda>u. ur_name u = n) (resume_container h n c cl inst port dry)"
  unfolding resume_container_def start_container_def Let_def
  by (intro delivers_intros case_decision_delivers) (auto simp: unit_of_def split: sum.split)

lemma record_resume_event_delivers: "delivers (\<lambda>_. True) (record_resume_event c l d)"
  unfolding record_resume_event_def by (intro delivers_intros TrueI)

lemma summary_event_delivers: "delivers (\<lambda>_. True) (summary_event n dry us)"
  unfolding summary_event_def by (intro delivers_intros record_resume_event_delivers TrueI)

lemma resume_instance_delivers:
  "delivers (\<lambda>u. ur_name u = instance_id_display (mk_instance c (in_ordinal row)))
     (resume_instance h c n ph opts row)"
  unfolding resume_instance_def Let_def
  by (intro delivers_seq [OF resume_container_delivers] delivers_intros
      delivers_seq [OF record_resume_event_delivers])

lemma resume_pooler_delivers: "delivers (\<lambda>u. ur_name u = po_name rec) (resume_pooler h opts rec)"
  unfolding resume_pooler_def
  by (intro delivers_seq [OF resume_container_delivers] delivers_intros) (auto split: sum.split)

lemma skip_cluster_delivers:
  "delivers (\<lambda>r. rc_cluster r = n \<and> rc_skipped r \<noteq> None) (skip_cluster n ph why dry)"
  unfolding skip_cluster_def
  by (intro delivers_seq [where Q = "\<lambda>_. True"] delivers_intros record_resume_event_delivers) simp_all

text \<open>What the report says of one cluster.\<close>

definition reported :: "registry \<Rightarrow> string \<Rightarrow> cluster_resume \<Rightarrow> bool" where
  "reported db n r \<longleftrightarrow> rc_cluster r = n \<and>
     (rc_skipped r = None \<longrightarrow> map ur_name (rc_instances r) = unit_names db n)"

lemma unit_names_keys:
  "map fst (db_instances db') = map fst (db_instances db) \<Longrightarrow> unit_names db' n = unit_names db n"
proof -
  have "unit_names db n = map (\<lambda>k. instance_id_display (mk_instance (ClusterId n) (snd k)))
      (filter (\<lambda>k. fst k = n) (map fst (db_instances db)))" for db
    by (simp add: unit_names_def filter_map comp_def case_prod_unfold)
  then show "map fst (db_instances db') = map fst (db_instances db) \<Longrightarrow> ?thesis" by simp
qed

lemma instances_names:
  assumes "reg_ok db" "instances db (ClusterId n) = Inr rows"
  shows "map (\<lambda>row. instance_id_display (mk_instance (ClusterId n) (in_ordinal row))) (resume_order rows) =
    unit_names db n"
proof -
  have "sorted (map in_ordinal rows)"
    using instances_ordinals [OF assms] by (simp add: strict_sorted_iff)
  then have "resume_order rows = rows" unfolding resume_order_def by (rule sort_key_id_if_sorted)
  then show ?thesis
    using assms(2) instances_read [OF assms(1), of "ClusterId n"] instance_rows_readable [OF assms(1)]
    by (auto simp: unit_names_def)
qed

lemma resume_cluster_reports:
  fixes w :: "'p world"
  assumes "reg_ok (wd_db w)"
  shows "\<exists>r w'. resume_cluster h n ph opts w = (Inr r, w') \<and> reported (wd_db w) n r"
proof (cases "cluster_id_new n")
  case (Inl e)
  then show ?thesis by (simp add: resume_cluster_def ret_def reported_def Let_def)
next
  case (Inr c)
  then have c: "c = ClusterId n" using cluster_id_new_str by (cases c) fastforce
  show ?thesis
  proof (cases "skip_reason (parse_lenient ph)")
    case (Some why)
    have "delivers (reported (wd_db w) n)
        (skip_cluster n (parse_lenient ph) why (ro_dry_run opts) :: ('p, cluster_resume) ctl)"
      by (rule delivers_mono [OF skip_cluster_delivers]) (auto simp: reported_def)
    then show ?thesis using Inr Some by (simp add: resume_cluster_def Let_def delivers_def)
  next
    case None
    obtain rows where rows: "instances (wd_db w) c = Inr rows"
      using instances_read [OF assms] by blast
    let ?P = "\<lambda>row (u :: unit_resume). ur_name u = instance_id_display (mk_instance c (in_ordinal row))"
    have "delivers (reported (wd_db w) n)
        (seq (each (resume_instance h c n (parse_lenient ph) opts) (resume_order rows)) (\<lambda>units.
         seq (summary_event n (ro_dry_run opts) units) (\<lambda>_.
         ret \<lparr> rc_cluster = n, rc_phase = cluster_phase_as_str (parse_lenient ph), rc_instances = units,
           rc_skipped = None \<rparr>)) :: ('p, cluster_resume) ctl)"
    proof (intro delivers_seq [OF delivers_each [where P = ?P]] resume_instance_delivers
        delivers_seq [OF summary_event_delivers] delivers_ret)
      fix units :: "unit_resume list" assume "list_all2 ?P (resume_order rows) units"
      then have "map ur_name units = map (\<lambda>row. instance_id_display (mk_instance c (in_ordinal row)))
          (resume_order rows)"
        by (induction rule: list_all2_induct) auto
      then show "reported (wd_db w) n \<lparr> rc_cluster = n, rc_phase = cluster_phase_as_str (parse_lenient ph),
          rc_instances = units, rc_skipped = None \<rparr>"
        using instances_names [OF assms] rows c by (simp add: reported_def)
    qed
    then show ?thesis using Inr None rows
      by (simp add: resume_cluster_def Let_def look_run delivers_def)
  qed
qed

section \<open>Properties\<close>


text \<open>A dry run leaves no trace: it asks podman and tries ports, the store is the
  same afterwards in every row and event, and nothing is reported as started.\<close>

theorem dry_run_changes_nothing:
  assumes "reg_ok (wd_db w)" "ro_dry_run opts" "resume_with h cm pm opts w = (r, w')"
  shows "wd_db w' = wd_db w \<and> (\<exists>cs. wd_calls w' = wd_calls w @ cs \<and>
    (\<forall>c\<in>set cs. (\<exists>d. c = CallExists d \<or> c = CallInspect d) \<or> (\<exists>p. c = CallBindPort p)))"
proof -
  have r: "recovers (wd_db w) True w w'"
    using resume_recovers [OF assms(1), of opts h cm pm] assms(2,3) by simp
  have "restart_call (wd_db w) True c \<Longrightarrow>
      (\<exists>d. c = CallExists d \<or> c = CallInspect d) \<or> (\<exists>p. c = CallBindPort p)" for c
    by (cases c) auto
  then show ?thesis using r recovers_keeps [OF r] unfolding within_def by blast
qed


section \<open>Witnesses\<close>

definition boot_instance :: instance_record where
  "boot_instance = \<lparr> in_cluster = ''mydb'', in_ordinal = 1, in_container_name = ''pgpod-mydb-1'',
     in_container_id = None, in_volume_name = ''pgpod-mydb-1'', in_host_port = 40001,
     in_phase = InstRunning, in_role = RolePrimary, in_timeline = None, in_last_probe_at_ms = None \<rparr>"

definition boot_registry :: registry where
  "boot_registry = (case put_instance 2 boot_instance demo_registry of Inr db \<Rightarrow> db | Inl _ \<Rightarrow> empty_registry)"

definition boot_world :: "demo_podman world" where
  "boot_world = demo_world [(''pgpod-mydb-1'', False)] boot_registry"

lemma boot_put: "put_instance 2 boot_instance demo_registry = Inr boot_registry"
  by code_simp

lemma boot_registry_ok: "reg_ok boot_registry"
  using put_instance_ok [OF demo_registry_ok boot_put] .

lemma boot_world_simps [simp]: "wd_db boot_world = boot_registry" "wd_calls boot_world = []"
  by (simp_all add: boot_world_def demo_world_def)


theorem dry_run_changes_nothing_witness:
  "\<exists>r w'. resume_with demo_host demo_codec demo_codec (default_options\<lparr> ro_dry_run := True \<rparr>) boot_world = (r, w') \<and>
     wd_db w' = boot_registry"
proof -
  let ?o = "default_options\<lparr> ro_dry_run := True \<rparr>"
  obtain r w' where e: "resume_with demo_host demo_codec demo_codec ?o boot_world = (r, w')"
    by (cases "resume_with demo_host demo_codec demo_codec ?o boot_world")
  have "reg_ok (wd_db boot_world)" "ro_dry_run ?o" using boot_registry_ok by simp_all
  from dry_run_changes_nothing [OF this e] e show ?thesis by auto
qed


end
