(* ===== verification/Apply.thy ===== *)
theory Apply
  imports PoolerHold Resume
begin

text \<open>
  Creating and converging a cluster (\<^verbatim>\<open>pgpod-control/src/lib.rs\<close>: \<^verbatim>\<open>apply\<close> and what it calls,
  with the image check of \<^verbatim>\<open>upgrade.rs\<close>).  A future under a timeout runs to its end in the model and is
  cut at the limit; what it would still have asked for leaves no trace on the host, since
  the one future that is cut only waits and inspects.
\<close>

section \<open>Job containers\<close>

definition timeout_after :: "nat \<Rightarrow> ('p, 'e, 'a) act \<Rightarrow> ('p, 'f, ('e + 'a) option) act" where
  "timeout_after limit m w = (case m w of (r, w') \<Rightarrow>
     if wd_now w' \<le> wd_now w + limit then (Inr (Some r), w')
     else (Inr None, w'\<lparr> wd_now := wd_now w + limit \<rparr>))"

definition discard_stale :: "'p host \<Rightarrow> string \<Rightarrow> ('p, unit) ctl" where
  "discard_stale h name =
     seq (pod (probe h name)) (\<lambda>stale.
     if stale = None then ret ()
     else attempt (stop h name 10) (\<lambda>_. attempt (remove h name True) (\<lambda>_. ret ())))"

definition upgrade_job_container :: "string \<Rightarrow> cluster_manifest \<Rightarrow> instance_id \<Rightarrow> string \<Rightarrow> string list \<Rightarrow>
    string option \<Rightarrow> container_spec" where
  "upgrade_job_container agent m inst job argv env =
     (let c = hardened (sp_image_name (mf_spec m));
          c = with_name (job_container_name inst job) c;
          c = with_user (user_of m) c;
          c = with_entrypoint (agent_bin # argv) c;
          c = with_mount (Volume (volume_name inst) volume_mount False) c;
          c = with_mount (BindReadOnly agent agent_bin) c;
          c = with_log_driver ''k8s-file'' c;
          c = with_label (''pgpod.cluster'', cluster_str (iid_cluster inst)) c;
          c = with_label (''pgpod.job'', job) c
      in (case env of Some e \<Rightarrow> with_env upgrade_spec_env e c | None \<Rightarrow> c))"

definition upgrade_job :: "'p control \<Rightarrow> (string \<Rightarrow> string + 'r) \<Rightarrow> cluster_manifest \<Rightarrow> instance_id \<Rightarrow> string \<Rightarrow>
    string list \<Rightarrow> string option \<Rightarrow> nat \<Rightarrow> ('p, 'r) ctl" where
  "upgrade_job cn decode m inst job argv env wait =
     (let h = cn_host cn in
      seq (agent_binary cn) (\<lambda>agent.
      seq (discard_stale h (job_container_name inst job)) (\<lambda>_.
      seq (pod (create_container h (upgrade_job_container agent m inst job argv env))) (\<lambda>cid.
      seq (pod (start h cid)) (\<lambda>_.
      seq (timeout_after wait (wait_for_exit h cid)) (\<lambda>finished.
      seq (case finished of
             None \<Rightarrow> fail (ENotReady (instance_id_display inst) (secs_of wait) (''the '' @ job @ '' job is still running''))
           | Some r \<Rightarrow> of_result (map_err EPodman r)) (\<lambda>code.
      attempt (logs_string h cid) (\<lambda>l.
      let logs = (case l of Inr s \<Rightarrow> s | Inl e \<Rightarrow> ''<logs unavailable: '' @ show_rt_error e @ ''>'') in
      attempt (remove h cid True) (\<lambda>_.
      if code \<noteq> 0 then fail (EUpgrade job logs)
      else of_result (map_err (\<lambda>e. EUpgrade job (e @ nl @ nl @ logs)) (parse_report decode logs)))))))))))"

section \<open>The image and the data\<close>

definition key_of :: "string \<Rightarrow> 32 word" where
  "key_of v = (case version_key v of Some k \<Rightarrow> k | None \<Rightarrow> 0)"

definition newer_image :: "cluster_id \<Rightarrow> string \<Rightarrow> string \<Rightarrow> string \<Rightarrow> control_error" where
  "newer_image c on_disk to version = EInvalid (cluster_str c @ '' holds a PostgreSQL '' @ on_disk @
     '' data directory, and '' @ to @ '' is PostgreSQL '' @ version @ ''. `apply` cannot make that change: it '' @
     ''would start the new server on the old data, which fails with '' @
     debug_str ''database files are incompatible with server'' @ ''.'' @ nl @ nl @
     ''A major version needs pg_upgrade, which is a different operation with a different window:'' @ nl @ nl @
     ''  pgpod upgrade '' @ cluster_str c @ '' --to-image '' @ to @ nl @ nl @
     ''Nothing has been changed '' @ em_dash @ '' the data directory is still PostgreSQL '' @ on_disk @ ''.'')"

definition older_image :: "cluster_id \<Rightarrow> string \<Rightarrow> string \<Rightarrow> string \<Rightarrow> control_error" where
  "older_image c on_disk to version = EInvalid (cluster_str c @ '' holds a PostgreSQL '' @ on_disk @
     '' data directory, and '' @ to @ '' is PostgreSQL '' @ version @ '' '' @ em_dash @ '' older. PostgreSQL cannot read '' @
     ''a data directory written by a later major version, so this apply would leave an instance that never starts.'' @
     nl @ nl @ ''If this cluster has been through `pgpod upgrade`, this file is the stale half: set `imageName` to a '' @
     ''PostgreSQL '' @ on_disk @ '' image to match the data.'' @ nl @ nl @ ''Nothing has been changed.'')"

definition image_verdict :: "cluster_id \<Rightarrow> string \<Rightarrow> probe_report \<Rightarrow> control_error + unit" where
  "image_verdict c to p =
     (case pr_data_version p of
        None \<Rightarrow> Inr ()
      | Some on_disk \<Rightarrow>
          if key_of on_disk = key_of (pr_version p) then Inr ()
          else if key_of on_disk < key_of (pr_version p) then Inl (newer_image c on_disk to (pr_version p))
          else Inl (older_image c on_disk to (pr_version p)))"

definition refuse_incompatible_image :: "'p control \<Rightarrow> cluster_id \<Rightarrow> cluster_manifest \<Rightarrow> string option \<Rightarrow>
    ('p, unit) ctl" where
  "refuse_incompatible_image cn c m desired_image_id =
     (let h = cn_host cn; inst = mk_instance c 1 in
      seq (pod (find_volume h (volume_name inst))) (\<lambda>volume.
      if volume = None then ret ()
      else seq (pod (probe h (container_name inst))) (\<lambda>p.
      if (case p of Some q \<Rightarrow> cp_running q \<and> cp_image_id q \<noteq> None \<and> cp_image_id q = desired_image_id
          | None \<Rightarrow> False) then ret ()
      else seq (upgrade_job cn (cn_read_probe cn) m inst ''image-probe'' [''upgrade'', ''probe''] None 300000) (\<lambda>report.
      of_result (image_verdict c (sp_image_name (mf_spec m)) report)))))"

section \<open>Secrets\<close>

record ensured_secrets =
  es_names :: secret_names
  es_rotate :: "(string \<times> string) list"

definition role_of :: "string \<Rightarrow> cluster_id \<Rightarrow> string" where
  "role_of secret c = unwrap_or secret (strip_prefix (''pgpod-'' @ cluster_str c @ ''-'') secret)"

text \<open>One secret of the cluster; the answer is the role whose password had to be made up
  although a restore was asked for.\<close>

definition ensure_secret :: "'p host \<Rightarrow> cluster_id \<Rightarrow> bool \<Rightarrow> bool \<Rightarrow> secret_names \<Rightarrow> string \<times> string \<Rightarrow>
    ('p, string option) ctl" where
  "ensure_secret h c wants_app restoring names pair =
     (case pair of (name, from_name) \<Rightarrow>
      if name = sn_app_owner names \<and> \<not> wants_app then ret None
      else seq (pod (secret_exists h name)) (\<lambda>there.
      if there then ret None
      else seq (if restoring then pod (secret_value h from_name) else ret None) (\<lambda>adopted.
      case adopted of
        Some v \<Rightarrow> seq (pod (put_secret h name v)) (\<lambda>_. ret None)
      | None \<Rightarrow> seq (generate h) (\<lambda>password.
          seq (pod (put_secret h name password)) (\<lambda>_.
          ret (if restoring then Some (role_of name c) else None))))))"

definition superuser_role :: string where "superuser_role = ''postgres''"

definition sql_role :: "cluster_manifest \<Rightarrow> string \<Rightarrow> (string \<times> string) option" where
  "sql_role m which =
     map_option (\<lambda>role. (role, which))
       (if which = ''superuser'' then Some superuser_role
        else if which = ''replication'' then Some replication_role
        else if which = ''monitor'' then Some monitor_role
        else if which = ''app-owner'' then ib_owner (sp_initdb (mf_spec m))
        else None)"

definition recovery_source :: "bootstrap \<Rightarrow> control_error + cluster_id option" where
  "recovery_source b = (case b of
      Recovery r \<Rightarrow> map_err (\<lambda>e. EInvalid (''recovery source: '' @ show_id_error e))
        (and_then (cluster_id_new (rb_source_stanza r)) (\<lambda>c. Inr (Some c)))
    | Initdb _ \<Rightarrow> Inr None)"

definition ensure_secrets :: "'p control \<Rightarrow> cluster_id \<Rightarrow> cluster_manifest \<Rightarrow> bootstrap \<Rightarrow>
    ('p, ensured_secrets) ctl" where
  "ensure_secrets cn c m b =
     (let names = secret_names_for c; wants_app = ib_database (sp_initdb (mf_spec m)) \<noteq> None in
      seq (of_result (recovery_source b)) (\<lambda>source.
      let pairs = (case source of Some s \<Rightarrow> secret_names_paired names (secret_names_for s)
                   | None \<Rightarrow> secret_names_paired names names) in
      seq (each (ensure_secret (cn_host cn) c wants_app (source \<noteq> None) names) pairs) (\<lambda>made.
      let unavailable = List.map_filter id made in
      if unavailable = [] then ret \<lparr> es_names = names, es_rotate = [] \<rparr>
      else seq (note_event (cluster_str c) None ''warn''
             (''restored from '' @ (case source of Some s \<Rightarrow> cluster_str s | None \<Rightarrow> []) @
              '', whose secrets are not on this host '' @ em_dash @ '' rotating '' @ str_join '', '' unavailable @
              '' to freshly generated passwords so the cluster is reachable'')) (\<lambda>_.
           ret \<lparr> es_names = names, es_rotate = List.map_filter (sql_role m) unavailable \<rparr>))))"

definition psql_command :: "string \<Rightarrow> string list" where
  "psql_command sql = [''psql'', ''-X'', ''-q'', ''-v'', ''ON_ERROR_STOP=1'', ''-h'', socket_dir, ''-U'', ''postgres'',
     ''-d'', ''postgres'', ''-c'', sql]"

definition secret_of_role :: "secret_names \<Rightarrow> string \<Rightarrow> string" where
  "secret_of_role names which =
     (if which = ''superuser'' then sn_superuser names
      else if which = ''replication'' then sn_replication names
      else if which = ''monitor'' then sn_monitor names
      else sn_app_owner names)"

definition rotate_role :: "'p host \<Rightarrow> cluster_id \<Rightarrow> string \<Rightarrow> string \<times> string \<Rightarrow> ('p, unit) ctl" where
  "rotate_role h c container pair =
     (case pair of (role, which) \<Rightarrow>
      let secret = secret_of_role (secret_names_for c) which in
      seq (pod (secret_value h secret)) (\<lambda>v.
      seq (of_result (ok_or (EInvalid (''secret '' @ secret @ '' vanished between create and use'')) v)) (\<lambda>password.
      seq (of_result (map_err (\<lambda>e. EPostgres (show_pg_error e)) (alter_role_password_sql role password))) (\<lambda>sql.
      seq (pod (exec h container (psql_command sql))) (\<lambda>out.
      if \<not> exec_success out
      then fail (EInvalid (''could not rotate the '' @ debug_str role @ '' password on restored cluster '' @ cluster_str c @
        '', so it would not be reachable with the credentials pgpod stores: '' @ trim (eo_stderr out)))
      else note_event (cluster_str c) (Some 1) ''info'' (''rotated the '' @ role @ '' password after restore''))))))"

definition rotate_restored_roles :: "'p control \<Rightarrow> cluster_id \<Rightarrow> (string \<times> string) list \<Rightarrow> ('p, unit) ctl" where
  "rotate_restored_roles cn c todo =
     (if todo = [] then ret ()
      else seq (running_container (cn_host cn) (mk_instance c 1)) (\<lambda>container.
      seq (wait_writable (cn_host cn) (mk_instance c 1) 300000) (\<lambda>_.
      seq (each (rotate_role (cn_host cn) c container) todo) (\<lambda>_. ret ()))))"

section \<open>One instance\<close>

definition allocate_port :: "'p host \<Rightarrow> ('p, 16 word) ctl" where
  "allocate_port h = act_err EPortAllocation (perform CallFreePort (h_free_port h))"

definition creating_row :: "instance_id \<Rightarrow> string \<Rightarrow> 16 word \<Rightarrow> string option \<Rightarrow> instance_phase \<Rightarrow>
    instance_record" where
  "creating_row inst volume port cid phase = \<lparr> in_cluster = cluster_str (iid_cluster inst),
     in_ordinal = iid_ordinal inst, in_container_name = container_name inst, in_container_id = cid,
     in_volume_name = volume, in_host_port = port, in_phase = phase, in_role = RoleUnknown,
     in_timeline = None, in_last_probe_at_ms = None \<rparr>"

record instance_summary =
  su_instance :: string
  su_container :: string
  su_volume :: string
  su_host_port :: "16 word"
  su_connection_uri :: string

text \<open>A container from the manifest, created and started; and what becomes of one that is
  there: adopted, started, replaced behind a hold, replaced because it is down, or refused.\<close>

definition fresh_container :: "'p control \<Rightarrow> cluster_manifest \<Rightarrow> instance_id \<Rightarrow> apply_context \<Rightarrow> 16 word \<Rightarrow>
    string option \<Rightarrow> ('p, string) ctl" where
  "fresh_container cn m inst ctx port old =
     (let h = cn_host cn in
      seq (container_spec_of cn m inst ctx port) (\<lambda>spec.
      seq (pod (pull_image_if_absent h (sp_image_name (mf_spec m)))) (\<lambda>_.
      seq (case old of Some c \<Rightarrow> pod (remove h c True) | None \<Rightarrow> ret ()) (\<lambda>_.
      seq (pod (create_container h spec)) (\<lambda>cid.
      seq (pod (start h cid)) (\<lambda>_.
      ret cid))))))"

definition settle_container :: "'p control \<Rightarrow> cluster_manifest \<Rightarrow> instance_id \<Rightarrow> apply_context \<Rightarrow> 16 word \<Rightarrow>
    container_probe option \<Rightarrow> ('p, string) ctl" where
  "settle_container cn m inst ctx port found =
     (let h = cn_host cn; c = cluster_str (iid_cluster inst); n = Some (iid_ordinal inst) in
      case found of
        None \<Rightarrow> fresh_container cn m inst ctx port None
      | Some p \<Rightarrow>
          (case refuse_if_diverged (cn_spec cn) m inst ctx p of
             Inr _ \<Rightarrow> if cp_running p then ret (cp_id p)
               else seq (pod (start h (cp_id p))) (\<lambda>_. ret (cp_id p))
           | Inl e \<Rightarrow>
               if cp_running p then
                 (if ax_recreate ctx then
                    seq (note_event c n ''info'' (''spec diverged, recreating: '' @ show_control_error e)) (\<lambda>_.
                    recreate_instance cn m inst ctx port)
                  else fail e)
               else
                 seq (note_event c n ''info'' (''stopped instance diverged, recreating: '' @ show_control_error e)) (\<lambda>_.
                 fresh_container cn m inst ctx port (Some (cp_id p)))))"

definition apply_instance :: "'p control \<Rightarrow> cluster_manifest \<Rightarrow> apply_context \<Rightarrow> instance_id \<Rightarrow>
    ('p, instance_summary) ctl" where
  "apply_instance cn m ctx inst =
     (let h = cn_host cn in
      seq (look (\<lambda>db. get_instance db (iid_cluster inst) (iid_ordinal inst))) (\<lambda>existing.
      seq (case existing of Some r \<Rightarrow> ret (in_host_port r) | None \<Rightarrow> allocate_port h) (\<lambda>port.
      seq (pod (create_volume h (volume_name inst) (instance_labels inst))) (\<lambda>volume.
      seq (store (\<lambda>now. put_instance now (creating_row inst (vi_name volume) port None InstCreating))) (\<lambda>_.
      seq (pod (probe h (container_name inst))) (\<lambda>found.
      seq (settle_container cn m inst ctx port found) (\<lambda>cid.
      seq (store (\<lambda>now. put_instance now (creating_row inst (vi_name volume) port (Some cid) InstBootstrapping))) (\<lambda>_.
      ret \<lparr> su_instance = instance_id_display inst, su_container = container_name inst, su_volume = vi_name volume,
        su_host_port = port, su_connection_uri = connection_uri port m \<rparr>))))))))"

section \<open>The cluster\<close>

record apply_report =
  ar_cluster :: string
  ar_generation :: int
  ar_created :: bool
  ar_instances :: "instance_summary list"

definition validate_parameters :: "cluster_manifest \<Rightarrow> control_error + unit" where
  "validate_parameters m = try_each (\<lambda>p. let normalized = normalized_name (fst p) in
     if normalized \<in> set reserved_parameters
     then Inl (EPostgres (show_pg_error (ReservedParameter normalized))) else Inr ()) (manifest_parameters m)"

definition ordinals :: "cluster_manifest \<Rightarrow> 32 word list" where
  "ordinals m = map word_of_nat [1..<unat (sp_instances (mf_spec m)) + 1]"

definition finish_apply :: "'p control \<Rightarrow> cluster_id \<Rightarrow> cluster_manifest \<Rightarrow> nat \<Rightarrow> (string \<times> string) list \<Rightarrow>
    ('p, unit) ctl" where
  "finish_apply cn c m wait todo =
     (if wait \<noteq> 0 then
        seq (each (\<lambda>n. wait_ready (cn_host cn) (mk_instance c n) wait) (ordinals m)) (\<lambda>_.
        rotate_restored_roles cn c todo)
      else if todo \<noteq> [] then
        note_event (cluster_str c) None ''warn'' (''credentials were not rotated because apply did not wait for '' @
          ''readiness '' @ em_dash @ '' re-apply with a non-zero wait to make this cluster reachable'')
      else ret ())"

definition apply_recorded :: "'p control \<Rightarrow> cluster_manifest \<Rightarrow> cluster_id \<Rightarrow> bootstrap \<Rightarrow> apply_options \<Rightarrow>
    string option \<Rightarrow> ('p, instance_summary list) ctl" where
  "apply_recorded cn m c b opts desired_image_id =
     (let h = cn_host cn in
      seq (pod (ensure_network h (network_name c) (cluster_labels c))) (\<lambda>network.
      seq (case bs_volume (sp_backup (mf_spec m)) of
             Some v \<Rightarrow> seq (pod (create_volume h v (cluster_labels c))) (\<lambda>_. ret ()) | None \<Rightarrow> ret ()) (\<lambda>_.
      seq (ensure_secrets cn c m b) (\<lambda>secrets.
      let ctx = \<lparr> ax_bootstrap = b, ax_network_cidr = ni_subnet network, ax_secrets = es_names secrets,
            ax_recreate = ao_recreate opts, ax_desired_image_id = desired_image_id \<rparr> in
      seq (each (\<lambda>n. apply_instance cn m ctx (mk_instance c n)) (ordinals m)) (\<lambda>summaries.
      seq (finish_apply cn c m (ao_wait opts) (es_rotate secrets)) (\<lambda>_.
      ret summaries))))))"

text \<open>Both writes are made whatever the other one answers.\<close>

definition record_apply_failure :: "cluster_id \<Rightarrow> control_error \<Rightarrow> ('p, unit) ctl" where
  "record_apply_failure c e =
     attempt (store (\<lambda>now db. Inr (set_cluster_phase now c ''failed'' db))) (\<lambda>_.
     attempt (note_event (cluster_str c) None ''error'' (''apply failed: '' @ show_control_error e)) (\<lambda>_.
     ret ()))"

definition apply_outcome :: "cluster_id \<Rightarrow> int \<Rightarrow> bool \<Rightarrow> control_error + instance_summary list \<Rightarrow>
    ('p, apply_report) ctl" where
  "apply_outcome c generation created outcome = (case outcome of
      Inl e \<Rightarrow> seq (record_apply_failure c e) (\<lambda>_. fail e)
    | Inr summaries \<Rightarrow>
        seq (store (\<lambda>now db. Inr (set_cluster_phase now c ''running'' db))) (\<lambda>_.
        seq (note_event (cluster_str c) None ''info'' ''apply complete'') (\<lambda>_.
        ret \<lparr> ar_cluster = cluster_str c, ar_generation = generation, ar_created = created,
          ar_instances = summaries \<rparr>)))"

definition apply_to :: "'p control \<Rightarrow> cluster_manifest \<Rightarrow> cluster_id \<Rightarrow> bootstrap \<Rightarrow> apply_options \<Rightarrow>
    ('p, apply_report) ctl" where
  "apply_to cn m c b opts =
     (let h = cn_host cn in
      seq (of_result (validate_parameters m)) (\<lambda>_.
      seq (agent_binary cn) (\<lambda>agent.
      seq (look (\<lambda>db. get_cluster (cn_clusters cn) db c)) (\<lambda>existed.
      seq (pod (pull_image_if_absent h (sp_image_name (mf_spec m)))) (\<lambda>_.
      seq (pod (image_id h (sp_image_name (mf_spec m)))) (\<lambda>desired_image_id.
      seq (refuse_incompatible_image cn c m desired_image_id) (\<lambda>_.
      seq (store_get (\<lambda>now. put_cluster (cn_clusters cn) now m ''applying'')) (\<lambda>generation.
      seq (note_event (cluster_str c) None ''info'' ''apply requested'') (\<lambda>_.
      attempt (apply_recorded cn m c b opts desired_image_id)
        (apply_outcome c generation (existed = None)))))))))))"

definition apply_with_bootstrap :: "'p control \<Rightarrow> cluster_manifest \<Rightarrow> bootstrap \<Rightarrow> apply_options \<Rightarrow>
    ('p, apply_report) ctl" where
  "apply_with_bootstrap cn m b opts =
     seq (of_result (map_err (\<lambda>e. EManifest (show_manifest_error e)) (cluster_id_of m))) (\<lambda>c.
     apply_to cn m c b opts)"

definition apply_with :: "'p control \<Rightarrow> cluster_manifest \<Rightarrow> apply_options \<Rightarrow> ('p, apply_report) ctl" where
  "apply_with cn m opts = apply_with_bootstrap cn m (Initdb (sp_initdb (mf_spec m))) opts"

definition apply_cluster :: "'p control \<Rightarrow> cluster_manifest \<Rightarrow> nat \<Rightarrow> ('p, apply_report) ctl" where
  "apply_cluster cn m wait = apply_with cn m (apply_options_default\<lparr> ao_wait := wait \<rparr>)"

section \<open>What an apply may ask for and write\<close>

fun apply_call :: "bool \<Rightarrow> cluster_id \<Rightarrow> call \<Rightarrow> bool" where
  "apply_call recreate c (CallStop d secs) \<longleftrightarrow> recreate \<or> d = job_container_name (mk_instance c 1) ''image-probe''"
| "apply_call recreate c (CallVolumeDelete v) \<longleftrightarrow> False"
| "apply_call recreate c CallVolumePrune \<longleftrightarrow> False"
| "apply_call recreate c (CallNetworkDelete n) \<longleftrightarrow> False"
| "apply_call recreate c (CallSecretDelete n) \<longleftrightarrow> n \<in> set (secret_names_all (secret_names_for c))"
| "apply_call recreate c (CallSecretPost n) \<longleftrightarrow> n \<in> set (secret_names_all (secret_names_for c))"
| "apply_call recreate c _ \<longleftrightarrow> True"

lemma asked_obeys: "obeys (within A S) m \<Longrightarrow> asked_for c w (snd (m w)) \<Longrightarrow> A c"
  using asked_within [of A S w "snd (m w)" c] by (simp add: obeys_def)

definition same_clusters :: "registry \<Rightarrow> registry \<Rightarrow> bool" where
  "same_clusters db db' \<longleftrightarrow> db_clusters db' = db_clusters db"

lemma same_clusters_star: "same_clusters\<^sup>*\<^sup>* a b \<Longrightarrow> same_clusters a b"
  by (induction rule: rtranclp_induct) (simp_all add: same_clusters_def)

text \<open>The writes below the cluster row: its events and its instances.\<close>

definition row_write :: "cluster_id \<Rightarrow> registry \<Rightarrow> registry \<Rightarrow> bool" where
  "row_write c db db' \<longleftrightarrow> (\<exists>now n l msg. db' = record_event now (cluster_str c) n l msg db) \<or>
     (\<exists>now r. in_cluster r = cluster_str c \<and> put_instance now r db = Inr db')"

lemma get_instance_cluster: "get_instance db c n = Inr (Some r) \<Longrightarrow> in_cluster r = cluster_str c"
  using instances_row by (force simp: get_instance_def find_Some_iff and_then_Inr)

lemma row_write_event: "row_write c db (record_event now (cluster_str c) ord l msg db)"
  by (auto simp: row_write_def)

lemma row_write_put: "put_instance now r db = Inr db' \<Longrightarrow> in_cluster r = cluster_str c \<Longrightarrow> row_write c db db'"
  by (auto simp: row_write_def)

lemma marks_row_write: "marks c db db' \<Longrightarrow> row_write c db db'"
  unfolding marks_def by (elim exE conjE) (rule row_write_put, assumption, simp add: get_instance_cluster)

lemmas row_writes = row_write_put marks_row_write

lemma creating_row_cluster [simp]: "in_cluster (creating_row i v p cid ph) = cluster_str (iid_cluster i)"
  by (simp add: creating_row_def)

lemma mk_instance_cluster [simp]: "iid_cluster (mk_instance c n) = c"
  by (simp add: mk_instance_def)

lemma row_write_clusters: "row_write c db db' \<Longrightarrow> same_clusters db db'"
  by (auto simp: row_write_def same_clusters_def put_instance_def record_event_def Let_def split: if_splits)

lemma timeout_after_within [within_intros]:
  "obeys (within A S) m \<Longrightarrow> obeys (within A S) (timeout_after limit m)"
  by (rule obeysI) (auto simp: timeout_after_def within_def dest!: obeysD split: prod.splits if_splits)

lemma discard_stale_within [within_intros]:
  assumes "A (CallExists n)" "A (CallInspect n)" "A (CallStop n 10)" "A (CallDelete n True)"
  shows "obeys (within A S) (discard_stale h n)"
  unfolding discard_stale_def by (intro within_intros assms)

lemma upgrade_job_within [within_intros]:
  assumes "\<And>f. A (CallIsFile f)" "\<And>n. A (CallExists n)" "\<And>n. A (CallInspect n)" "\<And>n f. A (CallDelete n f)"
    "\<And>j. A (CallCreate j)" "\<And>n. A (CallStart n)" "\<And>n. A (CallWait n)" "\<And>n. A (CallLogs n)"
    "A (CallStop (job_container_name inst job) 10)"
  shows "obeys (within A S) (upgrade_job cn decode m inst job argv env wait)"
  unfolding upgrade_job_def Let_def by (intro within_intros assms)

lemma refuse_incompatible_image_within [within_intros]:
  assumes "\<And>x. apply_call rec c x \<Longrightarrow> A x"
  shows "obeys (within A S) (refuse_incompatible_image cn c m img)"
  unfolding refuse_incompatible_image_def Let_def by (intro within_intros) (auto intro: assms)

lemma secret_names_paired_fst:
  "p \<in> set (secret_names_paired s t) \<Longrightarrow> fst p \<in> set (secret_names_all s)"
  by (auto simp: secret_names_paired_def secret_names_all_def)

lemma ensure_secret_within:
  assumes "\<And>x. apply_call rec c x \<Longrightarrow> A x" "fst p \<in> set (secret_names_all (secret_names_for c))"
  shows "obeys (within A S) (ensure_secret h c wants restoring names p)"
  using assms(2) unfolding ensure_secret_def
  by (intro within_intros) (auto intro: assms(1))

lemma ensure_secrets_within [within_intros]:
  assumes "\<And>x. apply_call rec c x \<Longrightarrow> A x" "\<And>db db'. row_write c db db' \<Longrightarrow> S db db'"
  shows "obeys (within A S) (ensure_secrets cn c m b)"
  unfolding ensure_secrets_def Let_def
  by (intro within_intros within.each ensure_secret_within [OF assms(1)])
     (auto intro!: assms(2) row_write_event dest: secret_names_paired_fst split: option.splits)

lemma rotate_role_within [within_intros]:
  assumes "\<And>x. apply_call rec c x \<Longrightarrow> A x" "\<And>db db'. row_write c db db' \<Longrightarrow> S db db'"
  shows "obeys (within A S) (rotate_role h c d p)"
  unfolding rotate_role_def Let_def
  by (intro within_intros) (auto intro!: assms row_write_event intro: row_writes)

lemma asks_apply_call: "asks d x \<Longrightarrow> apply_call rec c x"
  by (cases x) auto

lemma rotate_restored_roles_within [within_intros]:
  assumes "\<And>x. apply_call rec c x \<Longrightarrow> A x" "\<And>db db'. row_write c db db' \<Longrightarrow> S db db'"
  shows "obeys (within A S) (rotate_restored_roles cn c todo)"
  unfolding rotate_restored_roles_def
  by (intro within_intros within.each rotate_role_within [OF assms]) (auto intro!: assms asks_apply_call)

lemma fresh_container_within [within_intros]:
  assumes "\<And>x. apply_call rec c x \<Longrightarrow> A x"
  shows "obeys (within A S) (fresh_container cn m inst ctx port old)"
  unfolding fresh_container_def Let_def by (intro within_intros) (auto intro: assms)

lemma replaces_apply_call: "replaces i x \<Longrightarrow> apply_call True c x"
  by (cases x) auto

lemma settle_container_within [within_intros]:
  assumes "\<And>x. apply_call (ax_recreate ctx) (iid_cluster inst) x \<Longrightarrow> A x" "\<And>db db'. row_write (iid_cluster inst) db db' \<Longrightarrow> S db db'"
  shows "obeys (within A S) (settle_container cn m inst ctx port found)"
  unfolding settle_container_def Let_def
  by (intro within_intros fresh_container_within [OF assms(1)])
     (auto intro!: assms row_write_event intro: row_writes dest: replaces_apply_call)

lemma allocate_port_within [within_intros]: "A CallFreePort \<Longrightarrow> obeys (within A S) (allocate_port h)"
  unfolding allocate_port_def by (intro within_intros)

lemma apply_instance_within [within_intros]:
  assumes "\<And>x. apply_call (ax_recreate ctx) (iid_cluster inst) x \<Longrightarrow> A x" "\<And>db db'. row_write (iid_cluster inst) db db' \<Longrightarrow> S db db'"
  shows "obeys (within A S) (apply_instance cn m ctx inst)"
  unfolding apply_instance_def Let_def
  by (intro within_intros settle_container_within [OF assms])
     (auto intro!: assms row_write_event intro: row_writes)

lemma finish_apply_within [within_intros]:
  assumes "\<And>x. apply_call rec c x \<Longrightarrow> A x" "\<And>db db'. row_write c db db' \<Longrightarrow> S db db'"
  shows "obeys (within A S) (finish_apply cn c m wait todo)"
  unfolding finish_apply_def
  by (intro within_intros within.each rotate_restored_roles_within [OF assms])
     (auto intro!: assms row_write_event intro: row_writes asks_apply_call)

lemma apply_recorded_within:
  assumes "\<And>x. apply_call (ao_recreate opts) c x \<Longrightarrow> A x" "\<And>db db'. row_write c db db' \<Longrightarrow> S db db'"
  shows "obeys (within A S) (apply_recorded cn m c b opts img)"
  unfolding apply_recorded_def Let_def
  by (intro within_intros within.each ensure_secrets_within [OF assms] apply_instance_within
      finish_apply_within [OF assms]) (auto intro!: assms )

text \<open>All the writes of a command that works on one cluster.\<close>

definition cluster_write :: "cluster_manifest manifest_codec \<Rightarrow> cluster_id \<Rightarrow> registry \<Rightarrow> registry \<Rightarrow> bool" where
  "cluster_write mc c db db' \<longleftrightarrow> row_write c db db' \<or> (\<exists>now ph. db' = set_cluster_phase now c ph db) \<or>
     (\<exists>now m ph g. mc_name mc m = cluster_str c \<and> put_cluster mc now m ph db = Inr (db', g))"

lemma cluster_write_is_write: "cluster_write mc c db db' \<Longrightarrow> reg_write mc pc db db'"
  by (auto simp: cluster_write_def row_write_def intro: reg_write.intros)

definition others_kept :: "cluster_id \<Rightarrow> registry \<Rightarrow> registry \<Rightarrow> bool" where
  "others_kept c db db' \<longleftrightarrow> db_poolers db' = db_poolers db \<and> db_pooler_clusters db' = db_pooler_clusters db \<and>
     (\<forall>n. n \<noteq> cluster_str c \<longrightarrow> tbl_get (db_clusters db') n = tbl_get (db_clusters db) n) \<and>
     (\<forall>k. fst k \<noteq> cluster_str c \<longrightarrow> tbl_get (db_instances db') k = tbl_get (db_instances db) k)"

lemma cluster_write_keeps:
  assumes "cluster_write mc c db db'" "reg_ok db"
  shows "others_kept c db db'"
  using assms(1) reg_okD [OF assms(2)] put_cluster_Inr [OF _ assms(2)]
  by (fastforce simp: cluster_write_def row_write_def others_kept_def put_instance_def record_event_def
      set_cluster_phase_def tbl_get_put Let_def split: if_splits option.splits)

lemma cluster_writes_keep:
  assumes "(cluster_write mc c)\<^sup>*\<^sup>* db db'" "reg_ok db"
  shows "reg_ok db' \<and> others_kept c db db'"
  using assms
proof (induction rule: rtranclp_induct)
  case base
  then show ?case by (simp add: others_kept_def)
next
  case (step u v)
  then have "reg_ok u" "others_kept c db u" by simp_all
  moreover have "others_kept c u v" by (rule cluster_write_keeps [OF step.hyps(2) \<open>reg_ok u\<close>])
  ultimately show ?case
    using reg_write_ok [OF cluster_write_is_write [OF step.hyps(2)]] by (simp add: others_kept_def)
qed

lemma cluster_writes:
  "row_write c db db' \<Longrightarrow> cluster_write mc c db db'"
  "cluster_write mc c db (record_event now (cluster_str c) n l msg db)"
  "cluster_write mc c db (set_cluster_phase now c ph db)"
  "put_cluster mc now m ph db = Inr (db', g) \<Longrightarrow> mc_name mc m = cluster_str c \<Longrightarrow> cluster_write mc c db db'"
  using row_write_event by (auto simp: cluster_write_def)

lemma apply_outcome_within:
  assumes "\<And>db db'. cluster_write mc c db db' \<Longrightarrow> S db db'"
  shows "obeys (within A S) (apply_outcome c g new out)"
  unfolding apply_outcome_def record_apply_failure_def
  by (intro within_intros) (auto intro!: assms cluster_writes(2,3))

lemma apply_to_within:
  assumes "\<And>x. apply_call (ao_recreate opts) c x \<Longrightarrow> A x"
    "\<And>db db'. cluster_write (cn_clusters cn) c db db' \<Longrightarrow> S db db'"
    "\<And>now db db' g. put_cluster (cn_clusters cn) now m ''applying'' db = Inr (db', g) \<Longrightarrow> S db db'"
  shows "obeys (within A S) (apply_to cn m c b opts)"
  unfolding apply_to_def Let_def
  by (intro within_intros apply_recorded_within [where c = c] apply_outcome_within [where mc = "cn_clusters cn"]
      refuse_incompatible_image_within [of "ao_recreate opts" c])
     (auto intro: assms assms(2) [OF cluster_writes(1)] assms(2) [OF cluster_writes(2)])

section \<open>The phase an apply leaves\<close>

definition stored_phase :: "registry \<Rightarrow> cluster_id \<Rightarrow> string option" where
  "stored_phase db c = map_option cr_phase (tbl_get (db_clusters db) (cluster_str c))"

lemma stored_phase_set:
  "tbl_ok (db_clusters db) \<Longrightarrow> stored_phase db c \<noteq> None \<Longrightarrow> stored_phase (set_cluster_phase now c ph db) c = Some ph"
  by (auto simp: stored_phase_def set_cluster_phase_def tbl_get_put split: option.splits)

lemma stored_phase_event [simp]: "stored_phase (record_event now n ord l msg db) c = stored_phase db c"
  by (simp add: stored_phase_def record_event_def)

text \<open>How an apply may end, for a store that was \<open>db\<close> when it began.\<close>

definition settled :: "cluster_id \<Rightarrow> registry \<Rightarrow> ('e + 'a) \<times> 'p world \<Rightarrow> bool" where
  "settled c db out = (case out of
      (Inr _, w) \<Rightarrow> stored_phase (wd_db w) c = Some ''running''
    | (Inl _, w) \<Rightarrow> wd_db w = db \<or> stored_phase (wd_db w) c = Some ''failed'')"

lemma settled_seq:
  assumes "obeys (within (\<lambda>_. True) (=)) m" "wd_db w = db" "\<And>x v. wd_db v = db \<Longrightarrow> settled c db (k x v)"
  shows "settled c db (seq m k w)"
proof -
  obtain res v where m: "m w = (res, v)" by (cases "m w")
  have "wd_db v = db" using within_same_db [OF obeysD [OF assms(1) m]] assms(2) by simp
  then show ?thesis using assms(3) by (cases res) (simp_all add: seq_def m settled_def)
qed

lemma store_then: "seq (store (\<lambda>now db. Inr (f now db))) k w = k () (w\<lparr> wd_db := f (now_ms w) (wd_db w) \<rparr>)"
  by (simp add: seq_def store_def write_db_def)

lemma record_apply_failure_db:
  "wd_db (snd (record_apply_failure c e w)) = record_event (now_ms w) (cluster_str c) None ''error''
     (''apply failed: '' @ show_control_error e) (set_cluster_phase (now_ms w) c ''failed'' (wd_db w))"
  by (simp add: record_apply_failure_def attempt_def store_def write_db_def note_ok now_ms_def ret_def)

lemma apply_outcome_phase:
  assumes "apply_outcome c g new out w = (r, w')" "tbl_ok (db_clusters (wd_db w))" "stored_phase (wd_db w) c \<noteq> None"
  shows "case r of Inr _ \<Rightarrow> stored_phase (wd_db w') c = Some ''running'' | Inl _ \<Rightarrow> stored_phase (wd_db w') c = Some ''failed''"
proof (cases out)
  case (Inl e)
  have "\<exists>v. record_apply_failure c e w = (Inr (), v)"
    by (simp add: record_apply_failure_def attempt_def ret_def split: prod.split)
  then have "r = Inl e" "w' = snd (record_apply_failure c e w)"
    using assms(1) Inl by (auto simp: apply_outcome_def seq_def fail_def)
  then show ?thesis using assms(2,3) by (simp add: record_apply_failure_db stored_phase_set)
next
  case (Inr s)
  then show ?thesis using assms by (auto simp: apply_outcome_def store_then note_then ret_def stored_phase_set)
qed

lemma apply_recorded_phase:
  assumes "attempt (apply_recorded cn m c b opts img) (apply_outcome c g new) w = (r, w')"
    "tbl_ok (db_clusters (wd_db w))" "stored_phase (wd_db w) c \<noteq> None"
  shows "case r of Inr _ \<Rightarrow> stored_phase (wd_db w') c = Some ''running'' | Inl _ \<Rightarrow> stored_phase (wd_db w') c = Some ''failed''"
proof -
  obtain out v where out: "apply_recorded cn m c b opts img w = (out, v)" "apply_outcome c g new out v = (r, w')"
    using assms(1) by (auto simp: attempt_def split: prod.splits)
  have "obeys (within (\<lambda>_. True) same_clusters) (apply_recorded cn m c b opts img)"
    by (rule apply_recorded_within) (simp_all add: row_write_clusters)
  from obeysD [OF this out(1)] have "same_clusters (wd_db w) (wd_db v)"
    by (auto simp: within_def dest: same_clusters_star)
  then show ?thesis using apply_outcome_phase [OF out(2)] assms(2,3) by (simp add: same_clusters_def stored_phase_def)
qed

lemma put_cluster_phase:
  assumes "put_cluster mc now m ph db = Inr (db', g)" "reg_ok db"
  shows "tbl_ok (db_clusters db') \<and> tbl_get (db_clusters db') (mc_name mc m) \<noteq> None"
  using put_cluster_Inr [OF assms] reg_okD(1) [OF assms(2)] by (auto simp: tbl_ok_put tbl_get_put)

lemma apply_to_settled:
  assumes "reg_ok (wd_db w)" "mc_name (cn_clusters cn) m = cluster_str c"
  shows "settled c (wd_db w) (apply_to cn m c b opts w)"
proof -
  have recorded: "settled c (wd_db w) (seq (store_get (\<lambda>now. put_cluster (cn_clusters cn) now m ''applying'')) (\<lambda>g.
      seq (note_event (cluster_str c) None ''info'' ''apply requested'') (\<lambda>_.
      attempt (apply_recorded cn m c b opts img) (apply_outcome c g new))) v)"
    if same: "wd_db v = wd_db w" for img new v
  proof (cases "put_cluster (cn_clusters cn) (now_ms v) m ''applying'' (wd_db v)")
    case (Inl e)
    then show ?thesis using same by (simp add: seq_def store_get_def write_db_def settled_def)
  next
    case (Inr x)
    obtain db' g where x: "x = (db', g)" by (cases x)
    note put = put_cluster_phase [OF Inr [unfolded x same] assms(1)]
    let ?v = "v\<lparr> wd_db := record_event (now_ms v) (cluster_str c) None ''info'' ''apply requested'' db' \<rparr>"
    obtain r w' where run: "attempt (apply_recorded cn m c b opts img) (apply_outcome c g new) ?v = (r, w')"
      by (cases "attempt (apply_recorded cn m c b opts img) (apply_outcome c g new) ?v")
    have "store_get (\<lambda>now. put_cluster (cn_clusters cn) now m ''applying'') v = (Inr g, v\<lparr> wd_db := db' \<rparr>)"
      using Inr x by (simp add: store_get_def write_db_def)
    then show ?thesis using apply_recorded_phase [OF run] put assms(2) run
      by (auto simp: seq_run [of _ v] note_then now_ms_def settled_def record_event_def stored_phase_def split: sum.splits)
  qed
  have pure: "obeys (within (\<lambda>_. True) (=)) (refuse_incompatible_image cn c m i)" for i
    by (rule refuse_incompatible_image_within) simp
  show ?thesis
    unfolding apply_to_def Let_def
    by ((rule settled_seq, (intro within_intros pure; simp), simp)+, rule recorded) simp
qed

section \<open>A running container\<close>

text \<open>The container that is there is taken as it is, or the command stops.\<close>

lemma settle_running:
  assumes "cp_running p" "\<not> ax_recreate ctx"
  shows "settle_container cn m inst ctx port (Some p) w =
    (and_then (refuse_if_diverged (cn_spec cn) m inst ctx p) (\<lambda>_. Inr (cp_id p)), w)"
  using assms by (simp add: settle_container_def Let_def ret_def fail_def split: sum.split)

text \<open>The requests that look, and the two that make what a re-apply may find missing.\<close>

fun harmless :: "call \<Rightarrow> bool" where
  "harmless (CallExists c) = True"
| "harmless (CallInspect c) = True"
| "harmless (CallVolumeExists v) = True"
| "harmless (CallVolumeInspect v) = True"
| "harmless (CallVolumeCreate v) = True"
| "harmless CallFreePort = True"
| "harmless _ = False"

lemma pod_Inr: "pod m w = (Inr x, w') \<longleftrightarrow> m w = (Inr x, w')"
  by (cases "m w"; cases "fst (m w)") (auto simp: pod_def act_err_def)

lemma seq_obeys_run:
  assumes "obeys (within A S) m" "\<And>w x w'. m w = (Inr x, w') \<Longrightarrow> within A S w' (snd (k x w'))"
  shows "obeys (within A S) (seq m k)"
proof (rule obeysI)
  fix w r w' assume run: "seq m k w = (r, w')"
  obtain res v where m: "m w = (res, v)" by (cases "m w")
  have wv: "within A S w v" by (rule obeysD [OF assms(1) m])
  then show "within A S w w'"
    using run m assms(2) [of w] within.trans [OF wv, of w'] by (cases res) (auto simp: seq_def)
qed

lemma cluster_id_of_str: "cluster_id_of m = Inr c \<Longrightarrow> mf_name m = cluster_str c"
  by (auto simp: cluster_id_of_def cluster_id_new_def split: if_splits sum.splits)

lemma apply_with_id:
  "cluster_id_of m = Inr c \<Longrightarrow> apply_with cn m opts w = apply_to cn m c (Initdb (sp_initdb (mf_spec m))) opts w"
  by (simp add: apply_with_def apply_with_bootstrap_def of_result_def seq_def [of "of_result _"])

lemma key_of_shows:
  "shows_version s a m \<Longrightarrow> 9 \<le> a \<Longrightarrow> a \<le> 42949671 \<Longrightarrow> m < 100 \<Longrightarrow> key_of s = word_of_nat (a * 100 + m)"
  by (simp add: key_of_def version_key_shows)

lemma key_of_eq:
  assumes "shows_version s a m" "9 \<le> a" "a \<le> 42949671" "m < 100"
    and "shows_version t b n" "9 \<le> b" "b \<le> 42949671" "n < 100"
  shows "key_of s = key_of t \<longleftrightarrow> a = b \<and> m = n"
proof -
  have fits: "unat (word_of_nat (x * 100 + y) :: 32 word) = x * 100 + y" if "x \<le> 42949671" "y < 100" for x y :: nat
    using that by (intro unat_u32) (simp add: u32_max_def)
  have "key_of s = key_of t \<longleftrightarrow> a * 100 + m = b * 100 + n"
    unfolding key_of_shows [OF assms(1-4)] key_of_shows [OF assms(5-8)]
    using fits [OF assms(3,4)] fits [OF assms(7,8)] by metis
  then show ?thesis using key_order(2) [OF assms(4,8)] by simp
qed

section \<open>Properties\<close>



text \<open>C14: An apply stays within its cluster.  Whatever it does and however it ends, the store
  satisfies its constraints afterwards, and the rows of every other cluster, of its instances and of all the
  poolers are what they were.\<close>

theorem apply_isolated:
  assumes "cluster_id_of m = Inr c" "mc_name (cn_clusters cn) m = mf_name m" "reg_ok (wd_db w)"
  shows "reg_ok (wd_db (snd (apply_with cn m opts w))) \<and> others_kept c (wd_db w) (wd_db (snd (apply_with cn m opts w)))"
proof -
  have "obeys (within (\<lambda>_. True) (cluster_write (cn_clusters cn) c)) (apply_to cn m c (Initdb (sp_initdb (mf_spec m))) opts)"
    using assms(2) cluster_id_of_str [OF assms(1)] by (intro apply_to_within) (simp_all add: cluster_writes(4))
  then show ?thesis
    using cluster_writes_keep assms(3) unfolding apply_with_id [OF assms(1)] obeys_def within_def by blast
qed

text \<open>A running instance is left alone.  As long as the engine reports the instance's container as
  running and no recreation was asked for, applying the instance looks at it, makes sure its volume and
  port are there, and nothing else: it is not started, stopped, removed or created again.\<close>

theorem running_instance_left_alone:
  assumes "\<And>w r w'. probe (cn_host cn) (container_name inst) w = (Inr r, w') \<Longrightarrow> \<exists>p. r = Some p \<and> cp_running p"
    and "\<not> ax_recreate ctx" "asked_for x w (snd (apply_instance cn m ctx inst w))"
  shows "harmless x"
proof -
  have settle: "within harmless (\<lambda>_ _. True) w' (snd (seq (settle_container cn m inst ctx port r) k w'))"
    if probed: "pod (probe (cn_host cn) (container_name inst)) w0 = (Inr r, w')" and rest: "\<And>x. obeys (within harmless (\<lambda>_ _. True)) (k x)"
    for w0 r w' k port
  proof -
    obtain p where "r = Some p" "cp_running p"
      using assms(1) [of w0] probed by (auto simp: pod_Inr)
    then show ?thesis using rest assms(2)
      by (auto simp: seq_def settle_running obeys_def within.refl split: sum.split)
  qed
  have "obeys (within harmless (\<lambda>_ _. True)) (apply_instance cn m ctx inst)"
    unfolding apply_instance_def Let_def
    by (intro within_intros seq_obeys_run settle) (auto intro!: within_intros)
  then show ?thesis using assms(3) by (rule asked_obeys)
qed

text \<open>Only the major version the data was written by is applied.  Whatever the two version texts look
  like, an apply goes on exactly when they name the same major version.\<close>

theorem only_same_major_applied:
  assumes "pr_data_version p = Some d" "shows_version d a i" "9 \<le> a" "a \<le> 42949671" "i < 100"
    and "shows_version (pr_version p) b j" "9 \<le> b" "b \<le> 42949671" "j < 100"
  shows "image_verdict c to p = Inr () \<longleftrightarrow> a = b \<and> i = j"
  using key_of_eq [OF assms(2-9)] assms(1)
  by (simp add: image_verdict_def)

section \<open>Witnesses\<close>

lemma demo_manifest_id: "cluster_id_of demo_manifest = Inr (ClusterId ''mydb'')"
  by code_simp

lemma demo_parameters: "validate_parameters demo_manifest = Inr ()"
  by code_simp

lemma demo_agent: "cn_agent demo_control = ''/srv/pgpod-agent''"
  by (simp add: demo_control_def)

lemma apply_to_asks:
  assumes "validate_parameters m = Inr ()"
  shows "asked_for (CallIsFile (cn_agent cn)) w (snd (apply_to cn m c b opts w))"
proof -
  have checked: "of_result (validate_parameters m) w = (Inr (), w)" by (simp add: of_result_def assms)
  have "asked_for (CallIsFile (cn_agent cn)) w (snd (agent_binary cn w))"
    unfolding agent_binary_def path_exists_def
    by (intro asked_seq asked_attempt within_intros)
       (auto simp: perform_def asked_for_def split: prod.split)
  then show ?thesis
    unfolding apply_to_def Let_def seq_run [of "of_result (validate_parameters m)" w, OF checked]
    by (rule asked_seq) (intro within_intros refuse_incompatible_image_within apply_recorded_within
        apply_outcome_within; simp)
qed



theorem apply_isolated_witness:
  "reg_ok (wd_db (snd (apply_with demo_control demo_manifest apply_options_default (demo_world [] empty_registry))))"
proof -
  have "reg_ok (wd_db (demo_world [] empty_registry))" by (simp add: demo_world_def empty_reg_ok)
  moreover have "mc_name (cn_clusters demo_control) demo_manifest = mf_name demo_manifest" by (simp add: demo_control_def)
  ultimately show ?thesis
    using apply_isolated [OF demo_manifest_id, where cn = demo_control and w = "demo_world [] empty_registry"
      and opts = apply_options_default] by blast
qed

definition steady_host :: "demo_podman host" where
  "steady_host = demo_host\<lparr> h_exists := \<lambda>c. answer True,
     h_inspect := \<lambda>c. answer (demo_inspect c [(c, True)]) \<rparr>"

definition steady_control :: "demo_podman control" where
  "steady_control = demo_control\<lparr> cn_host := steady_host \<rparr>"

theorem running_instance_left_alone_witness:
  "asked_for CallFreePort (demo_world [] demo_registry)
     (snd (apply_instance steady_control demo_manifest demo_context demo_instance (demo_world [] demo_registry))) \<and>
   harmless CallFreePort"
proof -
  let ?w = "demo_world [] demo_registry"
  have "get_instance (wd_db ?w) (iid_cluster demo_instance) (iid_ordinal demo_instance) = Inr None"
    unfolding demo_world_def demo_instance_def by code_simp
  moreover have "asked_for CallFreePort ?w (snd (allocate_port steady_host ?w :: (control_error + 16 word) \<times> _))"
    by (simp add: allocate_port_def steady_host_def act_defs demo_defs asked_for_def)
  ultimately have "asked_for CallFreePort ?w (snd (apply_instance steady_control demo_manifest demo_context demo_instance ?w))"
    unfolding apply_instance_def Let_def
    by (simp add: look_run steady_control_def)
       (erule asked_seq, intro within_intros settle_container_within; simp)
  moreover have "\<exists>p. r = Some p \<and> cp_running p"
    if "probe (cn_host steady_control) n w = (Inr r, w')" for n w r w'
    using that by (auto simp: probe_def steady_control_def steady_host_def act_defs demo_defs)
  ultimately show ?thesis
    using running_instance_left_alone [of steady_control demo_instance demo_context CallFreePort ?w demo_manifest]
    by (simp add: demo_context_def)
qed

theorem only_same_major_applied_witness:
  "image_verdict (ClusterId ''mydb'') ''postgres:18'' \<lparr> pr_version = ''postgres (PostgreSQL) 18.1'', pr_bindir = [],
     pr_data_version = Some ''18'' \<rparr> = Inr ()"
proof -
  have "show_nat 18 = ''18''" by code_simp
  then have eqs: "''18'' = [] @ show_nat 18 @ []"
    "''postgres (PostgreSQL) 18.1'' = ''postgres (PostgreSQL) '' @ show_nat 18 @ ''.1''" by simp_all
  then have "shows_version ''18'' 18 0"
    unfolding shows_version_def
    by (intro exI [where x = "[]"] conjI) (simp_all add: ends_version_def trim_end_def)
  moreover have "shows_version ''postgres (PostgreSQL) 18.1'' 18 0"
    unfolding shows_version_def
    by (rule exI [where x = "''postgres (PostgreSQL) ''"], rule exI [where x = "''.1''"])
       (use eqs in \<open>simp add: is_version_sep_def ends_version_def char_class_defs\<close>)
  ultimately show ?thesis by (subst only_same_major_applied [of _ "''18''" 18 0 18 0]) auto
qed

end
