(* ===== verification/Delete.thy ===== *)
theory Delete
  imports Apply
begin

text \<open>
  Deleting a cluster (\<^verbatim>\<open>pgpod-control/src/lib.rs\<close>: \<^verbatim>\<open>delete\<close>).  Without \<^verbatim>\<open>--purge\<close> it is a
  stop: the containers go, the volumes, secrets and rows stay, and the rows say so.  With it
  the data goes too, which is refused while a pooler fronts the cluster.
\<close>

record delete_report =
  dr_cluster :: string
  dr_containers_removed :: "string list"
  dr_volumes_removed :: "string list"
  dr_volumes_retained :: "string list"
  dr_poolers :: "string list"

definition fronted :: "cluster_id \<Rightarrow> string list \<Rightarrow> control_error" where
  "fronted c poolers = EInvalid (''cluster '' @ cluster_str c @ '' is still fronted by pooler '' @
     str_join '', '' poolers @ '', and --purge destroys its data. Delete the pooler first (`pgpod pooler delete '' @
     hd poolers @ ''`), or drop --purge to keep the volumes.'')"

definition remove_instance_container :: "'p host \<Rightarrow> instance_record \<Rightarrow> ('p, string option) ctl" where
  "remove_instance_container h r =
     (let name = in_container_name r in
      seq (pod (probe h name)) (\<lambda>p.
      if p = None then ret None
      else attempt (stop h name 30) (\<lambda>_.
        seq (pod (remove h name True)) (\<lambda>_. ret (Some name)))))"

definition destroy_volume :: "'p host \<Rightarrow> instance_record \<Rightarrow> ('p, string) ctl" where
  "destroy_volume h r = seq (pod (remove_volume_destroying_data h (in_volume_name r))) (\<lambda>_. ret (in_volume_name r))"

definition forget_secrets :: "'p host \<Rightarrow> cluster_id \<Rightarrow> ('p, unit) ctl" where
  "forget_secrets h c =
     seq (each (\<lambda>n. attempt (remove_secret h n) (\<lambda>_. ret ())) (secret_names_all (secret_names_for c))) (\<lambda>_.
     attempt (remove_secret h (pooler_lookup_secret c)) (\<lambda>_. ret ()))"

definition parked :: "instance_record \<Rightarrow> instance_record" where
  "parked r = r\<lparr> in_phase := InstStopped, in_container_id := None \<rparr>"

definition park_rows :: "cluster_id \<Rightarrow> instance_record list \<Rightarrow> ('p, unit) ctl" where
  "park_rows c rows =
     seq (each (\<lambda>r. store (\<lambda>now. put_instance now (parked r))) rows) (\<lambda>_.
     store (\<lambda>now db. Inr (set_cluster_phase now c ''stopped'' db)))"

definition delete_cluster_rows :: "cluster_id \<Rightarrow> ('p, unit) ctl" where
  "delete_cluster_rows c = store (\<lambda>now. delete_cluster c)"

definition removing :: "'p control \<Rightarrow> cluster_id \<Rightarrow> bool \<Rightarrow> 'm cluster_record \<Rightarrow> instance_record list \<Rightarrow> string list \<Rightarrow>
    ('p, delete_report) ctl" where
  "removing cn c purge rec rows poolers =
     (let h = cn_host cn in
      seq (each (remove_instance_container h) rows) (\<lambda>removed.
      seq (if purge then each (destroy_volume h) rows else ret []) (\<lambda>destroyed.
      attempt (remove_network h (network_name c)) (\<lambda>_.
      seq (if purge then seq (forget_secrets h c) (\<lambda>_. delete_cluster_rows c) else park_rows c rows) (\<lambda>_.
      seq (note_event (cl_name rec) None ''info''
         (if purge then ''cluster deleted and volumes purged'' else ''cluster deleted, volumes retained'')) (\<lambda>_.
      ret \<lparr> dr_cluster = cluster_str c, dr_containers_removed = List.map_filter id removed,
        dr_volumes_removed = destroyed,
        dr_volumes_retained = (if purge then [] else map in_volume_name rows),
        dr_poolers = poolers \<rparr>))))))"

definition delete :: "'p control \<Rightarrow> cluster_id \<Rightarrow> bool \<Rightarrow> ('p, delete_report) ctl" where
  "delete cn c purge =
     (let h = cn_host cn in
      seq (look (\<lambda>db. require_cluster (cn_clusters cn) db c)) (\<lambda>rec.
      seq (look (\<lambda>db. instances db c)) (\<lambda>rows.
      seq (look (\<lambda>db. poolers_for_cluster (cn_poolers cn) db c)) (\<lambda>ps.
      let poolers = map po_name ps in
      if purge \<and> poolers \<noteq> [] then fail (fronted c poolers)
      else removing cn c purge rec rows poolers))))"

section \<open>What a deletion may ask for\<close>

fun delete_call :: "bool \<Rightarrow> cluster_id \<Rightarrow> instance_record list \<Rightarrow> call \<Rightarrow> bool" where
  "delete_call purge c rows (CallStop d secs) \<longleftrightarrow> d \<in> in_container_name ` set rows"
| "delete_call purge c rows (CallDelete d force) \<longleftrightarrow> d \<in> in_container_name ` set rows"
| "delete_call purge c rows (CallExists d) \<longleftrightarrow> d \<in> in_container_name ` set rows"
| "delete_call purge c rows (CallInspect d) \<longleftrightarrow> d \<in> in_container_name ` set rows"
| "delete_call purge c rows (CallVolumeDelete v) \<longleftrightarrow> purge \<and> v \<in> in_volume_name ` set rows"
| "delete_call purge c rows (CallNetworkDelete n) \<longleftrightarrow> n = network_name c"
| "delete_call purge c rows CallSecretList \<longleftrightarrow> purge"
| "delete_call purge c rows (CallSecretDelete n) \<longleftrightarrow>
     purge \<and> (n \<in> set (secret_names_all (secret_names_for c)) \<or> n = pooler_lookup_secret c)"
| "delete_call purge c rows _ \<longleftrightarrow> False"

lemma remove_instance_container_within [within_intros]:
  assumes "\<And>d. d = in_container_name r \<Longrightarrow> A (CallExists d) \<and> A (CallInspect d) \<and> A (CallStop d 30) \<and> A (CallDelete d True)"
  shows "obeys (within A S) (remove_instance_container h r)"
  unfolding remove_instance_container_def Let_def by (intro within_intros) (simp_all add: assms)

lemma destroy_volume_within [within_intros]:
  "A (CallVolumeDelete (in_volume_name r)) \<Longrightarrow> obeys (within A S) (destroy_volume h r)"
  unfolding destroy_volume_def by (intro within_intros)

lemma forget_secrets_within [within_intros]:
  "(\<And>n. n \<in> set (cluster_secrets c) \<Longrightarrow> A (CallSecretDelete n)) \<Longrightarrow> obeys (within A S) (forget_secrets h c)"
  unfolding forget_secrets_def
  by (intro within_intros within.each) (auto simp: cluster_secrets_def)

lemma park_rows_within:
  assumes "\<And>r. r \<in> set rows \<Longrightarrow> in_cluster r = cluster_str c" "\<And>db db'. cluster_write mc c db db' \<Longrightarrow> S db db'"
  shows "obeys (within A S) (park_rows c rows)"
  unfolding park_rows_def
  by (intro within_intros within.each)
     (auto intro!: assms(2) cluster_writes(3) intro: cluster_writes(1) [OF row_write_put] simp: parked_def assms(1))

text \<open>After the checks have passed.\<close>

lemma delete_run:
  assumes "require_cluster (cn_clusters cn) (wd_db w) c = Inr rec" "instances (wd_db w) c = Inr rows"
    "poolers_for_cluster (cn_poolers cn) (wd_db w) c = Inr ps" "\<not> (purge \<and> ps \<noteq> [])"
  shows "delete cn c purge w = removing cn c purge rec rows (map po_name ps) w"
  using assms by (auto simp: delete_def Let_def look_run)

lemma delete_checks:
  assumes "delete cn c purge w = (r, w')"
  obtains e where "r = Inl e" "w' = w"
  | rec rows ps where "require_cluster (cn_clusters cn) (wd_db w) c = Inr rec" "instances (wd_db w) c = Inr rows"
    "poolers_for_cluster (cn_poolers cn) (wd_db w) c = Inr ps" "\<not> (purge \<and> ps \<noteq> [])"
    "removing cn c purge rec rows (map po_name ps) w = (r, w')"
proof (cases "require_cluster (cn_clusters cn) (wd_db w) c")
  case (Inl e)
  then show ?thesis using assms that(1) by (auto simp: delete_def Let_def look_stop)
next
  case rec: (Inr rec)
  show ?thesis
  proof (cases "instances (wd_db w) c")
    case (Inl e)
    then show ?thesis using assms that(1) rec by (auto simp: delete_def Let_def look_run look_stop)
  next
    case rows: (Inr rows)
    show ?thesis
    proof (cases "poolers_for_cluster (cn_poolers cn) (wd_db w) c")
      case (Inl e)
      then show ?thesis using assms that(1) rec rows by (auto simp: delete_def Let_def look_run look_stop)
    next
      case (Inr ps)
      then show ?thesis using assms that rec rows
        by (cases "purge \<and> ps \<noteq> []") (auto simp: delete_def Let_def look_run fail_def)
    qed
  qed
qed

section \<open>What the rows say afterwards\<close>

lemma put_instance_rows:
  assumes "reg_ok db" "instances db c = Inr rs" "put_instance now r db = Inr db'" "in_cluster r = cluster_str c"
  shows "\<exists>rs'. instances db' c = Inr rs' \<and> set rs' = insert r {x \<in> set rs. in_ordinal x \<noteq> in_ordinal r}"
proof -
  have ok: "reg_ok db'" by (rule put_instance_ok [OF assms(1,3)])
  then obtain rs' where rs': "instances db' c = Inr rs'" using instances_read by blast
  have reread: "read_instance (cluster_str c, in_ordinal r) (row_of_instance n r) = r" for n
    using instance_of_row_of [of r n] assms(4) by (simp add: read_instance_def)
  have "x \<in> set rs' \<longleftrightarrow> x = r \<or> x \<in> set rs \<and> in_ordinal x \<noteq> in_ordinal r" for x
    unfolding instances_mem [OF ok rs'] instances_mem [OF assms(1,2)]
    using assms(3,4) reg_okD(2) [OF assms(1)]
    by (auto simp: put_instance_def Let_def tbl_get_put reread split: if_splits)
  then show ?thesis using rs' by blast
qed

lemma store_seq:
  "seq (store f) k w = (case f (now_ms w) (wd_db w) of
     Inl e \<Rightarrow> (Inl (ERegistry e), w) | Inr db \<Rightarrow> k () (w\<lparr> wd_db := db \<rparr>))"
  by (simp add: seq_def store_def write_db_def split: sum.split)

lemma park_each:
  assumes "each (\<lambda>r. store (\<lambda>now. put_instance now (parked r))) todo w = (Inr us, w')"
    and "reg_ok (wd_db w)" "instances (wd_db w) c = Inr rs" "\<forall>r\<in>set todo. in_cluster r = cluster_str c"
  shows "reg_ok (wd_db w') \<and> db_clusters (wd_db w') = db_clusters (wd_db w) \<and>
    (\<exists>rs'. instances (wd_db w') c = Inr rs' \<and> (\<forall>x\<in>set rs'. x \<in> set rs \<and> in_ordinal x \<notin> in_ordinal ` set todo \<or> x \<in> parked ` set todo) \<and>
      in_ordinal ` (set rs \<union> set todo) = in_ordinal ` set rs')"
  using assms
proof (induction todo arbitrary: w rs us)
  case Nil
  then show ?case by (auto simp: ret_def)
next
  case (Cons r todo)
  let ?f = "\<lambda>r. store (\<lambda>now. put_instance now (parked r))"
  from Cons.prems(1) obtain db vs where put: "put_instance (now_ms w) (parked r) (wd_db w) = Inr db"
    and rest: "each ?f todo (w\<lparr> wd_db := db \<rparr>) = (Inr vs, w')"
    by (auto simp: store_seq seq_def [of "each _ _"] ret_def split: sum.splits prod.splits)
  have same: "db_clusters db = db_clusters (wd_db w)"
    using put by (auto simp: put_instance_def Let_def split: if_splits)
  have "in_cluster (parked r) = cluster_str c" using Cons.prems(4) by (simp add: parked_def)
  from put_instance_rows [OF Cons.prems(2,3) put this] obtain rs1 where rs1: "instances db c = Inr rs1"
    "set rs1 = insert (parked r) {x \<in> set rs. in_ordinal x \<noteq> in_ordinal r}"
    by (auto simp: parked_def)
  have ok: "reg_ok db" by (rule put_instance_ok [OF Cons.prems(2) put])
  from Cons.IH [OF rest, of rs1] ok rs1(1) Cons.prems(4) obtain rs' where rs': "reg_ok (wd_db w')"
    "db_clusters (wd_db w') = db_clusters db" "instances (wd_db w') c = Inr rs'"
    "\<forall>x\<in>set rs'. x \<in> set rs1 \<and> in_ordinal x \<notin> in_ordinal ` set todo \<or> x \<in> parked ` set todo"
    "in_ordinal ` (set rs1 \<union> set todo) = in_ordinal ` set rs'" by auto
  have "in_ordinal ` (set rs \<union> set (r # todo)) = in_ordinal ` set rs'"
    unfolding rs'(5) [symmetric] rs1(2) by (auto simp: parked_def image_iff)
  moreover have "\<forall>x\<in>set rs'. x \<in> set rs \<and> in_ordinal x \<notin> in_ordinal ` set (r # todo) \<or> x \<in> parked ` set (r # todo)"
    using rs'(4) unfolding rs1(2) by auto
  ultimately show ?case using rs' same by auto
qed

lemma park_rows_result:
  assumes "park_rows c rows w = (Inr u, w')" "reg_ok (wd_db w)" "instances (wd_db w) c = Inr rows"
  shows "\<exists>rows'. instances (wd_db w') c = Inr rows' \<and> set rows' = parked ` set rows \<and>
    (stored_phase (wd_db w) c \<noteq> None \<longrightarrow> stored_phase (wd_db w') c = Some ''stopped'')"
proof -
  obtain us v where each: "each (\<lambda>r. store (\<lambda>now. put_instance now (parked r))) rows w = (Inr us, v)"
    and w': "w' = v\<lparr> wd_db := set_cluster_phase (now_ms v) c ''stopped'' (wd_db v) \<rparr>"
    using assms(1) by (auto simp: park_rows_def seq_def [of "each _ _"] store_def write_db_def split: sum.splits prod.splits)
  have mem: "\<forall>r\<in>set rows. in_cluster r = cluster_str c" using instances_row [OF assms(3)] by blast
  have uniq: "r = s" if "r \<in> set rows" "s \<in> set rows" "in_ordinal r = in_ordinal s" for r s
    using instances_ordinals [OF assms(2,3)] that
    by (metis (no_types, lifting) strict_sorted_iff distinct_map inj_onD)
  from park_each [OF each assms(2,3) mem] obtain rows' where *: "reg_ok (wd_db v)"
    "db_clusters (wd_db v) = db_clusters (wd_db w)" "instances (wd_db v) c = Inr rows'"
    "\<forall>x\<in>set rows'. x \<in> parked ` set rows" "in_ordinal ` set rows = in_ordinal ` set rows'" by auto
  have "parked r \<in> set rows'" if r: "r \<in> set rows" for r
  proof -
    obtain x where x: "x \<in> set rows'" "in_ordinal x = in_ordinal r" using *(5) r by (metis imageE imageI)
    then obtain s where "s \<in> set rows" "x = parked s" using *(4) by auto
    then show ?thesis using uniq [of s r] x r by (simp add: parked_def)
  qed
  then have "set rows' = parked ` set rows" using *(4) by auto
  moreover have "instances (wd_db w') c = Inr rows'"
    using *(3) by (simp add: w' instances_def set_cluster_phase_def split: option.split)
  moreover have "stored_phase (wd_db w') c = Some ''stopped''" if "stored_phase (wd_db w) c \<noteq> None"
    using stored_phase_set [OF reg_okD(1) [OF *(1)], of c] that *(2) by (simp add: w' stored_phase_def)
  ultimately show ?thesis by blast
qed

lemma kept_then: "obeys (within (\<lambda>_. True) (=)) m \<Longrightarrow> seq m k w = (Inr y, w') \<Longrightarrow>
    (\<And>x v. m w = (Inr x, v) \<Longrightarrow> wd_db v = wd_db w \<Longrightarrow> k x v = (Inr y, w') \<Longrightarrow> thesis) \<Longrightarrow> thesis"
  by (cases "m w") (auto simp: seq_def split: sum.splits dest: obeysD within_same_db)

lemma removing_rows:
  assumes "removing cn c purge rec rows ps w = (Inr rep, w')" "reg_ok (wd_db w)" "instances (wd_db w) c = Inr rows"
  shows "if purge then stored_phase (wd_db w') c = None \<and> instances (wd_db w') c = Inr []
    else (\<exists>rows'. instances (wd_db w') c = Inr rows' \<and> set rows' = parked ` set rows) \<and>
      (stored_phase (wd_db w) c \<noteq> None \<longrightarrow> stored_phase (wd_db w') c = Some ''stopped'')"
proof -
  let ?h = "cn_host cn"
  have o1: "obeys (within (\<lambda>_. True) (=)) (each (remove_instance_container ?h) rows)"
    by (intro within.each within_intros) simp
  have o2: "obeys (within (\<lambda>_. True) (=)) (if purge then each (destroy_volume ?h) rows else ret [])"
    by (intro within.each within_intros) simp
  have o3: "obeys (within (\<lambda>_. True) (=)) (remove_network ?h (network_name c))" by (intro within_intros) simp
  have o4: "obeys (within (\<lambda>_. True) (=)) (forget_secrets ?h c)" by (intro within_intros) simp
  obtain v u where v: "wd_db v = wd_db w"
    "(if purge then seq (forget_secrets ?h c) (\<lambda>_. delete_cluster_rows c) else park_rows c rows) v = (Inr (), u)"
    "wd_db w' = record_event (now_ms u) (cl_name rec) None ''info''
       (if purge then ''cluster deleted and volumes purged'' else ''cluster deleted, volumes retained'') (wd_db u)"
    using assms(1) unfolding removing_def Let_def
    by - (erule kept_then [OF o1], erule kept_then [OF o2],
      auto simp: attempt_def seq_def [of "if purge then _ else _"] note_then ret_def
        dest!: obeysD [OF o3] within_same_db split: prod.splits sum.splits)
  have phase: "stored_phase (wd_db w') c = stored_phase (wd_db u) c" "instances (wd_db w') c = instances (wd_db u) c"
    using v(3) by (simp_all add: record_event_def stored_phase_def instances_def)
  show ?thesis
  proof (cases purge)
    case True
    with v(2) obtain v1 where v1: "wd_db v1 = wd_db v" "delete_cluster_rows c v1 = (Inr (), u)"
      by (auto elim: kept_then [OF o4])
    then obtain db where "delete_cluster c (wd_db w) = Inr db" "wd_db u = db"
      using v(1) by (auto simp: delete_cluster_rows_def store_def write_db_def split: sum.splits)
    then show ?thesis using True unfolding phase
      by (auto dest!: delete_cluster_Inr simp: stored_phase_def instances_def tbl_get_del)
        (simp add: tbl_del_def split_def)
  next
    case False
    then show ?thesis unfolding phase using park_rows_result [of c rows v "()" u] v assms(2,3) by auto
  qed
qed

section \<open>Properties\<close>

text \<open>A purge of a cluster that a pooler fronts is refused before anything happened: the answer is
  an error, no request was made and the store is what it was.\<close>

theorem purge_refused_when_fronted:
  assumes "pooler_names_for_cluster (wd_db w) c \<noteq> []"
  shows "\<exists>e. delete cn c True w = (Inl e, w)"
proof (cases "\<exists>e. delete cn c True w = (Inl e, w)")
  case False
  obtain r w' where run: "delete cn c True w = (r, w')" by (cases "delete cn c True w")
  show ?thesis using run
  proof (rule delete_checks)
    fix rec rows and ps :: "pooler_manifest pooler_record list"
    assume "poolers_for_cluster (cn_poolers cn) (wd_db w) c = Inr ps" "\<not> (True \<and> ps \<noteq> [])"
    then show ?thesis using assms by (auto simp: poolers_for_cluster_def try_map_ok)
  qed (use run in auto)
qed

text \<open>C7: What a deletion may ask of the engine.  It creates nothing; it stops and removes the containers of the
  cluster's rows only; a volume is destroyed only by a purge, and only one that a row of the cluster names, which
  the archive volume is not; and the secrets it removes are those of the cluster, its pooler credential included.\<close>

theorem delete_requests:
  assumes "instances (wd_db w) c = Inr rows" "asked_for x w (snd (delete cn c purge w))"
  shows "delete_call purge c rows x"
proof -
  obtain r w' where run: "delete cn c purge w = (r, w')" by (cases "delete cn c purge w")
  show ?thesis using run
  proof (rule delete_checks)
    fix e assume "w' = w"
    then show ?thesis using assms(2) run by (simp add: asked_for_def)
  next
    fix rec :: "cluster_manifest cluster_record" and rows' ps
    assume *: "instances (wd_db w) c = Inr rows'" "removing cn c purge rec rows' ps w = (r, w')"
    have "obeys (within (delete_call purge c rows) (\<lambda>_ _. True)) (removing cn c purge rec rows ps)"
      unfolding removing_def delete_cluster_rows_def park_rows_def Let_def
      by (intro within_intros within.each) (auto simp: cluster_secrets_def)
    moreover have "asked_for x w (snd (removing cn c purge rec rows ps w))" using assms run * by simp
    ultimately show ?thesis by (rule asked_obeys)
  qed
qed

text \<open>After a deletion the store tells the truth about what is left.  A purge leaves no row of the cluster
  or its instances; without it every instance row is kept with its volume and port, as stopped
  and without a container, and the cluster is stored as stopped.\<close>

theorem delete_leaves_rows:
  assumes "delete cn c purge w = (Inr rep, w')" "reg_ok (wd_db w)" "instances (wd_db w) c = Inr rows"
  shows "if purge then stored_phase (wd_db w') c = None \<and> instances (wd_db w') c = Inr []
    else (\<exists>rows'. instances (wd_db w') c = Inr rows' \<and> set rows' = parked ` set rows) \<and>
      stored_phase (wd_db w') c = Some ''stopped''"
  using assms(1)
proof (rule delete_checks)
  fix rec rows' and ps :: "pooler_manifest pooler_record list"
  assume *: "require_cluster (cn_clusters cn) (wd_db w) c = Inr rec" "instances (wd_db w) c = Inr rows'"
    "removing cn c purge rec rows' (map po_name ps) w = (Inr rep, w')"
  have "stored_phase (wd_db w) c \<noteq> None"
    using *(1) by (auto simp: require_cluster_def get_cluster_def stored_phase_def split: option.splits)
  then show ?thesis using removing_rows [OF *(3) assms(2) *(2)] *(2) assms(3) by auto
qed simp

section \<open>Witnesses\<close>

lemma pooled_world_db: "wd_db pooled_world = pooled_registry"
  by (simp add: pooled_world_def demo_world_def)

theorem purge_refused_when_fronted_witness:
  "\<exists>e. delete demo_control (ClusterId ''mydb'') True pooled_world = (Inl e, pooled_world)"
  by (rule purge_refused_when_fronted) (simp add: pooled_world_db pooled_names)

lemma boot_rows: "instances (wd_db boot_world) (ClusterId ''mydb'') = Inr [boot_instance]"
  unfolding boot_world_simps by code_simp

theorem delete_requests_witness:
  "CallDelete ''pgpod-mydb-1'' True \<in> set (wd_calls (snd (delete demo_control (ClusterId ''mydb'') False boot_world))) \<and>
   delete_call False (ClusterId ''mydb'') [boot_instance] (CallDelete ''pgpod-mydb-1'' True)"
proof -
  let ?w = "snd (delete demo_control (ClusterId ''mydb'') False boot_world)"
  have "list_ex (\<lambda>x. case x of CallDelete v f \<Rightarrow> v = ''pgpod-mydb-1'' \<and> f | _ \<Rightarrow> False) (wd_calls ?w)"
    by code_simp
  then obtain x where x: "x \<in> set (wd_calls ?w)"
    "case x of CallDelete v f \<Rightarrow> v = ''pgpod-mydb-1'' \<and> f | _ \<Rightarrow> False" by (auto simp: list_ex_iff)
  from x(2) have "x = CallDelete ''pgpod-mydb-1'' True" by (simp split: call.split_asm)
  with x have *: "CallDelete ''pgpod-mydb-1'' True \<in> set (wd_calls ?w)" by simp
  then have "asked_for (CallDelete ''pgpod-mydb-1'' True) boot_world ?w"
    by (simp add: asked_for_def)
  with delete_requests [OF boot_rows this] * show ?thesis by blast
qed

theorem delete_leaves_rows_witness:
  "\<exists>rep w'. delete demo_control (ClusterId ''mydb'') False boot_world = (Inr rep, w') \<and>
     (\<exists>rows'. instances (wd_db w') (ClusterId ''mydb'') = Inr rows' \<and> set rows' = {parked boot_instance}) \<and>
     stored_phase (wd_db w') (ClusterId ''mydb'') = Some ''stopped''"
proof -
  have "is_ok (fst (delete demo_control (ClusterId ''mydb'') False boot_world))"
    by code_simp
  then obtain rep w' where run: "delete demo_control (ClusterId ''mydb'') False boot_world = (Inr rep, w')"
    by (cases "delete demo_control (ClusterId ''mydb'') False boot_world") (auto simp: is_ok_iff)
  have "reg_ok (wd_db boot_world)" using boot_registry_ok by simp
  from delete_leaves_rows [OF run this boot_rows] run show ?thesis by simp
qed

end
