(* ===== verification/PoolerApply.thy ===== *)
theory PoolerApply
  imports Delete
begin

text \<open>
  Applying and deleting a pooler (\<^verbatim>\<open>pgpod-control/src/pooler.rs\<close>: \<^verbatim>\<open>apply_pooler\<close>,
  \<^verbatim>\<open>ensure_pooler_role\<close>, \<^verbatim>\<open>pooler_container_spec\<close>, \<^verbatim>\<open>refuse_if_pooler_diverged\<close>, \<^verbatim>\<open>delete_pooler\<close>).
  The clusters are resolved to pools, the lookup role of each is made, and only then is anything
  recorded or created.
\<close>

section \<open>Messages\<close>

fun show_resolve_error :: "resolve_error \<Rightarrow> string" where
  "show_resolve_error (NoDefaultDatabase c) = ''cluster '' @ debug_str c @ '' has no bootstrap.initdb.database, so there is '' @
     ''no default pool to create '' @ em_dash @ '' name the databases explicitly under spec.clusters[].pools''"
| "show_resolve_error (Collision name a b both) =
     (let head = ''two pools would both be named '' @ debug_str name @ '' '' @ em_dash @ '' one on cluster '' @ debug_str a @
        '' and one on '' @ debug_str b @
        ''. A client picks a pool by putting that name in `dbname`, so it has to be unique.'' in
      if \<not> both then head @ '' Set `as:` on one of them.''
      else head @ nl @ nl @ ''Neither was written down: a cluster with no `pools:` exports '' @
        ''its application database under the database's own name, and both of '' @
        ''these are called '' @ debug_str name @ ''. Name them explicitly:'' @ nl @ nl @ ''  clusters:'' @ nl @
        ''    - cluster: '' @ a @ nl @ ''      pools: [{ database: '' @ name @ '', as: '' @ a @ ''-'' @ name @ '' }]'' @ nl @
        ''    - cluster: '' @ b @ nl @ ''      pools: [{ database: '' @ name @ '', as: '' @ b @ ''-'' @ name @ '' }]'')"

definition pool_line :: "pool_target \<Rightarrow> string" where
  "pool_line p = pt_name p @ '' -> '' @ pt_cluster p @ ''/'' @ pt_database p"

definition pooler_differences :: "pooler_spec \<Rightarrow> pooler_spec \<Rightarrow> string list" where
  "pooler_differences running desired =
     (let before = sort (map pool_line (ps_pools running)); after = sort (map pool_line (ps_pools desired));
          out =
            (if ps_pool_mode running \<noteq> ps_pool_mode desired
             then [''  poolMode: '' @ pool_mode_as_str (ps_pool_mode running) @ '' -> '' @ pool_mode_as_str (ps_pool_mode desired)] else []) @
            (if ps_pool_size running \<noteq> ps_pool_size desired
             then [''  poolSize: '' @ show_nat (unat (ps_pool_size running)) @ '' -> '' @ show_nat (unat (ps_pool_size desired))] else []) @
            (if ps_max_hold running \<noteq> ps_max_hold desired
             then [''  maxHold: '' @ render_duration (ps_max_hold running) @ '' -> '' @ render_duration (ps_max_hold desired)] else []) @
            (if ps_parameters running \<noteq> ps_parameters desired
             then [''  parameters: '' @ debug_list debug_pair (ps_parameters running) @ '' -> '' @
                   debug_list debug_pair (ps_parameters desired)] else []) @
            map (\<lambda>g. ''  pool removed: '' @ g) (filter (\<lambda>p. p \<notin> set after) before) @
            map (\<lambda>a. ''  pool added:   '' @ a) (filter (\<lambda>p. p \<notin> set before) after)
      in if out = [] then [''  the specs differ in a field this message does not break out''] else out)"

section \<open>The spec\<close>

definition cluster_ref :: "string \<Rightarrow> control_error + cluster_id" where
  "cluster_ref s = map_err (\<lambda>e. EInvalid (''spec.clusters: '' @ show_id_error e)) (cluster_id_new s)"

definition pooler_input :: "'p control \<Rightarrow> pooler_id \<Rightarrow> pooler_cluster_ref \<Rightarrow> ('p, cluster_pools) ctl" where
  "pooler_input cn p entry =
     seq (of_result (cluster_ref (pcr_cluster entry))) (\<lambda>c.
     seq (look (\<lambda>db. get_cluster (cn_clusters cn) db c)) (\<lambda>r. case r of
        None \<Rightarrow> fail (EInvalid (''pooler '' @ pooler_str p @ '' fronts cluster '' @ cluster_str c @
          '', which pgpod does not know about '' @ em_dash @ '' apply the cluster first''))
      | Some rec \<Rightarrow> ret \<lparr> cp_cluster = pcr_cluster entry,
          cp_default_database = ib_database (sp_initdb (mf_spec (cl_manifest rec))), cp_declared = pcr_pools entry \<rparr>))"

definition pool_row_of :: "resolved_pool \<Rightarrow> pooler_pool" where
  "pool_row_of r = \<lparr> pp_cluster = rp_cluster r, pp_database = rp_database r, pp_pool_name = rp_name r \<rparr>"

definition pooler_spec_of :: "pooler_manifest \<Rightarrow> pooler_id \<Rightarrow> resolved_pool list \<Rightarrow> pooler_spec" where
  "pooler_spec_of m p resolved = \<lparr> ps_pooler = p, ps_port = 6432, ps_pools = map pool_target_of resolved,
     ps_pool_mode = pd_pool_mode (pm_pg_doorman m), ps_pool_size = pd_pool_size (pm_pg_doorman m),
     ps_max_hold = pd_max_hold (pm_pg_doorman m), ps_parameters = pd_parameters (pm_pg_doorman m) \<rparr>"

definition show_pooler_error :: "pooler_error \<Rightarrow> string" where
  "show_pooler_error e = (case e of
      PoolerSpecError i \<Rightarrow> show_pooler_inconsistent i
    | Poolers.ReservedParameter k \<Rightarrow> ''spec.pgDoorman.parameters: '' @ debug_str k @ '' is managed by pgpod and cannot be set here''
    | MissingSecret p \<Rightarrow> p)"

definition check_pooler_spec :: "pooler_spec \<Rightarrow> control_error + unit" where
  "check_pooler_spec spec =
     and_then (map_err (\<lambda>e. EInvalid (show_pooler_error e)) (validate_pooler_parameters spec)) (\<lambda>_.
     spec_err (map_err SpecPoolerInconsistent (validate_pooler_spec spec)))"

section \<open>The lookup role\<close>

definition make_lookup_role :: "'p host \<Rightarrow> cluster_id \<Rightarrow> string \<Rightarrow> string \<Rightarrow> ('p, unit) ctl" where
  "make_lookup_role h c container statement =
     seq (pod (exec h container (psql_command statement))) (\<lambda>out.
     if exec_success out then ret ()
     else fail (EInvalid (''could not create the pooler lookup role on '' @ cluster_str c @ '': '' @ trim (eo_stderr out))))"

definition ensure_pooler_role :: "'p host \<Rightarrow> cluster_id \<Rightarrow> ('p, unit) ctl" where
  "ensure_pooler_role h c =
     seq (pod (secret_exists h (pooler_lookup_secret c))) (\<lambda>there.
     if there then ret ()
     else seq (generate h) (\<lambda>password.
       seq (act_err (\<lambda>e. EInvalid (''cluster '' @ cluster_str c @ '' must be running to apply a pooler to it '' @ em_dash @
              '' the lookup role is created inside the instance: '' @ show_control_error e))
            (running_container h (mk_instance c 1))) (\<lambda>container.
       seq (of_result (map_err (\<lambda>e. EPostgres (show_pg_error e)) (pooler_lookup_sql password))) (\<lambda>statements.
       seq (each (make_lookup_role h c container) statements) (\<lambda>_.
       pod (put_secret h (pooler_lookup_secret c) password))))))"

section \<open>The container\<close>

definition pooler_spec_env :: string where "pooler_spec_env = ''PGPOD_POOLER_SPEC''"

definition pooler_dir :: string where "pooler_dir = ''/pooler''"

definition lookup_secret_path :: "nat \<Rightarrow> string" where
  "lookup_secret_path i = ''/run/secrets/pgpod-pooler-lookup-'' @ show_nat i"

definition pooler_secret :: "pooler_manifest \<Rightarrow> string \<Rightarrow> string \<Rightarrow> secret_mount" where
  "pooler_secret m name target = \<lparr> sm_name = name, sm_target = target, sm_mode = 0x100, sm_uid = pm_uid m, sm_gid = pm_gid m \<rparr>"

text \<open>The first pool of each index decides whose credential is mounted there.\<close>

fun lookup_mounts :: "pooler_manifest \<Rightarrow> nat set \<Rightarrow> pool_target list \<Rightarrow> secret_mount list" where
  "lookup_mounts m mounted [] = []"
| "lookup_mounts m mounted (t # ts) =
     (if pt_lookup_secret_index t \<in> mounted then lookup_mounts m mounted ts
      else pooler_secret m (pooler_lookup_secret (ClusterId (pt_cluster t))) (lookup_secret_path (pt_lookup_secret_index t)) #
        lookup_mounts m (insert (pt_lookup_secret_index t) mounted) ts)"

definition pooler_to_env :: "'p control \<Rightarrow> pooler_spec \<Rightarrow> control_error + string" where
  "pooler_to_env cn spec = spec_err (and_then (map_err SpecPoolerInconsistent (validate_pooler_spec spec)) (\<lambda>_.
     map_err SpecMalformed (cn_pooler_encode cn spec)))"

definition stored_names :: "string list \<Rightarrow> control_error + unit" where
  "stored_names = try_each (\<lambda>s. map_err (\<lambda>e. EInvalid (''stored cluster name: '' @ show_id_error e))
     (and_then (cluster_id_new s) (\<lambda>_. Inr ())))"

definition pooler_container :: "string \<Rightarrow> pooler_manifest \<Rightarrow> pooler_spec \<Rightarrow> 16 word \<Rightarrow> string \<Rightarrow> string \<Rightarrow>
    container_spec" where
  "pooler_container agent m spec port admin env =
     (let p = ps_pooler spec; c = hardened (pm_image_name m);
          c = with_name (pooler_container_name p) c;
          c = with_hostname (pooler_container_name p) c;
          c = with_user (show_nat (unat (pm_uid m)) @ '':'' @ show_nat (unat (pm_gid m))) c;
          c = with_entrypoint [agent_bin, ''pooler'', ''run''] c;
          c = with_env pooler_spec_env env c;
          c = with_publish (loopback port 6432) c;
          c = with_mount (Tmpfs pooler_dir) c;
          c = with_mount (BindReadOnly agent agent_bin) c;
          c = with_secret (pooler_secret m admin secret_pooler_admin) c;
          c = fold (\<lambda>s. with_network (network_name (ClusterId s))) (spec_clusters spec) c;
          c = fold with_secret (lookup_mounts m {} (ps_pools spec)) c
      in fold with_label (pooler_labels p (spec_clusters spec)) c)"

text \<open>The clusters whose credentials are mounted are among those whose networks are joined,
  so one check of the stored names stands for both loops.\<close>

definition pooler_container_spec :: "'p control \<Rightarrow> pooler_manifest \<Rightarrow> pooler_spec \<Rightarrow> string \<Rightarrow> 16 word \<Rightarrow> string \<Rightarrow>
    control_error + container_spec" where
  "pooler_container_spec cn m spec agent port admin =
     and_then (pooler_to_env cn spec) (\<lambda>env.
     and_then (stored_names (spec_clusters spec)) (\<lambda>_.
     Inr (pooler_container agent m spec port admin env)))"

definition refuse_if_pooler_diverged :: "'p control \<Rightarrow> pooler_id \<Rightarrow> pooler_spec \<Rightarrow> container_probe \<Rightarrow>
    control_error + unit" where
  "refuse_if_pooler_diverged cn p desired found =
     (case env_var found pooler_spec_env of
        None \<Rightarrow> Inl (EPoolerDiverged (pooler_str p) (''the running container has no '' @ pooler_spec_env))
      | Some raw \<Rightarrow> and_then (spec_err (map_err SpecMalformed (cn_pooler_decode cn raw))) (\<lambda>running.
          if running = desired then Inr ()
          else Inl (EPoolerDiverged (pooler_str p) (str_join nl (pooler_differences running desired)))))"

section \<open>Applying\<close>

record pool_summary =
  pl_name :: string
  pl_cluster :: string
  pl_database :: string
  pl_connection_uri :: string

record pooler_report =
  pq_pooler :: string
  pq_generation :: int
  pq_created :: bool
  pq_container :: string
  pq_host_port :: "16 word"
  pq_pools :: "pool_summary list"

definition pool_summary_of :: "16 word \<Rightarrow> pool_target \<Rightarrow> pool_summary" where
  "pool_summary_of port p = \<lparr> pl_name = pt_name p, pl_cluster = pt_cluster p, pl_database = pt_database p,
     pl_connection_uri = ''postgresql://127.0.0.1:'' @ show_nat (unat port) @ ''/'' @ pt_name p \<rparr>"

definition ensure_admin_secret :: "'p host \<Rightarrow> string \<Rightarrow> ('p, unit) ctl" where
  "ensure_admin_secret h name =
     seq (pod (secret_exists h name)) (\<lambda>there.
     if there then ret () else seq (generate h) (\<lambda>v. pod (put_secret h name v)))"

definition pooler_port :: "'p host \<Rightarrow> pooler_manifest pooler_record option \<Rightarrow> 16 word option \<Rightarrow> ('p, 16 word) ctl" where
  "pooler_port h existing wanted =
     (case (existing, wanted) of
        (_, Some port) \<Rightarrow> ret port
      | (Some rec, None) \<Rightarrow> ret (po_host_port rec)
      | (None, None) \<Rightarrow> allocate_port h)"

definition settle_pooler :: "'p control \<Rightarrow> pooler_manifest \<Rightarrow> container_spec \<Rightarrow> container_probe option \<Rightarrow>
    ('p, string) ctl" where
  "settle_pooler cn m spec found =
     (let h = cn_host cn in
      case found of
        Some p \<Rightarrow> if cp_running p then ret (cp_id p) else seq (pod (start h (cp_id p))) (\<lambda>_. ret (cp_id p))
      | None \<Rightarrow>
          seq (pod (pull_image_if_absent h (pm_image_name m))) (\<lambda>_.
          seq (pod (create_container h spec)) (\<lambda>cid.
          seq (pod (start h cid)) (\<lambda>_. ret cid))))"

definition record_pooler :: "'p control \<Rightarrow> pooler_manifest \<Rightarrow> pooler_id \<Rightarrow> string option \<Rightarrow> 16 word \<Rightarrow> string \<Rightarrow>
    pooler_pool list \<Rightarrow> ('p, int) ctl" where
  "record_pooler cn m p cid port phase rows =
     store_get (\<lambda>now. put_pooler (cn_poolers cn) now m (pooler_container_name p) cid port phase rows)"

text \<open>What happens once the spec is settled and the container has been looked at.\<close>

definition converge_pooler :: "'p control \<Rightarrow> pooler_manifest \<Rightarrow> pooler_id \<Rightarrow> pooler_spec \<Rightarrow> pooler_pool list \<Rightarrow>
    16 word \<Rightarrow> bool \<Rightarrow> nat \<Rightarrow> container_probe option \<Rightarrow> ('p, pooler_report) ctl" where
  "converge_pooler cn m p spec rows port created wait found =
     (let h = cn_host cn; admin = pooler_admin_secret p in
      seq (record_pooler cn m p None port ''applying'' rows) (\<lambda>generation.
      seq (of_result (pooler_container_spec cn m spec (cn_agent cn) port admin)) (\<lambda>cs.
      seq (settle_pooler cn m cs found) (\<lambda>cid.
      seq (record_pooler cn m p (Some cid) port ''running'' rows) (\<lambda>_.
      seq (if wait \<noteq> 0 then wait_pooler_ready h p wait else ret ()) (\<lambda>_.
      seq (each (\<lambda>c. note_event c None ''info'' (''pooler '' @ pooler_str p @ '' applied'')) (spec_clusters spec)) (\<lambda>_.
      ret \<lparr> pq_pooler = pooler_str p, pq_generation = generation, pq_created = created,
        pq_container = pooler_container_name p, pq_host_port = port,
        pq_pools = map (pool_summary_of port) (ps_pools spec) \<rparr>)))))))"

definition apply_pooler :: "'p control \<Rightarrow> pooler_manifest \<Rightarrow> nat \<Rightarrow> ('p, pooler_report) ctl" where
  "apply_pooler cn m wait =
     (let h = cn_host cn in
      seq (of_result (map_err (\<lambda>e. EManifest (show_manifest_error e)) (pooler_id_of m))) (\<lambda>p.
      seq (agent_binary cn) (\<lambda>agent.
      seq (each (pooler_input cn p) (pm_clusters m)) (\<lambda>inputs.
      seq (of_result (map_err (\<lambda>e. EInvalid (show_resolve_error e)) (resolve_pools inputs))) (\<lambda>resolved.
      seq (of_result (try_map (\<lambda>r. cluster_ref (rp_cluster r)) resolved)) (\<lambda>_.
      seq (each (\<lambda>i. seq (of_result (cluster_ref (cp_cluster i))) (ensure_pooler_role h)) inputs) (\<lambda>_.
      seq (look (\<lambda>db. get_pooler (cn_poolers cn) db p)) (\<lambda>existing.
      seq (pooler_port h existing (pm_port m)) (\<lambda>port.
      let spec = pooler_spec_of m p resolved in
      seq (of_result (check_pooler_spec spec)) (\<lambda>_.
      seq (ensure_admin_secret h (pooler_admin_secret p)) (\<lambda>_.
      seq (pod (probe h (pooler_container_name p))) (\<lambda>found.
      seq (of_result (case found of Some q \<Rightarrow> refuse_if_pooler_diverged cn p spec q | None \<Rightarrow> Inr ())) (\<lambda>_.
      converge_pooler cn m p spec (map pool_row_of resolved) port (existing = None) wait found)))))))))))))"

section \<open>Deleting\<close>

definition remove_pooler :: "'p control \<Rightarrow> pooler_id \<Rightarrow> ('p, unit) ctl" where
  "remove_pooler cn p =
     (let h = cn_host cn in
      seq (look (\<lambda>db. require_pooler (cn_poolers cn) db p)) (\<lambda>rec.
      let name = po_container_name rec in
      seq (pod (probe h name)) (\<lambda>found.
      seq (if found = None then ret ()
           else attempt (stop h name 30) (\<lambda>_. pod (remove h name True))) (\<lambda>_.
      seq (each (\<lambda>pool. note_event (pp_cluster pool) None ''info'' (''pooler '' @ pooler_str p @ '' deleted'')) (po_pools rec)) (\<lambda>_.
      store (\<lambda>now db. Inr (delete_pooler p db)))))))"

section \<open>What these may do\<close>

lemma pooler_input_within [within_intros]: "obeys (within A S) (pooler_input cn p e)"
  unfolding pooler_input_def by (intro within_intros)

lemma make_lookup_role_within [within_intros]:
  "(\<And>argv. A (CallExec d argv)) \<Longrightarrow> obeys (within A S) (make_lookup_role h c d st)"
  unfolding make_lookup_role_def by (intro within_intros)

text \<open>The requests before the container is touched.\<close>

fun prepares :: "call \<Rightarrow> bool" where
  "prepares (CallExists d) = True"
| "prepares (CallInspect d) = True"
| "prepares (CallExec d argv) = True"
| "prepares (CallIsFile f) = True"
| "prepares CallFreePort = True"
| "prepares CallSecretList = True"
| "prepares (CallSecretGet n) = True"
| "prepares (CallSecretPost n) = True"
| "prepares (CallSecretDelete n) = True"
| "prepares x = False"

lemma ensure_pooler_role_within [within_intros]:
  "(\<And>x. prepares x \<Longrightarrow> A x) \<Longrightarrow> obeys (within A S) (ensure_pooler_role h c)"
  unfolding ensure_pooler_role_def by (intro within_intros within.each) simp_all

lemma ensure_admin_secret_within [within_intros]:
  "(\<And>x. prepares x \<Longrightarrow> A x) \<Longrightarrow> obeys (within A S) (ensure_admin_secret h n)"
  unfolding ensure_admin_secret_def by (intro within_intros) simp_all

lemma pooler_port_within [within_intros]:
  "A CallFreePort \<Longrightarrow> obeys (within A S) (pooler_port h e w)"
  unfolding pooler_port_def by (intro within_intros)

lemma seq_given: "seq (of_result (Inr x)) k = k x"
  by (simp add: fun_eq_iff seq_def of_result_def)

lemma apply_pooler_refused:
  assumes "\<And>v r v'. probe (cn_host cn) (pooler_container_name p) v = (Inr r, v') \<Longrightarrow>
      \<exists>q. r = Some q \<and> (\<forall>rs. refuse_if_pooler_diverged cn p (pooler_spec_of m p rs) q \<noteq> Inr ())"
    and "pooler_id_of m = Inr p"
  shows "obeys (within prepares (=)) (apply_pooler cn m wait)"
proof -
  have refused: "within prepares (=) v' (snd (seq (of_result (case r of Some q \<Rightarrow>
      refuse_if_pooler_diverged cn p (pooler_spec_of m p rs) q | None \<Rightarrow> Inr ())) k v'))"
    if probed: "pod (probe (cn_host cn) (pooler_container_name p)) v = (Inr r, v')" for v r v' rs k
  proof -
    obtain q where q: "r = Some q" "refuse_if_pooler_diverged cn p (pooler_spec_of m p rs) q \<noteq> Inr ()"
      using assms(1) [of v] probed by (auto simp: pod_Inr)
    then show ?thesis
      by (cases "refuse_if_pooler_diverged cn p (pooler_spec_of m p rs) q")
         (simp_all add: seq_def of_result_def within.refl)
  qed
  show ?thesis
    unfolding apply_pooler_def Let_def assms(2) map_err.simps seq_given
    by (intro within_intros within.each seq_obeys_run refused) (auto intro!: within_intros)
qed

lemma asked_in_rest:
  assumes "obeys (within A S) m" "\<not> A c" "\<And>x. obeys moves (k x)" "seq m k w = (r, w')" "asked_for c w w'"
  shows "\<exists>x v. m w = (Inr x, v) \<and> k x v = (r, w') \<and> asked_for c v w'"
proof -
  obtain res v where m: "m w = (res, v)" by (cases "m w")
  have wv: "within A S w v" by (rule obeysD [OF assms(1) m])
  then have no: "\<not> asked_for c w v" using asked_within [OF wv] assms(2) by blast
  show ?thesis
  proof (cases res)
    case (Inl e)
    then show ?thesis using no assms(4,5) m by (simp add: seq_def)
  next
    case (Inr x)
    then have k: "k x v = (r, w')" using assms(4) m by (simp add: seq_def)
    have "moves v w'" by (rule obeysD [OF assms(3) k])
    moreover have "moves w v" using wv by (rule within_mono) auto
    ultimately show ?thesis using asked_split [of w v w' c] no assms(5) m k Inr by blast
  qed
qed

lemma running_container_name: "running_container h i w = (Inr d, w') \<Longrightarrow> d = container_name i"
  by (auto simp: running_container_def seq_def fail_def ret_def split: prod.splits sum.splits option.splits if_splits)

definition same_rows :: "registry \<Rightarrow> registry \<Rightarrow> bool" where
  "same_rows db db' \<longleftrightarrow> (\<exists>es. db' = db\<lparr> db_events := es \<rparr>)"

lemma same_rows_star: "same_rows\<^sup>*\<^sup>* a b \<Longrightarrow> same_rows a b"
proof (induction rule: rtranclp_induct)
  case base
  show ?case unfolding same_rows_def by (rule exI [of _ "db_events a"]) simp
next
  case (step b c)
  then show ?case by (auto simp: same_rows_def)
qed

lemma same_rows_event: "same_rows db (record_event now n ord l msg db)"
  unfolding same_rows_def record_event_def by blast

lemma same_rows_trans: "same_rows a b \<Longrightarrow> same_rows b c \<Longrightarrow> same_rows a c"
  by (auto simp: same_rows_def)

lemma rows_then: "seq m k w = (Inr y, w') \<Longrightarrow> obeys (within (\<lambda>_. True) same_rows) m \<Longrightarrow>
    (\<And>x v. m w = (Inr x, v) \<Longrightarrow> same_rows (wd_db w) (wd_db v) \<Longrightarrow> k x v = (Inr y, w') \<Longrightarrow> thesis) \<Longrightarrow> thesis"
  by (cases "m w") (auto simp: seq_def within_def split: sum.splits dest!: obeysD same_rows_star)

section \<open>Properties\<close>

text \<open>A pooler that would have to be replaced is left alone, and so is the store.  When the container
  that is there refuses every spec the manifest can give, applying the manifest writes nothing, and
  creates, starts, stops and removes nothing: no more than the lookup roles and secrets is prepared.\<close>

theorem refused_pooler_keeps_store:
  assumes "\<And>v r v'. probe (cn_host cn) (pooler_container_name p) v = (Inr r, v') \<Longrightarrow>
      \<exists>q. r = Some q \<and> (\<forall>rs. refuse_if_pooler_diverged cn p (pooler_spec_of m p rs) q \<noteq> Inr ())"
    and "pooler_id_of m = Inr p" "apply_pooler cn m wait w = (r, w')"
  shows "wd_db w' = wd_db w \<and> (\<forall>x. asked_for x w w' \<longrightarrow> prepares x)"
proof -
  have "within prepares (=) w w'" by (rule obeysD [OF apply_pooler_refused [OF assms(1,2)] assms(3)])
  then show ?thesis using within_same_db asked_within by blast
qed

text \<open>C22: A stored lookup credential means the role has that password.  Whenever the credential of a cluster is
  posted, every statement that makes the lookup role with this very password has been run in the cluster's primary
  and succeeded before.\<close>

theorem lookup_secret_means_role:
  assumes "ensure_pooler_role h c w = (r, w')" "asked_for (CallSecretPost (pooler_lookup_secret c)) w w'"
  shows "\<exists>password statements v us v'. pooler_lookup_sql password = Inr statements \<and>
    each (make_lookup_role h c (container_name (mk_instance c 1))) statements v = (Inr us, v') \<and>
    pod (put_secret h (pooler_lookup_secret c) password) v' = (r, w')"
proof -
  let ?x = "CallSecretPost (pooler_lookup_secret c)"
  note rest = asked_in_rest [where A = "\<lambda>x. x \<noteq> ?x" and S = "\<lambda>_ _. True" and c = ?x]
  have neq: "\<not> ?x \<noteq> ?x" by simp
  have run_each: "obeys (within (\<lambda>x. x \<noteq> ?x) (\<lambda>_ _. True)) (each (make_lookup_role h c d) sts)" for d sts
    by (intro within_intros within.each) simp
  from rest [OF _ neq _ assms(1) [unfolded ensure_pooler_role_def] assms(2)]
  obtain v1 where 1: "seq (generate h) (\<lambda>password.
       seq (act_err (\<lambda>e. EInvalid (''cluster '' @ cluster_str c @ '' must be running to apply a pooler to it '' @ em_dash @
              '' the lookup role is created inside the instance: '' @ show_control_error e))
            (running_container h (mk_instance c 1))) (\<lambda>container.
       seq (of_result (map_err (\<lambda>e. EPostgres (show_pg_error e)) (pooler_lookup_sql password))) (\<lambda>statements.
       seq (each (make_lookup_role h c container) statements) (\<lambda>_.
       pod (put_secret h (pooler_lookup_secret c) password))))) v1 = (r, w')" "asked_for ?x v1 w'"
    by (force intro!: within_intros within.each simp: ret_def asked_for_def split: if_splits)
  from rest [OF _ neq _ 1] obtain password v2 where 2: "seq (act_err (\<lambda>e. EInvalid (''cluster '' @ cluster_str c @
         '' must be running to apply a pooler to it '' @ em_dash @
         '' the lookup role is created inside the instance: '' @ show_control_error e))
       (running_container h (mk_instance c 1))) (\<lambda>container.
       seq (of_result (map_err (\<lambda>e. EPostgres (show_pg_error e)) (pooler_lookup_sql password))) (\<lambda>statements.
       seq (each (make_lookup_role h c container) statements) (\<lambda>_.
       pod (put_secret h (pooler_lookup_secret c) password)))) v2 = (r, w')" "asked_for ?x v2 w'"
    by (force intro!: within_intros within.each)
  from rest [OF _ neq _ 2] obtain d v3 where d: "act_err (\<lambda>e. EInvalid (''cluster '' @ cluster_str c @
         '' must be running to apply a pooler to it '' @ em_dash @
         '' the lookup role is created inside the instance: '' @ show_control_error e))
       (running_container h (mk_instance c 1)) v2 = (Inr d, v3)"
    and 3: "seq (of_result (map_err (\<lambda>e. EPostgres (show_pg_error e)) (pooler_lookup_sql password))) (\<lambda>statements.
       seq (each (make_lookup_role h c d) statements) (\<lambda>_.
       pod (put_secret h (pooler_lookup_secret c) password))) v3 = (r, w')" "asked_for ?x v3 w'"
    by (force intro!: within_intros within.each)
  have name: "d = container_name (mk_instance c 1)"
    using d by (cases "running_container h (mk_instance c 1) v2"; cases "fst (running_container h (mk_instance c 1) v2)")
      (auto simp: act_err_def dest: running_container_name)
  from 3 obtain statements where 4: "pooler_lookup_sql password = Inr statements"
    "seq (each (make_lookup_role h c d) statements) (\<lambda>_. pod (put_secret h (pooler_lookup_secret c) password)) v3 = (r, w')"
    by (cases "pooler_lookup_sql password") (auto simp: seq_def [of "of_result _"] of_result_def asked_for_def)
  from rest [OF run_each neq _ 4(2) 3(2)] obtain us v4 where
    "each (make_lookup_role h c d) statements v3 = (Inr us, v4)" "pod (put_secret h (pooler_lookup_secret c) password) v4 = (r, w')"
    by (force intro!: within_intros)
  then show ?thesis using 4(1) unfolding name by blast
qed

text \<open>A removed pooler is forgotten entirely.  After a removal the store has no such pooler, no cluster is
  fronted by it any more, and the clusters and instances are what they were.\<close>

theorem removed_pooler_fronts_nothing:
  assumes "remove_pooler cn p w = (Inr u, w')"
  shows "get_pooler (cn_poolers cn) (wd_db w') p = Inr None \<and>
    (\<forall>c. pooler_str p \<notin> set (pooler_names_for_cluster (wd_db w') c)) \<and>
    db_clusters (wd_db w') = db_clusters (wd_db w) \<and> db_instances (wd_db w') = db_instances (wd_db w)"
proof -
  let ?last = "store (\<lambda>now db. Inr (delete_pooler p db)) :: ('a, unit) ctl"
  obtain v where v: "same_rows (wd_db w) (wd_db v)" "?last v = (Inr u, w')"
    using assms unfolding remove_pooler_def Let_def
    by (elim rows_then; (intro within_intros within.each same_rows_event; simp)?) (blast intro: same_rows_trans)
  then obtain es where db: "wd_db w' = delete_pooler p (wd_db w\<lparr> db_events := es \<rparr>)"
    by (auto simp: store_def write_db_def same_rows_def)
  have "get_pooler (cn_poolers cn) (wd_db w') p = Inr None"
    by (simp add: db get_pooler_def delete_pooler_def tbl_get_del)
  moreover have "pooler_str p \<notin> set (pooler_names_for_cluster (wd_db w') c)" for c
    by (auto simp: db pooler_names_for_cluster_def delete_pooler_def tbl_del_def)
  ultimately show ?thesis by (simp add: db delete_pooler_def)
qed

section \<open>Witnesses\<close>

theorem removed_pooler_fronts_nothing_witness:
  "\<exists>w'. remove_pooler demo_control (PoolerId ''front'') pooled_world = (Inr (), w') \<and>
     get_pooler (cn_poolers demo_control) (wd_db w') (PoolerId ''front'') = Inr None"
proof -
  have "is_ok (fst (remove_pooler demo_control (PoolerId ''front'') pooled_world))" by code_simp
  then obtain w' where run: "remove_pooler demo_control (PoolerId ''front'') pooled_world = (Inr (), w')"
    by (cases "remove_pooler demo_control (PoolerId ''front'') pooled_world") (auto simp: is_ok_iff)
  from removed_pooler_fronts_nothing [OF run] run show ?thesis by blast
qed

theorem refused_pooler_keeps_store_witness:
  "wd_db (snd (apply_pooler steady_control demo_pooler_manifest 0 pooled_world)) = pooled_registry"
proof -
  have p: "pooler_id_of demo_pooler_manifest = Inr (PoolerId ''front'')" by code_simp
  obtain r w' where run: "apply_pooler steady_control demo_pooler_manifest 0 pooled_world = (r, w')"
    by (cases "apply_pooler steady_control demo_pooler_manifest 0 pooled_world")
  have "\<exists>q. x = Some q \<and> (\<forall>rs. refuse_if_pooler_diverged steady_control (PoolerId ''front'')
       (pooler_spec_of demo_pooler_manifest (PoolerId ''front'') rs) q \<noteq> Inr ())"
    if "probe (cn_host steady_control) (pooler_container_name (PoolerId ''front'')) v = (Inr x, v')" for v x v'
    using that by (auto simp: probe_def steady_control_def steady_host_def act_defs demo_defs
        refuse_if_pooler_diverged_def env_var_def)
  from refused_pooler_keeps_store [OF this p run] show ?thesis by (simp add: run pooled_world_db)
qed

theorem lookup_secret_means_role_witness:
  "\<exists>password statements v us v'. pooler_lookup_sql password = Inr statements \<and>
    each (make_lookup_role demo_host (ClusterId ''mydb'') (container_name (mk_instance (ClusterId ''mydb'') 1))) statements v = (Inr us, v') \<and>
    pod (put_secret demo_host (pooler_lookup_secret (ClusterId ''mydb'')) password) v' =
      ensure_pooler_role demo_host (ClusterId ''mydb'') pooled_world"
proof -
  let ?w = "snd (ensure_pooler_role demo_host (ClusterId ''mydb'') pooled_world)"
  have role: "validate_identifier pooler_role = Inr ()" by code_simp
  have up: "map_of (wd_podman pooled_world) (container_name (mk_instance (ClusterId ''mydb'') 1)) = Some True"
    unfolding pooled_world_def demo_world_def by code_simp
  have "CallSecretPost (pooler_lookup_secret (ClusterId ''mydb'')) \<in> set (wd_calls ?w)"
    using up
    by (simp add: ensure_pooler_role_def secret_exists_def generate_def running_container_def probe_def pod_def
        make_lookup_role_def exec_def exec_success_def as_i32_def pooler_lookup_sql_def role Let_def put_secret_def
        remove_secret_def pooled_world_def act_defs demo_defs)
  then have "asked_for (CallSecretPost (pooler_lookup_secret (ClusterId ''mydb''))) pooled_world ?w"
    by (simp add: asked_for_def pooled_world_def demo_world_def)
  from lookup_secret_means_role [OF prod.collapse [symmetric] this] show ?thesis by simp
qed

end
