(* ===== verification/PoolerStart.thy ===== *)
theory PoolerStart
  imports Bootstrap PoolerApply
begin

text \<open>
  What the agent of a pooler does before it starts pg\_doorman (\<^verbatim>\<open>pgpod-agent/src/pooler/mod.rs\<close>): it reads the
  spec and the mounted secrets and renders the configuration into the container's own directory.  The JSON reader
  and the two ends of YAML are parameters.
\<close>

definition pooler_conf :: path where "pooler_conf = [''pooler'', ''pg_doorman.yaml'']"
definition pooler_conf_mode :: nat where "pooler_conf_mode = 384"

record 'v pooler_codec =
  pk_decode :: "string \<Rightarrow> string + pooler_spec"
  pk_parse_value :: "string \<Rightarrow> 'v option"
  pk_string_value :: "string \<Rightarrow> 'v"
  pk_write :: "'v doorman_config \<Rightarrow> string + string"

definition pooler_spec_from_env :: "'v pooler_codec \<Rightarrow> (string \<rightharpoonup> string) \<Rightarrow> spec_error + pooler_spec" where
  "pooler_spec_from_env pk env =
     and_then (ok_or SpecMissing (env pooler_spec_env)) (\<lambda>raw. map_err SpecMalformed (pk_decode pk raw))"

definition show_render_error :: "pooler_error \<Rightarrow> string" where
  "show_render_error e = (case e of
      PoolerSpecError i \<Rightarrow> ''the pooler spec is self-contradictory: '' @ show_spec_error (SpecPoolerInconsistent i)
    | Poolers.ReservedParameter k \<Rightarrow> debug_str k @ '' is managed by pgpod and cannot be set in spec.pgDoorman.parameters''
    | MissingSecret p \<Rightarrow> ''no lookup password for pool '' @ debug_str p @ '' '' @ em_dash @
        '' the daemon must mount one podman secret per fronted cluster'')"

definition read_secret :: "machine \<Rightarrow> string \<Rightarrow> string agent" where
  "read_secret m p =
     chain (context_of (''required secret '' @ p @ '' is not mounted '' @ em_dash @ '' the daemon did not attach it to this container'')
       (read_to_string m (path_of p))) (\<lambda>raw.
     if trim_line_ends raw = [] then bail (''secret '' @ p @ '' is empty'') else give (trim_line_ends raw))"

fun read_lookups :: "machine \<Rightarrow> pool_target list \<Rightarrow> (string \<rightharpoonup> string) \<Rightarrow> (string \<rightharpoonup> string) agent" where
  "read_lookups m [] lookups = give lookups"
| "read_lookups m (t # ts) lookups = chain (read_secret m (lookup_secret_path (pt_lookup_secret_index t))) (\<lambda>pw.
     read_lookups m ts (lookups(pt_name t \<mapsto> pw)))"

definition read_pooler_secrets :: "machine \<Rightarrow> pooler_spec \<Rightarrow> pooler_secrets agent" where
  "read_pooler_secrets m spec =
     chain (read_secret m secret_pooler_admin) (\<lambda>admin.
     chain (read_lookups m (ps_pools spec) Map.empty) (\<lambda>lookups.
     give \<lparr> admin_password = admin, lookup_passwords = lookups \<rparr>))"

definition doorman_text :: "'v pooler_codec \<Rightarrow> pooler_spec \<Rightarrow> pooler_secrets \<Rightarrow> string + string" where
  "doorman_text pk spec secrets =
     and_then (map_err show_render_error (render_pooler (pk_parse_value pk) (pk_string_value pk) spec secrets)) (\<lambda>c.
     map_err (\<lambda>e. ''could not render the pg_doorman configuration: '' @ e) (pk_write pk c))"

definition render_pooler_config :: "machine \<Rightarrow> 'v pooler_codec \<Rightarrow> pooler_spec \<Rightarrow> pooler_secrets \<Rightarrow> unit agent" where
  "render_pooler_config m pk spec secrets =
     chain (context_of ''could not render the pg_doorman configuration'' (lift_res (doorman_text pk spec secrets))) (\<lambda>rendered.
     chain (context_of (''could not create '' @ pooler_dir) (create_dir_all m (path_of pooler_dir))) (\<lambda>_.
     chain (context_of (''could not write '' @ show_path pooler_conf) (write_file m pooler_conf rendered)) (\<lambda>_.
     context_of (''could not restrict the rendered config'' @ [CHR 0x27] @ ''s permissions'')
       (set_mode m pooler_conf pooler_conf_mode))))"

definition prepare_pooler :: "machine \<Rightarrow> 'v pooler_codec \<Rightarrow> (string \<rightharpoonup> string) \<Rightarrow> pooler_spec agent" where
  "prepare_pooler m pk env =
     chain (context_of ''could not read the pooler spec'' (lift_res (map_err show_spec_error (pooler_spec_from_env pk env)))) (\<lambda>spec.
     chain (read_pooler_secrets m spec) (\<lambda>secrets.
     chain (render_pooler_config m pk spec secrets) (\<lambda>_.
     give spec)))"

section \<open>What a started pooler reads\<close>

text \<open>A secret as it is mounted.\<close>

definition mounted :: "disk \<Rightarrow> string \<Rightarrow> string \<Rightarrow> bool" where
  "mounted d p pw \<longleftrightarrow> (\<exists>mode raw. entry d (path_of p) = Some (File mode raw) \<and> pw = trim_line_ends raw \<and> pw \<noteq> [])"

lemma read_secret_makes:
  "read_secret m p v = (Inr pw, w) \<Longrightarrow> vo_disk w = vo_disk v \<and> mounted (vo_disk v) p pw"
  by (auto simp: read_secret_def chain_Inr give_def bail_def mounted_def dest: read_makes split: if_splits)

lemma read_lookups_makes:
  "read_lookups m ts ls v = (Inr ls', w) \<Longrightarrow> vo_disk w = vo_disk v \<and>
     (\<forall>n pw. ls' n = Some pw \<longrightarrow> ls n = Some pw \<or>
        (\<exists>t\<in>set ts. pt_name t = n \<and> mounted (vo_disk v) (lookup_secret_path (pt_lookup_secret_index t)) pw))"
proof (induction ts arbitrary: ls v)
  case (Cons t ts)
  then obtain pw u where 1: "read_secret m (lookup_secret_path (pt_lookup_secret_index t)) v = (Inr pw, u)"
    and 2: "read_lookups m ts (ls(pt_name t \<mapsto> pw)) u = (Inr ls', w)"
    by (auto simp: chain_Inr)
  from read_secret_makes [OF 1] Cons.IH [OF 2] show ?case by (auto split: if_splits)
qed (simp add: give_def)

text \<open>C30: A pooler starts with its own configuration.  When pg\_doorman is about to be started, its configuration file is
  readable by its owner only, and holds the rendering of the spec with the administrator's password and, for each
  pool, the lookup password mounted under the index of a pool of that name.\<close>

theorem pooler_configuration_in_place:
  assumes "prepare_pooler m pk env v = (Inr spec, w)"
  shows "\<exists>secrets out. doorman_text pk spec secrets = Inr out \<and> entry (vo_disk w) pooler_conf = Some (File pooler_conf_mode out) \<and>
    mounted (vo_disk v) secret_pooler_admin (admin_password secrets) \<and>
    (\<forall>n pw. lookup_passwords secrets n = Some pw \<longrightarrow>
      (\<exists>t\<in>set (ps_pools spec). pt_name t = n \<and> mounted (vo_disk v) (lookup_secret_path (pt_lookup_secret_index t)) pw))"
proof -
  obtain secrets u0 u1 x where env: "vo_disk u0 = vo_disk v" and 1: "read_pooler_secrets m spec u0 = (Inr secrets, u1)"
    and 2: "render_pooler_config m pk spec secrets u1 = (Inr x, w)"
    using assms by (auto simp: prepare_pooler_def chain_Inr give_def lift_res_def)
  have files: "pooler_conf \<noteq> []" by (simp add: pooler_conf_def)
  obtain out u2 u3 y where out: "doorman_text pk spec secrets = Inr out" "write_file m pooler_conf out u2 = (Inr y, u3)"
    "set_mode m pooler_conf pooler_conf_mode u3 = (Inr x, w)"
    using 2 by (auto simp: render_pooler_config_def chain_Inr lift_res_def)
  then have conf: "entry (vo_disk w) pooler_conf = Some (File pooler_conf_mode out)"
    using write_makes [OF out(2) files] mode_makes [OF out(3) files] by blast
  obtain admin lookups t1 where reads: "read_secret m secret_pooler_admin u0 = (Inr admin, t1)"
    "read_lookups m (ps_pools spec) Map.empty t1 = (Inr lookups, u1)" "secrets = \<lparr> admin_password = admin, lookup_passwords = lookups \<rparr>"
    using 1 by (auto simp: read_pooler_secrets_def chain_Inr give_def)
  then show ?thesis
    using conf out(1) env read_secret_makes [OF reads(1)] read_lookups_makes [OF reads(2)] by fastforce
qed

section \<open>A start\<close>

definition demo_pooler_codec :: "string pooler_codec" where
  "demo_pooler_codec = \<lparr> pk_decode = (\<lambda>_. Inr Poolers.demo_spec), pk_parse_value = (\<lambda>_. None), pk_string_value = id,
     pk_write = (\<lambda>_. Inr ''conf'') \<rparr>"

definition pooler_volume :: volume where
  "pooler_volume = \<lparr> vo_disk = [(path_of secret_pooler_admin, File 256 ''adm''), (path_of (lookup_secret_path 0), File 256 ''pw''),
     ([''pooler''], Folder 1023)], vo_tick = 0, vo_out = [] \<rparr>"

definition demo_pooler_secrets :: pooler_secrets where
  "demo_pooler_secrets = \<lparr> admin_password = ''adm'', lookup_passwords = [''appdb'' \<mapsto> ''pw''] \<rparr>"

lemma demo_paths:
  "path_of secret_pooler_admin = [''run'', ''secrets'', ''pgpod-pooler-admin'']"
  "path_of (lookup_secret_path 0) = [''run'', ''secrets'', ''pgpod-pooler-lookup-0'']"
  "path_of pooler_dir = [''pooler'']"
  by (simp_all add: path_of_def secret_pooler_admin_def lookup_secret_path_def pooler_dir_def show_nat_small std_simps)

lemma demo_secrets_read:
  "read_pooler_secrets idle_machine Poolers.demo_spec pooler_volume = (Inr demo_pooler_secrets, pooler_volume\<lparr> vo_tick := 2 \<rparr>)"
proof -
  have "utf8 ''adm''" "utf8 ''pw''" by code_simp+
  then show ?thesis
    by (simp add: read_pooler_secrets_def read_secret_def read_to_string_def agent_defs idle_machine_def pooler_volume_def
      Poolers.demo_spec_def pool_target_of_def demo_paths entry_def unchanged_def trim_line_ends_def demo_pooler_secrets_def)
qed

lemma demo_rendered: "doorman_text demo_pooler_codec Poolers.demo_spec demo_pooler_secrets = Inr ''conf''"
proof -
  have "trim (container_name (mk_instance (ClusterId ''mydb'') 1)) \<noteq> []"
    by (simp add: container_name_def mk_instance_def std_simps)
  then have "\<exists>conf. render_pooler (\<lambda>_. None) id Poolers.demo_spec demo_pooler_secrets = Inr (conf :: string doorman_config)"
    by (simp add: render_pooler_def Poolers.demo_spec_def validate_pooler_spec_def demo_pooler_secrets_def
        pool_target_of_def from_secs_def normal_key_def std_simps to_ascii_lowercase_def
        reserved_pooler_parameters_def to_ascii_lower_def)
  then show ?thesis by (auto simp: doorman_text_def demo_pooler_codec_def)
qed

lemma demo_config_written:
  "fst (render_pooler_config idle_machine demo_pooler_codec Poolers.demo_spec demo_pooler_secrets (pooler_volume\<lparr> vo_tick := 2 \<rparr>)) = Inr ()"
  by (simp add: render_pooler_config_def demo_rendered demo_paths create_dir_all.simps mkdir_def is_dir_def tests_def agent_defs
    write_file_def write_mode_def write_at_def set_mode_def idle_machine_def pooler_volume_def entry_def is_folder_def place_def
    unchanged_def parent_ok_def pooler_conf_def eexist_def enoent_def)

lemma demo_pooler_starts:
  "fst (prepare_pooler idle_machine demo_pooler_codec (Map.empty(pooler_spec_env \<mapsto> ''{}'')) pooler_volume) = Inr Poolers.demo_spec"
proof -
  obtain u where "render_pooler_config idle_machine demo_pooler_codec Poolers.demo_spec demo_pooler_secrets
      (pooler_volume\<lparr> vo_tick := 2 \<rparr>) = (Inr (), u)" using demo_config_written by (metis prod.collapse)
  then show ?thesis
    using demo_secrets_read by (simp add: prepare_pooler_def pooler_spec_from_env_def chain_def context_of_def lift_res_def give_def
      demo_pooler_codec_def)
qed

theorem pooler_configuration_in_place_witness:
  "entry (vo_disk (snd (prepare_pooler idle_machine demo_pooler_codec (Map.empty(pooler_spec_env \<mapsto> ''{}'')) pooler_volume)))
     pooler_conf = Some (File pooler_conf_mode ''conf'')"
proof -
  let ?run = "prepare_pooler idle_machine demo_pooler_codec (Map.empty(pooler_spec_env \<mapsto> ''{}'')) pooler_volume"
  have "?run = (Inr Poolers.demo_spec, snd ?run)" using demo_pooler_starts by (metis prod.collapse)
  from pooler_configuration_in_place [OF this] show ?thesis
    by (auto simp: doorman_text_def demo_pooler_codec_def)
qed

end
