(* ===== verification/StatusReport.thy ===== *)
theory StatusReport
  imports PoolerStart
begin

text \<open>
  What \<^verbatim>\<open>pgpod status\<close> reports (\<^verbatim>\<open>pgpod-control/src/status.rs\<close>), and what the agent of an instance says of
  its server (\<^verbatim>\<open>pgpod-agent/src/status.rs\<close>).
\<close>

section \<open>The report\<close>

record pooler_status =
  ts_pooler :: string
  ts_container :: string
  ts_host_port :: "16 word"
  ts_running :: bool
  ts_pools :: "string list"
  ts_connection_uris :: "string list"

record instance_status =
  ns_instance :: string
  ns_container :: string
  ns_volume :: string
  ns_host_port :: "16 word"
  ns_phase :: instance_phase
  ns_container_state :: "string option"
  ns_running :: bool
  ns_role :: instance_role
  ns_accepting :: bool
  ns_connection_uri :: string

record cluster_status =
  st_cluster :: string
  st_generation :: int
  st_phase :: string
  st_image :: string
  st_instances :: "instance_status list"
  st_storage_size :: "string option"
  st_poolers :: "pooler_status list"
  st_recent_events :: "string list"

definition is_running :: "container_probe option \<Rightarrow> bool" where
  "is_running p = (case p of Some q \<Rightarrow> cp_running q | None \<Rightarrow> False)"

text \<open>The database is asked only when its container runs; no answer is no role.\<close>

definition ask_role :: "'p host \<Rightarrow> string \<Rightarrow> ('p, instance_role \<times> bool) ctl" where
  "ask_role h c = attempt (exec h c psql_recovery_probe) (\<lambda>r. ret (case r of
      Inr out \<Rightarrow> if exec_success out then (from_in_recovery (trim (eo_stdout out) = ''t''), True) else (RoleUnknown, False)
    | Inl _ \<Rightarrow> (RoleUnknown, False)))"

definition instance_status_of :: "'p host \<Rightarrow> cluster_manifest \<Rightarrow> instance_record \<Rightarrow> ('p, instance_status) ctl" where
  "instance_status_of h m row =
     seq (pod (probe h (in_container_name row))) (\<lambda>p.
     seq (if is_running p then ask_role h (in_container_name row) else ret (RoleUnknown, False)) (\<lambda>(role, accepting).
     ret \<lparr> ns_instance = in_cluster row @ ''-'' @ show_nat (unat (in_ordinal row)), ns_container = in_container_name row,
       ns_volume = in_volume_name row, ns_host_port = in_host_port row, ns_phase = in_phase row,
       ns_container_state = Option.bind p cp_status, ns_running = is_running p, ns_role = role, ns_accepting = accepting,
       ns_connection_uri = connection_uri (in_host_port row) m \<rparr>))"

definition pooler_status_of :: "'p host \<Rightarrow> cluster_id \<Rightarrow> pooler_manifest pooler_record \<Rightarrow> ('p, pooler_status) ctl" where
  "pooler_status_of h c rec =
     seq (pod (probe h (po_container_name rec))) (\<lambda>p.
     let pools = map pp_pool_name (filter (\<lambda>x. pp_cluster x = cluster_str c) (po_pools rec)) in
     ret \<lparr> ts_pooler = po_name rec, ts_container = po_container_name rec, ts_host_port = po_host_port rec,
       ts_running = is_running p, ts_pools = pools,
       ts_connection_uris = map (\<lambda>n. ''postgresql://127.0.0.1:'' @ show_nat (unat (po_host_port rec)) @ ''/'' @ n) pools \<rparr>)"

definition collect_status :: "'p control \<Rightarrow> cluster_id \<Rightarrow> ('p, cluster_status) ctl" where
  "collect_status cn c =
     seq (look (\<lambda>db. require_cluster (cn_clusters cn) db c)) (\<lambda>rec.
     seq (look (\<lambda>db. instances db c)) (\<lambda>rows.
     seq (each (instance_status_of (cn_host cn) (cl_manifest rec)) rows) (\<lambda>ins.
     seq (look (\<lambda>db. poolers_for_cluster (cn_poolers cn) db c)) (\<lambda>recs.
     seq (each (pooler_status_of (cn_host cn) c) recs) (\<lambda>pls.
     seq (look (\<lambda>db. Inr (recent_events db c 10))) (\<lambda>events.
     ret \<lparr> st_cluster = cl_name rec, st_generation = cl_generation rec, st_phase = cl_phase rec,
       st_image = sp_image_name (mf_spec (cl_manifest rec)), st_instances = ins,
       st_storage_size = sp_storage_size (mf_spec (cl_manifest rec)), st_poolers = pls,
       st_recent_events = map (\<lambda>e. ''['' @ ev_level e @ ''] '' @ ev_message e) events \<rparr>))))))"

definition list_status :: "'p control \<Rightarrow> ('p, cluster_status list) ctl" where
  "list_status cn = seq (look (list_clusters (cn_clusters cn))) (\<lambda>recs. each (\<lambda>rec.
     seq (of_result (map_err (\<lambda>e. EInvalid (''stored cluster name: '' @ show_id_error e)) (cluster_id_new (cl_name rec)))) (\<lambda>c.
     collect_status cn c)) recs)"

definition primary_uri :: "cluster_status \<Rightarrow> string option" where
  "primary_uri s = map_option ns_connection_uri (find (\<lambda>i. ns_role i = RolePrimary) (st_instances s))"

section \<open>The agent's own status\<close>

record agent_status =
  as_role :: instance_role
  as_accepting_connections :: bool
  as_last_wal_replay_lsn :: "string option"
  as_current_wal_flush_lsn :: "string option"
  as_postmaster_start_time :: "string option"
  as_error :: "string option"

definition status_unavailable :: "string \<Rightarrow> agent_status" where
  "status_unavailable e = \<lparr> as_role = RoleUnknown, as_accepting_connections = False, as_last_wal_replay_lsn = None,
     as_current_wal_flush_lsn = None, as_postmaster_start_time = None, as_error = Some e \<rparr>"

definition probe_sql :: string where
  "probe_sql = ''SELECT pg_is_in_recovery(), coalesce(pg_last_wal_replay_lsn()::text, '' @ [CHR 0x27, CHR 0x27] @ ''), '' @
     ''coalesce(pg_current_wal_flush_lsn()::text, '' @ [CHR 0x27, CHR 0x27] @ ''), pg_postmaster_start_time()''"

definition non_empty :: "string \<Rightarrow> string option" where
  "non_empty s = (if trim s = [] then None else Some (trim s))"

definition status_of_row :: "string \<Rightarrow> agent_status" where
  "status_of_row row = (case split_on (CHR ''|'') row of
      a # b # c # d # _ \<Rightarrow> \<lparr> as_role = from_in_recovery (a = ''t''), as_accepting_connections = True,
        as_last_wal_replay_lsn = non_empty b, as_current_wal_flush_lsn = non_empty c,
        as_postmaster_start_time = non_empty d, as_error = None \<rparr>
    | _ \<Rightarrow> status_unavailable (''unexpected probe output: '' @ debug_str row))"

text \<open>Of an error the outermost text is shown.\<close>

definition agent_probe :: "machine \<Rightarrow> agent_status agent" where
  "agent_probe m = caught (query_on m pg_port ''postgres'' probe_sql) (\<lambda>r. give (case r of
      Inr row \<Rightarrow> status_of_row row | Inl e \<Rightarrow> status_unavailable (hd e)))"

section \<open>What a report may be relied on for\<close>

text \<open>The requests of a report: they ask whether a container is there and runs, and its server for its role.\<close>

fun status_call :: "call \<Rightarrow> bool" where
  "status_call (CallExists _) = True"
| "status_call (CallInspect _) = True"
| "status_call (CallExec _ argv) = (argv = psql_recovery_probe)"
| "status_call _ = False"

lemma ask_role_within: "obeys (within status_call (=)) (ask_role h c)"
  unfolding ask_role_def by (intro within_intros) simp

lemma instance_status_within: "obeys (within status_call (=)) (instance_status_of h m row)"
  unfolding instance_status_of_def by (intro within_intros ask_role_within) simp_all

lemma pooler_status_within: "obeys (within status_call (=)) (pooler_status_of h c rec)"
  unfolding pooler_status_of_def Let_def by (intro within_intros) simp_all

lemma collect_status_within: "obeys (within status_call (=)) (collect_status cn c)"
  unfolding collect_status_def
  by (intro within_intros within.each instance_status_within pooler_status_within)

lemma list_status_within: "obeys (within status_call (=)) (list_status cn)"
  unfolding list_status_def by (intro within_intros within.each collect_status_within)

text \<open>A role is known exactly when the server of a running container answered.\<close>

definition honest :: "instance_status \<Rightarrow> bool" where
  "honest i \<longleftrightarrow> (ns_role i \<noteq> RoleUnknown \<longleftrightarrow> ns_accepting i) \<and> (ns_accepting i \<longrightarrow> ns_running i)"

lemma instance_status_honest: "instance_status_of h m row w = (Inr i, w') \<Longrightarrow> honest i"
  by (auto simp: instance_status_of_def ask_role_def seq_def attempt_def ret_def honest_def from_in_recovery_def
    split: prod.splits sum.splits if_splits)

lemma each_all:
  assumes "\<And>x w y w'. f x w = (Inr y, w') \<Longrightarrow> P y"
  shows "each f xs w = (Inr ys, w') \<Longrightarrow> y \<in> set ys \<Longrightarrow> P y"
proof (induction xs arbitrary: w ys)
  case (Cons x xs)
  then obtain z u zs where "f x w = (Inr z, u)" "each f xs u = (Inr zs, w')" "ys = z # zs"
    by (auto simp: seq_def ret_def split: prod.splits sum.splits)
  with Cons show ?case using assms by auto
qed (simp add: ret_def)

text \<open>C24: Status only asks, and never guesses.  Reporting on a cluster leaves the store as it is and makes no request but
  questions; and the write endpoint it names is the one of an instance whose container runs and whose server
  answered just now.\<close>

theorem status_is_live:
  assumes "collect_status cn c w = (Inr s, w')"
  shows "wd_db w' = wd_db w \<and> (\<exists>calls. wd_calls w' = wd_calls w @ calls \<and> list_all status_call calls) \<and>
    (\<forall>uri. primary_uri s = Some uri \<longrightarrow>
      (\<exists>i\<in>set (st_instances s). ns_connection_uri i = uri \<and> ns_role i = RolePrimary \<and> ns_running i \<and> ns_accepting i))"
proof -
  have w: "within status_call (=) w w'" by (rule obeysD [OF collect_status_within assms])
  obtain m rows u u' where "each (instance_status_of (cn_host cn) m) rows u = (Inr (st_instances s), u')"
    using assms by (auto simp: collect_status_def seq_def ret_def split: prod.splits sum.splits)
  then have "\<forall>i\<in>set (st_instances s). honest i"
    using each_all [where P = honest and f = "instance_status_of (cn_host cn) m"] instance_status_honest by metis
  moreover have "\<exists>calls. wd_calls w' = wd_calls w @ calls \<and> list_all status_call calls"
    using w by (auto simp: within_def list_all_iff)
  ultimately show ?thesis using within_same_db [OF w]
    by (auto simp: primary_uri_def honest_def dest!: find_mem)
qed

lemma steady_instance:
  "\<exists>i w'. instance_status_of steady_host m boot_instance w = (Inr i, w') \<and> wd_db w' = wd_db w \<and> ns_role i = RolePrimary"
  by (simp add: instance_status_of_def ask_role_def exec_def probe_def pod_def steady_host_def act_defs Podman.demo_defs is_running_def
    exec_success_def as_i32_def trim_def trim_start_def trim_end_def is_space_def from_in_recovery_def)

lemma steady_cluster: "is_ok (require_cluster (cn_clusters steady_control) boot_registry (ClusterId ''mydb''))"
  by code_simp

lemma steady_poolers: "poolers_for_cluster (cn_poolers steady_control) boot_registry (ClusterId ''mydb'') = Inr []"
  by code_simp

lemma live_report:
  "\<exists>s w'. collect_status steady_control (ClusterId ''mydb'') boot_world = (Inr s, w') \<and> primary_uri s \<noteq> None"
proof -
  obtain rec where rec: "require_cluster (cn_clusters steady_control) (wd_db boot_world) (ClusterId ''mydb'') = Inr rec"
    using steady_cluster by (auto simp: is_ok_iff)
  obtain i w' where i: "instance_status_of steady_host (cl_manifest rec) boot_instance boot_world = (Inr i, w')"
    "wd_db w' = boot_registry" "ns_role i = RolePrimary"
    using steady_instance [of "cl_manifest rec" boot_world] by auto
  have "cn_host steady_control = steady_host" by (simp add: steady_control_def)
  then show ?thesis
    by (simp add: collect_status_def look_def read_db_def rec [simplified] boot_rows [simplified] steady_poolers seq_def i ret_def
      primary_uri_def)
qed

theorem status_is_live_witness:
  "\<exists>s w'. collect_status steady_control (ClusterId ''mydb'') boot_world = (Inr s, w') \<and> wd_db w' = boot_registry \<and>
     list_ex (\<lambda>i. ns_role i = RolePrimary \<and> ns_running i) (st_instances s)"
proof -
  obtain s w' uri where run: "collect_status steady_control (ClusterId ''mydb'') boot_world = (Inr s, w')" "primary_uri s = Some uri"
    using live_report by blast
  from status_is_live [OF run(1)] run show ?thesis by (auto simp: list_ex_iff)
qed

text \<open>Any answer but \<^verbatim>\<open>t\<close>, an empty one too, is taken for the primary's.\<close>

lemma any_answer_is_a_primary: "trim out \<noteq> ''t'' \<Longrightarrow> from_in_recovery (trim out = ''t'') = RolePrimary"
  by (simp add: from_in_recovery_def)

end
