(* ===== verification/Layout.thy ===== *)
theory Layout
  imports UpgradeRun
begin

text \<open>
  Where pgpod keeps its files on the host: \<^verbatim>\<open>PathLayout\<close> of \<^verbatim>\<open>pgpod-core/src/paths.rs\<close>.
\<close>

section \<open>The directories of the host\<close>

record path_layout =
  pl_config_dir :: string
  pl_state_dir :: string
  pl_data_dir :: string
  pl_runtime_dir :: string

text \<open>The answers of the \<^verbatim>\<open>dirs\<close> crate.\<close>

record known_dirs =
  kd_config :: "string option"
  kd_state :: "string option"
  kd_data :: "string option"
  kd_runtime :: "string option"

definition or_else :: "'a option \<Rightarrow> 'a \<Rightarrow> 'a" where
  "or_else v d = (case v of Some x \<Rightarrow> x | None \<Rightarrow> d)"

definition layout_from_env :: "(string \<rightharpoonup> string) \<Rightarrow> known_dirs \<Rightarrow> 32 word \<Rightarrow> path_layout" where
  "layout_from_env env kd uid = (case env ''PGPOD_HOME'' of
      Some home \<Rightarrow> \<lparr> pl_config_dir = join_str home ''config'', pl_state_dir = join_str home ''state'',
        pl_data_dir = join_str home ''data'', pl_runtime_dir = join_str home ''run'' \<rparr>
    | None \<Rightarrow> \<lparr> pl_config_dir = join_str (or_else (kd_config kd) ''.config'') ''pgpod'',
        pl_state_dir = join_str (or_else (kd_state kd) ''.local/state'') ''pgpod'',
        pl_data_dir = join_str (or_else (kd_data kd) ''.local/share'') ''pgpod'',
        pl_runtime_dir = join_str (or_else (kd_runtime kd) (''/run/user/'' @ show_nat (unat uid))) ''pgpod'' \<rparr>)"

definition config_file :: "path_layout \<Rightarrow> string" where "config_file l = join_str (pl_config_dir l) ''config.toml''"
definition registry_db :: "path_layout \<Rightarrow> string" where "registry_db l = join_str (pl_state_dir l) ''pgpod.db''"

definition agent_binary :: "path_layout \<Rightarrow> string \<Rightarrow> string" where
  "agent_binary l arch = join_str (join_str (pl_data_dir l) ''bin'') (''pgpod-agent-'' @ arch)"

definition pgbackrest_bundle :: "path_layout \<Rightarrow> string \<Rightarrow> string" where
  "pgbackrest_bundle l arch = join_str (pl_data_dir l) (''pgbackrest-'' @ arch)"

definition cluster_runtime_dir :: "path_layout \<Rightarrow> cluster_id \<Rightarrow> string" where
  "cluster_runtime_dir l c = join_str (pl_runtime_dir l) (cluster_str c)"

end
