(* ===== verification/DaemonLock.thy ===== *)
theory DaemonLock
  imports Layout
begin

text \<open>
  The lock of the daemon (\<^verbatim>\<open>DaemonLock\<close> and \<^verbatim>\<open>DaemonState\<close> of \<^verbatim>\<open>pgpod-control/src/daemon.rs\<close>): any
  number of processes that want to be the daemon, or only ask whether there is one, in any interleaving.  The
  kernel's \<^verbatim>\<open>flock\<close> is exclusive and ends with its process.
\<close>

datatype daemon_state = Running | NotRunning | NeverRan | StateUnknown string

definition daemon_lock_path :: "path_layout \<Rightarrow> string" where
  "daemon_lock_path l = join_str (pl_runtime_dir l) ''pgpod-daemon.lock''"

text \<open>Where a process is: a daemon between opening the file and locking it, with the lock, or refused; an asker between
  the two, with the lock it must give back, or with its answer; gone.\<close>

datatype stage = Idle | Opened | Holding | Refused string | AskOpened | AskHolding | Answered daemon_state | Gone

record lock_world =
  lw_file :: bool
  lw_holder :: "nat option"
  lw_stage :: "nat \<Rightarrow> stage"

definition booted :: lock_world where
  "booted = \<lparr> lw_file = False, lw_holder = None, lw_stage = (\<lambda>_. Idle) \<rparr>"

definition at_stage :: "nat \<Rightarrow> stage \<Rightarrow> lock_world \<Rightarrow> lock_world" where
  "at_stage p st w = w\<lparr> lw_stage := (lw_stage w)(p := st) \<rparr>"

definition release :: "nat \<Rightarrow> lock_world \<Rightarrow> lock_world" where
  "release p w = (if lw_holder w = Some p then w\<lparr> lw_holder := None \<rparr> else w)"

definition held_message :: "path_layout \<Rightarrow> string \<Rightarrow> string" where
  "held_message l errno = ''another pgpod daemon is already running on this host, holding the lock on '' @ daemon_lock_path l @
     '' ('' @ errno @ '').'' @ nl @ nl @ ''Boot recovery is that daemon'' @ [CHR 0x27] @ ''s job and it has already done it '' @ em_dash @
     '' `pgpod status` shows the result, and `journalctl --user -u pgpod-daemon.service` shows what it did at boot. '' @
     ''`pgpod daemon --once` is for hosts where no daemon is running; to take over from the one that is:'' @ nl @
     ''  systemctl --user stop pgpod-daemon.service''"

definition would_block :: string where "would_block = ''EAGAIN: Try again''"

text \<open>The operations a process makes, each atomic; the system may also refuse one of them, with its reason.\<close>

datatype operation = Open | MkdirFails string | OpenFails string | TryLock | LockFails string
  | AskOpen | AskOpenFails string | AskLock | AskLockFails string | AskDrop | Exit

fun operate :: "path_layout \<Rightarrow> nat \<Rightarrow> lock_world \<Rightarrow> operation \<Rightarrow> lock_world option" where
  "operate l p w Open = (if lw_stage w p = Idle then Some (at_stage p Opened (w\<lparr> lw_file := True \<rparr>)) else None)"
| "operate l p w (MkdirFails e) = (if lw_stage w p = Idle
     then Some (at_stage p (Refused (''could not create '' @ pl_runtime_dir l @ '': '' @ e)) w) else None)"
| "operate l p w (OpenFails e) = (if lw_stage w p = Idle
     then Some (at_stage p (Refused (''could not open '' @ daemon_lock_path l @ '': '' @ e)) w) else None)"
| "operate l p w TryLock = (if lw_stage w p = Opened
     then Some (if lw_holder w = None then at_stage p Holding (w\<lparr> lw_holder := Some p \<rparr>)
       else at_stage p (Refused (held_message l would_block)) w)
     else None)"
| "operate l p w (LockFails e) = (if lw_stage w p = Opened then Some (at_stage p (Refused (held_message l e)) w) else None)"
| "operate l p w AskOpen = (if lw_stage w p = Idle
     then Some (at_stage p (if lw_file w then AskOpened else Answered NeverRan) w) else None)"
| "operate l p w (AskOpenFails e) = (if lw_stage w p = Idle then Some (at_stage p (Answered (StateUnknown e)) w) else None)"
| "operate l p w AskLock = (if lw_stage w p = AskOpened
     then Some (if lw_holder w = None then at_stage p AskHolding (w\<lparr> lw_holder := Some p \<rparr>)
       else at_stage p (Answered Running) w)
     else None)"
| "operate l p w (AskLockFails e) = (if lw_stage w p = AskOpened then Some (at_stage p (Answered Running) w) else None)"
| "operate l p w AskDrop = (if lw_stage w p = AskHolding then Some (at_stage p (Answered NotRunning) (release p w)) else None)"
| "operate l p w Exit = Some (at_stage p Gone (release p w))"

inductive reachable :: "path_layout \<Rightarrow> lock_world \<Rightarrow> bool" for l where
  boot: "reachable l booted"
| oper: "reachable l w \<Longrightarrow> operate l p w op = Some w' \<Longrightarrow> reachable l w'"

section \<open>The holder is the one that holds\<close>

definition holds_lock :: "stage \<Rightarrow> bool" where "holds_lock s \<longleftrightarrow> s = Holding \<or> s = AskHolding"

definition lock_ok :: "lock_world \<Rightarrow> bool" where
  "lock_ok w \<longleftrightarrow> (\<forall>p. holds_lock (lw_stage w p) \<longrightarrow> lw_holder w = Some p)"

lemma holds_lock_simps [simp]:
  "holds_lock Holding" "holds_lock AskHolding" "\<not> holds_lock Idle" "\<not> holds_lock Opened" "\<not> holds_lock (Refused e)"
  "\<not> holds_lock AskOpened" "\<not> holds_lock (Answered d)" "\<not> holds_lock Gone"
  by (simp_all add: holds_lock_def)

text \<open>Taking the lock when it is free, giving it back, and moving without it keep the invariant.\<close>

lemma lock_taken: "lock_ok w \<Longrightarrow> lw_holder w = None \<Longrightarrow> lock_ok (at_stage p s (w\<lparr> lw_holder := Some p \<rparr>))"
  by (auto simp: lock_ok_def at_stage_def)

lemma lock_released: "lock_ok w \<Longrightarrow> \<not> holds_lock s \<Longrightarrow> lock_ok (at_stage p s (release p w))"
  by (auto simp: lock_ok_def at_stage_def release_def)

lemma lock_apart: "lock_ok w \<Longrightarrow> \<not> holds_lock s \<Longrightarrow> lock_ok (at_stage p s w)"
  by (simp add: lock_ok_def at_stage_def)

lemma lock_file [simp]: "lock_ok (w\<lparr> lw_file := b \<rparr>) = lock_ok w"
  by (simp add: lock_ok_def)

lemma operate_lock_ok: "lock_ok w \<Longrightarrow> operate l p w op = Some w' \<Longrightarrow> lock_ok w'"
  by (cases op) (auto simp: lock_taken lock_released lock_apart split: if_splits)

lemma reachable_lock_ok: "reachable l w \<Longrightarrow> lock_ok w"
proof (induction rule: reachable.induct)
  case boot
  show ?case by (simp add: lock_ok_def booted_def)
next
  case (oper w p op w')
  then show ?case using operate_lock_ok by blast
qed

text \<open>C23: One daemon at a time.  In every interleaving of processes that start a daemon, ask for one, fail or are killed,
  at most one process is the daemon, and while it is, every other one that tries the lock is refused and every one
  that asks is told that it runs.\<close>

theorem one_daemon_at_a_time:
  assumes "reachable l w" "lw_stage w p = Holding"
  shows "\<forall>q. q \<noteq> p \<longrightarrow> lw_stage w q \<noteq> Holding \<and>
    (\<forall>w'. operate l q w TryLock = Some w' \<longrightarrow> lw_stage w' q = Refused (held_message l would_block)) \<and>
    (\<forall>w'. operate l q w AskLock = Some w' \<longrightarrow> lw_stage w' q = Answered Running)"
proof -
  have h: "\<And>q. holds_lock (lw_stage w q) \<Longrightarrow> lw_holder w = Some q"
    using reachable_lock_ok [OF assms(1)] by (simp add: lock_ok_def)
  have p: "lw_holder w = Some p" using h [of p] assms(2) by simp
  have "lw_stage w q \<noteq> Holding" if "q \<noteq> p" for q using h [of q] p that by auto
  then show ?thesis using p by (simp add: at_stage_def)
qed

fun operates :: "path_layout \<Rightarrow> lock_world \<Rightarrow> (nat \<times> operation) list \<Rightarrow> lock_world option" where
  "operates l w [] = Some w"
| "operates l w ((p, op) # ops) = Option.bind (operate l p w op) (\<lambda>w'. operates l w' ops)"

lemma operates_reachable: "operates l w ops = Some w' \<Longrightarrow> reachable l w \<Longrightarrow> reachable l w'"
proof (induction l w ops rule: operates.induct)
  case (2 l w p op ops)
  then obtain u where "operate l p w op = Some u" "operates l u ops = Some w'" by (auto simp: bind_eq_Some_conv)
  with 2 show ?case by (auto intro: reachable.oper)
qed simp

definition demo_layout :: path_layout where
  "demo_layout = layout_from_env [''PGPOD_HOME'' \<mapsto> ''/tmp/pgpod''] \<lparr> kd_config = None, kd_state = None, kd_data = None, kd_runtime = None \<rparr> 1000"

definition two_daemons :: lock_world where
  "two_daemons = \<lparr> lw_file = True, lw_holder = Some 1, lw_stage = (\<lambda>_. Idle)(1 := Holding, 2 := Opened) \<rparr>"

lemma two_daemons_run: "operates l booted [(1, Open), (1, TryLock), (2, Open)] = Some two_daemons"
  by (simp add: booted_def at_stage_def two_daemons_def)

theorem one_daemon_at_a_time_witness:
  "map_option (\<lambda>w'. lw_stage w' 2) (operate demo_layout 2 two_daemons TryLock) = Some (Refused (held_message demo_layout would_block))"
proof -
  obtain w' where w: "operate demo_layout 2 two_daemons TryLock = Some w'" by (simp add: two_daemons_def)
  have r: "reachable demo_layout two_daemons" by (rule operates_reachable [OF two_daemons_run reachable.boot])
  have h: "lw_stage two_daemons 1 = Holding" by (simp add: two_daemons_def)
  have "(2 :: nat) \<noteq> 1" by simp
  then have "\<forall>w'. operate demo_layout 2 two_daemons TryLock = Some w' \<longrightarrow> lw_stage w' 2 = Refused (held_message demo_layout would_block)"
    using one_daemon_at_a_time [OF r h] by blast
  then have "lw_stage w' 2 = Refused (held_message demo_layout would_block)" using w by blast
  then show ?thesis unfolding w by simp
qed

text \<open>Asking has an effect after all: while the asker has the lock for its moment, a daemon that starts is refused as if
  there were another one, and then there is none on the host.\<close>

lemma asking_refuses_a_daemon:
  "\<exists>w. operates l booted [(1, Open), (1, TryLock), (1, Exit), (2, AskOpen), (2, AskLock), (3, Open), (3, TryLock), (2, AskDrop)] = Some w \<and>
     lw_stage w 3 = Refused (held_message l would_block) \<and> lw_stage w 2 = Answered NotRunning \<and> lw_holder w = None"
  by (simp add: booted_def at_stage_def release_def)

end
