(* ===== verification/Doctor.thy ===== *)
theory Doctor
  imports Resume Repository DaemonLock
begin

text \<open>
  The preflight checks of \<^verbatim>\<open>pgpod doctor\<close> (\<^verbatim>\<open>pgpod-cli/src/doctor.rs\<close>), with where the socket is looked for
  (\<^verbatim>\<open>pgpod-runtime/src/socket.rs\<close>) and the facts taken from podman (\<^verbatim>\<open>pgpod-runtime/src/info.rs\<close>).  What the host answers is a record; a
  fact podman did not report is \<open>None\<close>.
\<close>

section \<open>The socket\<close>

datatype socket_source = EnvOverride | XdgRuntimeDir | UidFallback

fun socket_source_as_str :: "socket_source \<Rightarrow> string" where
  "socket_source_as_str EnvOverride = ''PGPOD_PODMAN_SOCKET''"
| "socket_source_as_str XdgRuntimeDir = ''XDG_RUNTIME_DIR''"
| "socket_source_as_str UidFallback = ''/run/user/<uid> fallback''"

definition discover :: "(string \<rightharpoonup> string) \<Rightarrow> 32 word \<Rightarrow> string \<times> socket_source" where
  "discover env uid = (case env ''PGPOD_PODMAN_SOCKET'' of
      Some p \<Rightarrow> (p, EnvOverride)
    | None \<Rightarrow> (case env ''XDG_RUNTIME_DIR'' of
        Some d \<Rightarrow> (join_str d ''podman/podman.sock'', XdgRuntimeDir)
      | None \<Rightarrow> (''/run/user/'' @ show_nat (unat uid) @ ''/podman/podman.sock'', UidFallback)))"

section \<open>What podman reports of the host\<close>

text \<open>The sizes of the ranges of an id map, as far as the reply has them.\<close>

type_synonym id_map = "int option list option"

record podman_info =
  pi_server_version :: "string option"
  pi_api_version :: "string option"
  pi_rootless :: "bool option"
  pi_network_backend :: "string option"
  pi_cgroup_version :: "string option"
  pi_cgroup_manager :: "string option"
  pi_oci_runtime :: "string option"
  pi_graph_root :: "string option"
  pi_graph_driver :: "string option"
  pi_graph_root_allocated :: "64 word option"
  pi_graph_root_used :: "64 word option"
  pi_distribution :: "string option"
  pi_distribution_version :: "string option"
  pi_kernel :: "string option"
  pi_arch :: "string option"
  pi_subuid_count :: "64 word"
  pi_subgid_count :: "64 word"

definition map_count :: "id_map \<Rightarrow> 64 word" where
  "map_count ranges = (case ranges of None \<Rightarrow> 0
    | Some rs \<Rightarrow> sum_list (map word_of_int (filter (\<lambda>s. 1 < s) (List.map_filter id rs))))"

definition id_counts :: "(id_map \<times> id_map) option \<Rightarrow> 64 word \<times> 64 word" where
  "id_counts m = (case m of None \<Rightarrow> (0, 0) | Some (u, g) \<Rightarrow> (map_count u, map_count g))"

definition graph_root_free :: "podman_info \<Rightarrow> 64 word option" where
  "graph_root_free i = (case (pi_graph_root_allocated i, pi_graph_root_used i) of
      (Some allocated, Some used) \<Rightarrow> Some (if allocated < used then 0 else allocated - used) | _ \<Rightarrow> None)"

definition uses_netavark :: "podman_info \<Rightarrow> bool option" where
  "uses_netavark i = map_option (\<lambda>b. eq_ignore_ascii_case b ''netavark'') (pi_network_backend i)"

text \<open>The version is split at dots, dashes and plus signs.\<close>

definition version_pieces :: "string \<Rightarrow> string list" where
  "version_pieces v = split_on (CHR ''.'') (map (\<lambda>c. if c = CHR ''-'' \<or> c = CHR ''+'' then CHR ''.'' else c) v)"

definition server_version_parts :: "podman_info \<Rightarrow> (32 word \<times> 32 word) option" where
  "server_version_parts i = Option.bind (pi_server_version i) (\<lambda>v. case version_pieces v of
      [] \<Rightarrow> None
    | a # rest \<Rightarrow> map_option (\<lambda>major. (major, case rest of [] \<Rightarrow> 0 | b # _ \<Rightarrow> or_else (parse_u32 b) 0)) (parse_u32 a))"

section \<open>Checks\<close>

datatype check_status = CPass | CWarn | CFail | CUnknown

fun glyph :: "check_status \<Rightarrow> string" where
  "glyph CPass = ''ok  ''" | "glyph CWarn = ''warn''" | "glyph CFail = ''FAIL''" | "glyph CUnknown = ''?   ''"

record check =
  ck_name :: string
  ck_status :: check_status
  ck_detail :: string
  ck_hint :: "string option"

definition check_new :: "string \<Rightarrow> check_status \<Rightarrow> string \<Rightarrow> check" where
  "check_new name status detail = \<lparr> ck_name = name, ck_status = status, ck_detail = detail, ck_hint = None \<rparr>"

definition with_hint :: "string \<Rightarrow> check \<Rightarrow> check" where "with_hint hint c = c\<lparr> ck_hint := Some hint \<rparr>"

definition check_pass :: "string \<Rightarrow> string \<Rightarrow> check" where "check_pass name detail = check_new name CPass detail"
definition check_unknown :: "string \<Rightarrow> string \<Rightarrow> check" where "check_unknown name detail = check_new name CUnknown detail"

definition check_warn :: "string \<Rightarrow> string \<Rightarrow> string \<Rightarrow> check" where
  "check_warn name detail hint = with_hint hint (check_new name CWarn detail)"

definition check_fail :: "string \<Rightarrow> string \<Rightarrow> string \<Rightarrow> check" where
  "check_fail name detail hint = with_hint hint (check_new name CFail detail)"

lemma check_status_simps [simp]:
  "ck_status (check_pass n d) = CPass" "ck_status (check_unknown n d) = CUnknown"
  "ck_status (check_warn n d h) = CWarn" "ck_status (check_fail n d h) = CFail"
  by (simp_all add: check_pass_def check_unknown_def check_warn_def check_fail_def with_hint_def check_new_def)

definition min_podman_major :: "32 word" where "min_podman_major = 5"
definition graph_root_free_warn_bytes :: "64 word" where "graph_root_free_warn_bytes = 10 * 1024 * 1024 * 1024"
definition nofile_warn :: "64 word" where "nofile_warn = 4096"

definition check_version :: "podman_info \<Rightarrow> check" where
  "check_version i =
     (let reported = or_else (pi_server_version i) ''unknown''; api = or_else (pi_api_version i) ''unknown'' in
      case server_version_parts i of
        None \<Rightarrow> check_unknown ''podman version'' (''could not parse '' @ debug_str reported)
      | Some (major, minor) \<Rightarrow>
          if major < min_podman_major
          then check_fail ''podman version'' (reported @ '' (need >= '' @ show_nat (unat min_podman_major) @ ''.0)'')
            ''Ubuntu 26.04 ships podman 5.7; on older releases install a backport''
          else check_pass ''podman version'' (''server '' @ show_nat (unat major) @ ''.'' @ show_nat (unat minor) @
            '' ('' @ reported @ ''), libpod api '' @ api))"

definition check_rootless :: "podman_info \<Rightarrow> check" where
  "check_rootless i = (case pi_rootless i of
      Some True \<Rightarrow> check_pass ''rootless'' ''podman is running rootless''
    | Some False \<Rightarrow> check_fail ''rootless'' ''podman reports it is running as root''
        (''pgpod refuses a rootful podman '' @ em_dash @ '' use the user socket, not the system one'')
    | None \<Rightarrow> check_unknown ''rootless'' ''podman did not report a security section'')"

definition check_network_backend :: "podman_info \<Rightarrow> check" where
  "check_network_backend i = (case uses_netavark i of
      Some True \<Rightarrow> check_pass ''network backend'' ''netavark''
    | Some False \<Rightarrow> check_fail ''network backend''
        (or_else (pi_network_backend i) ''unknown'' @ '' '' @ em_dash @ '' pgpod needs netavark for container-name DNS'')
        (''add to /etc/containers/containers.conf:'' @ nl @ ''[network]'' @ nl @ ''network_backend = '' @ [CHR 0x22] @ ''netavark'' @
         [CHR 0x22] @ nl @ ''then: podman system reset  (destroys existing containers)'')
    | None \<Rightarrow> check_unknown ''network backend'' ''podman did not report it'')"

definition cgroup_number :: "podman_info \<Rightarrow> string option" where
  "cgroup_number i = map_option (dropWhile (\<lambda>c. c = CHR ''v'')) (pi_cgroup_version i)"

definition check_cgroups :: "podman_info \<Rightarrow> check" where
  "check_cgroups i = (case cgroup_number i of
      None \<Rightarrow> check_unknown ''cgroups'' ''podman did not report a cgroup version''
    | Some n \<Rightarrow> if n = ''2'' then check_pass ''cgroups'' (''v2 ('' @ or_else (pi_cgroup_manager i) ''unknown manager'' @ '')'')
        else check_fail ''cgroups'' (''v'' @ n @ '' '' @ em_dash @ '' rootless resource limits need v2'')
          ''boot with systemd.unified_cgroup_hierarchy=1'')"

definition check_oci_runtime :: "podman_info \<Rightarrow> check" where
  "check_oci_runtime i = (case pi_oci_runtime i of
      Some name \<Rightarrow> check_pass ''oci runtime'' name
    | None \<Rightarrow> check_unknown ''oci runtime'' ''podman did not report one'')"

definition check_subids :: "podman_info \<Rightarrow> check" where
  "check_subids i =
     (let u = show_nat (unat (pi_subuid_count i)); g = show_nat (unat (pi_subgid_count i)) in
      if pi_subuid_count i = 0 \<or> pi_subgid_count i = 0
      then check_fail ''subuid/subgid'' (''subuid='' @ u @ '' subgid='' @ g @ '' '' @ em_dash @
          '' containers are confined to a single UID, so postgres (uid 999) cannot start'')
        (''sudo usermod --add-subuids 100000-165535 --add-subgids 100000-165535 $(id -un)'' @ nl @ ''podman system migrate'')
      else check_pass ''subuid/subgid'' (u @ '' subuids, '' @ g @ '' subgids''))"

text \<open>Sizes are shown in units of 1024 with one decimal.  A number is first the nearest one a double holds, and a half is
  rounded to the even neighbour, there and in the decimal.\<close>

definition half_even :: "nat \<Rightarrow> nat \<Rightarrow> nat" where
  "half_even a b = (let q = a div b; r = a mod b in if b < 2 * r \<or> (2 * r = b \<and> odd q) then Suc q else q)"

definition as_f64 :: "64 word \<Rightarrow> nat" where
  "as_f64 w = (let n = unat w in
     case find (\<lambda>e. n div 2 ^ e < 2 ^ 53) [0..<12] of Some e \<Rightarrow> half_even n (2 ^ e) * 2 ^ e | None \<Rightarrow> n)"

definition size_unit :: "nat \<Rightarrow> nat" where
  "size_unit v = length (takeWhile (\<lambda>k. 1024 ^ k \<le> v) [1, 2, 3, 4])"

definition human_bytes :: "64 word \<Rightarrow> string" where
  "human_bytes n = (let u = size_unit (as_f64 n); tenths = half_even (10 * as_f64 n) (1024 ^ u) in
     if u = 0 then show_nat (unat n) @ '' B''
     else show_nat (tenths div 10) @ ''.'' @ show_nat (tenths mod 10) @ '' '' @ ([''B'', ''KiB'', ''MiB'', ''GiB'', ''TiB''] ! u))"

definition check_graph_root :: "podman_info \<Rightarrow> check" where
  "check_graph_root i =
     (let root = or_else (pi_graph_root i) ''unknown''; driver = or_else (pi_graph_driver i) ''unknown'' in
      case graph_root_free i of
        None \<Rightarrow> check_unknown ''graph root'' (root @ '' ('' @ driver @ '') '' @ em_dash @ '' podman did not report free space'')
      | Some free \<Rightarrow>
          if free < graph_root_free_warn_bytes
          then check_warn ''graph root'' (root @ '' ('' @ driver @ ''), '' @ human_bytes free @ '' free'')
            (''PGDATA lives here, not under your home directory.'' @ nl @
             ''Set `graphroot` in ~/.config/containers/storage.conf BEFORE creating clusters '' @ em_dash @
             '' moving it later means moving live databases.'')
          else check_pass ''graph root'' (root @ '' ('' @ driver @ ''), '' @ human_bytes free @ '' free''))"

definition checks_from_info :: "podman_info \<Rightarrow> check list" where
  "checks_from_info i = [check_version i, check_rootless i, check_network_backend i, check_cgroups i, check_oci_runtime i,
     check_subids i, check_graph_root i]"

section \<open>What the host answers\<close>

text \<open>The answers of the system and of podman, taken as of one moment.  \<open>hf_client\<close>: the client library accepts the
  socket's address; \<open>hf_linger\<close>: looking at a path gives it, or nothing, or a reason; \<open>hf_registry\<close>: opening the store.\<close>

record host_facts =
  hf_env :: "string \<rightharpoonup> string"
  hf_uid :: "32 word"
  hf_user :: "string option"
  hf_arch :: string
  hf_exists :: "string \<Rightarrow> bool"
  hf_client :: bool
  hf_ping :: "rt_error option"
  hf_info :: "rt_error + podman_info"
  hf_nofile :: "string + 64 word \<times> 64 word"
  hf_linger :: "string \<Rightarrow> string + bool"
  hf_daemon :: daemon_state
  hf_port_range :: "string + string"
  hf_registry :: "control_error + registry"

definition check_not_root :: "32 word \<Rightarrow> check" where
  "check_not_root uid = (if uid = 0
     then check_fail ''not root'' ''running as uid 0''
       (''pgpod is rootless by design '' @ em_dash @ '' run as an unprivileged user'')
     else check_pass ''not root'' (''uid '' @ show_nat (unat uid)))"

definition check_socket :: "bool \<Rightarrow> string \<Rightarrow> socket_source \<Rightarrow> check" where
  "check_socket exists path source =
     (let via = socket_source_as_str source in
      if exists then check_pass ''podman socket'' (path @ '' (via '' @ via @ '')'')
      else check_fail ''podman socket'' (''not found at '' @ path @ '' (via '' @ via @ '')'')
        (''systemctl --user enable --now podman.socket'' @ nl @ ''loginctl enable-linger $(id -un)'' @
         (if source = UidFallback
          then nl @ ''XDG_RUNTIME_DIR is unset '' @ em_dash @ '' if you reached this shell via `sudo -iu`, use `sudo -Hu` '' @
            ''and export XDG_RUNTIME_DIR and DBUS_SESSION_BUS_ADDRESS explicitly''
          else [])))"

definition check_nofile :: "string + 64 word \<times> 64 word \<Rightarrow> check" where
  "check_nofile limits = (case limits of
      Inl e \<Rightarrow> check_unknown ''open files'' (''could not read RLIMIT_NOFILE: '' @ e)
    | Inr (soft, hard) \<Rightarrow>
        if soft < nofile_warn
        then check_warn ''open files'' (''soft limit '' @ show_nat (unat soft) @ '' is low for a busy postgres'')
          (''raise to at least '' @ show_nat (unat nofile_warn) @ '': ulimit -n '' @ show_nat (unat nofile_warn))
        else check_pass ''open files'' (''soft '' @ show_nat (unat soft) @ '', hard '' @ show_nat (unat hard)))"

definition check_agent_binary :: "(string \<Rightarrow> bool) \<Rightarrow> string \<Rightarrow> check" where
  "check_agent_binary exists path = (if exists path then check_pass ''agent binary'' path
     else check_warn ''agent binary'' (''not present at '' @ path)
       (''built and installed from Phase 1 '' @ em_dash @ '' nothing uses it yet''))"

definition check_linger :: "string option \<Rightarrow> (string \<Rightarrow> string + bool) \<Rightarrow> check" where
  "check_linger name seen = (case name of
      None \<Rightarrow> check_unknown ''linger'' (''could not resolve the current user'' @ [CHR 0x27] @ ''s name'')
    | Some user \<Rightarrow>
        let path = join_str ''/var/lib/systemd/linger'' user in
        (case seen path of
          Inr True \<Rightarrow> check_pass ''linger'' (''enabled for '' @ user)
        | Inr False \<Rightarrow> check_warn ''linger'' (''not enabled for '' @ user @ '' '' @ em_dash @
            '' containers stop at logout, and nothing brings them back after a reboot'')
            (''sudo loginctl enable-linger '' @ user)
        | Inl e \<Rightarrow> check_unknown ''linger'' (''could not read '' @ path @ '': '' @ e)))"

fun check_daemon :: "daemon_state \<Rightarrow> check" where
  "check_daemon Running = check_pass ''pgpod daemon'' ''running; clusters will come back after a reboot''"
| "check_daemon NotRunning = check_warn ''pgpod daemon''
     (''not running '' @ em_dash @ '' it has run on this host, but is not up now'') ''systemctl --user start pgpod-daemon.service''"
| "check_daemon NeverRan = check_warn ''pgpod daemon''
     ''never started on this host, so a reboot would leave clusters down'' ''install it as a user unit: ops/install-pgpod.sh''"
| "check_daemon (StateUnknown e) = check_unknown ''pgpod daemon'' (''could not read the daemon lock: '' @ e)"

function split_whitespace :: "string \<Rightarrow> string list" where
  "split_whitespace [] = []"
| "split_whitespace (c # cs) = (if is_space c then split_whitespace cs
     else (c # takeWhile (\<lambda>x. \<not> is_space x) cs) # split_whitespace (dropWhile (\<lambda>x. \<not> is_space x) cs))"
  by pat_completeness auto
termination by (relation "measure length") (simp_all add: length_dropWhile_le le_imp_less_Suc)

definition port_texts :: "16 word list \<Rightarrow> string list" where "port_texts ps = map (\<lambda>p. show_nat (unat p)) ps"

definition range_verdict :: "16 word \<Rightarrow> 16 word \<Rightarrow> 16 word list \<Rightarrow> check" where
  "range_verdict low high ports =
     (let exposed = filter (\<lambda>p. low \<le> p \<and> p \<le> high) ports; window = show_nat (unat low) @ ''-'' @ show_nat (unat high) in
      if exposed = [] then check_pass ''host ports'' (''none inside the ephemeral range '' @ window)
      else check_warn ''host ports''
        (show_nat (length exposed) @ '' published port(s) sit inside the ephemeral range '' @ window @ '' ('' @
         str_join '', '' (port_texts exposed) @ '') and could be taken by another process during boot'')
        (''reserve them: sudo sysctl -w net.ipv4.ip_local_reserved_ports='' @ str_join '','' (port_texts exposed)))"

definition check_port_range :: "'m manifest_codec \<Rightarrow> 'q manifest_codec \<Rightarrow> path_layout \<Rightarrow> host_facts \<Rightarrow> check" where
  "check_port_range cm pm l h = (case hf_port_range h of
      Inl e \<Rightarrow> check_unknown ''host ports'' (''could not read the ephemeral range: '' @ e)
    | Inr window \<Rightarrow> (case List.map_filter parse_u16 (split_whitespace window) of
        low # high # _ \<Rightarrow>
          if \<not> hf_exists h (registry_db l)
          then check_pass ''host ports'' (''ephemeral range '' @ show_nat (unat low) @ ''-'' @ show_nat (unat high) @ ''; no clusters yet'')
          else (case and_then (hf_registry h) (\<lambda>db. map_sum ERegistry id (recorded_host_ports cm pm db)) of
            Inl e \<Rightarrow> check_unknown ''host ports'' (''could not read '' @ registry_db l @ '': '' @ show_control_error e)
          | Inr ports \<Rightarrow> range_verdict low high ports)
      | _ \<Rightarrow> check_unknown ''host ports'' (''unparseable ephemeral range: '' @ debug_str window)))"

section \<open>The report\<close>

definition podman_checks :: "host_facts \<Rightarrow> bool \<Rightarrow> check list" where
  "podman_checks h connected = (if \<not> connected
     then [check_unknown ''podman api'' (''skipped '' @ em_dash @ '' no socket to talk to'')]
     else (case hf_ping h of
       Some e \<Rightarrow> [check_fail ''podman api'' (''socket exists but the daemon did not answer: '' @ show_rt_error e)
         ''systemctl --user restart podman.socket'']
     | None \<Rightarrow> check_pass ''podman api'' ''responding to /_ping'' # (case hf_info h of
         Inl e \<Rightarrow> [check_fail ''podman info'' (''could not read host info: '' @ show_rt_error e) ''check `podman info` directly'']
       | Inr i \<Rightarrow> checks_from_info i)))"

definition doctor_run :: "'m manifest_codec \<Rightarrow> 'q manifest_codec \<Rightarrow> path_layout \<Rightarrow> host_facts \<Rightarrow> check list" where
  "doctor_run cm pm l h =
     (let (path, source) = discover (hf_env h) (hf_uid h) in
      [check_not_root (hf_uid h), check_socket (hf_exists h path) path source] @
      podman_checks h (hf_exists h path \<and> hf_client h) @
      [check_nofile (hf_nofile h), check_agent_binary (hf_exists h) (agent_binary l (hf_arch h)),
       check_linger (hf_user h) (hf_linger h), check_daemon (hf_daemon h), check_port_range cm pm l h])"

definition healthy :: "check list \<Rightarrow> bool" where
  "healthy checks \<longleftrightarrow> \<not> list_ex (\<lambda>c. ck_status c = CFail) checks"

definition exit_code :: "check list \<Rightarrow> int" where "exit_code checks = (if healthy checks then 0 else 1)"

definition right_arrow :: string where "right_arrow = [CHR 0xE2, CHR 0x86, CHR 0x92]"

definition name_width :: "check list \<Rightarrow> nat" where "name_width checks = fold max (map (\<lambda>c. length (ck_name c)) checks) 4"

definition check_text :: "nat \<Rightarrow> check \<Rightarrow> string" where
  "check_text width c = ''  ['' @ glyph (ck_status c) @ ''] '' @ pad width (ck_name c) @ ''  '' @ ck_detail c @ nl @
     (case ck_hint c of None \<Rightarrow> []
      | Some hint \<Rightarrow> concat (map (\<lambda>line. ''         '' @ pad width [] @ ''  '' @ right_arrow @ '' '' @ line @ nl) (str_lines hint)))"

definition count_of :: "check_status \<Rightarrow> check list \<Rightarrow> nat" where
  "count_of s checks = length (filter (\<lambda>c. ck_status c = s) checks)"

definition report_text :: "check list \<Rightarrow> string" where
  "report_text checks = concat (map (check_text (name_width checks)) checks) @ nl @
     (if healthy checks \<and> count_of CWarn checks = 0 then ''host is ready for pgpod'' @ nl
      else if healthy checks then ''host is usable, with '' @ show_nat (count_of CWarn checks) @ '' warning(s) worth addressing'' @ nl
      else ''host is NOT ready: '' @ show_nat (count_of CFail checks) @ '' failure(s), '' @ show_nat (count_of CWarn checks) @
        '' warning(s)'' @ nl)"

section \<open>When the host is refused\<close>

text \<open>What a host and its podman must be.\<close>

definition podman_fit :: "podman_info \<Rightarrow> bool" where
  "podman_fit i \<longleftrightarrow> (case server_version_parts i of Some (major, _) \<Rightarrow> 5 \<le> major | None \<Rightarrow> True) \<and>
     pi_rootless i \<noteq> Some False \<and> uses_netavark i \<noteq> Some False \<and> cgroup_number i \<in> {None, Some ''2''} \<and>
     pi_subuid_count i \<noteq> 0 \<and> pi_subgid_count i \<noteq> 0"

definition host_fit :: "host_facts \<Rightarrow> bool" where
  "host_fit h \<longleftrightarrow> hf_uid h \<noteq> 0 \<and> hf_exists h (fst (discover (hf_env h) (hf_uid h))) \<and>
     (hf_client h \<longrightarrow> hf_ping h = None \<and> (\<exists>i. hf_info h = Inr i \<and> podman_fit i))"

lemma version_fails: "ck_status (check_version i) = CFail \<longleftrightarrow> \<not> (case server_version_parts i of Some (major, _) \<Rightarrow> 5 \<le> major | None \<Rightarrow> True)"
  by (simp add: check_version_def Let_def min_podman_major_def not_le split: option.split)

lemma rootless_fails: "ck_status (check_rootless i) = CFail \<longleftrightarrow> pi_rootless i = Some False"
  by (simp add: check_rootless_def split: option.split bool.split)

lemma network_fails: "ck_status (check_network_backend i) = CFail \<longleftrightarrow> uses_netavark i = Some False"
  by (simp add: check_network_backend_def split: option.split bool.split)

lemma cgroups_fail: "ck_status (check_cgroups i) = CFail \<longleftrightarrow> cgroup_number i \<notin> {None, Some ''2''}"
  by (simp add: check_cgroups_def split: option.split)

lemma subids_fail: "ck_status (check_subids i) = CFail \<longleftrightarrow> pi_subuid_count i = 0 \<or> pi_subgid_count i = 0"
  by (simp add: check_subids_def Let_def)

lemma info_advisory: "ck_status (check_oci_runtime i) \<noteq> CFail" "ck_status (check_graph_root i) \<noteq> CFail"
  by (simp_all add: check_oci_runtime_def check_graph_root_def Let_def split: option.split)

lemma info_checks_fit: "healthy (checks_from_info i) \<longleftrightarrow> podman_fit i"
  by (simp add: healthy_def checks_from_info_def podman_fit_def version_fails rootless_fails network_fails cgroups_fail
    subids_fail info_advisory)

lemma nofile_advisory: "ck_status (check_nofile x) \<noteq> CFail"
  by (simp add: check_nofile_def split: sum.split prod.split)

lemma binary_advisory: "ck_status (check_agent_binary f p) \<noteq> CFail"
  by (simp add: check_agent_binary_def)

lemma linger_advisory: "ck_status (check_linger n k) \<noteq> CFail"
  by (simp add: check_linger_def Let_def split: sum.split option.split bool.split)

lemma daemon_advisory: "ck_status (check_daemon d) \<noteq> CFail"
  by (cases d) simp_all

lemma range_advisory: "ck_status (range_verdict low high ports) \<noteq> CFail"
  by (simp add: range_verdict_def Let_def)

lemma ports_advisory: "ck_status (check_port_range cm pm l h) \<noteq> CFail"
  by (simp add: check_port_range_def range_advisory split: sum.split list.split)

lemmas advisory_checks_pass = nofile_advisory binary_advisory linger_advisory daemon_advisory ports_advisory

lemma healthy_simps [simp]: "healthy []" "healthy (c # cs) \<longleftrightarrow> ck_status c \<noteq> CFail \<and> healthy cs" "healthy (as @ bs) \<longleftrightarrow> healthy as \<and> healthy bs"
  by (simp_all add: healthy_def)

lemma podman_checks_fit:
  "healthy (podman_checks h b) \<longleftrightarrow> (b \<longrightarrow> hf_ping h = None \<and> (\<exists>i. hf_info h = Inr i \<and> podman_fit i))"
  by (auto simp: podman_checks_def info_checks_fit split: option.splits sum.splits)


section \<open>The room left for databases\<close>

text \<open>C40: The verdict on the room left never wraps and never guesses: it is unknown exactly when podman left out a number, a
  warning exactly when less than ten gibibytes are left, also where more is used than there is, and the room is the
  difference, or none.\<close>

theorem graph_root_verdict:
  "ck_status (check_graph_root i) = (case (pi_graph_root_allocated i, pi_graph_root_used i) of
      (Some allocated, Some used) \<Rightarrow> if unat allocated < unat used + 10737418240 then CWarn else CPass
    | _ \<Rightarrow> CUnknown) \<and>
   map_option unat (graph_root_free i) = (case (pi_graph_root_allocated i, pi_graph_root_used i) of
      (Some allocated, Some used) \<Rightarrow> Some (unat allocated - unat used) | _ \<Rightarrow> None)"
proof (cases "pi_graph_root_allocated i")
  case a: (Some a)
  show ?thesis
  proof (cases "pi_graph_root_used i")
    case u: (Some u)
    define free where "free = (if a < u then 0 else a - u)"
    have f: "unat free = unat a - unat u"
      by (simp add: free_def word_less_nat_alt unat_sub word_le_nat_alt not_less)
    have "free < graph_root_free_warn_bytes \<longleftrightarrow> unat a < unat u + 10737418240"
      by (simp add: word_less_nat_alt f graph_root_free_warn_bytes_def) linarith
    then show ?thesis using a u f by (simp add: check_graph_root_def graph_root_free_def Let_def flip: free_def)
  qed (simp add: a check_graph_root_def graph_root_free_def Let_def)
qed (simp add: check_graph_root_def graph_root_free_def Let_def)

text \<open>A missing id map counts as no subordinate ids, which fails the host; every other fact podman leaves out is unknown.\<close>

lemma missing_id_maps_fail:
  "(pi_subuid_count i, pi_subgid_count i) = id_counts None \<Longrightarrow> ck_status (check_subids i) = CFail"
  by (simp add: check_subids_def id_counts_def Let_def)

end
