(* ===== verification/BackupInfo.thy ===== *)
theory BackupInfo
  imports Prelude
begin

text \<open>
  What \<^verbatim>\<open>pgbackrest info\<close> tells pgpod, and the choice of a backup for a point in time
  (\<^verbatim>\<open>pgpod-backup/src/info.rs\<close>).  An instant is a number of nanoseconds since the epoch.  Which
  seconds chrono can turn into a date is a parameter; for the others the code takes the time it is now.
\<close>

section \<open>The document\<close>

record stanza_status =
  st_code :: int
  st_message :: string

record archive_info =
  ai_id :: string
  ai_min :: "string option"
  ai_max :: "string option"

datatype backup_type = Full | Diff | Incr

record stored_backup =
  bk_label :: string
  bk_type :: backup_type
  bk_start :: int
  bk_stop :: int
  bk_archive :: "(string option \<times> string option) option"
  bk_size :: "64 word option"
  bk_database :: int

record db_history =
  dh_id :: int
  dh_version :: string
  dh_system_id :: "64 word option"

record stanza_info =
  si_name :: string
  si_backup :: "stored_backup list"
  si_archive :: "archive_info list"
  si_status :: stanza_status
  si_db :: "db_history list"

section \<open>Reading it\<close>

definition instant :: "(int \<Rightarrow> bool) \<Rightarrow> int \<Rightarrow> int \<Rightarrow> int" where
  "instant representable now secs = (if representable secs then secs * 1000000000 else now)"

definition ended_at :: "(int \<Rightarrow> bool) \<Rightarrow> int \<Rightarrow> stored_backup \<Rightarrow> int" where
  "ended_at representable now b = instant representable now (bk_stop b)"

definition started_at :: "(int \<Rightarrow> bool) \<Rightarrow> int \<Rightarrow> stored_backup \<Rightarrow> int" where
  "started_at representable now b = instant representable now (bk_start b)"

definition size_bytes :: "stored_backup \<Rightarrow> 64 word" where
  "size_bytes b = (case bk_size b of Some s \<Rightarrow> s | None \<Rightarrow> 0)"

definition backups_oldest_first :: "stanza_info \<Rightarrow> stored_backup list" where
  "backups_oldest_first s = sort_key bk_stop (si_backup s)"

definition known_version :: "db_history option \<Rightarrow> string option" where
  "known_version d = (case d of Some h \<Rightarrow> if dh_version h \<noteq> [] then Some (dh_version h) else None | None \<Rightarrow> None)"

definition version_of :: "stanza_info \<Rightarrow> stored_backup \<Rightarrow> string option" where
  "version_of s b = known_version (find (\<lambda>d. dh_id d = bk_database b) (si_db s))"

text \<open>\<^verbatim>\<open>max_by_key\<close>: the last of the greatest.\<close>

definition max_by_key :: "('a \<Rightarrow> int) \<Rightarrow> 'a list \<Rightarrow> 'a option" where
  "max_by_key f xs = (case xs of [] \<Rightarrow> None | x # ys \<Rightarrow>
     Some (fold (\<lambda>y m. if f m \<le> f y then y else m) ys x))"

definition current_version :: "stanza_info \<Rightarrow> string option" where
  "current_version s = known_version (max_by_key dh_id (si_db s))"

text \<open>The image of the stanza's present version can read the backup, as far as both versions are known.\<close>

definition readable_now :: "stanza_info \<Rightarrow> stored_backup \<Rightarrow> bool" where
  "readable_now s b \<longleftrightarrow> (case (version_of s b, current_version s) of (Some v, Some v') \<Rightarrow> v = v' | _ \<Rightarrow> True)"

definition rfind :: "('a \<Rightarrow> bool) \<Rightarrow> 'a list \<Rightarrow> 'a option" where
  "rfind P xs = find P (rev xs)"

definition serves :: "(int \<Rightarrow> bool) \<Rightarrow> int \<Rightarrow> int option \<Rightarrow> stored_backup \<Rightarrow> bool" where
  "serves representable now at b \<longleftrightarrow> (case at of None \<Rightarrow> True | Some t \<Rightarrow> ended_at representable now b \<le> t)"

definition backup_for_target :: "(int \<Rightarrow> bool) \<Rightarrow> int \<Rightarrow> stanza_info \<Rightarrow> int option \<Rightarrow> stored_backup option" where
  "backup_for_target representable now s at = rfind (serves representable now at) (backups_oldest_first s)"

definition stanza_named :: "(string \<Rightarrow> string + stanza_info list) \<Rightarrow> string \<Rightarrow> string \<Rightarrow>
    string + stanza_info option" where
  "stanza_named read_info json name =
     and_then (map_err (\<lambda>e. ''could not read pgBackRest's output: '' @ e) (read_info json)) (\<lambda>all.
     Inr (find (\<lambda>s. si_name s = name) all))"

section \<open>The choice\<close>

lemma rfind_Some:
  "rfind P xs = Some x \<longleftrightarrow> (\<exists>ys zs. xs = ys @ x # zs \<and> P x \<and> (\<forall>z\<in>set zs. \<not> P z))"
proof
  assume "rfind P xs = Some x"
  then obtain i where i: "i < length xs" "P (rev xs ! i)" "x = rev xs ! i" "\<forall>j<i. \<not> P (rev xs ! j)"
    by (auto simp: rfind_def find_Some_iff)
  have "rev xs = take i (rev xs) @ x # drop (Suc i) (rev xs)" using i by (simp add: id_take_nth_drop)
  then have "xs = rev (drop (Suc i) (rev xs)) @ x # rev (take i (rev xs))"
    by (metis append.assoc append_Cons append_Nil rev.simps(2) rev_append rev_rev_ident)
  moreover have "\<forall>z\<in>set (rev (take i (rev xs))). \<not> P z"
    using i by (auto simp: in_set_conv_nth)
  ultimately show "\<exists>ys zs. xs = ys @ x # zs \<and> P x \<and> (\<forall>z\<in>set zs. \<not> P z)" using i by blast
next
  assume "\<exists>ys zs. xs = ys @ x # zs \<and> P x \<and> (\<forall>z\<in>set zs. \<not> P z)"
  then obtain ys zs where *: "xs = ys @ x # zs" "P x" "\<forall>z\<in>set zs. \<not> P z" by blast
  have "find P (us @ vs) = find P vs" if "\<forall>z\<in>set us. \<not> P z" for us vs using that by (induction us) auto
  then have "find P (rev zs @ x # rev ys) = Some x" using * by simp
  then show "rfind P xs = Some x" by (simp add: rfind_def *(1))
qed

lemma rfind_None: "rfind P xs = None \<longleftrightarrow> (\<forall>x\<in>set xs. \<not> P x)"
  by (auto simp: rfind_def find_None_iff)

lemma max_by_key_Some:
  "max_by_key f xs = Some m \<Longrightarrow> m \<in> set xs \<and> (\<forall>x\<in>set xs. f x \<le> f m)"
proof -
  have *: "fold (\<lambda>y m. if f m \<le> f y then y else m) ys x \<in> set (x # ys) \<and>
      (\<forall>z\<in>set (x # ys). f z \<le> f (fold (\<lambda>y m. if f m \<le> f y then y else m) ys x))" for ys x
  proof (induction ys arbitrary: x)
    case (Cons y ys)
    let ?m = "if f x \<le> f y then y else x"
    have "f x \<le> f ?m" "f y \<le> f ?m" by simp_all
    then show ?case using Cons.IH [of ?m] by (force split: if_splits intro: order.trans [of _ "f ?m"])
  qed simp
  show "max_by_key f xs = Some m \<Longrightarrow> m \<in> set xs \<and> (\<forall>x\<in>set xs. f x \<le> f m)"
    using * by (cases xs) (auto simp: max_by_key_def)
qed

lemma backup_for_target_split:
  assumes "backup_for_target representable now s at = Some b"
  obtains ys zs where "sorted (map bk_stop (ys @ b # zs))" "set (si_backup s) = set ys \<union> {b} \<union> set zs"
    "serves representable now at b" "\<forall>z\<in>set zs. \<not> serves representable now at z"
proof -
  obtain ys zs where *: "backups_oldest_first s = ys @ b # zs" "serves representable now at b"
    "\<forall>z\<in>set zs. \<not> serves representable now at z"
    using assms by (auto simp: backup_for_target_def rfind_Some)
  have "sorted (map bk_stop (ys @ b # zs))"
    unfolding *(1) [symmetric] backups_oldest_first_def by simp
  moreover have "set (si_backup s) = set ys \<union> {b} \<union> set zs"
    using arg_cong [OF *(1), of set] by (simp add: backups_oldest_first_def)
  ultimately show thesis using that *(2,3) by blast
qed

lemma backup_for_target_chosen:
  "backup_for_target representable now s at = Some b \<Longrightarrow> b \<in> set (si_backup s) \<and> serves representable now at b"
  by (elim backup_for_target_split) auto

section \<open>Properties\<close>

text \<open>A restore gets the newest backup that can serve the target.  Nothing is chosen exactly when no backup
  had finished by then; what is chosen is one of the repository's backups that had, and none
  that had finished by then finished later.\<close>

theorem backup_for_target_newest:
  "case backup_for_target representable now s at of
     None \<Rightarrow> (\<forall>b\<in>set (si_backup s). \<not> serves representable now at b)
   | Some b \<Rightarrow> b \<in> set (si_backup s) \<and> serves representable now at b \<and>
       (\<forall>b'\<in>set (si_backup s). serves representable now at b' \<longrightarrow> bk_stop b' \<le> bk_stop b)"
proof (cases "backup_for_target representable now s at")
  case None
  then have "\<forall>b\<in>set (si_backup s). \<not> serves representable now at b"
    by (simp add: backup_for_target_def rfind_None backups_oldest_first_def)
  then show ?thesis unfolding None by simp
next
  case (Some b)
  from Some show ?thesis
    by (rule backup_for_target_split) (use Some in \<open>auto simp: sorted_append\<close>)
qed

section \<open>Witnesses\<close>

definition demo_backup :: "string \<Rightarrow> int \<Rightarrow> stored_backup" where
  "demo_backup label stop = \<lparr> bk_label = label, bk_type = Full, bk_start = stop - 15, bk_stop = stop, bk_archive = None,
     bk_size = Some 24000000, bk_database = 1 \<rparr>"

definition demo_stanza :: stanza_info where
  "demo_stanza = \<lparr> si_name = ''mydb'', si_backup = [demo_backup ''b'' 200, demo_backup ''a'' 100], si_archive = [],
     si_status = \<lparr> st_code = 0, st_message = ''ok'' \<rparr>,
     si_db = [\<lparr> dh_id = 1, dh_version = ''17'', dh_system_id = None \<rparr>, \<lparr> dh_id = 2, dh_version = ''18'', dh_system_id = None \<rparr>] \<rparr>"

theorem backup_for_target_newest_witness:
  "backup_for_target (\<lambda>_. True) 0 demo_stanza (Some 150000000000) = Some (demo_backup ''a'' 100) \<and>
   serves (\<lambda>_. True) 0 (Some 150000000000) (demo_backup ''a'' 100)"
proof -
  have *: "backup_for_target (\<lambda>_. True) 0 demo_stanza (Some 150000000000) = Some (demo_backup ''a'' 100)"
    by (simp add: backup_for_target_def rfind_def backups_oldest_first_def demo_stanza_def demo_backup_def
        serves_def ended_at_def instant_def)
  with backup_for_target_newest [where representable = "\<lambda>_. True" and now = 0 and s = demo_stanza
      and at = "Some 150000000000"] show ?thesis by simp
qed

end
