(* ===== verification/Backup.thy ===== *)
theory Backup
  imports BackupInfo Delete
begin

text \<open>
  Taking a backup, listing backups and restoring one (\<^verbatim>\<open>pgpod-control/src/backup.rs\<close>).  Each runs
  pgBackRest in a job container; a restore then applies a manifest of its own with a recovery
  bootstrap.  What chrono and serde do, reading the document and writing dates, is
  the record \<open>backup_tools\<close>.
\<close>

record backup_tools =
  bt_read_info :: "string \<Rightarrow> string + stanza_info list"
  bt_representable :: "int \<Rightarrow> bool"
  bt_stamp :: "nat \<Rightarrow> string"
  bt_rfc3339 :: "int \<Rightarrow> string"
  bt_show_time :: "int \<Rightarrow> string"

record backup_report =
  br_cluster :: string
  br_label :: "string option"
  br_destinations :: "string list"
  br_backup_type :: "string option"
  br_size_bytes :: "64 word option"

record restore_report =
  rs_source :: string
  rs_target :: string
  rs_backup_label :: string
  rs_target_time :: "string option"
  rs_instances :: "instance_summary list"

section \<open>One pgBackRest job\<close>

definition pgbackrest_container :: "string \<Rightarrow> cluster_manifest \<Rightarrow> cluster_id \<Rightarrow> string \<Rightarrow> string list \<Rightarrow>
    instance_record \<Rightarrow> container_spec" where
  "pgbackrest_container pgbundle m c name args row =
     (let s = hardened (sp_image_name (mf_spec m));
          s = with_name name s;
          s = with_user (user_of m) s;
          s = with_entrypoint ([pgbackrest_bin, ''--config='' @ pgbackrest_conf, ''--stanza='' @ cluster_str c] @ args) s;
          s = with_network (network_name c) s;
          s = with_log_driver ''k8s-file'' s;
          s = with_mount (Volume (in_volume_name row) volume_mount False) s;
          s = with_mount (BindReadOnly pgbundle pgbackrest_bundle_mount) s;
          s = (case bs_volume (sp_backup (mf_spec m)) of Some v \<Rightarrow> with_mount (Volume v archive_mount False) s | None \<Rightarrow> s);
          s = fold with_secret (store_mounts m) s;
          s = with_label (''pgpod.cluster'', cluster_str c) s
      in with_label (''pgpod.job'', ''pgbackrest'') s)"

definition pgbackrest_container_spec :: "'p control \<Rightarrow> cluster_manifest \<Rightarrow> cluster_id \<Rightarrow> string \<Rightarrow> string list \<Rightarrow>
    instance_record \<Rightarrow> ('p, container_spec) ctl" where
  "pgbackrest_container_spec cn m c name args row =
     seq (pgbackrest_bundle cn) (\<lambda>b. ret (pgbackrest_container b m c name args row))"

text \<open>The inner result is pgBackRest's own.\<close>

definition run_pgbackrest :: "'p control \<Rightarrow> cluster_manifest \<Rightarrow> cluster_id \<Rightarrow> string \<Rightarrow> string list \<Rightarrow> nat \<Rightarrow>
    ('p, control_error + string) ctl" where
  "run_pgbackrest cn m c name args wait =
     (let h = cn_host cn; command = str_join '' '' args in
      seq (look (\<lambda>db. get_instance db c 1)) (\<lambda>row.
      seq (of_result (ok_or (EInvalid (cluster_str c @ '' has no instance'')) row)) (\<lambda>rec.
      seq (pgbackrest_container_spec cn m c name args rec) (\<lambda>spec.
      seq (pod (create_container h spec)) (\<lambda>cid.
      seq (pod (start h cid)) (\<lambda>_.
      seq (timeout_after wait (wait_for_exit h cid)) (\<lambda>finished.
      seq (case finished of
             None \<Rightarrow> fail (ENotReady (instance_id_display (mk_instance c 1)) (secs_of wait)
               (''pgbackrest '' @ command @ '' is still running''))
           | Some r \<Rightarrow> of_result (map_err EPodman r)) (\<lambda>code.
      attempt (logs_string h cid) (\<lambda>l.
      let logs = (case l of Inr s \<Rightarrow> s | Inl e \<Rightarrow> ''<logs unavailable: '' @ show_rt_error e @ ''>'') in
      attempt (remove h cid True) (\<lambda>_.
      ret (if code \<noteq> 0 then Inl (EPgBackRest command logs) else Inr logs)))))))))))"

definition json_line :: "string \<Rightarrow> string option" where
  "json_line logs = find (\<lambda>l. prefix ''['' l) (map trim (str_lines logs))"

definition stanza_in :: "backup_tools \<Rightarrow> cluster_id \<Rightarrow> string \<Rightarrow> control_error + stanza_info option" where
  "stanza_in bt c logs =
     and_then (ok_or (EInvalid (''pgbackrest info produced no JSON:'' @ nl @ logs)) (json_line logs)) (\<lambda>json.
     map_err EBackup (stanza_named (bt_read_info bt) json (cluster_str c)))"

definition stanza_info_now :: "'p control \<Rightarrow> backup_tools \<Rightarrow> cluster_id \<Rightarrow> nat \<Rightarrow> ('p, stanza_info option) ctl" where
  "stanza_info_now cn bt c now =
     seq (look (\<lambda>db. require_cluster (cn_clusters cn) db c)) (\<lambda>rec.
     if \<not> is_enabled (sp_backup (mf_spec (cl_manifest rec))) then ret None
     else seq (run_pgbackrest cn (cl_manifest rec) c (''pgpod-'' @ cluster_str c @ ''-info-'' @ bt_stamp bt now)
                [''info'', ''--output=json''] 120000) (\<lambda>out.
       seq (of_result out) (\<lambda>logs. of_result (stanza_in bt c logs))))"

definition stanza_info_of :: "'p control \<Rightarrow> backup_tools \<Rightarrow> cluster_id \<Rightarrow> ('p, stanza_info option) ctl" where
  "stanza_info_of cn bt c w = stanza_info_now cn bt c (wd_now w) w"

definition backups :: "'p control \<Rightarrow> backup_tools \<Rightarrow> cluster_id \<Rightarrow> ('p, stored_backup list) ctl" where
  "backups cn bt c = seq (stanza_info_of cn bt c) (\<lambda>s.
     ret (case s of Some i \<Rightarrow> backups_oldest_first i | None \<Rightarrow> []))"

section \<open>Taking a backup\<close>

definition new_backup :: "stanza_info option \<Rightarrow> stanza_info option \<Rightarrow> stored_backup option" where
  "new_backup before after =
     rfind (\<lambda>b. \<not> (case before of Some s \<Rightarrow> bk_label b \<in> bk_label ` set (si_backup s) | None \<Rightarrow> False))
       (case after of Some s \<Rightarrow> backups_oldest_first s | None \<Rightarrow> [])"

fun backup_type_str :: "backup_type \<Rightarrow> string" where
  "backup_type_str Full = ''full''"
| "backup_type_str Diff = ''diff''"
| "backup_type_str Incr = ''incr''"

definition backup_job :: "'p control \<Rightarrow> backup_tools \<Rightarrow> cluster_manifest \<Rightarrow> cluster_id \<Rightarrow> nat \<Rightarrow>
    ('p, control_error + string) ctl" where
  "backup_job cn bt m c wait w =
     run_pgbackrest cn m c (''pgpod-'' @ cluster_str c @ ''-backup-'' @ bt_stamp bt (wd_now w)) [''backup''] wait w"

definition backup :: "'p control \<Rightarrow> backup_tools \<Rightarrow> cluster_id \<Rightarrow> nat \<Rightarrow> ('p, backup_report) ctl" where
  "backup cn bt c wait =
     seq (look (\<lambda>db. require_cluster (cn_clusters cn) db c)) (\<lambda>rec.
     let m = cl_manifest rec in
     if \<not> is_enabled (sp_backup (mf_spec m))
     then fail (EInvalid (cluster_str c @ '' has no spec.backup.destinations, so there is nowhere to put a backup''))
     else
       seq (stanza_info_of cn bt c) (\<lambda>before.
       seq (note_event (cluster_str c) (Some 1) ''info'' ''backup started'') (\<lambda>_.
       seq (backup_job cn bt m c wait) (\<lambda>out.
       case out of
         Inl e \<Rightarrow> seq (note_event (cluster_str c) (Some 1) ''error'' ''backup failed'') (\<lambda>_. fail e)
       | Inr _ \<Rightarrow>
           seq (stanza_info_of cn bt c) (\<lambda>after.
           let new = new_backup before after in
           seq (note_event (cluster_str c) (Some 1) ''info'' ''backup complete'') (\<lambda>_.
           ret \<lparr> br_cluster = cluster_str c, br_label = map_option bk_label new,
             br_destinations = map ds_url (bs_destinations (sp_backup (mf_spec m))),
             br_backup_type = map_option (\<lambda>b. backup_type_str (bk_type b)) new,
             br_size_bytes = map_option size_bytes new \<rparr>))))))"

section \<open>Restoring\<close>

definition no_backup_message :: "backup_tools \<Rightarrow> int \<Rightarrow> cluster_id \<Rightarrow> stanza_info \<Rightarrow> control_error" where
  "no_backup_message bt now source info =
     (let available = str_join '', '' (map (\<lambda>b. bk_label b @ '' (ended '' @
          bt_show_time bt (ended_at (bt_representable bt) now b) @ '')'') (backups_oldest_first info))
      in EInvalid (''no backup of '' @ cluster_str source @ '' finished at or before this target.'' @ nl @ ''Backups: '' @
        (if available = [] then ''none '' @ em_dash @ '' take one with `pgpod backup`'' else available) @ nl @
        ''A target earlier than the oldest backup cannot be reached.''))"

definition wrong_version :: "cluster_id \<Rightarrow> cluster_id \<Rightarrow> string \<Rightarrow> string \<Rightarrow> string \<Rightarrow> control_error" where
  "wrong_version source target label backup_v current_v = EInvalid (''backup '' @ label @ '' is PostgreSQL '' @ backup_v @
     '', but '' @ cluster_str source @ '' runs '' @ current_v @ '' now '' @ em_dash @
     '' its repository has been through a major upgrade. PostgreSQL cannot read a data directory from an older major '' @
     ''version, so restoring this backup needs a '' @ backup_v @ '' image:'' @ nl @ nl @
     ''  pgpod restore '' @ cluster_str source @ '' --as '' @ cluster_str target @ '' --image <a PostgreSQL '' @ backup_v @
     '' image>'' @ nl @ nl @ ''A target after the upgrade restores onto '' @ current_v @ '' with no --image.'')"

definition check_version :: "cluster_id \<Rightarrow> cluster_id \<Rightarrow> stanza_info \<Rightarrow> stored_backup \<Rightarrow> string option \<Rightarrow>
    control_error + unit" where
  "check_version source target info chosen img =
     (case (img, version_of info chosen, current_version info) of
        (None, Some b, Some v) \<Rightarrow> if b \<noteq> v then Inl (wrong_version source target (bk_label chosen) b v) else Inr ()
      | _ \<Rightarrow> Inr ())"

definition target_manifest :: "cluster_manifest \<Rightarrow> cluster_id \<Rightarrow> string option \<Rightarrow> cluster_manifest" where
  "target_manifest m target img =
     m\<lparr> mf_name := cluster_str target,
        mf_spec := (mf_spec m)\<lparr> sp_image_name := (case img of Some i \<Rightarrow> trim i | None \<Rightarrow> sp_image_name (mf_spec m)) \<rparr> \<rparr>"

definition recovery_from :: "backup_tools \<Rightarrow> cluster_manifest \<Rightarrow> cluster_id \<Rightarrow> stored_backup \<Rightarrow> int option \<Rightarrow> bootstrap" where
  "recovery_from bt m source chosen at =
     Recovery \<lparr> rb_source_stanza = cluster_str source, rb_backup_label = Some (bk_label chosen),
       rb_target_time = map_option (bt_rfc3339 bt) at,
       rb_destinations = map sanitized (bs_destinations (sp_backup (mf_spec m))) \<rparr>"

text \<open>The clock is read for each backup whose end cannot be turned into a date; it is read once here.\<close>

definition choose_backup :: "backup_tools \<Rightarrow> cluster_id \<Rightarrow> stanza_info \<Rightarrow> int option \<Rightarrow> ('p, stored_backup) ctl" where
  "choose_backup bt source info at w =
     (let now = int (wd_now w) * 1000000 in
      (ok_or (no_backup_message bt now source info) (backup_for_target (bt_representable bt) now info at), w))"

definition restore_into :: "'p control \<Rightarrow> backup_tools \<Rightarrow> cluster_id \<Rightarrow> cluster_id \<Rightarrow> int option \<Rightarrow> string option \<Rightarrow>
    nat \<Rightarrow> cluster_manifest \<Rightarrow> stored_backup \<Rightarrow> ('p, restore_report) ctl" where
  "restore_into cn bt source target at img wait m chosen =
     seq (apply_with_bootstrap cn (target_manifest m target img) (recovery_from bt m source chosen at)
            \<lparr> ao_wait = wait, ao_recreate = False \<rparr>) (\<lambda>report.
     ret \<lparr> rs_source = cluster_str source, rs_target = cluster_str target, rs_backup_label = bk_label chosen,
       rs_target_time = map_option (bt_rfc3339 bt) at, rs_instances = ar_instances report \<rparr>)"

definition restore :: "'p control \<Rightarrow> backup_tools \<Rightarrow> cluster_id \<Rightarrow> cluster_id \<Rightarrow> int option \<Rightarrow> string option \<Rightarrow>
    nat \<Rightarrow> ('p, restore_report) ctl" where
  "restore cn bt source target at img wait =
     (if source = target
      then fail (EInvalid (cluster_str source @ '' cannot be restored over itself '' @ em_dash @ '' give --as a new cluster name''))
      else
        seq (look (\<lambda>db. get_cluster (cn_clusters cn) db target)) (\<lambda>there.
        if there \<noteq> None
        then fail (EInvalid (cluster_str target @ '' already exists '' @ em_dash @ '' delete it first, or pick another --as name''))
        else
          seq (look (\<lambda>db. require_cluster (cn_clusters cn) db source)) (\<lambda>rec.
          let m = cl_manifest rec in
          if \<not> is_enabled (sp_backup (mf_spec m))
          then fail (EInvalid (cluster_str source @ '' has no spec.backup.destinations, so there is nothing to restore from''))
          else
            seq (stanza_info_of cn bt source) (\<lambda>found.
            seq (of_result (ok_or (EInvalid (cluster_str source @ '' has no pgbackrest repository yet'')) found)) (\<lambda>info.
            seq (choose_backup bt source info at) (\<lambda>chosen.
            seq (of_result (check_version source target info chosen img)) (\<lambda>_.
            restore_into cn bt source target at img wait m chosen)))))))"

section \<open>What these may do\<close>

text \<open>The requests of a pgBackRest job.\<close>

fun job_call :: "call \<Rightarrow> bool" where
  "job_call (CallIsFile f) = True"
| "job_call (CallCreate j) = True"
| "job_call (CallStart d) = True"
| "job_call (CallWait d) = True"
| "job_call (CallExists d) = True"
| "job_call (CallInspect d) = True"
| "job_call (CallLogs d) = True"
| "job_call (CallDelete d f) = True"
| "job_call x = False"

lemma run_pgbackrest_within [within_intros]:
  "(\<And>x. job_call x \<Longrightarrow> A x) \<Longrightarrow> obeys (within A S) (run_pgbackrest cn m c name args wait)"
  unfolding run_pgbackrest_def pgbackrest_container_spec_def Let_def by (intro within_intros) simp_all

lemma stanza_info_of_within [within_intros]:
  "(\<And>x. job_call x \<Longrightarrow> A x) \<Longrightarrow> obeys (within A S) (stanza_info_of cn bt c)"
  unfolding stanza_info_of_def stanza_info_now_def by (rule obeys_at) (intro within_intros; simp)

lemma backups_within [within_intros]:
  "(\<And>x. job_call x \<Longrightarrow> A x) \<Longrightarrow> obeys (within A S) (backups cn bt c)"
  unfolding backups_def by (intro within_intros; simp)

lemma backup_job_within [within_intros]:
  "(\<And>x. job_call x \<Longrightarrow> A x) \<Longrightarrow> obeys (within A S) (backup_job cn bt m c wait)"
  unfolding backup_job_def by (rule obeys_at) (intro within_intros; simp)

lemma backup_within [within_intros]:
  assumes "\<And>x. job_call x \<Longrightarrow> A x" "\<And>now n l msg db. S db (record_event now (cluster_str c) n l msg db)"
  shows "obeys (within A S) (backup cn bt c wait)"
  unfolding backup_def Let_def by (intro within_intros) (simp_all add: assms)

lemma choose_backup_within [within_intros]: "obeys (within A S) (choose_backup bt c info at)"
  by (rule obeysI) (simp add: choose_backup_def Let_def within.refl)

lemma job_apply_call: "job_call x \<Longrightarrow> apply_call rec c x"
  by (cases x) auto

lemma target_id: "cluster_id_of (target_manifest m target img) = Inr c \<Longrightarrow> c = target"
  by (cases target) (auto simp: cluster_id_of_def target_manifest_def cluster_id_new_def split: if_splits sum.splits)

lemma restore_into_within:
  assumes "\<And>x. apply_call False target x \<Longrightarrow> A x" "\<And>db db'. cluster_write (cn_clusters cn) target db db' \<Longrightarrow> S db db'"
    "\<And>m. mc_name (cn_clusters cn) m = mf_name m"
  shows "obeys (within A S) (restore_into cn bt source target at img wait m chosen)"
proof -
  let ?m = "target_manifest m target img"
  have "obeys (within A S) (apply_to cn ?m target b \<lparr> ao_wait = wait, ao_recreate = False \<rparr>)" for b
  proof (rule apply_to_within)
    show "put_cluster (cn_clusters cn) now ?m ''applying'' db = Inr (db', g) \<Longrightarrow> S db db'" for now db db' g
      by (intro assms(2)) (rule cluster_writes(4), assumption, simp add: assms(3) target_manifest_def)
  qed (simp_all add: assms)
  moreover have "apply_with_bootstrap cn ?m b opts = (case cluster_id_of ?m of
      Inl e \<Rightarrow> fail (EManifest (show_manifest_error e)) | Inr c \<Rightarrow> apply_to cn ?m c b opts)" for b opts
    by (simp add: apply_with_bootstrap_def fun_eq_iff seq_def of_result_def fail_def split: sum.split)
  ultimately show ?thesis
    unfolding restore_into_def by (auto intro!: within_intros dest: target_id split: sum.split)
qed

lemma restore_within:
  assumes "\<And>x. apply_call False target x \<Longrightarrow> A x" "\<And>db db'. cluster_write (cn_clusters cn) target db db' \<Longrightarrow> S db db'"
    "\<And>m. mc_name (cn_clusters cn) m = mf_name m"
  shows "obeys (within A S) (restore cn bt source target at img wait)"
  unfolding restore_def Let_def
  by (intro within_intros restore_into_within [OF assms]) (auto intro: assms(1) job_apply_call)

section \<open>Properties\<close>


text \<open>A restore that succeeds without an image of its own used a backup the source's image can read: it is one of the
  repository's, it had finished by the target time, and it was taken by the version
  the stanza is on, as far as both versions are known.\<close>

theorem restore_uses_readable_backup:
  fixes cn :: "'p control"
  shows "case restore cn bt source target at None wait w of
      (Inr rep, w') \<Rightarrow> \<exists>info chosen now. chosen \<in> set (si_backup info) \<and> rs_backup_label rep = bk_label chosen \<and>
        serves (bt_representable bt) now at chosen \<and> readable_now info chosen
    | (Inl e, w') \<Rightarrow> True"
proof -
  have "\<exists>info chosen now. chosen \<in> set (si_backup info) \<and> rs_backup_label rep = bk_label chosen \<and>
      serves (bt_representable bt) now at chosen \<and> readable_now info chosen"
    if run: "restore cn bt source target at None wait w = (Inr rep, w')" for rep w'
  proof -
    obtain info chosen m and v0 v1 v2 :: "'p world" where *: "choose_backup bt source info at v0 = (Inr chosen, v1)"
      "check_version source target info chosen None = Inr ()"
      "restore_into cn bt source target at None wait m chosen v2 = (Inr rep, w')"
      using run
      by (auto simp: restore_def Let_def seq_def fail_def of_result_def split: if_splits sum.splits prod.splits)
    have "rs_backup_label rep = bk_label chosen"
      using *(3) by (auto simp: restore_into_def seq_def ret_def split: sum.splits prod.splits)
    moreover obtain now where "backup_for_target (bt_representable bt) now info at = Some chosen"
      using *(1) by (auto simp: choose_backup_def Let_def)
    then have "chosen \<in> set (si_backup info)" "serves (bt_representable bt) now at chosen"
      using backup_for_target_chosen by blast+
    moreover have "readable_now info chosen"
      using *(2) by (auto simp: check_version_def readable_now_def split: if_splits option.splits)
    ultimately show ?thesis by blast
  qed
  then show ?thesis by (auto split: prod.split sum.split)
qed

section \<open>Witnesses\<close>

definition demo_tools :: backup_tools where
  "demo_tools = \<lparr> bt_read_info = \<lambda>_. Inr [demo_stanza], bt_representable = \<lambda>_. True, bt_stamp = \<lambda>_. ''now'',
     bt_rfc3339 = \<lambda>_. ''then'', bt_show_time = \<lambda>_. ''then'' \<rparr>"


end
