(* ===== verification/Upgrade.thy ===== *)
theory Upgrade
  imports Backup PoolerApply
begin

text \<open>
  A major-version upgrade (\<^verbatim>\<open>pgpod-control/src/upgrade.rs\<close>): the checks and the staging before
  the window, what happens while the clients are held, and what follows.  The jobs in the
  volume are the \<open>upgrade_job\<close> of the theory Apply.
\<close>

record upgrade_options =
  uo_to_image :: string
  uo_method :: upgrade_method
  uo_jobs :: "32 word"
  uo_check :: bool
  uo_analyze :: bool
  uo_backup :: bool
  uo_wait :: nat

definition upgrade_options_default :: upgrade_options where
  "upgrade_options_default = \<lparr> uo_to_image = [], uo_method = Link, uo_jobs = 2, uo_check = False, uo_analyze = True,
     uo_backup = True, uo_wait = 300000 \<rparr>"

record upgrade_report =
  up_cluster :: string
  up_from_image :: string
  up_to_image :: string
  up_from_version :: string
  up_to_version :: string
  up_method :: string
  up_checked_only :: bool
  up_poolers_held :: nat
  up_held_ms :: nat
  up_upgrade_seconds :: "64 word"
  up_staged_bytes :: "64 word"
  up_old_data_dir :: string
  up_analyzed :: bool
  up_backup_label :: "string option"
  up_warnings :: "string list"

section \<open>Steps\<close>

text \<open>The clock of \<^verbatim>\<open>Instant::now\<close>.\<close>

definition instant_now :: "('p, nat) ctl" where
  "instant_now w = (Inr (wd_now w), w)"

definition running_version :: "'p control \<Rightarrow> instance_id \<Rightarrow> ('p, string) ctl" where
  "running_version cn inst =
     (let h = cn_host cn in
      seq (running_container h inst) (\<lambda>container.
      seq (pod (exec h container [''cat'', pgdata_dir @ ''/PG_VERSION''])) (\<lambda>out.
      if \<not> exec_success out
      then fail (EInvalid (''could not read '' @ pgdata_dir @ ''/PG_VERSION from '' @ instance_id_display inst @ '': '' @
        trim (eo_stderr out)))
      else of_result (ok_or (EInvalid (instance_id_display inst @ '' reports a data directory version this pgpod does '' @
        ''not understand: '' @ debug_str (trim (eo_stdout out)))) (major_label (eo_stdout out))))))"

definition analyze_in_stages :: "'p control \<Rightarrow> instance_id \<Rightarrow> ('p, unit) ctl" where
  "analyze_in_stages cn inst =
     (let h = cn_host cn in
      seq (running_container h inst) (\<lambda>container.
      seq (pod (exec h container [''vacuumdb'', ''--all'', ''--analyze-in-stages'', ''-h'', socket_dir, ''-U'', ''postgres''])) (\<lambda>out.
      if \<not> exec_success out
      then fail (EInvalid (''vacuumdb failed: '' @ trim (eo_stdout out) @ trim (eo_stderr out)))
      else ret ())))"

definition stanza_upgrade :: "'p control \<Rightarrow> cluster_id \<Rightarrow> ('p, unit) ctl" where
  "stanza_upgrade cn c =
     seq (look (\<lambda>db. require_cluster (cn_clusters cn) db c)) (\<lambda>rec.
     seq (run_pgbackrest cn (cl_manifest rec) c (''pgpod-'' @ cluster_str c @ ''-stanza-upgrade'') [''stanza-upgrade''] 600000) (\<lambda>out.
     of_result (and_then out (\<lambda>_. Inr ()))))"

definition start_context :: "cluster_manifest \<Rightarrow> cluster_id \<Rightarrow> string option \<Rightarrow> apply_context" where
  "start_context m c subnet = \<lparr> ax_bootstrap = Initdb (sp_initdb (mf_spec m)), ax_network_cidr = subnet,
     ax_secrets = secret_names_for c, ax_recreate = False, ax_desired_image_id = None \<rparr>"

definition start_instance :: "'p control \<Rightarrow> cluster_manifest \<Rightarrow> instance_id \<Rightarrow> ('p, unit) ctl" where
  "start_instance cn m inst =
     (let h = cn_host cn; c = iid_cluster inst in
      seq (look (\<lambda>db. get_instance db c (iid_ordinal inst))) (\<lambda>row.
      seq (of_result (ok_or (EInvalid (cluster_str c @ '' has no instance row'')) row)) (\<lambda>rec.
      seq (pod (ensure_network h (network_name c) (cluster_labels c))) (\<lambda>network.
      seq (pod (probe h (container_name inst))) (\<lambda>old.
      seq (if old \<noteq> None
           then attempt (stop h (container_name inst) 60) (\<lambda>_. pod (remove h (container_name inst) True))
           else ret ()) (\<lambda>_.
      seq (container_spec_of cn m inst (start_context m c (ni_subnet network)) (in_host_port rec)) (\<lambda>spec.
      seq (pod (create_container h spec)) (\<lambda>cid.
      seq (pod (start h cid)) (\<lambda>_.
      store (\<lambda>now. put_instance now (rec\<lparr> in_container_id := Some cid, in_phase := InstBootstrapping \<rparr>)))))))))))"

definition upgrade_limit :: "upgrade_method \<Rightarrow> nat" where
  "upgrade_limit m = (case m of Link \<Rightarrow> 3600000 | Copy \<Rightarrow> 24 * 3600000)"

definition upgrade_held :: "'p control \<Rightarrow> cluster_manifest \<Rightarrow> instance_id \<Rightarrow> string \<Rightarrow> upgrade_options \<Rightarrow>
    ('p, upgrade_run_report) ctl" where
  "upgrade_held cn target inst env opts =
     (let h = cn_host cn; c = cluster_str (iid_cluster inst); n = Some (iid_ordinal inst) in
      seq (note_event c n ''info'' ''stopping the instance for pg_upgrade'') (\<lambda>_.
      seq (pod (probe h (container_name inst))) (\<lambda>there.
      seq (if there \<noteq> None
           then seq (pod (stop h (container_name inst) 120)) (\<lambda>_. pod (remove h (container_name inst) True))
           else ret ()) (\<lambda>_.
      seq (note_event c n ''info'' (if uo_check opts then ''running pg_upgrade --check'' else ''running pg_upgrade'')) (\<lambda>_.
      upgrade_job cn (cn_read_run cn) target inst ''upgrade-run'' [''upgrade'', ''run''] (Some env)
        (upgrade_limit (uo_method opts)))))))"

section \<open>Before the window\<close>

definition upgrade_target :: "cluster_manifest \<Rightarrow> upgrade_options \<Rightarrow> cluster_manifest" where
  "upgrade_target m opts = m\<lparr> mf_spec := (mf_spec m)\<lparr> sp_image_name := trim (uo_to_image opts) \<rparr> \<rparr>"

definition upgradable :: "cluster_id \<Rightarrow> cluster_manifest \<Rightarrow> upgrade_options \<Rightarrow> control_error + unit" where
  "upgradable c m opts =
     (if sp_instances (mf_spec m) \<noteq> 1
      then Inl (EInvalid (cluster_str c @ '' has '' @ show_nat (unat (sp_instances (mf_spec m))) @
        '' instances, and pgpod can only upgrade a single-instance cluster today '' @ em_dash @
        '' a standby cannot follow its primary across a major version''))
      else if trim (uo_to_image opts) = trim (sp_image_name (mf_spec m))
      then Inl (EInvalid (cluster_str c @ '' already runs '' @ sp_image_name (mf_spec m) @
        ''. A major upgrade needs a different image; a minor one is `pgpod apply --recreate`.''))
      else Inr ())"

definition upgrade_direction :: "string \<Rightarrow> string \<Rightarrow> string \<Rightarrow> control_error + unit" where
  "upgrade_direction img from_v to_v =
     (if key_of to_v = key_of from_v
      then Inl (EInvalid (img @ '' is also PostgreSQL '' @ from_v @ ''. `pgpod upgrade` is for '' @
        ''major versions; for a minor-version image bump use `pgpod apply --recreate`, which needs no pg_upgrade and no '' @
        ''second copy of the data.''))
      else if key_of to_v < key_of from_v
      then Inl (EInvalid (img @ '' carries PostgreSQL '' @ to_v @ '', which is older than this cluster'' @ [CHR 0x27] @ ''s '' @ from_v @
        ''. pg_upgrade only goes forwards, and a data directory cannot be read by an older major version at all.''))
      else Inr ())"

definition not_running :: "cluster_id \<Rightarrow> control_error \<Rightarrow> control_error" where
  "not_running c e = EInvalid (cluster_str c @ '' has to be running to be upgraded '' @ em_dash @ '' its data directory'' @ [CHR 0x27] @
     ''s version is read from inside the instance before anything is changed ('' @ show_control_error e @
     ''). Bring it up with `pgpod apply -f <manifest>` first.'')"

definition pooler_warnings :: "cluster_id \<Rightarrow> pooler_manifest pooler_record list \<Rightarrow> string list" where
  "pooler_warnings c poolers =
     (if poolers = []
      then [''no pooler fronts '' @ cluster_str c @ '', so every open connection will be dropped rather than held. '' @
        ''`pgpod apply -f pooler.yaml` first if that matters.'']
      else []) @
     map (\<lambda>p. ''pooler '' @ po_name p @ '' holds clients for at most '' @
       render_duration (pd_max_hold (pm_pg_doorman (po_manifest p))) @ '' '' @ em_dash @
       '' a client whose query waits longer than that gets an error rather than a pause, and the budget is fixed at '' @
       ''the pooler'' @ [CHR 0x27] @ ''s container-create time (ADR 05 '' @ section_sign @ ''3)'') poolers"

definition backup_warnings :: "'p control \<Rightarrow> backup_tools \<Rightarrow> cluster_id \<Rightarrow> cluster_manifest \<Rightarrow> upgrade_options \<Rightarrow>
    ('p, string list) ctl" where
  "backup_warnings cn bt c m opts =
     (if is_enabled (sp_backup (mf_spec m))
      then attempt (backups cn bt c) (\<lambda>r.
        ret (if (case r of Inr bs \<Rightarrow> bs | Inl _ \<Rightarrow> []) = []
             then [cluster_str c @ '' archives but has no backup yet, so there is nothing to restore if this goes wrong. `pgpod backup '' @
               cluster_str c @ ''` first.'']
             else []))
      else ret (if uo_method opts = Link
                then [cluster_str c @ '' has no backup destination, and --method link leaves the old cluster unstartable. '' @
                  ''There is no way back from this upgrade.'']
                else []))"

definition upgrade_spec_for :: "cluster_manifest \<Rightarrow> upgrade_options \<Rightarrow> string \<Rightarrow> string \<Rightarrow> stage_report \<Rightarrow>
    upgrade_spec" where
  "upgrade_spec_for m opts from_v to_v stage = \<lparr> us_from_version = from_v, us_to_version = to_v,
     us_staged_bindir = sr_bindir stage, us_staged_lib_dirs = sr_lib_dirs stage, us_method = uo_method opts,
     us_jobs = uo_jobs opts, us_preload_libraries = pg_shared_preload_libraries (sp_postgresql (mf_spec m)),
     us_check = uo_check opts, us_initdb = sp_initdb (mf_spec m) \<rparr>"

record upgrade_plan =
  pn_from_version :: string
  pn_to_version :: string
  pn_staged_bytes :: "64 word"
  pn_env :: string
  pn_warnings :: "string list"

text \<open>Everything that can refuse, and the staging of the old installation.\<close>

definition upgrade_prepare :: "'p control \<Rightarrow> backup_tools \<Rightarrow> cluster_id \<Rightarrow> cluster_manifest \<Rightarrow> upgrade_options \<Rightarrow>
    ('p, upgrade_plan) ctl" where
  "upgrade_prepare cn bt c m opts =
     (let inst = mk_instance c 1; target = upgrade_target m opts; img = sp_image_name (mf_spec target) in
      seq (of_result (upgradable c m opts)) (\<lambda>_.
      seq (agent_binary cn) (\<lambda>agent.
      seq (pod (pull_image_if_absent (cn_host cn) img)) (\<lambda>_.
      seq (act_err (not_running c) (running_version cn inst)) (\<lambda>from_v.
      seq (upgrade_job cn (cn_read_probe cn) target inst ''upgrade-probe'' [''upgrade'', ''probe''] None 120000) (\<lambda>p.
      seq (of_result (upgrade_direction img from_v (pr_version p))) (\<lambda>_.
      seq (look (\<lambda>db. poolers_for_cluster (cn_poolers cn) db c)) (\<lambda>poolers.
      seq (backup_warnings cn bt c m opts) (\<lambda>more.
      seq (note_event (cluster_str c) (Some 1) ''info'' (''upgrade '' @ from_v @ '' -> '' @ pr_version p @ '' requested ('' @
             upgrade_method_as_str (uo_method opts) @ '' mode); staging the old installation'')) (\<lambda>_.
      seq (upgrade_job cn (cn_read_stage cn) m inst ''upgrade-stage'' [''upgrade'', ''stage''] None 900000) (\<lambda>stage.
      if sr_version stage \<noteq> from_v
      then fail (EInvalid (''the running image carries PostgreSQL '' @ sr_version stage @ '', but the cluster'' @ [CHR 0x27] @
        ''s data directory is '' @ from_v))
      else seq (of_result (map_err (\<lambda>e. EInvalid (''upgrade spec: '' @ show_spec_error e))
             (upgrade_spec_to_env (cn_upgrade_encode cn) (upgrade_spec_for m opts from_v (pr_version p) stage)))) (\<lambda>env.
      ret \<lparr> pn_from_version = from_v, pn_to_version = pr_version p, pn_staged_bytes = sr_bytes stage, pn_env = env,
        pn_warnings = pooler_warnings c poolers @ more \<rparr>))))))))))))"

section \<open>The window and what follows\<close>

definition upgrade_report_of :: "cluster_id \<Rightarrow> cluster_manifest \<Rightarrow> upgrade_options \<Rightarrow> upgrade_plan \<Rightarrow> nat \<Rightarrow> nat \<Rightarrow>
    upgrade_run_report \<Rightarrow> upgrade_report" where
  "upgrade_report_of c m opts plan held held_ms run = \<lparr> up_cluster = cluster_str c, up_from_image = sp_image_name (mf_spec m),
     up_to_image = sp_image_name (mf_spec (upgrade_target m opts)), up_from_version = pn_from_version plan,
     up_to_version = pn_to_version plan, up_method = upgrade_method_as_str (uo_method opts), up_checked_only = True,
     up_poolers_held = held, up_held_ms = held_ms, up_upgrade_seconds = ur_seconds run,
     up_staged_bytes = pn_staged_bytes plan, up_old_data_dir = [], up_analyzed = False, up_backup_label = None,
     up_warnings = pn_warnings plan \<rparr>"

text \<open>A failed run: the old instance is started again on its own image.\<close>

definition upgrade_failed :: "'p control \<Rightarrow> cluster_id \<Rightarrow> cluster_manifest \<Rightarrow> upgrade_options \<Rightarrow> pooler_id list \<Rightarrow>
    control_error \<Rightarrow> ('p, upgrade_report) ctl" where
  "upgrade_failed cn c m opts held e =
     (let h = cn_host cn; inst = mk_instance c 1 in
      seq (note_event (cluster_str c) (Some 1) ''error''
        (''upgrade failed, restarting the old instance: '' @ show_control_error e)) (\<lambda>_.
      attempt (start_instance cn m inst) (\<lambda>r. case r of
        Inl restart \<Rightarrow>
          attempt (store (\<lambda>now db. Inr (set_cluster_phase now c ''failed'' db))) (\<lambda>_.
          seq (hold_release h c held) (\<lambda>_.
          fail (EInvalid (''the upgrade failed ('' @ show_control_error e @ ''), and so did bringing the old instance back up ('' @
            show_control_error restart @ ''). The cluster'' @ [CHR 0x27] @ ''s data is untouched at '' @ pgdata_dir @ '' inside volume '' @
            volume_name inst @ '' '' @ em_dash @ '' no swap had happened when this failed.''))))
      | Inr _ \<Rightarrow>
          attempt (wait_ready h inst (uo_wait opts)) (\<lambda>_.
          seq (store (\<lambda>now db. Inr (set_cluster_phase now c ''running'' db))) (\<lambda>_.
          seq (release_after_recreate h c held) (\<lambda>_.
          fail e))))))"

definition upgrade_rehearsed :: "'p control \<Rightarrow> cluster_id \<Rightarrow> cluster_manifest \<Rightarrow> upgrade_options \<Rightarrow> upgrade_plan \<Rightarrow>
    pooler_id list \<Rightarrow> nat \<Rightarrow> upgrade_run_report \<Rightarrow> ('p, upgrade_report) ctl" where
  "upgrade_rehearsed cn c m opts plan held held_from run =
     (let h = cn_host cn; inst = mk_instance c 1 in
      seq (start_instance cn m inst) (\<lambda>_.
      seq (wait_ready h inst (uo_wait opts)) (\<lambda>_.
      seq (store (\<lambda>now db. Inr (set_cluster_phase now c ''running'' db))) (\<lambda>_.
      seq (release_after_recreate h c held) (\<lambda>_.
      seq instant_now (\<lambda>t.
      seq (note_event (cluster_str c) (Some 1) ''info'' (''upgrade check passed in '' @ show_nat (t - held_from) @
        ''ms; nothing was changed'')) (\<lambda>_.
      ret (upgrade_report_of c m opts plan (length held) (t - held_from) run))))))))"

definition stanza_warning :: "'p control \<Rightarrow> cluster_id \<Rightarrow> cluster_manifest \<Rightarrow> ('p, string list) ctl" where
  "stanza_warning cn c m =
     (if is_enabled (sp_backup (mf_spec m))
      then attempt (stanza_upgrade cn c) (\<lambda>r. ret (case r of Inr _ \<Rightarrow> []
        | Inl e \<Rightarrow> [''pgbackrest stanza-upgrade failed, so WAL from the upgraded cluster will not be archived until it is run: '' @
            show_control_error e]))
      else ret [])"

definition analyze_after :: "'p control \<Rightarrow> cluster_id \<Rightarrow> upgrade_options \<Rightarrow> ('p, bool \<times> string list) ctl" where
  "analyze_after cn c opts =
     (if uo_analyze opts
      then attempt (analyze_in_stages cn (mk_instance c 1)) (\<lambda>r. ret (case r of Inr _ \<Rightarrow> (True, [])
        | Inl e \<Rightarrow> (False, [''the cluster is up, but `vacuumdb --analyze-in-stages` failed: '' @ show_control_error e @
            ''. Until it runs, every query plans against no statistics.''])))
      else ret (False, [''planner statistics were not rebuilt '' @ em_dash @ '' run `vacuumdb --all --analyze-in-stages` '' @
        ''before this cluster takes real traffic'']))"

definition backup_after :: "'p control \<Rightarrow> backup_tools \<Rightarrow> cluster_id \<Rightarrow> cluster_manifest \<Rightarrow> upgrade_options \<Rightarrow>
    ('p, string option \<times> string list) ctl" where
  "backup_after cn bt c m opts =
     (if \<not> uo_backup opts then ret (None, [])
      else if is_enabled (sp_backup (mf_spec m))
      then attempt (backup cn bt c 3600000) (\<lambda>r. ret (case r of Inr rep \<Rightarrow> (br_label rep, [])
        | Inl e \<Rightarrow> (None, [''the post-upgrade backup failed: '' @ show_control_error e @ ''. The repository'' @ [CHR 0x27] @
            ''s older backups belong to the pre-upgrade cluster, so there is no recovery point for the new one until a '' @
            ''backup succeeds.''])))
      else ret (None, [cluster_str c @ '' has no backup destination, so no post-upgrade backup was taken'']))"

definition upgrade_swapped :: "'p control \<Rightarrow> backup_tools \<Rightarrow> cluster_id \<Rightarrow> cluster_manifest \<Rightarrow> upgrade_options \<Rightarrow>
    upgrade_plan \<Rightarrow> pooler_id list \<Rightarrow> nat \<Rightarrow> upgrade_run_report \<Rightarrow> ('p, upgrade_report) ctl" where
  "upgrade_swapped cn bt c m opts plan held held_from run =
     (let h = cn_host cn; inst = mk_instance c 1; target = upgrade_target m opts in
      seq (store_get (\<lambda>now. put_cluster (cn_clusters cn) now target ''upgrading'')) (\<lambda>_.
      seq (start_instance cn target inst) (\<lambda>_.
      seq (wait_ready h inst (uo_wait opts)) (\<lambda>_.
      seq (stanza_warning cn c m) (\<lambda>stanza.
      seq (release_after_recreate h c held) (\<lambda>_.
      seq instant_now (\<lambda>t.
      seq (note_event (cluster_str c) (Some 1) ''info'' (''upgraded '' @ pn_from_version plan @ '' -> '' @ pn_to_version plan @
        '' in '' @ show_nat (t - held_from) @ ''ms held ('' @ show_nat (unat (ur_seconds run)) @
        ''s in pg_upgrade); the old data directory is kept at '' @ ur_old_data_dir run)) (\<lambda>_.
      seq (analyze_after cn c opts) (\<lambda>(analyzed, no_stats).
      seq (backup_after cn bt c m opts) (\<lambda>(label, no_backup).
      seq (store (\<lambda>now db. Inr (set_cluster_phase now c ''running'' db))) (\<lambda>_.
      ret ((upgrade_report_of c m opts plan (length held) (t - held_from) run)\<lparr> up_checked_only := False,
        up_old_data_dir := ur_old_data_dir run, up_analyzed := analyzed, up_backup_label := label,
        up_warnings := pn_warnings plan @ stanza @ no_stats @ no_backup \<rparr>))))))))))))"

definition upgrade_window :: "'p control \<Rightarrow> backup_tools \<Rightarrow> cluster_id \<Rightarrow> cluster_manifest \<Rightarrow> upgrade_options \<Rightarrow>
    upgrade_plan \<Rightarrow> ('p, upgrade_report) ctl" where
  "upgrade_window cn bt c m opts plan =
     seq (store (\<lambda>now db. Inr (set_cluster_phase now c ''upgrading'' db))) (\<lambda>_.
     seq (hold_acquire cn c) (\<lambda>held.
     seq instant_now (\<lambda>held_from.
     attempt (upgrade_held cn (upgrade_target m opts) (mk_instance c 1) (pn_env plan) opts) (\<lambda>outcome. case outcome of
       Inl e \<Rightarrow> upgrade_failed cn c m opts held e
     | Inr run \<Rightarrow>
         if uo_check opts then upgrade_rehearsed cn c m opts plan held held_from run
         else upgrade_swapped cn bt c m opts plan held held_from run))))"

definition upgrade :: "'p control \<Rightarrow> backup_tools \<Rightarrow> cluster_id \<Rightarrow> upgrade_options \<Rightarrow> ('p, upgrade_report) ctl" where
  "upgrade cn bt c opts =
     seq (look (\<lambda>db. require_cluster (cn_clusters cn) db c)) (\<lambda>rec.
     seq (upgrade_prepare cn bt c (cl_manifest rec) opts) (\<lambda>plan.
     upgrade_window cn bt c (cl_manifest rec) opts plan))"

section \<open>What an upgrade may do\<close>

definition upgrade_jobs :: "cluster_id \<Rightarrow> string list" where
  "upgrade_jobs c = map (job_container_name (mk_instance c 1)) [''upgrade-probe'', ''upgrade-stage'', ''upgrade-run'']"

text \<open>Before the window nothing is stopped but a job's left-over, and no command is run in a container but
  the one that prints the version.\<close>

fun prepare_call :: "cluster_id \<Rightarrow> call \<Rightarrow> bool" where
  "prepare_call c (CallStop d secs) \<longleftrightarrow> d \<in> set (upgrade_jobs c)"
| "prepare_call c (CallExec d argv) \<longleftrightarrow> argv = [''cat'', pgdata_dir @ ''/PG_VERSION'']"
| "prepare_call c (CallVolumeDelete v) \<longleftrightarrow> False"
| "prepare_call c (CallVolumeCreate v) \<longleftrightarrow> False"
| "prepare_call c CallVolumePrune \<longleftrightarrow> False"
| "prepare_call c (CallNetworkDelete n) \<longleftrightarrow> False"
| "prepare_call c (CallNetworkCreate n) \<longleftrightarrow> False"
| "prepare_call c (CallSecretDelete n) \<longleftrightarrow> False"
| "prepare_call c (CallSecretPost n) \<longleftrightarrow> False"
| "prepare_call c _ \<longleftrightarrow> True"

text \<open>In the window the instance is stopped too, and its network may be made again.\<close>

fun upgrade_call :: "cluster_id \<Rightarrow> call \<Rightarrow> bool" where
  "upgrade_call c (CallStop d secs) \<longleftrightarrow> d = container_name (mk_instance c 1) \<or> d \<in> set (upgrade_jobs c)"
| "upgrade_call c (CallExec d argv) \<longleftrightarrow> True"
| "upgrade_call c (CallNetworkCreate n) \<longleftrightarrow> n = network_name c"
| "upgrade_call c x \<longleftrightarrow> prepare_call c x"

lemma prepare_upgrade_call: "prepare_call c x \<Longrightarrow> upgrade_call c x"
  by (cases x) auto

lemma job_prepare_call: "job_call x \<Longrightarrow> prepare_call c x"
  by (cases x) auto

lemma instant_now_within [within_intros]: "obeys (within A S) instant_now"
  by (rule obeysI) (simp add: instant_now_def within.refl)

lemma running_version_within [within_intros]:
  assumes "\<And>x. prepare_call c x \<Longrightarrow> A x"
  shows "obeys (within A S) (running_version cn inst)"
  unfolding running_version_def Let_def by (intro within_intros) (auto intro: assms)

lemma backup_warnings_within [within_intros]:
  assumes "\<And>x. prepare_call c x \<Longrightarrow> A x"
  shows "obeys (within A S) (backup_warnings cn bt c m opts)"
  unfolding backup_warnings_def by (intro within_intros) (auto intro: assms job_prepare_call)

lemma upgrade_prepare_within:
  assumes "\<And>x. prepare_call c x \<Longrightarrow> A x" "\<And>now n l msg db. S db (record_event now (cluster_str c) n l msg db)"
  shows "obeys (within A S) (upgrade_prepare cn bt c m opts)"
  unfolding upgrade_prepare_def Let_def
  by (intro within_intros running_version_within [of c] backup_warnings_within)
     (auto intro: assms simp: upgrade_jobs_def)

lemma seq_look_within:
  "(\<And>x db. f db = Inr x \<Longrightarrow> obeys (within A S) (k x)) \<Longrightarrow> obeys (within A S) (seq (look f) k)"
  by (rule obeysI) (auto simp: seq_def look_def read_db_def within.refl split: sum.splits dest: obeysD)

lemma seq_given_within:
  "(\<And>x. r = Inr x \<Longrightarrow> obeys (within A S) (k x)) \<Longrightarrow> obeys (within A S) (seq (of_result r) k)"
  by (rule obeysI) (auto simp: seq_def of_result_def within.refl split: sum.splits dest: obeysD)

lemma start_instance_within:
  assumes "\<And>x. upgrade_call c x \<Longrightarrow> A x" "\<And>db db'. row_write c db db' \<Longrightarrow> S db db'"
  shows "obeys (within A S) (start_instance cn m (mk_instance c 1))"
  unfolding start_instance_def Let_def
  by (rule seq_look_within, rule seq_given_within, intro within_intros)
     (auto intro!: assms row_write_put dest: get_instance_cluster)

lemma upgrade_held_within:
  assumes "\<And>x. upgrade_call c x \<Longrightarrow> A x" "\<And>now n l msg db. S db (record_event now (cluster_str c) n l msg db)"
  shows "obeys (within A S) (upgrade_held cn target (mk_instance c 1) env opts)"
  unfolding upgrade_held_def Let_def
  by (intro within_intros) (auto intro: assms simp: upgrade_jobs_def)

lemma asks_upgrade_call: "asks d x \<Longrightarrow> upgrade_call c x"
  by (cases x) auto

lemma wait_row_write:
  assumes "\<And>x. upgrade_call c x \<Longrightarrow> A x" "\<And>db db'. row_write c db db' \<Longrightarrow> S db db'"
  shows "obeys (within A S) (wait_ready h (mk_instance c 1) n)"
  by (intro within_intros) (auto intro!: assms asks_upgrade_call intro: row_writes)

lemma stanza_warning_within [within_intros]:
  "(\<And>x. job_call x \<Longrightarrow> A x) \<Longrightarrow> obeys (within A S) (stanza_warning cn c m)"
  unfolding stanza_warning_def stanza_upgrade_def by (intro within_intros; simp)

lemma analyze_after_within:
  "(\<And>x. upgrade_call c x \<Longrightarrow> A x) \<Longrightarrow> obeys (within A S) (analyze_after cn c opts)"
  unfolding analyze_after_def analyze_in_stages_def Let_def by (intro within_intros) auto

lemma backup_after_within:
  assumes "\<And>x. upgrade_call c x \<Longrightarrow> A x" "\<And>now n l msg db. S db (record_event now (cluster_str c) n l msg db)"
  shows "obeys (within A S) (backup_after cn bt c m opts)"
  unfolding backup_after_def
  by (intro within_intros) (auto intro: assms job_prepare_call prepare_upgrade_call)

text \<open>The writes below the manifest: the cluster's rows and events, and its phase.\<close>

lemma upgrade_failed_within:
  assumes "\<And>x. upgrade_call c x \<Longrightarrow> A x" "\<And>db db'. row_write c db db' \<Longrightarrow> S db db'"
    "\<And>now ph db. S db (set_cluster_phase now c ph db)"
  shows "obeys (within A S) (upgrade_failed cn c m opts held e)"
  unfolding upgrade_failed_def Let_def
  by (intro within_intros start_instance_within [of c] wait_row_write [of c])
     (auto intro: assms row_write_event row_writes asks_upgrade_call)

lemma upgrade_rehearsed_within:
  assumes "\<And>x. upgrade_call c x \<Longrightarrow> A x" "\<And>db db'. row_write c db db' \<Longrightarrow> S db db'"
    "\<And>now ph db. S db (set_cluster_phase now c ph db)"
  shows "obeys (within A S) (upgrade_rehearsed cn c m opts plan held t run)"
  unfolding upgrade_rehearsed_def Let_def
  by (intro within_intros start_instance_within [of c] wait_row_write [of c])
     (auto intro: assms row_write_event row_writes asks_upgrade_call)

lemma upgrade_swapped_within:
  assumes "\<And>x. upgrade_call c x \<Longrightarrow> A x" "\<And>db db'. row_write c db db' \<Longrightarrow> S db db'"
    "\<And>now ph db. S db (set_cluster_phase now c ph db)"
    "\<And>now db db' g. put_cluster (cn_clusters cn) now (upgrade_target m opts) ''upgrading'' db = Inr (db', g) \<Longrightarrow> S db db'"
  shows "obeys (within A S) (upgrade_swapped cn bt c m opts plan held t run)"
  unfolding upgrade_swapped_def Let_def
  by (intro within_intros start_instance_within [of c] analyze_after_within [of c] backup_after_within [of c])
     (auto intro: assms row_write_event row_writes asks_upgrade_call
        assms(1) [OF prepare_upgrade_call [OF job_prepare_call]])

lemma upgrade_window_within:
  assumes "\<And>x. upgrade_call c x \<Longrightarrow> A x" "\<And>db db'. row_write c db db' \<Longrightarrow> S db db'"
    "\<And>now ph db. S db (set_cluster_phase now c ph db)"
    "\<And>now db db' g. \<not> uo_check opts \<Longrightarrow>
      put_cluster (cn_clusters cn) now (upgrade_target m opts) ''upgrading'' db = Inr (db', g) \<Longrightarrow> S db db'"
  shows "obeys (within A S) (upgrade_window cn bt c m opts plan)"
proof -
  have "obeys (within A S) (if uo_check opts then upgrade_rehearsed cn c m opts plan held t run
      else upgrade_swapped cn bt c m opts plan held t run)" for held t run
    by (cases "uo_check opts") (simp_all add: assms upgrade_rehearsed_within upgrade_swapped_within)
  then show ?thesis
    unfolding upgrade_window_def
    by (intro within_intros upgrade_held_within [of c] upgrade_failed_within [of c])
       (auto intro: assms row_write_event)
qed

lemma upgrade_within:
  assumes "\<And>x. upgrade_call c x \<Longrightarrow> A x" "\<And>db db'. cluster_write (cn_clusters cn) c db db' \<Longrightarrow> S db db'"
    "\<And>m. mc_name (cn_clusters cn) (upgrade_target m opts) = mc_name (cn_clusters cn) m"
    "\<And>rec. require_cluster (cn_clusters cn) (wd_db w) c = Inr rec \<Longrightarrow> mc_name (cn_clusters cn) (cl_manifest rec) = cluster_str c"
  shows "within A S w (snd (upgrade cn bt c opts w))"
proof (cases "require_cluster (cn_clusters cn) (wd_db w) c")
  case (Inl e)
  then show ?thesis by (simp add: upgrade_def look_stop within.refl)
next
  case (Inr rec)
  then have "mc_name (cn_clusters cn) (upgrade_target (cl_manifest rec) opts) = cluster_str c"
    by (simp add: assms(3,4))
  then have "obeys (within A S) (seq (upgrade_prepare cn bt c (cl_manifest rec) opts) (upgrade_window cn bt c (cl_manifest rec) opts))"
    by (intro within_intros upgrade_prepare_within [of c] upgrade_window_within)
       (auto intro: assms(1,2) prepare_upgrade_call cluster_writes)
  then show ?thesis using Inr by (simp add: upgrade_def look_run obeys_def)
qed

section \<open>Properties\<close>

text \<open>A refused upgrade has disturbed nothing.  Every refusal before the window, the image, its version, the
  staging, returns with the rows of the store as they were and nothing added but events; no container was stopped
  but a job's left-over, no pooler was paused, and no volume, network or secret was made or removed.\<close>

theorem upgrade_refused_early:
  assumes "require_cluster (cn_clusters cn) (wd_db w) c = Inr rec"
    and "upgrade_prepare cn bt c (cl_manifest rec) opts w = (Inl e, v)"
  shows "upgrade cn bt c opts w = (Inl e, v) \<and> same_rows (wd_db w) (wd_db v) \<and>
    (\<forall>x. asked_for x w v \<longrightarrow> prepare_call c x)"
proof -
  have "obeys (within (prepare_call c) same_rows) (upgrade_prepare cn bt c (cl_manifest rec) opts)"
    by (rule upgrade_prepare_within) (simp_all add: same_rows_event)
  from obeysD [OF this assms(2)] have *: "within (prepare_call c) same_rows w v" .
  have "same_rows (wd_db w) (wd_db v)" using * by (intro same_rows_star) (simp add: within_def)
  moreover have "upgrade cn bt c opts w = (Inl e, v)"
    by (simp add: upgrade_def look_run assms(1)) (simp add: seq_def assms(2))
  ultimately show ?thesis using asked_within [OF *] by blast
qed



text \<open>What the store says of the cluster: its manifest, as it is written.\<close>

definition stored_manifest :: "registry \<Rightarrow> cluster_id \<Rightarrow> string option" where
  "stored_manifest db c = map_option cr_manifest (tbl_get (db_clusters db) (cluster_str c))"

lemma stored_manifest_set [simp]: "tbl_ok (db_clusters db) \<Longrightarrow> stored_manifest (set_cluster_phase now c ph db) c = stored_manifest db c"
  by (auto simp: stored_manifest_def set_cluster_phase_def tbl_get_put split: option.splits)

lemma set_cluster_phase_tbl: "tbl_ok (db_clusters db) \<Longrightarrow> tbl_ok (db_clusters (set_cluster_phase now c ph db))"
  by (auto simp: set_cluster_phase_def tbl_ok_put split: option.splits)

lemma stored_kept:
  "db_clusters db' = db_clusters db \<Longrightarrow> stored_manifest db' c = stored_manifest db c \<and> stored_phase db' c = stored_phase db c"
  by (simp add: stored_manifest_def stored_phase_def)

text \<open>A step that leaves the rows of the clusters alone.\<close>

lemma same_run: "obeys (within (\<lambda>_. True) same_clusters) m \<Longrightarrow> m w = (r, v) \<Longrightarrow> db_clusters (wd_db v) = db_clusters (wd_db w)"
  by (auto simp: within_def same_clusters_def dest!: obeysD same_clusters_star)

lemma same_then: "seq m k w = (Inr y, w') \<Longrightarrow> obeys (within (\<lambda>_. True) same_clusters) m \<Longrightarrow>
    (\<And>x v. m w = (Inr x, v) \<Longrightarrow> db_clusters (wd_db v) = db_clusters (wd_db w) \<Longrightarrow> k x v = (Inr y, w') \<Longrightarrow> thesis) \<Longrightarrow> thesis"
  by (cases "m w") (auto simp: seq_def split: sum.splits dest: same_run)

lemma event_same: "same_clusters db (record_event now c n l msg db)"
  by (simp add: same_clusters_def record_event_def)

lemma same_steps:
  "obeys (within (\<lambda>_. True) same_clusters) (start_instance cn m (mk_instance c 1))"
  "obeys (within (\<lambda>_. True) same_clusters) (wait_ready h (mk_instance c 1) n)"
  "obeys (within (\<lambda>_. True) same_clusters) (stanza_warning cn c m)"
  "obeys (within (\<lambda>_. True) same_clusters) (release_after_recreate h c held)"
  "obeys (within (\<lambda>_. True) same_clusters) (hold_release h c held)"
  "obeys (within (\<lambda>_. True) same_clusters) (analyze_after cn c opts)"
  "obeys (within (\<lambda>_. True) same_clusters) (backup_after cn bt c m opts)"
  "obeys (within (\<lambda>_. True) same_clusters) instant_now"
  "obeys (within (\<lambda>_. True) same_clusters) (note_event c' ord l msg)"
  "obeys (within (\<lambda>_. True) same_clusters) (hold_acquire cn c)"
  "obeys (within (\<lambda>_. True) same_clusters) (upgrade_held cn target (mk_instance c 1) env opts)"
  by (auto intro!: within_intros start_instance_within [of c] wait_row_write [of c] analyze_after_within [of c]
      backup_after_within [of c] upgrade_held_within [of c] event_same row_write_clusters row_write_event)

lemma put_cluster_manifest:
  assumes "put_cluster mc now m ph db = Inr (db', g)" "tbl_ok (db_clusters db)" "mc_name mc m = cluster_str c"
  shows "tbl_ok (db_clusters db') \<and> stored_phase db' c \<noteq> None \<and> mc_encode mc m = Inr (the (stored_manifest db' c))"
  using assms
  by (auto simp: put_cluster_def Let_def and_then_Inr stored_phase_def stored_manifest_def tbl_get_put tbl_ok_put split: option.splits)

lemma put_then: "seq (store_get f) k w = (Inr y, w') \<Longrightarrow>
    (\<And>db' g. f (now_ms w) (wd_db w) = Inr (db', g) \<Longrightarrow> k g (w\<lparr> wd_db := db' \<rparr>) = (Inr y, w') \<Longrightarrow> thesis) \<Longrightarrow> thesis"
  by (auto simp: seq_def store_get_def write_db_def split: sum.splits)

text \<open>The end of a command: the phase is set, and what is left writes no row of a cluster.\<close>

lemma ends_running:
  assumes "seq (store (\<lambda>now db. Inr (set_cluster_phase now c ''running'' db))) (\<lambda>_. k) w = (r, w')"
    and "obeys (within (\<lambda>_. True) same_clusters) k" "tbl_ok (db_clusters (wd_db w))" "stored_phase (wd_db w) c \<noteq> None"
  shows "stored_phase (wd_db w') c = Some ''running'' \<and> stored_manifest (wd_db w') c = stored_manifest (wd_db w) c \<and>
    (\<exists>v. k v = (r, w'))"
proof -
  let ?v = "w\<lparr> wd_db := set_cluster_phase (now_ms w) c ''running'' (wd_db w) \<rparr>"
  have run: "k ?v = (r, w')" using assms(1) by (simp add: store_then)
  from same_run [OF assms(2) this] have "stored_manifest (wd_db w') c = stored_manifest (wd_db ?v) c \<and>
      stored_phase (wd_db w') c = stored_phase (wd_db ?v) c" by (rule stored_kept)
  then show ?thesis using run assms(3,4) by (auto simp: stored_phase_set)
qed

lemma rehearsed_leaves:
  assumes "upgrade_rehearsed cn c m opts plan held t run w = (Inr rep, w')" "tbl_ok (db_clusters (wd_db w))"
    "stored_phase (wd_db w) c \<noteq> None"
  shows "stored_phase (wd_db w') c = Some ''running'' \<and> stored_manifest (wd_db w') c = stored_manifest (wd_db w) c \<and>
    up_checked_only rep"
proof -
  let ?k = "seq (release_after_recreate (cn_host cn) c held) (\<lambda>_. seq instant_now (\<lambda>t'.
      seq (note_event (cluster_str c) (Some 1) ''info'' (''upgrade check passed in '' @ show_nat (t' - t) @
        ''ms; nothing was changed'')) (\<lambda>_.
      ret (upgrade_report_of c m opts plan (length held) (t' - t) run))))"
  obtain v where v: "db_clusters (wd_db v) = db_clusters (wd_db w)"
    "seq (store (\<lambda>now db. Inr (set_cluster_phase now c ''running'' db))) (\<lambda>_. ?k) v = (Inr rep, w')"
    using assms(1) unfolding upgrade_rehearsed_def Let_def
    by (elim same_then [OF _ same_steps(1)] same_then [OF _ same_steps(2)]) auto
  have "obeys (within (\<lambda>_. True) same_clusters) ?k" by (intro within_intros same_steps; simp)
  from ends_running [OF v(2) this] assms(2,3) stored_kept [OF v(1)] v(1)
  have *: "stored_phase (wd_db w') c = Some ''running'' \<and> stored_manifest (wd_db w') c = stored_manifest (wd_db w) c"
    "\<exists>u. ?k u = (Inr rep, w')" by auto
  from *(2) have "up_checked_only rep"
    by (elim exE same_then [OF _ same_steps(4)] same_then [OF _ same_steps(8)] same_then [OF _ same_steps(9)])
       (auto simp: ret_def upgrade_report_of_def)
  then show ?thesis using * by simp
qed

lemma swap_ends:
  fixes cn :: "'p control" and rep :: 'r
  assumes "seq (analyze_after cn c opts) (\<lambda>(analyzed, no_stats). seq (backup_after cn bt c m opts) (\<lambda>(label, no_backup).
      seq (store (\<lambda>now db. Inr (set_cluster_phase now c ''running'' db))) (\<lambda>_.
      ret (f analyzed no_stats label no_backup)))) w = (Inr rep, w')"
    and "tbl_ok (db_clusters (wd_db w))" "stored_phase (wd_db w) c \<noteq> None"
  shows "stored_phase (wd_db w') c = Some ''running'' \<and> stored_manifest (wd_db w') c = stored_manifest (wd_db w) c \<and>
    (\<exists>a b d e. rep = f a b d e)"
proof -
  obtain a b v where v: "db_clusters (wd_db v) = db_clusters (wd_db w)" "seq (backup_after cn bt c m opts) (\<lambda>(label, no_backup).
      seq (store (\<lambda>now db. Inr (set_cluster_phase now c ''running'' db))) (\<lambda>_. ret (f a b label no_backup))) v = (Inr rep, w')"
    using assms(1) by (elim same_then [OF _ same_steps(6)]) auto
  then obtain d e u where u: "db_clusters (wd_db u) = db_clusters (wd_db w)"
    "seq (store (\<lambda>now db. Inr (set_cluster_phase now c ''running'' db))) (\<lambda>_. ret (f a b d e)) u = (Inr rep, w')"
    by (elim same_then [OF _ same_steps(7)]) auto
  have "obeys (within (\<lambda>_. True) same_clusters) (ret (f a b d e) :: ('p, 'r) ctl)" by (intro within_intros)
  from ends_running [OF u(2) this] u(1) have "rep = f a b d e" "stored_phase (wd_db w') c = Some ''running''"
    "stored_manifest (wd_db w') c = stored_manifest (wd_db w) c"
    using assms(2,3) stored_kept [OF u(1), of c] by (auto simp: ret_def)
  then show ?thesis by blast
qed

lemma swapped_leaves:
  assumes "upgrade_swapped cn bt c m opts plan held t run w = (Inr rep, w')" "tbl_ok (db_clusters (wd_db w))"
    "mc_name (cn_clusters cn) (upgrade_target m opts) = cluster_str c"
  shows "stored_phase (wd_db w') c = Some ''running'' \<and> \<not> up_checked_only rep \<and>
    mc_encode (cn_clusters cn) (upgrade_target m opts) = Inr (the (stored_manifest (wd_db w') c))"
  using assms(1) unfolding upgrade_swapped_def Let_def
proof (elim put_then same_then [OF _ same_steps(1)] same_then [OF _ same_steps(2)] same_then [OF _ same_steps(3)]
    same_then [OF _ same_steps(4)] same_then [OF _ same_steps(8)] same_then [OF _ same_steps(9)])
  fix db' g v1 v2 v3 v4 v5 v6 t' stanza u x1 x2 x4
  let ?f = "\<lambda>analyzed no_stats label no_backup. (upgrade_report_of c m opts plan (length held) (t' - t) run)\<lparr>
      up_checked_only := False, up_old_data_dir := ur_old_data_dir run, up_analyzed := analyzed, up_backup_label := label,
      up_warnings := pn_warnings plan @ stanza @ no_stats @ no_backup \<rparr>"
  assume put: "put_cluster (cn_clusters cn) (now_ms w) (upgrade_target m opts) ''upgrading'' (wd_db w) = Inr (db', g)"
    and same: "db_clusters (wd_db v1) = db_clusters (wd_db (w\<lparr>wd_db := db'\<rparr>))" "db_clusters (wd_db v2) = db_clusters (wd_db v1)"
      "db_clusters (wd_db v3) = db_clusters (wd_db v2)" "db_clusters (wd_db v4) = db_clusters (wd_db v3)"
      "db_clusters (wd_db v5) = db_clusters (wd_db v4)" "db_clusters (wd_db v6) = db_clusters (wd_db v5)"
    and last: "seq (analyze_after cn c opts) (\<lambda>(analyzed, no_stats). seq (backup_after cn bt c m opts) (\<lambda>(label, no_backup).
      seq (store (\<lambda>now db. Inr (set_cluster_phase now c ''running'' db))) (\<lambda>_.
      ret (?f analyzed no_stats label no_backup)))) v6 = (Inr rep, w')"
  from same have "db_clusters (wd_db v6) = db_clusters db'" by simp
  moreover note put_cluster_manifest [OF put assms(2,3)]
  ultimately show ?thesis
    using swap_ends [OF last] stored_kept [of "wd_db v6" db' c] by auto
qed

lemma seq_fail_is_error: "seq m (\<lambda>_. fail e) w = (r, w') \<Longrightarrow> \<exists>e'. r = Inl e'"
  by (cases "m w") (auto simp: seq_def fail_def split: sum.splits)

lemma failed_is_error: "upgrade_failed cn c m opts held e w \<noteq> (Inr rep, w')"
  by (auto simp: upgrade_failed_def Let_def seq_def attempt_def fail_def split: sum.splits prod.splits)

lemma finished_leaves:
  assumes "reg_ok (wd_db w)" "mc_name (cn_clusters cn) (upgrade_target m opts) = cluster_str c" "stored_phase (wd_db w) c \<noteq> None"
    and "upgrade_window cn bt c m opts plan w = (Inr rep, w')"
  shows "stored_phase (wd_db w') c = Some ''running'' \<and> up_checked_only rep = uo_check opts \<and>
    (if uo_check opts then stored_manifest (wd_db w') c = stored_manifest (wd_db w) c
     else mc_encode (cn_clusters cn) (upgrade_target m opts) = Inr (the (stored_manifest (wd_db w') c)))"
proof -
  define db where "db = set_cluster_phase (now_ms w) c ''upgrading'' (wd_db w)"
  have db: "tbl_ok (db_clusters db)" "stored_phase db c \<noteq> None" "stored_manifest db c = stored_manifest (wd_db w) c"
    using assms(3) reg_okD(1) [OF assms(1)] by (simp_all add: db_def set_cluster_phase_tbl stored_phase_set)
  let ?next = "\<lambda>held t outcome. case outcome of Inl e \<Rightarrow> upgrade_failed cn c m opts held e
      | Inr run \<Rightarrow> if uo_check opts then upgrade_rehearsed cn c m opts plan held t run
          else upgrade_swapped cn bt c m opts plan held t run"
  let ?held = "upgrade_held cn (upgrade_target m opts) (mk_instance c 1) (pn_env plan) opts"
  have "seq (hold_acquire cn c) (\<lambda>held. seq instant_now (\<lambda>t. attempt ?held (?next held t))) (w\<lparr> wd_db := db \<rparr>) = (Inr rep, w')"
    using assms(4) by (simp add: upgrade_window_def store_then db_def)
  then obtain held t v where v: "db_clusters (wd_db v) = db_clusters db" "attempt ?held (?next held t) v = (Inr rep, w')"
    by (elim same_then [OF _ same_steps(10)] same_then [OF _ same_steps(8)]) auto
  obtain out u where out: "?held v = (out, u)" by (cases "?held v")
  have u: "db_clusters (wd_db u) = db_clusters db" using same_run [OF same_steps(11) out] v(1) by simp
  from v(2) out have "?next held t out u = (Inr rep, w')" by (simp add: attempt_def)
  then obtain run where run: "if uo_check opts then upgrade_rehearsed cn c m opts plan held t run u = (Inr rep, w')
      else upgrade_swapped cn bt c m opts plan held t run u = (Inr rep, w')"
    by (cases out) (auto simp: failed_is_error split: if_splits)
  show ?thesis
    using run u db stored_kept [OF u, of c] assms(2) rehearsed_leaves [of cn c m opts plan held t run u rep w']
      swapped_leaves [of cn bt c m opts plan held t run u rep w']
    by (auto split: if_splits)
qed


text \<open>How the manifest may change, and with the tables in order stays known.\<close>

definition manifest_moves :: "cluster_id \<Rightarrow> string set \<Rightarrow> registry \<Rightarrow> registry \<Rightarrow> bool" where
  "manifest_moves c new db db' \<longleftrightarrow> (tbl_ok (db_clusters db) \<longrightarrow> tbl_ok (db_clusters db') \<and>
     (stored_manifest db' c = stored_manifest db c \<or> stored_manifest db' c \<in> Some ` new))"

lemma manifest_moves_star: "(manifest_moves c new)\<^sup>*\<^sup>* a b \<Longrightarrow> manifest_moves c new a b"
  by (induction rule: rtranclp_induct) (auto simp: manifest_moves_def)

lemma manifest_moves_phase: "manifest_moves c new db (set_cluster_phase now c ph db)"
  by (simp add: manifest_moves_def set_cluster_phase_tbl)

lemma manifest_moves_row: "row_write c db db' \<Longrightarrow> manifest_moves c new db db'"
  using row_write_clusters [of c db db'] by (simp add: manifest_moves_def same_clusters_def stored_manifest_def)

text \<open>C15: What an upgrade leaves in the store.  When the window has closed well, the cluster is running; after a
  rehearsal its stored manifest is the one of before, after a real upgrade the one with the new image, so that a later
  apply starts the server the data is for.  When it has not, the stored manifest is one of these two, and after
  a rehearsal still the one of before.\<close>

theorem upgrade_leaves:
  assumes "reg_ok (wd_db w)" "mc_name (cn_clusters cn) (upgrade_target m opts) = cluster_str c" "stored_phase (wd_db w) c \<noteq> None"
  shows "case upgrade_window cn bt c m opts plan w of
      (Inr rep, w') \<Rightarrow> stored_phase (wd_db w') c = Some ''running'' \<and> up_checked_only rep = uo_check opts \<and>
        (if uo_check opts then stored_manifest (wd_db w') c = stored_manifest (wd_db w) c
         else mc_encode (cn_clusters cn) (upgrade_target m opts) = Inr (the (stored_manifest (wd_db w') c)))
    | (Inl e, w') \<Rightarrow> stored_manifest (wd_db w') c = stored_manifest (wd_db w) c \<or>
        \<not> uo_check opts \<and> mc_encode (cn_clusters cn) (upgrade_target m opts) = Inr (the (stored_manifest (wd_db w') c))"
proof -
  let ?new = "{x. \<not> uo_check opts \<and> mc_encode (cn_clusters cn) (upgrade_target m opts) = Inr x}"
  obtain r w' where run: "upgrade_window cn bt c m opts plan w = (r, w')" by (cases "upgrade_window cn bt c m opts plan w")
  have put: "manifest_moves c ?new db db'"
    if "\<not> uo_check opts" "put_cluster (cn_clusters cn) now (upgrade_target m opts) ''upgrading'' db = Inr (db', g)" for now db db' g
    using put_cluster_manifest [OF that(2) _ assms(2)] that(1)
    by (cases "stored_manifest db' c") (auto simp: manifest_moves_def stored_manifest_def stored_phase_def)
  have "obeys (within (\<lambda>_. True) (manifest_moves c ?new)) (upgrade_window cn bt c m opts plan)"
    by (rule upgrade_window_within) (blast intro: manifest_moves_row manifest_moves_phase put)+
  from obeysD [OF this run] have "manifest_moves c ?new (wd_db w) (wd_db w')"
    by (intro manifest_moves_star) (simp add: within_def)
  then show ?thesis
    using run reg_okD(1) [OF assms(1)] finished_leaves [OF assms, of bt plan]
    by (cases r) (auto simp: manifest_moves_def)
qed

text \<open>A failed upgrade ends in a settled phase.  When the run in the window fails, the stored manifest is the old one and
  an error is returned; the phase is running once the old instance has been started again, and
  failed, with every held pooler told to resume, when it could not be: never upgrading.\<close>

theorem failed_upgrade_settles:
  assumes "tbl_ok (db_clusters (wd_db w))" "stored_phase (wd_db w) c \<noteq> None" "upgrade_failed cn c m opts held e w = (r, w')"
  shows "(\<exists>e'. r = Inl e') \<and> stored_manifest (wd_db w') c = stored_manifest (wd_db w) c \<and>
    (stored_phase (wd_db w') c = Some ''running'' \<or>
     stored_phase (wd_db w') c = Some ''failed'' \<and> (\<forall>p\<in>set held. asked_for (resume_call c p) w w'))"
proof -
  let ?h = "cn_host cn" and ?inst = "mk_instance c 1"
  let ?w1 = "w\<lparr> wd_db := record_event (now_ms w) (cluster_str c) (Some 1) ''error''
    (''upgrade failed, restarting the old instance: '' @ show_control_error e) (wd_db w) \<rparr>"
  obtain out v where start: "start_instance cn m ?inst ?w1 = (out, v)" by (cases "start_instance cn m ?inst ?w1")
  have same: "db_clusters (wd_db v) = db_clusters (wd_db w)"
    using same_run [OF same_steps(1) start] by (simp add: record_event_def)
  note v = stored_kept [OF same, of c]
  note run = assms(3) [unfolded upgrade_failed_def Let_def, unfolded note_then attempt_def, simplified start prod.case]
  show ?thesis
  proof (cases out)
    case (Inl restart)
    let ?u = "v\<lparr> wd_db := set_cluster_phase (now_ms v) c ''failed'' (wd_db v) \<rparr>"
    obtain u where rel: "hold_release ?h c held ?u = (Inr (), u)" using hold_release_ok by blast
    have end_: "r = Inl (fst (sum.projl r, ()))" "w' = u" "\<exists>e'. r = Inl e'"
      using run Inl rel by (auto simp: store_def write_db_def attempt_def seq_def fail_def split: prod.splits)
    have "db_clusters (wd_db u) = db_clusters (wd_db ?u)" by (rule same_run [OF same_steps(5) rel])
    moreover have "asked_for (resume_call c p) w w'" if "p \<in> set held" for p
    proof -
      have "moves ?w1 v" "moves w ?w1" "moves v ?u"
        using obeysD [OF start_instance_within [of c "\<lambda>_. True" "\<lambda>_ _. True"] start] by (auto simp: within_def)
      then have "moves w ?u" by (blast intro: within.trans)
      then show ?thesis using asked_later hold_release_asks [OF that, of c ?u ?h] rel end_(2) by auto
    qed
    ultimately show ?thesis using v end_(2,3) same assms(1,2) stored_kept [of "wd_db u" "wd_db ?u" c]
      by (simp add: stored_phase_set)
  next
    case (Inr x)
    obtain ready v2 where wait: "wait_ready ?h ?inst (uo_wait opts) v = (ready, v2)"
      by (cases "wait_ready ?h ?inst (uo_wait opts) v")
    have same2: "db_clusters (wd_db v2) = db_clusters (wd_db w)"
      using same_run [OF same_steps(2) wait] same by simp
    let ?k = "seq (release_after_recreate ?h c held) (\<lambda>_. fail e)"
    have "seq (store (\<lambda>now db. Inr (set_cluster_phase now c ''running'' db))) (\<lambda>_. ?k) v2 = (r, w')"
      using run Inr wait by (simp add: attempt_def)
    moreover have "obeys (within (\<lambda>_. True) same_clusters) ?k" by (intro within_intros same_steps; simp)
    ultimately have "stored_phase (wd_db w') c = Some ''running''" "stored_manifest (wd_db w') c = stored_manifest (wd_db v2) c"
      "\<exists>u. ?k u = (r, w')"
      using ends_running [of c ?k v2 r w'] assms(1,2) same2 stored_kept [OF same2, of c] by auto
    moreover from this(3) have "\<exists>e'. r = Inl e'"
      by (elim exE) (rule seq_fail_is_error)
    ultimately show ?thesis using stored_kept [OF same2, of c] by simp
  qed
qed

section \<open>Witnesses\<close>

lemma boot_cluster:
  "\<exists>rec. require_cluster (cn_clusters demo_control) (wd_db boot_world) (ClusterId ''mydb'') = Inr rec \<and>
     mf_name (cl_manifest rec) = ''mydb'' \<and> sp_image_name (mf_spec (cl_manifest rec)) = ''postgres:18''"
proof -
  have "case require_cluster (cn_clusters demo_control) boot_registry (ClusterId ''mydb'') of Inl e \<Rightarrow> False
    | Inr rec \<Rightarrow> mf_name (cl_manifest rec) = ''mydb'' \<and> sp_image_name (mf_spec (cl_manifest rec)) = ''postgres:18''" by code_simp
  then show ?thesis by (simp split: sum.splits)
qed

lemma boot_phase: "stored_phase boot_registry (ClusterId ''mydb'') \<noteq> None"
  by code_simp

lemma demo_names: "mc_name (cn_clusters demo_control) m = mf_name m" "mf_name (upgrade_target m opts) = mf_name m"
  by (simp_all add: demo_control_def upgrade_target_def)

definition same_image :: upgrade_options where
  "same_image = upgrade_options_default\<lparr> uo_to_image := ''postgres:18 '' \<rparr>"

theorem upgrade_refused_early_witness:
  "\<exists>e. upgrade demo_control demo_tools (ClusterId ''mydb'') same_image boot_world = (Inl e, boot_world)"
proof -
  obtain rec where rec: "require_cluster (cn_clusters demo_control) (wd_db boot_world) (ClusterId ''mydb'') = Inr rec"
    "sp_image_name (mf_spec (cl_manifest rec)) = ''postgres:18''" using boot_cluster by blast
  have "uo_to_image same_image = ''postgres:18 ''" by (simp add: same_image_def)
  moreover have "trim ''postgres:18 '' = trim ''postgres:18''" by code_simp
  ultimately have "trim (uo_to_image same_image) = trim (sp_image_name (mf_spec (cl_manifest rec)))"
    by (simp only: rec(2))
  then obtain e where "upgradable (ClusterId ''mydb'') (cl_manifest rec) same_image = Inl e"
    by (cases "sp_instances (mf_spec (cl_manifest rec)) = 1") (simp_all add: upgradable_def)
  then have "upgrade_prepare demo_control demo_tools (ClusterId ''mydb'') (cl_manifest rec) same_image boot_world = (Inl e, boot_world)"
    by (simp add: upgrade_prepare_def Let_def seq_def of_result_def)
  with upgrade_refused_early [OF rec(1) this] show ?thesis by blast
qed


definition demo_plan :: upgrade_plan where
  "demo_plan = \<lparr> pn_from_version = ''17.2'', pn_to_version = ''18.0'', pn_staged_bytes = 0, pn_env = [], pn_warnings = [] \<rparr>"

theorem upgrade_leaves_witness:
  "case upgrade_window demo_control demo_tools (ClusterId ''mydb'') demo_manifest (upgrade_options_default\<lparr> uo_check := True \<rparr>) demo_plan boot_world of
      (Inr rep, w') \<Rightarrow> stored_manifest (wd_db w') (ClusterId ''mydb'') = stored_manifest boot_registry (ClusterId ''mydb'')
    | (Inl e, w') \<Rightarrow> stored_manifest (wd_db w') (ClusterId ''mydb'') = stored_manifest boot_registry (ClusterId ''mydb'')"
proof -
  have "reg_ok (wd_db boot_world)" using boot_registry_ok by simp
  moreover have "mf_name demo_manifest = cluster_str (ClusterId ''mydb'')" by (simp add: demo_manifest_def)
  ultimately show ?thesis
    using upgrade_leaves [of boot_world demo_control demo_manifest "upgrade_options_default\<lparr> uo_check := True \<rparr>" "ClusterId ''mydb''"
      demo_tools demo_plan] boot_phase by (simp add: demo_names split: prod.splits sum.splits)
qed

theorem failed_upgrade_settles_witness:
  "case upgrade_failed demo_control (ClusterId ''mydb'') demo_manifest upgrade_options_default [PoolerId ''front''] (EInvalid ''no'') boot_world of
     (r, w') \<Rightarrow> (\<exists>e. r = Inl e) \<and> stored_phase (wd_db w') (ClusterId ''mydb'') \<noteq> Some ''upgrading''"
proof -
  obtain r w' where run: "upgrade_failed demo_control (ClusterId ''mydb'') demo_manifest upgrade_options_default [PoolerId ''front'']
      (EInvalid ''no'') boot_world = (r, w')"
    by (cases "upgrade_failed demo_control (ClusterId ''mydb'') demo_manifest upgrade_options_default [PoolerId ''front'']
      (EInvalid ''no'') boot_world")
  have "tbl_ok (db_clusters (wd_db boot_world))" using reg_okD(1) [OF boot_registry_ok] by simp
  from failed_upgrade_settles [OF this _ run] boot_phase show ?thesis by (auto simp: run)
qed

end
