(* ===== verification/Admin.thy ===== *)
theory Admin
  imports Bytes
begin

text \<open>
  The admin console of the pooler: the messages of the PostgreSQL protocol that pgpod writes and
  reads (\<^verbatim>\<open>pgpod-pooler/src/admin.rs\<close>, the answer type of \<^verbatim>\<open>control.rs\<close>), and the session that
  reads them off a socket (\<^verbatim>\<open>pgpod-agent/src/pooler/admin.rs\<close>).  MD5 is a parameter.
\<close>

section \<open>What is sent\<close>

definition protocol_version :: "32 word" where "protocol_version = 196608"

definition nul :: char where "nul = CHR 0x00"

definition startup_message :: "string \<Rightarrow> string \<Rightarrow> string" where
  "startup_message user database =
     (let body = bytes_be32 protocol_version @
        concat (map (\<lambda>(k, v). k @ [nul] @ v @ [nul])
          [(''user'', user), (''database'', database), (''application_name'', ''pgpod-agent'')]) @ [nul]
      in bytes_be32 (word_of_nat (length body + 4)) @ body)"

definition hex_byte :: "char \<Rightarrow> string" where
  "hex_byte c = [''0123456789abcdef'' ! (byte c div 16), ''0123456789abcdef'' ! (byte c mod 16)]"

definition hex_encode :: "string \<Rightarrow> string" where "hex_encode s = concat (map hex_byte s)"

definition md5_password :: "(string \<Rightarrow> string) \<Rightarrow> string \<Rightarrow> string \<Rightarrow> string \<Rightarrow> string" where
  "md5_password md5 user password salt =
     (let inner = hex_encode (md5 (password @ user)) in ''md5'' @ hex_encode (md5 (inner @ salt)))"

definition tagged :: "char \<Rightarrow> string \<Rightarrow> string" where
  "tagged tag body = tag # bytes_be32 (word_of_nat (length body + 5)) @ body @ [nul]"

definition password_message :: "(string \<Rightarrow> string) \<Rightarrow> string \<Rightarrow> string \<Rightarrow> string \<Rightarrow> string" where
  "password_message md5 user password salt = tagged (CHR ''p'') (md5_password md5 user password salt)"

definition query_message :: "string \<Rightarrow> string" where
  "query_message sql = tagged (CHR ''Q'') sql"

definition terminate_message :: string where
  "terminate_message = tagged (CHR ''X'') []"

section \<open>What is read\<close>

datatype backend = AuthenticationOk | AuthenticationMd5 string | AuthenticationOther int
  | RowDescription "string list" | DataRow "string option list" | CommandComplete string
  | ErrorResponse string | ReadyForQuery | OtherMessage char

datatype wire_error = Protocol string

definition take_cstr :: "string \<Rightarrow> wire_error + string \<times> string" where
  "take_cstr buf = (let v = takeWhile (\<lambda>b. b \<noteq> nul) buf in
     if length v = length buf then Inl (Protocol ''unterminated string'')
     else Inr (lossy v, drop (length v + 1) buf))"

fun take_fields :: "nat \<Rightarrow> string \<Rightarrow> wire_error + string list" where
  "take_fields 0 rest = Inr []"
| "take_fields (Suc n) rest =
     and_then (take_cstr rest) (\<lambda>(name, tail).
     if length tail < 18 then Inl (Protocol ''truncated field description'')
     else and_then (take_fields n (drop 18 tail)) (\<lambda>names. Inr (name # names)))"

fun take_values :: "nat \<Rightarrow> string \<Rightarrow> wire_error + string option list" where
  "take_values 0 rest = Inr []"
| "take_values (Suc n) rest =
     (if length rest < 4 then Inl (Protocol ''truncated column length'')
      else let len = be_i32 (take 4 rest); rest = drop 4 rest in
        if len < 0 then and_then (take_values n rest) (\<lambda>vs. Inr (None # vs))
        else if length rest < nat len then Inl (Protocol ''truncated column value'')
        else and_then (take_values n (drop (nat len) rest)) (\<lambda>vs. Inr (Some (lossy (take (nat len) rest)) # vs)))"

lemma take_cstr_length: "take_cstr buf = Inr (v, rest) \<Longrightarrow> length rest < length buf"
  using length_takeWhile_le [of "\<lambda>b. b \<noteq> nul" buf] by (auto simp: take_cstr_def Let_def split: if_splits)

function error_fields :: "string option \<times> string option \<Rightarrow> string \<Rightarrow> string option \<times> string option" where
  "error_fields found rest =
     (case rest of [] \<Rightarrow> found
      | field # tail \<Rightarrow>
          if field = nul then found
          else (case take_cstr tail of Inl e \<Rightarrow> found
            | Inr (v, next) \<Rightarrow> error_fields
                (if field = CHR ''S'' then (Some v, snd found) else if field = CHR ''M'' then (fst found, Some v) else found)
                next))"
  by pat_completeness auto
termination
  by (relation "measure (length \<circ> snd)") (auto dest: take_cstr_length)

declare error_fields.simps [simp del]

definition error_text :: "string \<Rightarrow> string" where
  "error_text body = (case error_fields (None, None) body of
      (Some s, Some m) \<Rightarrow> s @ '': '' @ m
    | (None, Some m) \<Rightarrow> m
    | (_, None) \<Rightarrow> ''the pooler reported an error with no message'')"

definition parse_message :: "char \<Rightarrow> string \<Rightarrow> wire_error + backend" where
  "parse_message tag body =
     (if tag = CHR ''R'' then
        (if length body < 4 then Inl (Protocol ''truncated authentication request'')
         else let code = be_i32 (take 4 body) in
           if code = 0 then Inr AuthenticationOk
           else if code = 5
           then (if length body < 8 then Inl (Protocol ''MD5 request carries no salt'')
                 else Inr (AuthenticationMd5 (take 4 (drop 4 body))))
           else Inr (AuthenticationOther code))
      else if tag = CHR ''T'' then
        (if length body < 2 then Inl (Protocol ''truncated row description'')
         else and_then (take_fields (be_nat (take 2 body)) (drop 2 body)) (\<lambda>names. Inr (RowDescription names)))
      else if tag = CHR ''D'' then
        (if length body < 2 then Inl (Protocol ''truncated data row'')
         else and_then (take_values (be_nat (take 2 body)) (drop 2 body)) (\<lambda>vs. Inr (DataRow vs)))
      else if tag = CHR ''C'' then and_then (take_cstr body) (\<lambda>(v, _). Inr (CommandComplete v))
      else if tag = CHR ''E'' then Inr (ErrorResponse (error_text body))
      else if tag = CHR ''Z'' then Inr ReadyForQuery
      else Inr (OtherMessage tag))"

definition show_i32 :: "int \<Rightarrow> string" where
  "show_i32 i = (if i < 0 then CHR ''-'' # show_nat (nat (- i)) else show_nat (nat i))"

text \<open>One message off the front of the buffer, and what is left of it.\<close>

definition decode :: "string \<Rightarrow> (wire_error + backend option) \<times> string" where
  "decode buf =
     (if length buf < 5 then (Inr None, buf)
      else let tag = hd buf; len = be_i32 (take 4 (tl buf)) in
        if \<not> (4 \<le> len \<and> len \<le> 1073741823)
        then (Inl (Protocol (''message '' @ [CHR 0x27] @ escape_debug tag @ [CHR 0x27] @ '' declares a length of '' @ show_i32 len)), buf)
        else let total = 1 + nat len in
          if length buf < total then (Inr None, buf)
          else (and_then (parse_message tag (drop 5 (take total buf))) (\<lambda>m. Inr (Some m)), drop total buf))"

section \<open>The rows of a command\<close>

record query_result =
  qr_columns :: "string list"
  qr_rows :: "string option list list"
  qr_tag :: "string option"

definition query_result_default :: query_result where
  "query_result_default = \<lparr> qr_columns = [], qr_rows = [], qr_tag = None \<rparr>"

fun index_of :: "'a \<Rightarrow> 'a list \<Rightarrow> nat option" where
  "index_of x [] = None"
| "index_of x (y # ys) = (if x = y then Some 0 else map_option Suc (index_of x ys))"

definition nth_opt :: "'a list \<Rightarrow> nat \<Rightarrow> 'a option" where
  "nth_opt xs i = (if i < length xs then Some (xs ! i) else None)"

definition cell_of :: "query_result \<Rightarrow> nat \<Rightarrow> string \<Rightarrow> string option" where
  "cell_of r i column = (case index_of column (qr_columns r) of None \<Rightarrow> None
     | Some k \<Rightarrow> (case nth_opt (qr_rows r) i of None \<Rightarrow> None
       | Some row \<Rightarrow> (case nth_opt row k of Some (Some v) \<Rightarrow> Some v | _ \<Rightarrow> None)))"

definition column_of :: "query_result \<Rightarrow> string \<Rightarrow> string list" where
  "column_of r column = (case index_of column (qr_columns r) of None \<Rightarrow> []
     | Some k \<Rightarrow> List.map_filter (\<lambda>row. case nth_opt row k of Some v \<Rightarrow> v | None \<Rightarrow> None) (qr_rows r))"

record pool_row =
  pl_database :: string
  pl_user :: string
  pl_paused :: bool
  pl_clients_waiting :: "64 word"
  pl_servers_active :: "64 word"
  pl_servers_idle :: "64 word"

definition trimmed_cell :: "query_result \<Rightarrow> nat \<Rightarrow> string \<Rightarrow> string" where
  "trimmed_cell r i name = trim (case cell_of r i name of Some v \<Rightarrow> v | None \<Rightarrow> [])"

definition number_cell :: "query_result \<Rightarrow> nat \<Rightarrow> string \<Rightarrow> 64 word" where
  "number_cell r i name = (case parse_u64 (trimmed_cell r i name) of Some n \<Rightarrow> n | None \<Rightarrow> 0)"

definition pool_row_at :: "query_result \<Rightarrow> nat \<Rightarrow> pool_row" where
  "pool_row_at r i = \<lparr> pl_database = trimmed_cell r i ''database'', pl_user = trimmed_cell r i ''user'',
     pl_paused = (trimmed_cell r i ''paused'' \<in> {''1'', ''t'', ''true'', ''yes''}),
     pl_clients_waiting = number_cell r i ''cl_waiting'', pl_servers_active = number_cell r i ''sv_active'',
     pl_servers_idle = number_cell r i ''sv_idle'' \<rparr>"

definition debug_strs :: "string list \<Rightarrow> string" where
  "debug_strs xs = ''['' @ str_join '', '' (map debug_str xs) @ '']''"

definition parse_pools :: "query_result \<Rightarrow> wire_error + pool_row list" where
  "parse_pools r =
     and_then (try_each (\<lambda>required. if required \<in> set (qr_columns r) then Inr ()
       else Inl (Protocol (''SHOW POOLS has no '' @ debug_str required @ '' column '' @ [CHR 0xE2, CHR 0x80, CHR 0x94] @
         '' got '' @ debug_strs (qr_columns r)))) [''database'', ''user'', ''paused'']) (\<lambda>_.
     Inr (map (pool_row_at r) [0..<length (qr_rows r)]))"

datatype pool_answer = PoolsDone "string list" | PoolsAre "pool_row list" | PoolsFailed string

definition into_pools :: "pool_answer \<Rightarrow> wire_error + pool_row list" where
  "into_pools a = (case a of PoolsAre ps \<Rightarrow> Inr ps | PoolsFailed m \<Rightarrow> Inl (Protocol m)
     | PoolsDone _ \<Rightarrow> Inl (Protocol ''asked the pooler for its pools and got an acknowledgement''))"

section \<open>The session\<close>

text \<open>What the socket answers to the reads: some bytes, an error, or nothing for thirty seconds.  An answer without
  bytes, and no further answer, is the end of the connection.\<close>

datatype socket_read = Bytes string | ReadFailed | Silent

definition closed :: string where "closed = ''the admin console closed the connection mid-response''"

fun next_message :: "string \<Rightarrow> socket_read list \<Rightarrow> string + backend \<times> string \<times> socket_read list" where
  "next_message buf reads =
     (case decode buf of
        (Inl (Protocol e), _) \<Rightarrow> Inl (''the pooler spoke something other than the postgres protocol: '' @ e)
      | (Inr (Some m), rest) \<Rightarrow> Inr (m, rest, reads)
      | (Inr None, _) \<Rightarrow> (case reads of
          [] \<Rightarrow> Inl closed
        | Silent # later \<Rightarrow> Inl ''the admin console stopped responding''
        | ReadFailed # later \<Rightarrow> Inl ''failed to read from the admin console''
        | Bytes c # later \<Rightarrow> if c = [] then Inl closed else next_message (buf @ c) later))"

declare next_message.simps [simp del]


lemma decode_shrinks: "decode buf = (Inr (Some m), rest) \<Longrightarrow> length rest < length buf"
  by (auto simp: decode_def Let_def and_then_Inr split: if_splits)

lemma decode_waits: "decode buf = (Inr None, rest) \<Longrightarrow> rest = buf"
  by (auto simp: decode_def Let_def and_then_Inr split: if_splits)

fun read_bytes :: "socket_read list \<Rightarrow> string" where
  "read_bytes [] = []"
| "read_bytes (Bytes c # later) = c @ read_bytes later"
| "read_bytes (r # later) = read_bytes later"

lemma next_message_shrinks:
  "next_message buf reads = Inr (m, buf', reads') \<Longrightarrow> length (buf' @ read_bytes reads') < length (buf @ read_bytes reads)"
proof (induction buf reads rule: next_message.induct)
  case (1 buf reads)
  from 1(2) [unfolded next_message.simps [of buf reads]] show ?case
    using 1(1)
    by (auto split: prod.splits sum.splits wire_error.splits option.splits list.splits socket_read.splits if_splits
         dest: decode_shrinks decode_waits)
qed

text \<open>The answer to one command: everything up to the message that says the server is ready, an error kept
  until then.\<close>

function collect :: "query_result \<times> string option \<Rightarrow> string \<times> socket_read list \<Rightarrow>
    string + (query_result \<times> string option) \<times> string \<times> socket_read list" where
  "collect acc conn =
     (case next_message (fst conn) (snd conn) of
        Inl e \<Rightarrow> Inl e
      | Inr (m, conn') \<Rightarrow> (case m of
          RowDescription columns \<Rightarrow> collect ((fst acc)\<lparr> qr_columns := columns \<rparr>, snd acc) conn'
        | DataRow values \<Rightarrow> collect ((fst acc)\<lparr> qr_rows := qr_rows (fst acc) @ [values] \<rparr>, snd acc) conn'
        | CommandComplete tag \<Rightarrow> collect ((fst acc)\<lparr> qr_tag := Some tag \<rparr>, snd acc) conn'
        | ErrorResponse e \<Rightarrow> collect (fst acc, Some e) conn'
        | ReadyForQuery \<Rightarrow> Inr (acc, conn')
        | _ \<Rightarrow> collect acc conn'))"
  by pat_completeness auto
termination
  by (relation "measure (\<lambda>(acc, buf, reads). length (buf @ read_bytes reads))")
     (auto dest: next_message_shrinks)

declare collect.simps [simp del]

text \<open>What the socket says to a write: an error, or nothing.\<close>

definition send :: "(string \<Rightarrow> string option) \<Rightarrow> string \<Rightarrow> string + unit" where
  "send wr bytes = (case wr bytes of Some e \<Rightarrow> Inl ''failed to write to the admin console'' | None \<Rightarrow> Inr ())"

text \<open>A command that the pooler refused leaves a connection that can be used further.\<close>

definition execute :: "(string \<Rightarrow> string option) \<Rightarrow> string \<Rightarrow> string \<times> socket_read list \<Rightarrow>
    string + (string + query_result) \<times> string \<times> socket_read list" where
  "execute wr sql conn =
     and_then (send wr (query_message sql)) (\<lambda>_.
     and_then (collect (query_result_default, None) conn) (\<lambda>((result, failure), conn').
     Inr (case failure of Some e \<Rightarrow> Inl (sql @ '': '' @ e) | None \<Rightarrow> Inr result, conn')))"

text \<open>The handshake.\<close>

function authenticate_loop :: "(string \<Rightarrow> string) \<Rightarrow> (string \<Rightarrow> string option) \<Rightarrow> string \<Rightarrow> string \<Rightarrow>
    string \<times> socket_read list \<Rightarrow> string + string \<times> socket_read list" where
  "authenticate_loop md5 wr user password conn =
     (case next_message (fst conn) (snd conn) of
        Inl e \<Rightarrow> Inl e
      | Inr (m, conn') \<Rightarrow> (case m of
          AuthenticationMd5 salt \<Rightarrow>
            (case send wr (password_message md5 user password salt) of
               Inl e \<Rightarrow> Inl e | Inr _ \<Rightarrow> authenticate_loop md5 wr user password conn')
        | ReadyForQuery \<Rightarrow> Inr conn'
        | ErrorResponse e \<Rightarrow> Inl (''the pooler refused the admin connection: '' @ e)
        | AuthenticationOther code \<Rightarrow> Inl (''the pooler asked for authentication method '' @ show_i32 code @
            '', and the agent implements only MD5 (method 5)'')
        | _ \<Rightarrow> authenticate_loop md5 wr user password conn'))"
  by pat_completeness auto
termination
  by (relation "measure (\<lambda>(md5, wr, user, password, buf, reads). length (buf @ read_bytes reads))")
     (auto dest: next_message_shrinks)

declare authenticate_loop.simps [simp del]

definition authenticate :: "(string \<Rightarrow> string) \<Rightarrow> (string \<Rightarrow> string option) \<Rightarrow> string \<Rightarrow> string \<Rightarrow> string \<Rightarrow>
    string \<times> socket_read list \<Rightarrow> string + string \<times> socket_read list" where
  "authenticate md5 wr user password database conn =
     and_then (send wr (startup_message user database)) (\<lambda>_. authenticate_loop md5 wr user password conn)"

section \<open>Only the bytes matter\<close>

text \<open>A message that is whole is read the same way whatever follows it.\<close>

lemma decode_more:
  assumes "decode buf = (Inr (Some m), rest)"
  shows "decode (buf @ t) = (Inr (Some m), rest @ t)"
proof -
  obtain c s where buf: "buf = c # s" "4 \<le> length s"
    using assms by (cases buf) (auto simp: decode_def split: if_splits)
  then have "take 4 (s @ t) = take 4 s" by simp
  with assms buf show ?thesis
    by (auto simp: decode_def Let_def and_then_Inr take_Cons' drop_Cons' split: if_splits)
qed

lemma decode_more_error:
  assumes "decode buf = (Inl e, rest)"
  shows "\<exists>rest'. decode (buf @ t) = (Inl e, rest')"
proof -
  obtain c s where buf: "buf = c # s" "4 \<le> length s"
    using assms by (cases buf) (auto simp: decode_def split: if_splits)
  then have "take 4 (s @ t) = take 4 s" by simp
  with assms buf show ?thesis
    by (auto simp: decode_def Let_def and_then_Inl take_Cons' drop_Cons' split: if_splits)
qed

definition all_bytes :: "socket_read list \<Rightarrow> bool" where
  "all_bytes reads \<longleftrightarrow> (\<forall>r\<in>set reads. \<exists>c. c \<noteq> [] \<and> r = Bytes c)"

text \<open>The next message is the one at the front of all the bytes there are.\<close>

definition front_message :: "string \<Rightarrow> string + backend \<times> string" where
  "front_message s = (case decode s of
      (Inl (Protocol e), _) \<Rightarrow> Inl (''the pooler spoke something other than the postgres protocol: '' @ e)
    | (Inr (Some m), rest) \<Rightarrow> Inr (m, rest)
    | (Inr None, _) \<Rightarrow> Inl closed)"

lemma next_message_bytes:
  assumes "all_bytes reads"
  shows "(case next_message buf reads of Inl e \<Rightarrow> Inl e
      | Inr (m, buf', reads') \<Rightarrow> if all_bytes reads' then Inr (m, buf' @ read_bytes reads') else Inl []) =
    front_message (buf @ read_bytes reads)"
  using assms
proof (induction buf reads rule: next_message.induct)
  case (1 buf reads)
  obtain r rest where d: "decode buf = (r, rest)" by (cases "decode buf")
  consider e where "r = Inl (Protocol e)" | m where "r = Inr (Some m)" | "r = Inr None"
    by (metis option.exhaust sum.exhaust wire_error.exhaust)
  then show ?case
  proof cases
    case (1 e)
    then obtain rest' where "decode (buf @ read_bytes reads) = (Inl (Protocol e), rest')"
      using decode_more_error d by blast
    then show ?thesis using 1 d by (simp add: next_message.simps [of buf] front_message_def)
  next
    case (2 m)
    then show ?thesis using d decode_more [of buf m rest "read_bytes reads"] "1.prems"
      by (simp add: next_message.simps [of buf] front_message_def)
  next
    case 3
    show ?thesis
    proof (cases reads)
      case Nil
      then show ?thesis using d 3 by (simp add: next_message.simps [of buf] front_message_def)
    next
      case (Cons x later)
      then obtain c where x: "x = Bytes c" "c \<noteq> []" "all_bytes later" using "1.prems" by (auto simp: all_bytes_def)
      then show ?thesis using "1.IH" [OF d [symmetric] 3 _ Cons x(1) x(2)] d 3 Cons
        by (simp add: next_message.simps [of buf])
    qed
  qed
qed

definition remains :: "string \<times> socket_read list \<Rightarrow> string" where
  "remains conn = fst conn @ read_bytes (snd conn)"

text \<open>A command's outcome, however the socket cuts the answer.\<close>

definition outcome :: "string + 'a \<times> string \<times> socket_read list \<Rightarrow> string + 'a \<times> string" where
  "outcome r = (case r of Inl e \<Rightarrow> Inl e | Inr (x, conn) \<Rightarrow> Inr (x, remains conn))"

lemma next_message_split:
  assumes "all_bytes reads"
  shows "(\<exists>e. next_message buf reads = Inl e \<and> front_message (buf @ read_bytes reads) = Inl e) \<or>
    (\<exists>m buf' reads'. next_message buf reads = Inr (m, buf', reads') \<and> all_bytes reads' \<and>
      front_message (buf @ read_bytes reads) = Inr (m, buf' @ read_bytes reads'))"
proof -
  have kept: "all_bytes reads'" if "next_message buf reads = Inr (m, buf', reads')" for m buf' reads'
    using that assms
  proof (induction buf reads rule: next_message.induct)
    case (1 buf reads)
    from 1(2) [unfolded next_message.simps [of buf reads]] show ?case
      using 1(1,3) by (auto simp: all_bytes_def
          split: prod.splits sum.splits wire_error.splits option.splits list.splits socket_read.splits if_splits)
  qed
  show ?thesis using next_message_bytes [OF assms, of buf] kept
    by (cases "next_message buf reads") auto
qed

lemma front_message_whole: "front_message s = (case next_message s [] of Inl e \<Rightarrow> Inl e | Inr (m, rest, _) \<Rightarrow> Inr (m, rest))"
  by (auto simp: front_message_def next_message.simps [of s] split: prod.splits sum.splits option.splits wire_error.splits)

lemma whole_reads_nothing: "next_message s [] = Inr (m, rest, reads) \<Longrightarrow> reads = []"
  by (auto simp: next_message.simps [of s] split: prod.splits sum.splits option.splits wire_error.splits)

lemma collect_whole:
  "all_bytes (snd conn) \<Longrightarrow> outcome (collect acc conn) = outcome (collect acc (remains conn, []))"
proof (induction conn arbitrary: acc rule: measure_induct_rule [of "\<lambda>c. length (remains c)"])
  case (less conn)
  obtain buf reads where conn: "conn = (buf, reads)" by (cases conn)
  from next_message_split [of reads buf] less.prems conn consider
      e where "next_message buf reads = Inl e" "front_message (buf @ read_bytes reads) = Inl e"
    | m buf' reads' where "next_message buf reads = Inr (m, buf', reads')" "all_bytes reads'"
      "front_message (buf @ read_bytes reads) = Inr (m, buf' @ read_bytes reads')"
    by auto
  then show ?case
  proof cases
    case (1 e)
    then have "next_message (buf @ read_bytes reads) [] = Inl e"
      by (auto simp: front_message_whole split: sum.splits)
    then show ?thesis using 1 conn
      by (simp add: collect.simps [of acc "(buf, reads)"] collect.simps [of acc "(buf @ read_bytes reads, [])"] outcome_def remains_def)
  next
    case (2 m buf' reads')
    then have whole: "next_message (buf @ read_bytes reads) [] = Inr (m, buf' @ read_bytes reads', [])"
      using whole_reads_nothing by (fastforce simp: front_message_whole split: sum.splits)
    have "length (remains (buf', reads')) < length (remains conn)"
      using next_message_shrinks [OF 2(1)] by (simp add: conn remains_def)
    note IH = less.IH [OF this, simplified, OF 2(2)]
    show ?thesis using 2 conn whole IH
      by (cases m) (simp_all add: collect.simps [of acc "(buf, reads)"] collect.simps [of acc "(buf @ read_bytes reads, [])"] outcome_def remains_def)
  qed
qed

section \<open>What a pooler sends\<close>

text \<open>The protocol's messages, as a server writes them: tag, length, body.\<close>

definition frame :: "char \<Rightarrow> string \<Rightarrow> string" where
  "frame tag body = tag # bytes_be32 (word_of_nat (length body + 4)) @ body"

definition field_bytes :: "string \<Rightarrow> string \<Rightarrow> string" where
  "field_bytes metadata name = name @ [nul] @ metadata"

definition value_bytes :: "string option \<Rightarrow> string" where
  "value_bytes v = (case v of None \<Rightarrow> bytes_be32 (- 1) | Some s \<Rightarrow> bytes_be32 (word_of_nat (length s)) @ s)"

definition counted :: "string list \<Rightarrow> string" where
  "counted parts = bytes_be16 (word_of_nat (length parts)) @ concat parts"

definition response_bytes :: "string \<Rightarrow> string list \<Rightarrow> string option list list \<Rightarrow> string \<Rightarrow> string" where
  "response_bytes metadata columns rows tag =
     frame (CHR ''T'') (counted (map (field_bytes metadata) columns)) @
     concat (map (\<lambda>row. frame (CHR ''D'') (counted (map value_bytes row))) rows) @
     frame (CHR ''C'') (tag @ [nul]) @ frame (CHR ''Z'') ''I''"

text \<open>Text of the protocol: well formed and without the terminator; and what fits a message.\<close>

definition text_ok :: "string \<Rightarrow> bool" where "text_ok s \<longleftrightarrow> utf8 s \<and> nul \<notin> set s"

definition counted_ok :: "string list \<Rightarrow> bool" where
  "counted_ok parts \<longleftrightarrow> length parts < 65536 \<and> length (concat parts) + 6 \<le> 1073741823"

lemma decode_frame:
  assumes "length body + 4 \<le> 1073741823"
  shows "decode (frame tag body @ rest) = (and_then (parse_message tag body) (\<lambda>m. Inr (Some m)), rest)"
proof -
  have "be_i32 (bytes_be32 (word_of_nat (length body + 4))) = int (length body + 4)"
    using assms by (intro be_i32_length) simp
  then show ?thesis using assms
    by (simp add: decode_def frame_def Let_def drop_Cons')
qed

lemma take_cstr_text: "text_ok s \<Longrightarrow> take_cstr (s @ [nul] @ rest) = Inr (s, rest)"
proof -
  assume s: "text_ok s"
  then have "takeWhile (\<lambda>b. b \<noteq> nul) (s @ nul # rest) = s"
    by (subst takeWhile_append2) (auto simp: text_ok_def)
  then show ?thesis using s by (simp add: take_cstr_def Let_def text_ok_def utf8_def)
qed

lemma take_fields_bytes:
  "length metadata = 18 \<Longrightarrow> \<forall>n\<in>set names. text_ok n \<Longrightarrow>
    take_fields (length names) (concat (map (field_bytes metadata) names)) = Inr names"
proof (induction names)
  case (Cons n names)
  then show ?case
    using take_cstr_text [of n "metadata @ concat (map (field_bytes metadata) names)"]
    by (simp add: field_bytes_def [of metadata n])
qed simp

lemma take_values_bytes:
  "\<forall>v\<in>set vs. case v of None \<Rightarrow> True | Some s \<Rightarrow> utf8 s \<and> length s < 2 ^ 31 \<Longrightarrow>
    take_values (length vs) (concat (map value_bytes vs)) = Inr vs"
proof (induction vs)
  case (Cons v vs)
  show ?case
  proof (cases v)
    case None
    then show ?thesis using Cons by (simp add: value_bytes_def Let_def)
  next
    case (Some s)
    then have "be_i32 (bytes_be32 (word_of_nat (length s))) = int (length s)"
      using Cons.prems by (intro be_i32_length) simp
    then show ?thesis using Cons Some by (simp add: value_bytes_def Let_def utf8_def)
  qed
qed simp

lemma counted_parts:
  assumes "counted_ok parts"
  shows "be_nat (take 2 (counted parts)) = length parts" "drop 2 (counted parts) = concat parts"
    "2 \<le> length (counted parts)" "length (counted parts) + 4 \<le> 1073741823"
  using assms by (simp_all add: counted_def counted_ok_def be_nat_bytes16 unat_of_nat)

lemma part_length: "x \<in> set parts \<Longrightarrow> length x \<le> length (concat parts)"
  by (induction parts) auto

lemma value_fits:
  assumes "counted_ok (map value_bytes vs)" "Some s \<in> set vs"
  shows "length s < 2 ^ 31"
proof -
  have "value_bytes (Some s) \<in> set (map value_bytes vs)" using assms(2) by (simp del: not_None_eq)
  from part_length [OF this] show ?thesis using assms(1) by (simp add: counted_ok_def value_bytes_def)
qed

lemma decode_columns:
  assumes "length metadata = 18" "\<forall>n\<in>set columns. text_ok n" "counted_ok (map (field_bytes metadata) columns)"
  shows "decode (frame (CHR ''T'') (counted (map (field_bytes metadata) columns)) @ rest) = (Inr (Some (RowDescription columns)), rest)"
  using counted_parts [OF assms(3)] take_fields_bytes [OF assms(1,2)]
  by (simp add: decode_frame parse_message_def)

lemma decode_row:
  assumes "\<forall>s. Some s \<in> set row \<longrightarrow> utf8 s" "counted_ok (map value_bytes row)"
  shows "decode (frame (CHR ''D'') (counted (map value_bytes row)) @ rest) = (Inr (Some (DataRow row)), rest)"
proof -
  have "take_values (length row) (concat (map value_bytes row)) = Inr row"
    using assms value_fits [OF assms(2)] by (intro take_values_bytes) (auto split: option.split)
  then show ?thesis using counted_parts [OF assms(2)] by (simp add: decode_frame parse_message_def)
qed

lemma decode_tag:
  assumes "text_ok tag" "length tag + 5 \<le> 1073741823"
  shows "decode (frame (CHR ''C'') (tag @ [nul]) @ rest) = (Inr (Some (CommandComplete tag)), rest)"
  using take_cstr_text [OF assms(1), of "[]"] assms(2) by (simp add: decode_frame parse_message_def)

lemma decode_ready: "decode (frame (CHR ''Z'') ''I'' @ rest) = (Inr (Some ReadyForQuery), rest)"
  by (simp add: decode_frame parse_message_def)

lemma next_decoded: "decode s = (Inr (Some m), rest) \<Longrightarrow> next_message s [] = Inr (m, rest, [])"
  by (simp add: next_message.simps [of s])

lemma collect_rows:
  assumes "\<forall>row\<in>set rows. (\<forall>s. Some s \<in> set row \<longrightarrow> utf8 s) \<and> counted_ok (map value_bytes row)"
  shows "collect acc (concat (map (\<lambda>row. frame (CHR ''D'') (counted (map value_bytes row))) rows) @ rest, []) =
    collect ((fst acc)\<lparr> qr_rows := qr_rows (fst acc) @ rows \<rparr>, snd acc) (rest, [])"
  using assms
proof (induction rows arbitrary: acc)
  case (Cons row rows)
  then show ?case
    using next_decoded [OF decode_row [of row "concat (map (\<lambda>row. frame (CHR ''D'') (counted (map value_bytes row))) rows) @ rest"]]
    by (subst collect.simps) simp
qed simp

section \<open>Columns by name\<close>

lemma index_of_None: "index_of x ys = None \<longleftrightarrow> x \<notin> set ys"
  by (induction ys) auto

lemma index_of_distinct: "distinct ys \<Longrightarrow> index_of x ys = Some k \<longleftrightarrow> k < length ys \<and> ys ! k = x"
proof (induction ys arbitrary: k)
  case (Cons y ys)
  show ?case
  proof (cases k)
    case 0
    then show ?thesis by auto
  next
    case (Suc k')
    then show ?thesis using Cons by (auto simp: in_set_conv_nth)
  qed
qed simp

definition reorder :: "nat list \<Rightarrow> query_result \<Rightarrow> query_result" where
  "reorder p r = r\<lparr> qr_columns := map ((!) (qr_columns r)) p, qr_rows := map (\<lambda>row. map ((!) row) p) (qr_rows r) \<rparr>"

lemma cell_of_reorder:
  assumes "distinct (qr_columns r)" "\<forall>row\<in>set (qr_rows r). length row = length (qr_columns r)"
    and "distinct p" "set p = {..<length (qr_columns r)}"
  shows "cell_of (reorder p r) i column = cell_of r i column"
proof (cases "index_of column (qr_columns r)")
  case None
  have "set (map ((!) (qr_columns r)) p) = set (qr_columns r)"
    unfolding set_map assms(4) using nth_image [of "length (qr_columns r)" "qr_columns r"] by (simp add: lessThan_atLeast0)
  then have "index_of column (map ((!) (qr_columns r)) p) = None" using None by (simp add: index_of_None)
  then show ?thesis using None by (simp add: cell_of_def reorder_def)
next
  case (Some k)
  then have k: "k < length (qr_columns r)" "qr_columns r ! k = column" using index_of_distinct [OF assms(1)] by auto
  then obtain j where j: "j < length p" "p ! j = k" using assms(4) by (metis in_set_conv_nth lessThan_iff)
  have "inj_on ((!) (qr_columns r)) (set p)" using assms(1,4) by (simp add: inj_on_nth)
  then have "distinct (map ((!) (qr_columns r)) p)" using assms(3) by (simp add: distinct_map)
  then have "index_of column (map ((!) (qr_columns r)) p) = Some j"
    using index_of_distinct j k by fastforce
  then show ?thesis using Some j k assms(2)
    by (auto simp: cell_of_def reorder_def nth_opt_def split: option.splits)
qed

section \<open>Properties\<close>


text \<open>SHOW POOLS is read by the names of its columns.  A pooler that lists the columns in another order, in
  the header and in every row alike, gives the same pools, and is refused exactly when the
  first order is.  The names are distinct and the rows complete.\<close>

theorem pools_read_by_name:
  assumes "distinct (qr_columns r)" "\<forall>row\<in>set (qr_rows r). length row = length (qr_columns r)"
    and "distinct p" "set p = {..<length (qr_columns r)}"
  shows "to_opt (parse_pools (reorder p r)) = to_opt (parse_pools r)"
proof -
  have "pool_row_at (reorder p r) = pool_row_at r"
    by (simp add: fun_eq_iff pool_row_at_def trimmed_cell_def number_cell_def cell_of_reorder [OF assms])
  moreover have "set (qr_columns (reorder p r)) = set (qr_columns r)"
    using nth_image [of "length (qr_columns r)" "qr_columns r"] assms(4) by (simp add: reorder_def lessThan_atLeast0)
  moreover have "length (qr_rows (reorder p r)) = length (qr_rows r)" by (simp add: reorder_def)
  ultimately show ?thesis by (simp add: parse_pools_def)
qed

text \<open>The goodbye carries a byte that the protocol's Terminate message does not have.\<close>

lemma terminate_has_a_body: "terminate_message = CHR ''X'' # bytes_be32 5 @ [nul]"
  by (simp add: terminate_message_def tagged_def)

section \<open>Witnesses\<close>

definition demo_answer :: string where
  "demo_answer = response_bytes (replicate 18 nul) [''database'', ''user''] [[Some ''appdb'', None]] ''SHOW''"


theorem pools_read_by_name_witness:
  "to_opt (parse_pools \<lparr> qr_columns = [''paused'', ''user'', ''database''], qr_rows = [[Some ''1'', Some ''app'', Some ''appdb'']], qr_tag = None \<rparr>) =
   to_opt (parse_pools \<lparr> qr_columns = [''database'', ''user'', ''paused''], qr_rows = [[Some ''appdb'', Some ''app'', Some ''1'']], qr_tag = None \<rparr>)"
proof -
  let ?r = "\<lparr> qr_columns = [''database'', ''user'', ''paused''], qr_rows = [[Some ''appdb'', Some ''app'', Some ''1'']], qr_tag = None \<rparr>"
  have "set [2, 1, 0 :: nat] = {..<length (qr_columns ?r)}" by auto
  from pools_read_by_name [OF _ _ _ this] show ?thesis by (simp add: reorder_def)
qed

end
