(* ===== verification/Commands.thy ===== *)
theory Commands
  imports StatusReport Doctor Upgrade Admin
begin

text \<open>
  What the command line prints: the report of each command as text (\<^verbatim>\<open>pgpod-cli/src/commands.rs\<close>).  A width counts
  bytes, which are characters in all that pgpod pads; the commands are in \<^verbatim>\<open>Cli\<close>.
\<close>

section \<open>The reports as text\<close>

definition quoted :: "string \<Rightarrow> string" where "quoted s = [CHR 0x27] @ s @ [CHR 0x27]"

definition pad_left :: "nat \<Rightarrow> string \<Rightarrow> string" where
  "pad_left n s = replicate (n - length s) (CHR '' '') @ s"

definition connect_hint :: "string \<Rightarrow> string" where
  "connect_hint c = nl @ ''Connect with:  pgpod psql '' @ c @ nl"

definition instance_text :: "instance_summary \<Rightarrow> string" where
  "instance_text i = ''  '' @ su_instance i @ ''  container '' @ su_container i @ ''  volume '' @ su_volume i @ nl @
     ''    '' @ su_connection_uri i @ nl"

definition verb_of :: "bool \<Rightarrow> string" where "verb_of created = (if created then ''created'' else ''converged'')"

definition apply_text :: "apply_report \<Rightarrow> string" where
  "apply_text r = ''cluster '' @ quoted (ar_cluster r) @ '' '' @ verb_of (ar_created r) @ '' (generation '' @ show_int (ar_generation r) @
     '')'' @ nl @ concat (map instance_text (ar_instances r)) @ connect_hint (ar_cluster r)"

definition backup_text :: "backup_report \<Rightarrow> string" where
  "backup_text r = ''backup of cluster '' @ quoted (br_cluster r) @ nl @
     concat (map (\<lambda>d. ''  destination:  '' @ d @ nl) (br_destinations r)) @
     (case br_label r of
        Some label \<Rightarrow> nl @ ''  label:        '' @ label @ nl @
          (case br_backup_type r of Some k \<Rightarrow> ''  type:         '' @ k @ nl | None \<Rightarrow> []) @
          (case br_size_bytes r of Some n \<Rightarrow> ''  database:     '' @ show_nat (unat n) @ '' bytes'' @ nl | None \<Rightarrow> []) @
          nl @ ''Complete '' @ em_dash @ '' pgbackrest recorded it, so it is restorable.'' @ nl
      | None \<Rightarrow> nl @ ''The job finished but the repository shows no new backup. Check `pgpod backups`.'' @ nl)"

record backup_summary =
  bs_label :: string
  bs_backup_type :: string
  bs_started_at :: string
  bs_ended_at :: string
  bs_size_bytes :: "64 word"
  bs_wal_start :: "string option"
  bs_wal_stop :: "string option"

definition backup_summary_of :: "(int \<Rightarrow> string) \<Rightarrow> (int \<Rightarrow> bool) \<Rightarrow> int \<Rightarrow> stored_backup \<Rightarrow> backup_summary" where
  "backup_summary_of day ok now b = \<lparr> bs_label = bk_label b, bs_backup_type = backup_type_str (bk_type b),
     bs_started_at = day (started_at ok now b), bs_ended_at = day (ended_at ok now b), bs_size_bytes = size_bytes b,
     bs_wal_start = Option.bind (bk_archive b) fst, bs_wal_stop = Option.bind (bk_archive b) snd \<rparr>"

definition backup_row :: "backup_summary \<Rightarrow> string" where
  "backup_row b = ''  '' @ pad 34 (bs_label b) @ ''  '' @ pad 5 (bs_backup_type b) @ ''  '' @
     pad_left 12 (show_nat (unat (bs_size_bytes b))) @ '' bytes  ended '' @ bs_ended_at b @ nl"

definition backups_text :: "string \<Rightarrow> backup_summary list \<Rightarrow> string" where
  "backups_text c bs = (if bs = []
     then ''cluster '' @ quoted c @ '' has no backups.'' @ nl @ nl @ ''Take one with:  pgpod backup '' @ c @ nl
     else ''backups of cluster '' @ quoted c @ '':'' @ nl @ nl @ concat (map backup_row bs) @
       nl @ ''Restorable from '' @ bs_ended_at (hd bs) @ '' onwards (newest backup ended '' @ bs_ended_at (last bs) @ '').'' @ nl)"

definition restore_text :: "restore_report \<Rightarrow> string" where
  "restore_text r = ''restored '' @ quoted (rs_source r) @ '' into cluster '' @ quoted (rs_target r) @ nl @ ''  from backup:  '' @
     rs_backup_label r @ nl @
     (case rs_target_time r of Some t \<Rightarrow> ''  target time:  '' @ t @ nl
      | None \<Rightarrow> ''  target time:  (replay everything available)'' @ nl) @
     concat (map (\<lambda>i. nl @ instance_text i) (rs_instances r)) @ connect_hint (rs_target r)"

definition up_word :: "bool \<Rightarrow> string" where "up_word running = (if running then ''running'' else ''stopped'')"

definition instance_line :: "instance_status \<Rightarrow> string" where
  "instance_line i = ''  '' @ pad 12 (ns_instance i) @ '' '' @ pad 10 (instance_role_as_str (ns_role i)) @ '' '' @
     pad 9 (up_word (ns_running i)) @ '' port '' @ pad 6 (show_nat (unat (ns_host_port i))) @ '' '' @ ns_connection_uri i @ nl @
     (if ns_running i \<and> \<not> ns_accepting i
      then ''               (container is up but postgres is not answering yet)'' @ nl else [])"

definition pooler_line :: "pooler_status \<Rightarrow> string" where
  "pooler_line p = ''  '' @ pad 12 (ts_pooler p) @ '' '' @ pad 9 (up_word (ts_running p)) @ '' port '' @ show_nat (unat (ts_host_port p)) @
     nl @ concat (map (\<lambda>u. ''    '' @ u @ nl) (ts_connection_uris p))"

definition pooled_uri :: "cluster_status \<Rightarrow> string option" where
  "pooled_uri s = Option.bind (find ts_running (st_poolers s)) (\<lambda>p. case ts_connection_uris p of [] \<Rightarrow> None | u # _ \<Rightarrow> Some u)"

definition status_text :: "cluster_status \<Rightarrow> string" where
  "status_text s = ''cluster:    '' @ st_cluster s @ nl @ ''phase:      '' @ st_phase s @ '' (generation '' @ show_int (st_generation s) @
     '')'' @ nl @ ''image:      '' @ st_image s @ nl @
     (case st_storage_size s of Some z \<Rightarrow> ''storage:    '' @ z @ '' (advisory '' @ em_dash @ '' not enforced)'' @ nl | None \<Rightarrow> []) @
     nl @ ''instances:'' @ nl @ concat (map instance_line (st_instances s)) @
     (if st_poolers s = [] then [] else nl @ ''poolers:'' @ nl @ concat (map pooler_line (st_poolers s))) @
     (case primary_uri s of None \<Rightarrow> []
      | Some uri \<Rightarrow> nl @ ''primary:    '' @ uri @ nl @
          (case pooled_uri s of Some u \<Rightarrow> ''pooled:     '' @ u @ nl | None \<Rightarrow> [])) @
     (if st_recent_events s = [] then []
      else nl @ ''recent events:'' @ nl @ concat (map (\<lambda>e. ''  '' @ e @ nl) (take 5 (st_recent_events s))))"

definition cluster_row_text :: "cluster_status \<Rightarrow> string" where
  "cluster_row_text s = pad 16 (st_cluster s) @ '' '' @ pad 10 (st_phase s) @ '' '' @
     pad 10 (show_nat (length (filter ns_running (st_instances s))) @ ''/'' @ show_nat (length (st_instances s))) @ '' '' @
     (case primary_uri s of Some u \<Rightarrow> u | None \<Rightarrow> ''-'') @ nl"

definition list_text :: "cluster_status list \<Rightarrow> string" where
  "list_text ss = (if ss = [] then ''no clusters '' @ em_dash @ '' create one with `pgpod apply -f cluster.yaml`'' @ nl
     else pad 16 ''CLUSTER'' @ '' '' @ pad 10 ''PHASE'' @ '' '' @ pad 10 ''INSTANCES'' @ '' '' @ ''PRIMARY'' @ nl @
       concat (map cluster_row_text ss))"

definition delete_text :: "delete_report \<Rightarrow> string" where
  "delete_text r = ''cluster '' @ quoted (dr_cluster r) @ '' deleted'' @ nl @
     concat (map (\<lambda>c. ''  removed container '' @ c @ nl) (dr_containers_removed r)) @
     concat (map (\<lambda>v. ''  DESTROYED volume '' @ v @ nl) (dr_volumes_removed r)) @
     concat (map (\<lambda>v. ''  kept volume '' @ v @ '' (data intact)'' @ nl) (dr_volumes_retained r)) @
     (if dr_volumes_retained r = [] then []
      else nl @ ''Data was kept. `pgpod apply` with the same manifest reuses it;'' @ nl @ ''`pgpod delete --purge` destroys it.'' @ nl) @
     (if dr_poolers r = [] then []
      else nl @ ''Still fronted by: '' @ str_join '', '' (dr_poolers r) @ nl @
        ''Those poolers now point at an instance that is not running, so clients'' @ nl @
        ''through them will fail until `pgpod apply` brings it back.'' @ nl)"

definition pooler_text :: "pooler_report \<Rightarrow> string" where
  "pooler_text r = ''pooler '' @ quoted (pq_pooler r) @ '' '' @ verb_of (pq_created r) @ '' (generation '' @ show_int (pq_generation r) @
     '')'' @ nl @ ''  container '' @ pq_container r @ nl @
     concat (map (\<lambda>p. ''  pool '' @ PoolerApply.pl_name p @ ''  ->  cluster '' @ PoolerApply.pl_cluster p @ '' database '' @
       PoolerApply.pl_database p @ nl @ ''    '' @ PoolerApply.pl_connection_uri p @ nl) (pq_pools r)) @
     nl @ ''Applications connect to the pool name, not the database name.'' @ nl"

record pooler_summary =
  pz_pooler :: string
  pz_container :: string
  pz_host_port :: "16 word"
  pz_phase :: string
  pz_pools :: "string list"

definition pooler_summary_of :: "'q pooler_record \<Rightarrow> pooler_summary" where
  "pooler_summary_of rec = \<lparr> pz_pooler = po_name rec, pz_container = po_container_name rec, pz_host_port = po_host_port rec,
     pz_phase = po_phase rec,
     pz_pools = map (\<lambda>p. pp_pool_name p @ '' -> '' @ pp_cluster p @ ''/'' @ pp_database p) (po_pools rec) \<rparr>"

definition poolers_text :: "pooler_summary list \<Rightarrow> string" where
  "poolers_text ps = (if ps = [] then ''no poolers'' @ nl
     else concat (map (\<lambda>p. pz_pooler p @ ''  '' @ pz_phase p @ ''  port '' @ show_nat (unat (pz_host_port p)) @ nl @
       concat (map (\<lambda>x. ''  '' @ x @ nl) (pz_pools p))) ps))"

definition show_bool :: "bool \<Rightarrow> string" where "show_bool b = (if b then ''true'' else ''false'')"

definition pools_row :: "string \<Rightarrow> string \<Rightarrow> string \<Rightarrow> string \<Rightarrow> string \<Rightarrow> string \<Rightarrow> string" where
  "pools_row a b c d e f = pad 20 a @ '' '' @ pad 12 b @ '' '' @ pad_left 7 c @ '' '' @ pad_left 8 d @ '' '' @ pad_left 8 e @ '' '' @
     pad_left 8 f @ nl"

definition pools_text :: "pool_row list \<Rightarrow> string" where
  "pools_text ps = (if ps = []
     then ''no pools are instantiated yet '' @ em_dash @ '' pg_doorman creates one on the first client connection'' @ nl
     else pools_row ''pool'' ''user'' ''paused'' ''waiting'' ''active'' ''idle'' @
       concat (map (\<lambda>p. pools_row (Admin.pl_database p) (Admin.pl_user p) (show_bool (Admin.pl_paused p))
         (show_nat (unat (Admin.pl_clients_waiting p))) (show_nat (unat (Admin.pl_servers_active p)))
         (show_nat (unat (Admin.pl_servers_idle p)))) ps))"

definition pooler_action_text :: "string \<Rightarrow> string \<Rightarrow> string \<Rightarrow> string" where
  "pooler_action_text p c action = action @ '' pools for cluster '' @ quoted c @ '' on pooler '' @ quoted p @ nl"

definition pooler_deleted_text :: "string \<Rightarrow> string" where
  "pooler_deleted_text p = ''pooler '' @ quoted p @ '' deleted'' @ nl @ nl @
     ''Nothing durable was destroyed: a pooler has no volume and re-renders its config on every start.'' @ nl"

definition exec_text :: "exec_output \<Rightarrow> string" where "exec_text r = eo_stdout r @ eo_stderr r"

definition volume_text :: "string \<Rightarrow> string \<Rightarrow> string" where
  "volume_text v mountpoint = ''volume:     '' @ v @ nl @ ''mountpoint: '' @ mountpoint @ nl @ nl @
     ''PGDATA lives inside podman'' @ [CHR 0x27] @ ''s user namespace, so it is not readable'' @ nl @
     ''directly. To look at it:'' @ nl @ nl @ ''  podman unshare ls -la '' @ mountpoint @ ''/pgdata'' @ nl @ nl @
     ''Backups are the supported way to get data out '' @ em_dash @ '' never copy a live'' @ nl @
     ''PGDATA out from under a running postgres.'' @ nl"

definition upgrade_text :: "upgrade_report \<Rightarrow> string" where
  "upgrade_text r =
     (if up_checked_only r
      then ''cluster '' @ quoted (up_cluster r) @ '' can be upgraded '' @ up_from_version r @ '' -> '' @ up_to_version r @ '' ('' @
        up_method r @ '' mode)'' @ nl @ nl @ ''  nothing was changed: this was `--check`'' @ nl
      else ''cluster '' @ quoted (up_cluster r) @ '' upgraded PostgreSQL '' @ up_from_version r @ '' -> '' @ up_to_version r @ nl @ nl @
        ''  image:        '' @ up_from_image r @ '' -> '' @ up_to_image r @ nl @ ''  method:       '' @ up_method r @ nl) @
     ''  pg_upgrade:   '' @ show_nat (unat (up_upgrade_seconds r)) @ ''s'' @ nl @
     ''  clients held: '' @ show_nat (up_held_ms r) @ '' ms by '' @ show_nat (up_poolers_held r) @ '' pooler(s)'' @ nl @
     ''  staged:       '' @ show_nat (unat (up_staged_bytes r) div (1024 * 1024)) @ '' MiB'' @ nl @
     (if up_poolers_held r = 0 \<and> \<not> up_checked_only r
      then ''                (no pooler: open connections were dropped)'' @ nl else []) @
     (if up_old_data_dir r = [] then []
      else ''  old cluster:  '' @ up_old_data_dir r @ '' (kept, inside the instance volume)'' @ nl) @
     (if up_checked_only r then []
      else ''  statistics:   '' @ (if up_analyzed r then ''rebuilt with vacuumdb --analyze-in-stages'' else ''NOT rebuilt'') @ nl @
        (case up_backup_label r of Some l \<Rightarrow> ''  new backup:   '' @ l @ nl | None \<Rightarrow> ''  new backup:   none'' @ nl)) @
     concat (map (\<lambda>x. nl @ ''! '' @ x @ nl) (up_warnings r)) @
     (if up_checked_only r then [] else connect_hint (up_cluster r))"

text \<open>An action is written without regard to the width it is given.\<close>

definition unit_line :: "unit_resume \<Rightarrow> string" where
  "unit_line u = ''  '' @ pad 12 (ur_name u) @ '' '' @ resume_action_as_str (ur_action u) @
     (case ur_detail u of Some d \<Rightarrow> '' '' @ d | None \<Rightarrow> []) @ nl"

definition resume_text :: "resume_report \<Rightarrow> string" where
  "resume_text r = (if rr_clusters r = [] \<and> rr_poolers r = []
     then ''nothing to resume '' @ em_dash @ '' no clusters or poolers are known to pgpod'' @ nl
     else (if rr_dry_run r then ''dry run '' @ em_dash @ '' nothing was started, stopped or recorded'' @ nl @ nl else []) @
       concat (map (\<lambda>c. ''cluster '' @ rc_cluster c @ '' ('' @ rc_phase c @ '')'' @ nl @
         (case rc_skipped c of Some why \<Rightarrow> ''  skipped: '' @ why @ nl | None \<Rightarrow> []) @
         concat (map unit_line (rc_instances c))) (rr_clusters r)) @
       (if rr_poolers r = [] then [] else ''poolers'' @ nl @ concat (map unit_line (rr_poolers r))) @
       nl @ show_counts (report_counts r) @ nl @
       (if report_needs_attention r
        then nl @ ''Something needs attention above. Nothing was created or destroyed '' @ em_dash @
          '' boot recovery only starts what was already there.'' @ nl else []) @
       (if rr_dry_run r \<and> 0 < ct_would_start (report_counts r)
        then nl @ ''Run `pgpod daemon --once` to act on this, on a host where no daemon is running.'' @ nl else []))"

end
