(* ===== verification/Cli.thy ===== *)
theory Cli
  imports Commands
begin

text \<open>
  The commands of \<^verbatim>\<open>pgpod-cli/src/main.rs\<close> and \<^verbatim>\<open>commands.rs\<close>: what each of them runs, with the errors of every step, and the exit code.  The run of a
  command starts with its arguments parsed and ends with its output; the long-running daemon ends with its shutdown.
\<close>

section \<open>What a command finds on the host\<close>

text \<open>The control plane and the store behind it, whether they can be opened, the manifest file, the parsers of YAML, of
  times and of the pooler's answer, dates as text, the user, the lock of the daemon and the facts \<^verbatim>\<open>doctor\<close> asks for.\<close>

record 'p cli =
  ci_control :: "'p control"
  ci_tools :: backup_tools
  ci_open :: "control_error + unit"
  ci_read :: "string \<Rightarrow> string + string"
  ci_yaml :: yaml_reader
  ci_instant :: "string \<Rightarrow> string + int"
  ci_day :: "int \<Rightarrow> string"
  ci_now :: int
  ci_answer :: "string \<Rightarrow> string + pool_answer"
  ci_uid :: "32 word"
  ci_lock :: "string + unit"
  ci_layout :: path_layout
  ci_facts :: host_facts

text \<open>An error with its causes, the outermost first.\<close>

type_synonym ('p, 'a) cmd = "('p, string list, 'a) act"

definition ctl :: "('p, 'a) ctl \<Rightarrow> ('p, 'a) cmd" where "ctl m = act_err (\<lambda>e. [show_control_error e]) m"

definition named :: "parse_instance_id_error + 'a \<Rightarrow> ('p, 'a) cmd" where
  "named r = of_result (map_err (\<lambda>e. [show_id_error e]) r)"

definition opened :: "'p cli \<Rightarrow> ('p, unit) cmd" where "opened ci = ctl (of_result (ci_open ci))"

section \<open>Commands\<close>

datatype cli_command = CDoctor | CDaemon bool bool | CApply string nat bool | CPoolerList | CPoolerPools string
  | CPoolerPause string string | CPoolerResume string string | CPoolerDelete string | CStatus "string option"
  | CExec string "string list" | CLogs string | CVolumePath string | CBackup string nat | CBackups string
  | CRestore string string "string option" "string option" nat | CFork string string "string option" "string option" nat
  | CUpgrade string upgrade_options | CDelete string bool

datatype outcome = Diagnosed "check list" | Resumed resume_report | Stopped | Applied apply_report
  | AppliedPooler pooler_report | Poolers "pooler_summary list" | Pools "pool_row list" | PoolerDone string string string
  | PoolerGone string | One cluster_status | Many "cluster_status list" | Executed exec_output | Logged string string
  | VolumeAt string string string | BackedUp backup_report | BackupsOf string "backup_summary list"
  | Restored restore_report | Upgraded upgrade_report | Deleted delete_report

definition cli_daemon :: "'p cli \<Rightarrow> bool \<Rightarrow> bool \<Rightarrow> ('p, outcome) cmd" where
  "cli_daemon ci once dry =
     (let cn = ci_control ci in
      if ci_uid ci = 0
      then fail [''pgpod daemon must not run as root. It manages rootless podman containers owned by an unprivileged '' @
        ''user, and as root it would read a different graph root entirely '' @ em_dash @
        '' reporting an empty host rather than the clusters you are looking for.'' @ nl @ nl @
        ''Install it as a user unit instead: ops/install-pgpod.sh'']
      else seq (if dry then ret () else of_result (map_err (\<lambda>e. [''could not take the daemon lock'', e]) (ci_lock ci))) (\<lambda>_.
        seq (opened ci) (\<lambda>_.
        seq (ctl (resume_with (cn_host cn) (cn_clusters cn) (cn_poolers cn)
          \<lparr> ro_wait = default_resume_wait, ro_dry_run = dry \<rparr>)) (\<lambda>r.
        ret (if once \<or> dry then Resumed r else Stopped)))))"

definition cli_apply :: "'p cli \<Rightarrow> string \<Rightarrow> nat \<Rightarrow> bool \<Rightarrow> ('p, outcome) cmd" where
  "cli_apply ci path secs recreate =
     seq (of_result (map_err (\<lambda>e. [''could not read manifest '' @ path, e]) (ci_read ci path))) (\<lambda>yaml.
     seq (of_result (map_err (\<lambda>e. [path @ '' is not a valid pgpod manifest'', show_manifest_error e])
       (any_manifest_from_yaml (ci_yaml ci) yaml))) (\<lambda>m.
     seq (opened ci) (\<lambda>_.
     case m of
       ManifestCluster c \<Rightarrow> seq (ctl (apply_with (ci_control ci) c \<lparr> ao_wait = 1000 * secs, ao_recreate = recreate \<rparr>)) (\<lambda>r.
         ret (Applied r))
     | ManifestPooler p \<Rightarrow>
         if recreate
         then fail [''--recreate applies to clusters, not poolers. Replacing a pooler drops every connection through it, '' @
           ''because there is nothing in front of the pooler to hold them: `pgpod pooler delete '' @ pm_name p @
           ''` then apply again.'']
         else seq (ctl (apply_pooler (ci_control ci) p (1000 * secs))) (\<lambda>r. ret (AppliedPooler r)))))"

definition cli_status :: "'p cli \<Rightarrow> string option \<Rightarrow> ('p, outcome) cmd" where
  "cli_status ci name = seq (opened ci) (\<lambda>_. case name of
      Some n \<Rightarrow> seq (named (cluster_id_new n)) (\<lambda>c. seq (ctl (collect_status (ci_control ci) c)) (\<lambda>s. ret (One s)))
    | None \<Rightarrow> seq (ctl (list_status (ci_control ci))) (\<lambda>ss. ret (Many ss)))"

definition cli_backup :: "'p cli \<Rightarrow> string \<Rightarrow> nat \<Rightarrow> ('p, outcome) cmd" where
  "cli_backup ci n secs = seq (named (cluster_id_new n)) (\<lambda>c. seq (opened ci) (\<lambda>_.
     seq (ctl (backup (ci_control ci) (ci_tools ci) c (1000 * secs))) (\<lambda>r. ret (BackedUp r))))"

definition cli_backups :: "'p cli \<Rightarrow> string \<Rightarrow> ('p, outcome) cmd" where
  "cli_backups ci n = seq (named (cluster_id_new n)) (\<lambda>c. seq (opened ci) (\<lambda>_.
     seq (ctl (backups (ci_control ci) (ci_tools ci) c)) (\<lambda>bs.
     ret (BackupsOf n (map (backup_summary_of (ci_day ci) (bt_representable (ci_tools ci)) (ci_now ci)) bs)))))"

definition cli_restore :: "'p cli \<Rightarrow> string \<Rightarrow> string \<Rightarrow> string option \<Rightarrow> string option \<Rightarrow> nat \<Rightarrow> ('p, outcome) cmd" where
  "cli_restore ci source target at img secs =
     seq (named (cluster_id_new source)) (\<lambda>s. seq (named (cluster_id_new target)) (\<lambda>t.
     seq (case at of None \<Rightarrow> ret None
       | Some raw \<Rightarrow> of_result (map_sum (\<lambda>e. [debug_str raw @ '' is not an RFC 3339 timestamp '' @ em_dash @
           '' try 2026-09-04T10:00:00Z'', e]) Some (ci_instant ci raw))) (\<lambda>at.
     seq (opened ci) (\<lambda>_.
     seq (ctl (restore (ci_control ci) (ci_tools ci) s t at img (1000 * secs))) (\<lambda>r. ret (Restored r))))))"

definition cli_upgrade :: "'p cli \<Rightarrow> string \<Rightarrow> upgrade_options \<Rightarrow> ('p, outcome) cmd" where
  "cli_upgrade ci n opts = seq (named (cluster_id_new n)) (\<lambda>c. seq (opened ci) (\<lambda>_.
     seq (ctl (upgrade (ci_control ci) (ci_tools ci) c opts)) (\<lambda>r. ret (Upgraded r))))"

definition cli_delete :: "'p cli \<Rightarrow> string \<Rightarrow> bool \<Rightarrow> ('p, outcome) cmd" where
  "cli_delete ci n purge = seq (opened ci) (\<lambda>_. seq (named (cluster_id_new n)) (\<lambda>c.
     seq (ctl (delete (ci_control ci) c purge)) (\<lambda>r. ret (Deleted r))))"

definition cli_pooler_list :: "'p cli \<Rightarrow> ('p, outcome) cmd" where
  "cli_pooler_list ci = seq (opened ci) (\<lambda>_. seq (ctl (look (list_poolers (cn_poolers (ci_control ci))))) (\<lambda>recs.
     ret (Poolers (map pooler_summary_of recs))))"

definition pooler_pools :: "'p cli \<Rightarrow> pooler_id \<Rightarrow> ('p, pool_row list) ctl" where
  "pooler_pools ci p =
     seq (pooler_control (cn_host (ci_control ci)) p ''pools'' []) (\<lambda>raw.
     seq (of_result (map_err (\<lambda>e. EInvalid (''the pooler agent sent unreadable JSON: '' @ e)) (ci_answer ci (trim raw)))) (\<lambda>a.
     of_result (map_err (\<lambda>e. EInvalid (case e of Protocol m \<Rightarrow> ''the pooler spoke something other than the postgres protocol: '' @ m)) (into_pools a))))"

definition cli_pooler_pools :: "'p cli \<Rightarrow> string \<Rightarrow> ('p, outcome) cmd" where
  "cli_pooler_pools ci n = seq (opened ci) (\<lambda>_. seq (named (pooler_id_new n)) (\<lambda>p.
     seq (ctl (pooler_pools ci p)) (\<lambda>ps. ret (Pools ps))))"

definition cli_pooler_pause :: "'p cli \<Rightarrow> string \<Rightarrow> string \<Rightarrow> ('p, outcome) cmd" where
  "cli_pooler_pause ci n c = seq (opened ci) (\<lambda>_. seq (named (pooler_id_new n)) (\<lambda>p. seq (named (cluster_id_new c)) (\<lambda>cl.
     seq (ctl (pooler_pause (cn_host (ci_control ci)) p cl)) (\<lambda>_. ret (PoolerDone n c ''paused'')))))"

definition cli_pooler_resume :: "'p cli \<Rightarrow> string \<Rightarrow> string \<Rightarrow> ('p, outcome) cmd" where
  "cli_pooler_resume ci n c = seq (opened ci) (\<lambda>_. seq (named (pooler_id_new n)) (\<lambda>p. seq (named (cluster_id_new c)) (\<lambda>cl.
     seq (ctl (pooler_resume (cn_host (ci_control ci)) p cl)) (\<lambda>_. ret (PoolerDone n c ''resumed'')))))"

definition cli_pooler_delete :: "'p cli \<Rightarrow> string \<Rightarrow> ('p, outcome) cmd" where
  "cli_pooler_delete ci n = seq (opened ci) (\<lambda>_. seq (named (pooler_id_new n)) (\<lambda>p.
     seq (ctl (remove_pooler (ci_control ci) p)) (\<lambda>_. ret (PoolerGone n))))"

definition cli_exec :: "'p cli \<Rightarrow> string \<Rightarrow> string list \<Rightarrow> ('p, outcome) cmd" where
  "cli_exec ci inst argv =
     (if argv = [] then fail [''nothing to run '' @ em_dash @ '' try: pgpod exec '' @ inst @ '' -- psql -U postgres'']
      else seq (opened ci) (\<lambda>_. seq (named (instance_id_from_str inst)) (\<lambda>i.
        let h = cn_host (ci_control ci) in
        seq (ctl (running_container h i)) (\<lambda>c. seq (ctl (pod (exec h c argv))) (\<lambda>out. ret (Executed out))))))"

definition cli_logs :: "'p cli \<Rightarrow> string \<Rightarrow> ('p, outcome) cmd" where
  "cli_logs ci inst = seq (opened ci) (\<lambda>_. seq (named (instance_id_from_str inst)) (\<lambda>i.
     seq (ctl (pod (logs_string (cn_host (ci_control ci)) (container_name i)))) (\<lambda>out.
     ret (Logged (instance_id_display i) out))))"

definition cli_volume_path :: "'p cli \<Rightarrow> string \<Rightarrow> ('p, outcome) cmd" where
  "cli_volume_path ci inst = seq (opened ci) (\<lambda>_. seq (named (instance_id_from_str inst)) (\<lambda>i.
     seq (ctl (pod (find_volume (cn_host (ci_control ci)) (volume_name i)))) (\<lambda>v. case v of
       Some x \<Rightarrow> ret (VolumeAt (instance_id_display i) (vi_name x) (vi_mountpoint x))
     | None \<Rightarrow> fail [''no volume '' @ volume_name i @ '' '' @ em_dash @ '' has '' @ instance_id_display i @ '' been created?''])))"

text \<open>The command \<^verbatim>\<open>psql\<close> replaces the process by this one.\<close>

definition psql_argv :: "string \<Rightarrow> string \<Rightarrow> string option \<Rightarrow> parse_instance_id_error + string list" where
  "psql_argv socket n database = and_then (cluster_id_new n) (\<lambda>c.
     Inr ([''podman'', ''--url'', ''unix://'' @ socket, ''exec'', ''-it'', container_name (mk_instance c 1),
       ''psql'', ''-h'', socket_dir, ''-U'', ''postgres'', ''-d'', or_else database ''postgres'']))"

fun run_command :: "'p cli \<Rightarrow> cli_command \<Rightarrow> ('p, outcome) cmd" where
  "run_command ci CDoctor = ret (Diagnosed (doctor_run (cn_clusters (ci_control ci)) (cn_poolers (ci_control ci)) (ci_layout ci) (ci_facts ci)))"
| "run_command ci (CDaemon once dry) = cli_daemon ci once dry"
| "run_command ci (CApply path secs recreate) = cli_apply ci path secs recreate"
| "run_command ci CPoolerList = cli_pooler_list ci"
| "run_command ci (CPoolerPools n) = cli_pooler_pools ci n"
| "run_command ci (CPoolerPause n c) = cli_pooler_pause ci n c"
| "run_command ci (CPoolerResume n c) = cli_pooler_resume ci n c"
| "run_command ci (CPoolerDelete n) = cli_pooler_delete ci n"
| "run_command ci (CStatus n) = cli_status ci n"
| "run_command ci (CExec inst argv) = cli_exec ci inst argv"
| "run_command ci (CLogs inst) = cli_logs ci inst"
| "run_command ci (CVolumePath inst) = cli_volume_path ci inst"
| "run_command ci (CBackup n secs) = cli_backup ci n secs"
| "run_command ci (CBackups n) = cli_backups ci n"
| "run_command ci (CRestore s t at img secs) = cli_restore ci s t at img secs"
| "run_command ci (CFork s t at img secs) = cli_restore ci s t at img secs"
| "run_command ci (CUpgrade n opts) = cli_upgrade ci n opts"
| "run_command ci (CDelete n purge) = cli_delete ci n purge"

fun outcome_text :: "outcome \<Rightarrow> string" where
  "outcome_text (Diagnosed cs) = report_text cs"
| "outcome_text (Resumed r) = resume_text r"
| "outcome_text Stopped = []"
| "outcome_text (Applied r) = apply_text r"
| "outcome_text (AppliedPooler r) = pooler_text r"
| "outcome_text (Poolers ps) = poolers_text ps"
| "outcome_text (Pools ps) = pools_text ps"
| "outcome_text (PoolerDone p c action) = pooler_action_text p c action"
| "outcome_text (PoolerGone p) = pooler_deleted_text p"
| "outcome_text (One s) = status_text s"
| "outcome_text (Many ss) = list_text ss"
| "outcome_text (Executed r) = exec_text r"
| "outcome_text (Logged i s) = s"
| "outcome_text (VolumeAt i v p) = volume_text v p"
| "outcome_text (BackedUp r) = backup_text r"
| "outcome_text (BackupsOf c bs) = backups_text c bs"
| "outcome_text (Restored r) = restore_text r"
| "outcome_text (Upgraded r) = upgrade_text r"
| "outcome_text (Deleted r) = delete_text r"

text \<open>A daemon that was stopped prints nothing.  JSON is what serde makes of the report, or a document that says that it could not; an error is printed by the
  runtime and makes the exit code 1.\<close>

datatype output_format = FormatText | FormatJson

definition rendered :: "(outcome \<Rightarrow> string + string) \<Rightarrow> output_format \<Rightarrow> outcome \<Rightarrow> string" where
  "rendered json fmt r = (if r = Stopped then [] else case fmt of FormatText \<Rightarrow> outcome_text r
    | FormatJson \<Rightarrow> (case json r of Inr s \<Rightarrow> s
      | Inl e \<Rightarrow> ''{'' @ debug_str ''error'' @ '':'' @ [CHR 0x22] @ ''failed to serialize output: '' @ e @ [CHR 0x22] @ ''}''))"

fun exit_status :: "string list + outcome \<Rightarrow> int" where
  "exit_status (Inl _) = 1"
| "exit_status (Inr (Diagnosed cs)) = exit_code cs"
| "exit_status (Inr (Executed out)) = (case eo_exit_code out of Some c \<Rightarrow> c | None \<Rightarrow> 1)"
| "exit_status (Inr _) = 0"

section \<open>What the commands do to the world\<close>

lemma ctl_within [within_intros]: "obeys (within A S) m \<Longrightarrow> obeys (within A S) (ctl m)"
  unfolding ctl_def by (intro within_intros)

lemma named_within [within_intros]: "obeys (within A S) (named r)"
  unfolding named_def by (intro within_intros)

lemma opened_within [within_intros]: "obeys (within A S) (opened ci)"
  unfolding opened_def by (intro within_intros)

text \<open>Requests that spare every volume, and writes that keep the constraints of the store.\<close>

fun spares_volumes :: "call \<Rightarrow> bool" where
  "spares_volumes (CallVolumeDelete v) = False"
| "spares_volumes CallVolumePrune = False"
| "spares_volumes _ = True"

definition keeps_ok :: "registry \<Rightarrow> registry \<Rightarrow> bool" where "keeps_ok db db' \<longleftrightarrow> (reg_ok db \<longrightarrow> reg_ok db')"

lemma keeps_ok_star: "keeps_ok\<^sup>*\<^sup>* db db' \<Longrightarrow> reg_ok db \<Longrightarrow> reg_ok db'"
  by (induction rule: rtranclp_induct) (auto simp: keeps_ok_def)

lemma write_keeps_ok: "reg_write mc pc db db' \<Longrightarrow> keeps_ok db db'"
  by (simp add: keeps_ok_def reg_write_ok)

lemma cluster_write_keeps_ok: "cluster_write mc c db db' \<Longrightarrow> keeps_ok db db'"
  by (rule write_keeps_ok [OF cluster_write_is_write])

lemma put_cluster_keeps_ok: "put_cluster mc now m ph db = Inr (db', g) \<Longrightarrow> keeps_ok db db'"
  by (rule write_keeps_ok [OF reg_write.intros(1)])

lemma event_keeps_ok: "keeps_ok db (record_event now c n l msg db)"
  by (rule write_keeps_ok) (rule reg_write.intros)

lemma touches_keeps_ok: "touches_only n db db' \<Longrightarrow> keeps_ok db db'"
  by (simp add: touches_only_def keeps_ok_def)

lemma apply_call_spares: "apply_call rec c x \<Longrightarrow> spares_volumes x"
  by (cases x) auto

lemma job_call_spares: "job_call x \<Longrightarrow> spares_volumes x"
  by (cases x) auto

lemma upgrade_call_spares: "upgrade_call c x \<Longrightarrow> spares_volumes x"
  by (cases x) auto

lemma prepares_spares: "prepares x \<Longrightarrow> spares_volumes x"
  by (cases x) auto

text \<open>Every operation, over requests that spare the volumes.\<close>

abbreviation sparing :: "('p, 'e, 'a) act \<Rightarrow> bool" where "sparing \<equiv> obeys (within spares_volumes keeps_ok)"

lemma apply_to_spares: "sparing (apply_to cn m c b opts)"
  by (rule apply_to_within) (auto intro: apply_call_spares cluster_write_keeps_ok put_cluster_keeps_ok)

lemma apply_bootstrap_spares: "sparing (apply_with_bootstrap cn m b opts)"
  unfolding apply_with_bootstrap_def by (intro within_intros apply_to_spares)

lemma restore_spares: "sparing (restore cn bt s t at img wait)"
  unfolding restore_def restore_into_def Let_def
  by (intro within_intros apply_bootstrap_spares) (auto intro: job_call_spares)

lemma backup_spares: "sparing (backup cn bt c wait)"
  by (intro within_intros) (auto intro: job_call_spares event_keeps_ok)

lemma upgrade_spares: "sparing (upgrade cn bt c opts)"
  unfolding upgrade_def
  by (intro within_intros upgrade_prepare_within [of c] upgrade_window_within [of c])
    (auto intro: upgrade_call_spares prepare_upgrade_call event_keeps_ok put_cluster_keeps_ok
      write_keeps_ok [OF reg_write.intros(2)] cluster_write_keeps_ok [OF cluster_writes(1)])

lemma status_spares: "obeys (within spares_volumes (=)) (collect_status cn c)" "obeys (within spares_volumes (=)) (list_status cn)"
proof -
  have spares: "status_call x \<Longrightarrow> spares_volumes x" for x by (cases x) auto
  show "obeys (within spares_volumes (=)) (collect_status cn c)" "obeys (within spares_volumes (=)) (list_status cn)"
    using collect_status_within list_status_within unfolding obeys_def by (blast intro: within_mono spares)+
qed

lemma resume_spares:
  assumes "\<And>n db db'. \<not> ro_dry_run opts \<Longrightarrow> touches_only n db db' \<Longrightarrow> S db db'"
  shows "obeys (within spares_volumes S) (resume_with h cm pm opts)"
  unfolding resume_with_def by (intro within_intros within.each resume_cluster_obeys) (auto intro: assms)

lemma remove_pooler_spares: "sparing (remove_pooler cn p)"
  unfolding remove_pooler_def Let_def
  by (intro within_intros within.each) (auto intro: event_keeps_ok write_keeps_ok [OF reg_write.intros(7)])

lemma converge_pooler_spares: "sparing (converge_pooler cn m p spec rows port created wait found)"
  unfolding converge_pooler_def record_pooler_def settle_pooler_def Let_def
  by (intro within_intros within.each)
    (auto intro: event_keeps_ok write_keeps_ok [OF reg_write.intros(5)] elim: asks.elims)

lemma apply_pooler_spares: "sparing (apply_pooler cn m wait)"
  unfolding apply_pooler_def Let_def
  by (intro within_intros within.each converge_pooler_spares) (auto intro: prepares_spares)

lemma delete_spares: "obeys (within (\<lambda>x. purge \<or> spares_volumes x) keeps_ok) (delete cn c purge)"
  unfolding delete_def removing_def delete_cluster_rows_def park_rows_def Let_def
  by (intro within_intros within.each)
    (auto intro: event_keeps_ok write_keeps_ok [OF reg_write.intros(3)] write_keeps_ok [OF reg_write.intros(4)]
      write_keeps_ok [OF reg_write.intros(2)])

text \<open>The commands that only look.\<close>

fun looks_only :: "cli_command \<Rightarrow> bool" where
  "looks_only CDoctor = True"
| "looks_only (CDaemon once dry) = dry"
| "looks_only CPoolerList = True"
| "looks_only (CPoolerPools n) = True"
| "looks_only (CPoolerPause n c) = True"
| "looks_only (CPoolerResume n c) = True"
| "looks_only (CStatus n) = True"
| "looks_only (CExec inst argv) = True"
| "looks_only (CLogs inst) = True"
| "looks_only (CVolumePath inst) = True"
| "looks_only (CBackups n) = True"
| "looks_only _ = False"

lemma looks_only_within: "looks_only cmd \<Longrightarrow> obeys (within spares_volumes (=)) (run_command ci cmd)"
proof (cases cmd)
  case CDoctor
  then show ?thesis by (auto intro!: within_intros)
next
  case (CDaemon once dry)
  assume "looks_only cmd"
  then show ?thesis unfolding CDaemon run_command.simps cli_daemon_def Let_def
    by (intro within_intros resume_spares) simp_all
next
  case (CBackups n)
  then show ?thesis unfolding CBackups run_command.simps cli_backups_def by (intro within_intros) (auto intro: job_call_spares)
next
  case (CStatus n)
  then show ?thesis unfolding CStatus run_command.simps cli_status_def by (intro within_intros status_spares)
next
  case CPoolerList
  then show ?thesis unfolding CPoolerList run_command.simps cli_pooler_list_def by (intro within_intros)
next
  case (CPoolerPools n)
  then show ?thesis unfolding CPoolerPools run_command.simps cli_pooler_pools_def pooler_pools_def
    by (intro within_intros) simp_all
next
  case (CPoolerPause n c)
  then show ?thesis unfolding CPoolerPause run_command.simps cli_pooler_pause_def by (intro within_intros) simp_all
next
  case (CPoolerResume n c)
  then show ?thesis unfolding CPoolerResume run_command.simps cli_pooler_resume_def by (intro within_intros) simp_all
next
  case (CExec inst argv)
  then show ?thesis unfolding CExec run_command.simps cli_exec_def Let_def by (intro within_intros) simp_all
next
  case (CLogs inst)
  then show ?thesis unfolding CLogs run_command.simps cli_logs_def by (intro within_intros) simp_all
next
  case (CVolumePath inst)
  then show ?thesis unfolding CVolumePath run_command.simps cli_volume_path_def by (intro within_intros) simp_all
qed simp_all

definition purges :: "cli_command \<Rightarrow> bool" where
  "purges cmd \<longleftrightarrow> (\<exists>n. cmd = CDelete n True)"

lemma keeps_ok_refl: "keeps_ok db db" by (simp add: keeps_ok_def)

lemma case_manifest: "(\<And>c. obeys R (f c)) \<Longrightarrow> (\<And>p. obeys R (g p)) \<Longrightarrow>
    obeys R (case m of ManifestCluster c \<Rightarrow> f c | ManifestPooler p \<Rightarrow> g p)"
  by (cases m) simp_all

lemma command_within: "obeys (within (\<lambda>x. purges cmd \<or> spares_volumes x) keeps_ok) (run_command ci cmd)"
proof (cases "looks_only cmd")
  case True
  show ?thesis
    using looks_only_within [OF True, of ci] unfolding obeys_def by (blast intro: within_mono keeps_ok_refl)
next
  case False
  have weaken: "sparing m \<Longrightarrow> obeys (within (\<lambda>x. b \<or> spares_volumes x) keeps_ok) m" for b and m :: "('a, 'e, 'b) act"
    unfolding obeys_def by (blast intro: within_mono)
  show ?thesis
  proof (cases cmd)
    case (CDaemon once dry)
    show ?thesis unfolding CDaemon run_command.simps cli_daemon_def Let_def
      by (intro weaken within_intros resume_spares) (auto intro: touches_keeps_ok)
  next
    case (CApply path secs recreate)
    show ?thesis unfolding CApply run_command.simps cli_apply_def apply_with_def
      by (intro weaken within_intros case_manifest apply_bootstrap_spares apply_pooler_spares)
  next
    case (CBackup n secs)
    show ?thesis unfolding CBackup run_command.simps cli_backup_def by (intro weaken within_intros backup_spares)
  next
    case (CRestore s t at img secs)
    show ?thesis unfolding CRestore run_command.simps cli_restore_def by (intro weaken within_intros restore_spares)
  next
    case (CFork s t at img secs)
    show ?thesis unfolding CFork run_command.simps cli_restore_def by (intro weaken within_intros restore_spares)
  next
    case (CUpgrade n opts)
    show ?thesis unfolding CUpgrade run_command.simps cli_upgrade_def by (intro weaken within_intros upgrade_spares)
  next
    case (CPoolerDelete n)
    show ?thesis unfolding CPoolerDelete run_command.simps cli_pooler_delete_def
      by (intro weaken within_intros remove_pooler_spares)
  next
    case (CDelete n purge)
    have "purges cmd \<longleftrightarrow> purge" by (simp add: CDelete purges_def)
    then show ?thesis unfolding CDelete run_command.simps cli_delete_def
      by (intro within_intros) (simp add: CDelete delete_spares)
  qed (use False in simp_all)
qed

lemma delete_asks:
  assumes "delete cn c purge w = (r, w')" "asked_for x w w'"
  shows "\<exists>rows ps. instances (wd_db w) c = Inr rows \<and> poolers_for_cluster (cn_poolers cn) (wd_db w) c = Inr ps \<and>
    (purge \<longrightarrow> ps = []) \<and> delete_call purge c rows x"
  using assms(1)
proof (rule delete_checks)
  fix e assume "w' = w"
  then show ?thesis using assms(2) by (simp add: asked_for_def)
next
  fix rec :: "cluster_manifest cluster_record" and rows ps
  assume *: "instances (wd_db w) c = Inr rows" "poolers_for_cluster (cn_poolers cn) (wd_db w) c = Inr ps"
    "\<not> (purge \<and> ps \<noteq> [])" "removing cn c purge rec rows (map po_name ps) w = (r, w')"
  have "obeys (within (delete_call purge c rows) (\<lambda>_ _. True)) (removing cn c purge rec rows (map po_name ps))"
    unfolding removing_def delete_cluster_rows_def park_rows_def Let_def
    by (intro within_intros within.each) (auto simp: cluster_secrets_def)
  from asked_within [OF obeysD [OF this *(4)] assms(2)] * show ?thesis by blast
qed

lemma cli_delete_run:
  assumes "cli_delete ci n purge w = (r, w')"
  shows "w' = w \<or> (\<exists>c r'. cluster_id_new n = Inr c \<and> delete (ci_control ci) c purge w = (r', w'))"
  using assms
  by (auto simp: cli_delete_def seq_def opened_def named_def ctl_def act_err_def of_result_def ret_def
    split: prod.splits sum.splits)

text \<open>Commands one after the other, each as the host is when it starts.\<close>

fun session :: "('p cli \<times> cli_command) list \<Rightarrow> 'p world \<Rightarrow> 'p world" where
  "session [] w = w"
| "session ((ci, cmd) # rest) w = session rest (snd (run_command ci cmd w))"

text \<open>A purge of a cluster whose rows are there asks for its volumes, once its containers are gone.\<close>

lemma purge_asks:
  assumes "instances (wd_db w) c = Inr (row # rows)" "require_cluster (cn_clusters cn) (wd_db w) c = Inr rec"
    "poolers_for_cluster (cn_poolers cn) (wd_db w) c = Inr []"
    "is_ok (fst (each (remove_instance_container (cn_host cn)) (row # rows) w :: (control_error + string option list) \<times> 'p world))"
  shows "asked_for (CallVolumeDelete (in_volume_name row)) w (snd (delete cn c True w))"
proof -
  let ?h = "cn_host cn"
  obtain removed u where 1: "each (remove_instance_container ?h) (row # rows) w = (Inr removed, u)"
    using assms(4) by (cases "each (remove_instance_container ?h) (row # rows) w") (auto simp: is_ok_iff)
  have first: "asked_for (CallVolumeDelete (in_volume_name row)) u (snd (destroy_volume ?h row u))"
    unfolding destroy_volume_def remove_volume_destroying_data_def pod_def request_def
    by (rule asked_seq) (auto simp: act_err_world perform_def asked_for_def split: prod.split intro!: within_intros)
  have both: "asked_for (CallVolumeDelete (in_volume_name row)) u (snd (each (destroy_volume ?h) (row # rows) u))"
    unfolding each.simps by (rule asked_seq, rule first) (intro within_intros within.each; simp)
  have "obeys moves (each (remove_instance_container ?h) (row # rows) :: ('p, control_error, string option list) act)"
    by (intro within_intros within.each; simp)
  then have "moves w u" by (rule obeysD) (rule 1)
  moreover have del: "delete cn c True w = removing cn c True rec (row # rows) [] w"
    using assms(1,2,3) by (simp add: delete_def Let_def look_run)
  have "asked_for (CallVolumeDelete (in_volume_name row)) u (snd (delete cn c True w))"
    unfolding del removing_def Let_def seq_run [of "each (remove_instance_container ?h) (row # rows)" w, OF 1] simp_thms if_True
    by (rule asked_seq, rule both) (unfold forget_secrets_def delete_cluster_rows_def, intro within_intros within.each; simp)
  ultimately show ?thesis by (rule asked_later)
qed

end
