(* ===== verification/Http.thy ===== *)
theory Http
  imports Bytes
begin

text \<open>
  The reading of a response of the podman socket (\<^verbatim>\<open>pgpod-runtime/src/http.rs\<close>): the header, the
  status and the body, chunked or not.  The sockets themselves are not modelled.
\<close>

datatype http_error = Unreachable string

definition crlf :: string where "crlf = [CHR 0x0D, CHR 0x0A]"

lemma length_crlf [simp]: "length crlf = 2"
  by (simp add: crlf_def)

definition find_header_end :: "string \<Rightarrow> nat option" where
  "find_header_end raw = position_of (crlf @ crlf) raw"

text \<open>\<^verbatim>\<open>usize::from_str_radix(s, 16)\<close>.\<close>

definition hex_val :: "char \<Rightarrow> nat option" where
  "hex_val c = (if is_ascii_digit c then Some (byte c - 48)
     else if CHR ''a'' \<le> c \<and> c \<le> CHR ''f'' then Some (byte c - 87)
     else if CHR ''A'' \<le> c \<and> c \<le> CHR ''F'' then Some (byte c - 55)
     else None)"

fun hex_digits :: "nat \<Rightarrow> nat \<Rightarrow> string \<Rightarrow> nat option" where
  "hex_digits m acc [] = Some acc"
| "hex_digits m acc (c # s) = (case hex_val c of
     None \<Rightarrow> None | Some d \<Rightarrow> if 16 * acc + d \<le> m then hex_digits m (16 * acc + d) s else None)"

fun parse_hex :: "nat \<Rightarrow> string \<Rightarrow> nat option" where
  "parse_hex m [] = None"
| "parse_hex m (c # s) =
     (if c = CHR ''+'' then (if s = [] then None else hex_digits m 0 s) else hex_digits m 0 (c # s))"

definition chunk_size_text :: "string \<Rightarrow> string" where
  "chunk_size_text line = trim (hd (split_on (CHR '';'') (lossy line)))"

function decode_chunked :: "string \<Rightarrow> http_error + string" where
  "decode_chunked input =
     (case position_of crlf input of
        None \<Rightarrow> Inl (Unreachable ''truncated chunk header'')
      | Some line_end \<Rightarrow>
          (let size_hex = chunk_size_text (take line_end input); rest = drop (line_end + 2) input in
           case parse_hex u64_max size_hex of
             None \<Rightarrow> Inl (Unreachable (''bad chunk size '' @ debug_str size_hex))
           | Some count \<Rightarrow>
               if count = 0 then Inr []
               else if length rest < count then Inl (Unreachable ''truncated chunk body'')
               else and_then (decode_chunked (drop (count + 2) rest)) (\<lambda>out. Inr (take count rest @ out))))"
  by pat_completeness auto
termination
  by (relation "measure length") (auto dest!: position_of_fits simp: crlf_def)

declare decode_chunked.simps [simp del]

definition words :: "string \<Rightarrow> string list" where
  "words s = filter (\<lambda>x. x \<noteq> []) (split_on (CHR '' '') (map (\<lambda>c. if is_space c then CHR '' '' else c) s))"

definition status_of :: "string \<Rightarrow> nat option" where
  "status_of line = (case words line of a # s # _ \<Rightarrow> parse_uint u16_max s | _ \<Rightarrow> None)"

definition is_chunked :: "string list \<Rightarrow> bool" where
  "is_chunked headers \<longleftrightarrow> list_ex (\<lambda>l. let l = to_ascii_lowercase l in
     prefix ''transfer-encoding:'' l \<and> str_contains l ''chunked'') headers"

definition parse_response :: "string \<Rightarrow> http_error + nat \<times> string" where
  "parse_response raw =
     (case find_header_end raw of
        None \<Rightarrow> Inl (Unreachable ''malformed response: no header terminator'')
      | Some split \<Rightarrow>
          (let body = drop (split + 4) raw in
           case str_lines (lossy (take split raw)) of
             [] \<Rightarrow> Inl (Unreachable ''malformed response: no status line'')
           | status_line # headers \<Rightarrow>
               (case status_of status_line of
                  None \<Rightarrow> Inl (Unreachable (''malformed status line: '' @ debug_str status_line))
                | Some status \<Rightarrow>
                    and_then (if is_chunked headers then decode_chunked body else Inr body) (\<lambda>b.
                    Inr (status, lossy b)))))"

section \<open>Reading back what a server sends\<close>

definition chunk :: "string \<Rightarrow> string" where
  "chunk c = show_hex (length c) @ crlf @ c @ crlf"

definition plain_digit :: "char \<Rightarrow> bool" where
  "plain_digit c \<longleftrightarrow> c \<noteq> CHR 0x0D \<and> c \<noteq> CHR '';'' \<and> c \<noteq> CHR ''+'' \<and> \<not> is_space c \<and> byte c < 0x80"

lemma hex_digit: "n < 16 \<Longrightarrow> hex_val (''0123456789abcdef'' ! n) = Some n \<and> plain_digit (''0123456789abcdef'' ! n)"
proof -
  have "\<forall>n\<in>set [0..<16]. hex_val (''0123456789abcdef'' ! n) = Some n \<and> plain_digit (''0123456789abcdef'' ! n)"
    by code_simp
  then show "n < 16 \<Longrightarrow> ?thesis" by simp
qed

lemma hex_digits_append:
  "hex_digits m acc (a @ b) = (case hex_digits m acc a of None \<Rightarrow> None | Some x \<Rightarrow> hex_digits m x b)"
  by (induction a arbitrary: acc) (auto split: option.split)

lemma show_hex_chars: "c \<in> set (show_hex n) \<Longrightarrow> \<exists>d<16. c = ''0123456789abcdef'' ! d"
proof (induction n rule: show_hex.induct)
  case (1 n)
  have small: "\<exists>d<16. c = ''0123456789abcdef'' ! d" if "c = ''0123456789abcdef'' ! k" "k < 16" for k
    using that by blast
  show ?case
  proof (cases "n < 16")
    case True
    then show ?thesis using 1(2) small [of n] by (simp add: show_hex.simps [of n])
  next
    case False
    then have "c \<in> set (show_hex (n div 16)) \<or> c = ''0123456789abcdef'' ! (n mod 16)"
      using 1(2) by (auto simp: show_hex.simps [of n])
    then show ?thesis using 1(1) [OF False] small [of "n mod 16"] by auto
  qed
qed

lemma hex_digits_show: "n \<le> m \<Longrightarrow> hex_digits m 0 (show_hex n) = Some n"
proof (induction n rule: show_hex.induct)
  case (1 n)
  then show ?case using hex_digit [of n] hex_digit [of "n mod 16"]
    by (cases "n < 16") (simp_all add: show_hex.simps [of n] hex_digits_append)
qed

lemma show_hex_nonempty: "show_hex n \<noteq> []"
  by (simp add: show_hex.simps [of n])

lemma parse_hex_show: "n \<le> m \<Longrightarrow> parse_hex m (show_hex n) = Some n"
proof -
  assume n: "n \<le> m"
  obtain c s where cs: "show_hex n = c # s" by (cases "show_hex n") (simp_all add: show_hex_nonempty)
  then obtain d where "d < 16" "c = ''0123456789abcdef'' ! d" using show_hex_chars [of c n] by auto
  then have "c \<noteq> CHR ''+''" using hex_digit [of d] by (simp add: plain_digit_def)
  then show ?thesis using hex_digits_show [OF n] by (simp add: cs)
qed

lemma show_hex_plain: "chunk_size_text (show_hex n) = show_hex n" "CHR 0x0D \<notin> set (show_hex n)"
proof -
  have chars: "c \<noteq> CHR 0x0D \<and> c \<noteq> CHR '';'' \<and> \<not> is_space c \<and> byte c < 0x80" if "c \<in> set (show_hex n)" for c
    using show_hex_chars [OF that] hex_digit by (auto simp: plain_digit_def)
  then have "ascii (show_hex n)" "CHR '';'' \<notin> set (show_hex n)" by (auto simp: ascii_def)
  moreover have "trim (show_hex n) = show_hex n"
    by (rule trim_id) (use chars show_hex_nonempty in auto)
  ultimately show "chunk_size_text (show_hex n) = show_hex n"
    by (simp add: chunk_size_text_def lossy_ascii split_on_no_sep)
  show "CHR 0x0D \<notin> set (show_hex n)" using chars by blast
qed

lemma chunk_line:
  "position_of crlf (show_hex n @ crlf @ rest) = Some (length (show_hex n))"
  by (rule position_of_first) (simp_all add: crlf_def show_hex_plain)

lemma decode_chunk:
  assumes "c \<noteq> []" "length c \<le> u64_max"
  shows "decode_chunked (chunk c @ rest) = and_then (decode_chunked rest) (\<lambda>out. Inr (c @ out))"
  using assms chunk_line [of "length c" "c @ crlf @ rest"]
  by (subst decode_chunked.simps)
     (simp add: chunk_def show_hex_plain parse_hex_show crlf_def)


definition last_chunk :: string where "last_chunk = ''0'' @ crlf"

lemma decode_last: "decode_chunked (last_chunk @ trailer) = Inr []"
proof -
  have zero: "show_hex 0 = ''0''" by (simp add: show_hex.simps [of 0])
  show ?thesis
    using chunk_line [of 0 trailer] show_hex_plain(1) [of 0] parse_hex_show [of 0 u64_max]
    by (subst decode_chunked.simps) (simp add: last_chunk_def crlf_def zero)
qed

lemma no_line_yet: "CHR 0x0D \<notin> set a \<Longrightarrow> position_of crlf (take n (a @ [CHR 0x0D])) = None"
  by (induction a arbitrary: n) (auto simp: crlf_def take_Cons split: nat.split)

lemma decode_cut_line: "n < length (show_hex k) + 2 \<Longrightarrow> decode_chunked (take n (show_hex k @ crlf @ rest)) = Inl (Unreachable ''truncated chunk header'')"
proof -
  assume n: "n < length (show_hex k) + 2"
  then have "take n (show_hex k @ crlf @ rest) = take n (show_hex k @ [CHR 0x0D])"
    by (cases "n - length (show_hex k)") (auto simp: crlf_def take_Cons split: nat.split)
  then show ?thesis using no_line_yet [OF show_hex_plain(2)] by (subst decode_chunked.simps) simp
qed

lemma decode_nothing: "decode_chunked [] = Inl (Unreachable ''truncated chunk header'')"
  by (subst decode_chunked.simps) simp

lemma decode_cut_body:
  assumes "c \<noteq> []" "length c \<le> u64_max" "n < length (c @ crlf)"
  shows "\<exists>e. decode_chunked (show_hex (length c) @ crlf @ take n (c @ crlf)) = Inl e"
  using assms chunk_line [of "length c" "take n (c @ crlf)"] decode_nothing
  by (subst decode_chunked.simps) (auto simp: show_hex_plain parse_hex_show Let_def crlf_def)

lemma decode_cut_chunk:
  assumes "c \<noteq> []" "length c \<le> u64_max" "n < length (chunk c)"
  shows "\<exists>e. decode_chunked (take n (chunk c)) = Inl e"
proof (cases "n < length (show_hex (length c)) + 2")
  case True
  then show ?thesis using decode_cut_line [OF True, of "c @ crlf"] unfolding chunk_def by blast
next
  case False
  have "n - (length (show_hex (length c)) + 2) < length (c @ crlf)"
    using False assms(3) by (simp add: chunk_def)
  note cut = decode_cut_body [OF assms(1,2) this]
  from False have "take n (chunk c) = show_hex (length c) @ crlf @ take (n - (length (show_hex (length c)) + 2)) (c @ crlf)"
    by (simp add: chunk_def)
  then show ?thesis using cut by simp
qed

definition chunked :: "string list \<Rightarrow> string" where
  "chunked cs = concat (map chunk cs) @ last_chunk"

section \<open>Properties\<close>

text \<open>A chunked response is read whole or not at all.  However the server cuts the body into chunks, decoding
  the bytes it sends gives the body back; and when the connection ends early, at whatever byte, what
  arrived is refused, never taken for a shorter body.\<close>

theorem chunked_whole_or_refused:
  assumes "\<forall>c\<in>set cs. c \<noteq> [] \<and> length c \<le> u64_max"
  shows "case decode_chunked (take n (chunked cs)) of
      Inr body \<Rightarrow> length (chunked cs) \<le> n \<and> body = concat cs
    | Inl e \<Rightarrow> n < length (chunked cs)"
  using assms
proof (induction cs arbitrary: n)
  case Nil
  have "show_hex 0 = ''0''" by (simp add: show_hex.simps [of 0])
  then have "decode_chunked (take n last_chunk) = Inl (Unreachable ''truncated chunk header'')" if "n < length last_chunk"
    using decode_cut_line [of n 0 "[]"] that by (simp add: last_chunk_def crlf_def)
  then show ?case using decode_last [of "[]"] by (cases "n < length last_chunk") (simp_all add: chunked_def)
next
  case (Cons c cs)
  have eq: "chunked (c # cs) = chunk c @ chunked cs" by (simp add: chunked_def)
  show ?case
  proof (cases "n < length (chunk c)")
    case True
    then obtain e where "decode_chunked (take n (chunked (c # cs))) = Inl e"
      using decode_cut_chunk [of c n] Cons.prems by (auto simp: eq)
    then show ?thesis using True by (simp add: eq)
  next
    case False
    then have "take n (chunked (c # cs)) = chunk c @ take (n - length (chunk c)) (chunked cs)" by (simp add: eq)
    then show ?thesis
      using decode_chunk [of c] Cons.IH [of "n - length (chunk c)"] Cons.prems False
      by (auto simp: eq split: sum.splits)
  qed
qed

section \<open>Witnesses\<close>

theorem chunked_whole_or_refused_witness:
  "decode_chunked (chunked [''ab'', ''c'' @ crlf]) = Inr (''abc'' @ crlf) \<and>
   (\<exists>e. decode_chunked (take 7 (chunked [''ab'', ''c'' @ crlf])) = Inl e)"
proof -
  have cs: "\<forall>c\<in>set [''ab'', ''c'' @ crlf]. c \<noteq> [] \<and> length c \<le> u64_max"
    by (simp add: crlf_def u64_max_def)
  have "7 < length (chunked [''ab'', ''c'' @ crlf])"
    by (simp add: chunked_def chunk_def last_chunk_def crlf_def show_hex.simps)
  then show ?thesis
    using chunked_whole_or_refused [OF cs, of 7]
      chunked_whole_or_refused [OF cs, of "length (chunked [''ab'', ''c'' @ crlf])"]
    by (auto split: sum.splits)
qed

end
