(* ===== verification/Holds.thy ===== *)
theory Holds
  imports Poolers
begin

text \<open>
  \<^verbatim>\<open>pgpod-agent/src/pooler/control.rs\<close>: the control requests PID 1 of a pooler
  container answers, with the deadline it arms for every hold.

  Requests and deadlines are concurrent tasks.  A task is the rest of one
  async function, a step runs one task up to its next await: one admin
  command, one look at the table of hold generations.  The pooler's admin
  console is code of pg_doorman, so its two entry points (connecting, and
  running one command) are a parameter of every definition.
\<close>

section \<open>Requests, tasks and the state of PID 1\<close>

datatype request = ReqPause string "human_duration option" | ReqResume string
  | ReqReconnect string | ReqPools | ReqReload

datatype control_error = FrontsNoPools string "string list" | ConsoleError string

text \<open>What follows \<^verbatim>\<open>for_each_pool\<close> in its callers.\<close>

datatype purpose = ForPause "human_duration option" | ForResume | ForReconnect | ForDeadline

datatype task =
    StartPools purpose string
  | Commands purpose string "string list" "string list"
  | Arm string "human_duration option" "string list"
  | Bump purpose string
  | Deadline string nat nat
  | Once string

record 'd doorman =
  dm_connect :: "'d \<Rightarrow> string + unit"
  dm_execute :: "'d \<Rightarrow> string \<Rightarrow> 'd \<times> (string + unit)"

record 'd agent =
  ag_spec :: pooler_spec
  ag_holds :: "string \<rightharpoonup> nat"
  ag_console :: 'd
  ag_now :: nat
  ag_tasks :: "task list"
  ag_replies :: "(control_error + string list) list"

fun verb :: "purpose \<Rightarrow> string" where
  "verb (ForPause h) = ''PAUSE''"
| "verb ForResume = ''RESUME''"
| "verb ForReconnect = ''RECONNECT''"
| "verb ForDeadline = ''RESUME''"

definition is_missing_pool :: "string \<Rightarrow> bool" where
  "is_missing_pool e \<longleftrightarrow> str_contains e ''No pool for database''"

definition pool_command :: "string \<Rightarrow> string \<Rightarrow> string" where
  "pool_command v name = v @ '' '' @ name"

section \<open>The handlers\<close>

text \<open>\<^verbatim>\<open>dispatch\<close>: the first thing each request does.\<close>

fun dispatch :: "request \<Rightarrow> task" where
  "dispatch (ReqPause cluster hold) = StartPools (ForPause hold) cluster"
| "dispatch (ReqResume cluster) = Bump ForResume cluster"
| "dispatch (ReqReconnect cluster) = StartPools ForReconnect cluster"
| "dispatch ReqPools = Once ''SHOW POOLS''"
| "dispatch ReqReload = Once ''RELOAD''"

definition generation :: "'d agent \<Rightarrow> string \<Rightarrow> nat" where
  "generation s cluster = (case ag_holds s cluster of Some g \<Rightarrow> g | None \<Rightarrow> 0)"

definition bump :: "string \<Rightarrow> 'd agent \<Rightarrow> 'd agent" where
  "bump cluster s = s\<lparr> ag_holds := (ag_holds s)(cluster \<mapsto> generation s cluster + 1) \<rparr>"

definition reply :: "control_error + string list \<Rightarrow> 'd agent \<Rightarrow> 'd agent" where
  "reply r s = s\<lparr> ag_replies := ag_replies s @ [r] \<rparr>"

text \<open>The deadline's own resume answers nobody: its failure is only logged.\<close>

fun answer :: "purpose \<Rightarrow> control_error + string list \<Rightarrow> 'd agent \<Rightarrow> 'd agent" where
  "answer ForDeadline r s = s"
| "answer w r s = reply r s"

text \<open>\<^verbatim>\<open>for_each_pool\<close> up to its connection, then one command at a time.\<close>

definition start_pools :: "'d doorman \<Rightarrow> purpose \<Rightarrow> string \<Rightarrow> 'd agent \<Rightarrow> 'd agent \<times> task list" where
  "start_pools dm w cluster s =
     (let names = pools_for (ag_spec s) cluster in
      if names = []
      then (answer w (Inl (FrontsNoPools cluster (spec_clusters (ag_spec s)))) s, [])
      else (case dm_connect dm (ag_console s) of
          Inl e \<Rightarrow> (answer w (Inl (ConsoleError e)) s, [])
        | Inr _ \<Rightarrow> (s, [Commands w cluster names []])))"

fun run_commands :: "'d doorman \<Rightarrow> purpose \<Rightarrow> string \<Rightarrow> string list \<Rightarrow> string list \<Rightarrow> 'd agent \<Rightarrow>
    'd agent \<times> task list" where
  "run_commands dm (ForPause hold) cluster [] applied s = (s, [Arm cluster hold applied])"
| "run_commands dm w cluster [] applied s = (answer w (Inr applied) s, [])"
| "run_commands dm w cluster (name # names) applied s =
     (let (d, r) = dm_execute dm (ag_console s) (pool_command (verb w) name);
          s' = s\<lparr> ag_console := d \<rparr> in
      case r of
        Inr _ \<Rightarrow> (s', [Commands w cluster names (applied @ [name])])
      | Inl e \<Rightarrow> (if is_missing_pool e then (s', [Commands w cluster names applied])
                  else (answer w (Inl (ConsoleError e)) s', [])))"

definition arm :: "string \<Rightarrow> human_duration option \<Rightarrow> string list \<Rightarrow> 'd agent \<Rightarrow>
    'd agent \<times> task list" where
  "arm cluster hold applied s =
     (let budget = (case hold of Some h \<Rightarrow> h | None \<Rightarrow> ps_max_hold (ag_spec s));
          s' = bump cluster s in
      (reply (Inr applied) s',
       [Deadline cluster (generation s' cluster) (ag_now s + unat (as_millis budget))]))"

definition deadline :: "string \<Rightarrow> nat \<Rightarrow> 'd agent \<Rightarrow> 'd agent \<times> task list" where
  "deadline cluster g s =
     (if generation s cluster \<noteq> g then (s, []) else (s, [Bump ForDeadline cluster]))"

definition once :: "'d doorman \<Rightarrow> string \<Rightarrow> 'd agent \<Rightarrow> 'd agent \<times> task list" where
  "once dm sql s =
     (case dm_connect dm (ag_console s) of
        Inl e \<Rightarrow> (reply (Inl (ConsoleError e)) s, [])
      | Inr _ \<Rightarrow> (let (d, r) = dm_execute dm (ag_console s) sql;
                      s' = s\<lparr> ag_console := d \<rparr> in
          (case r of Inl e \<Rightarrow> (reply (Inl (ConsoleError e)) s', [])
                   | Inr _ \<Rightarrow> (reply (Inr []) s', []))))"

fun run_task :: "'d doorman \<Rightarrow> task \<Rightarrow> 'd agent \<Rightarrow> 'd agent \<times> task list" where
  "run_task dm (StartPools w cluster) s = start_pools dm w cluster s"
| "run_task dm (Commands w cluster names applied) s = run_commands dm w cluster names applied s"
| "run_task dm (Arm cluster hold applied) s = arm cluster hold applied s"
| "run_task dm (Bump w cluster) s = (bump cluster s, [StartPools w cluster])"
| "run_task dm (Deadline cluster g expiry) s = deadline cluster g s"
| "run_task dm (Once sql) s = once dm sql s"

text \<open>A deadline sleeps until its budget has passed; every other task can run.\<close>

fun ready :: "nat \<Rightarrow> task \<Rightarrow> bool" where
  "ready now (Deadline cluster g expiry) \<longleftrightarrow> expiry \<le> now"
| "ready now t \<longleftrightarrow> True"

section \<open>Interleaving\<close>

inductive run_step :: "'d doorman \<Rightarrow> 'd agent \<Rightarrow> 'd agent \<Rightarrow> bool" for dm where
  run: "ag_tasks s = xs @ t # ys \<Longrightarrow> ready (ag_now s) t \<Longrightarrow> run_task dm t s = (s', ts) \<Longrightarrow>
        run_step dm s (s'\<lparr> ag_tasks := xs @ ts @ ys \<rparr>)"

inductive agent_step :: "'d doorman \<Rightarrow> 'd agent \<Rightarrow> 'd agent \<Rightarrow> bool" for dm where
  request: "agent_step dm s (s\<lparr> ag_tasks := ag_tasks s @ [dispatch req] \<rparr>)"
| tick: "agent_step dm s (s\<lparr> ag_now := ag_now s + n \<rparr>)"
| task: "run_step dm s s' \<Longrightarrow> agent_step dm s s'"

inductive_cases run_stepE: "run_step dm s s'"
inductive_cases agent_stepE: "agent_step dm s s'"

definition agent_start :: "pooler_spec \<Rightarrow> 'd \<Rightarrow> 'd agent" where
  "agent_start spec d = \<lparr> ag_spec = spec, ag_holds = Map.empty, ag_console = d, ag_now = 0,
     ag_tasks = [], ag_replies = [] \<rparr>"

text \<open>An executable schedule: each entry submits a request, lets time pass or runs the
  task at a position.\<close>

datatype action = Submit request | Pass nat | Run nat

fun perform :: "'d doorman \<Rightarrow> action \<Rightarrow> 'd agent \<Rightarrow> 'd agent" where
  "perform dm (Submit req) s = s\<lparr> ag_tasks := ag_tasks s @ [dispatch req] \<rparr>"
| "perform dm (Pass n) s = s\<lparr> ag_now := ag_now s + n \<rparr>"
| "perform dm (Run i) s =
     (if i < length (ag_tasks s) \<and> ready (ag_now s) (ag_tasks s ! i)
      then (let (s', ts) = run_task dm (ag_tasks s ! i) s in
            s'\<lparr> ag_tasks := take i (ag_tasks s) @ ts @ drop (Suc i) (ag_tasks s) \<rparr>)
      else s)"

fun schedule :: "'d doorman \<Rightarrow> action list \<Rightarrow> 'd agent \<Rightarrow> 'd agent" where
  "schedule dm [] s = s"
| "schedule dm (a # as) s = schedule dm as (perform dm a s)"

lemma perform_steps: "(agent_step dm)\<^sup>*\<^sup>* s (perform dm a s)"
proof (cases a)
  case (Run i)
  show ?thesis
  proof (cases "i < length (ag_tasks s) \<and> ready (ag_now s) (ag_tasks s ! i)")
    case True
    obtain s' ts where e: "run_task dm (ag_tasks s ! i) s = (s', ts)" by fastforce
    have "run_step dm s (s'\<lparr> ag_tasks := take i (ag_tasks s) @ ts @ drop (Suc i) (ag_tasks s) \<rparr>)"
      using True e by (intro run_step.run [of s _ "ag_tasks s ! i"]) (simp_all add: id_take_nth_drop)
    then show ?thesis using Run True e by (auto intro: agent_step.task)
  next
    case False
    then show ?thesis using Run by auto
  qed
qed (auto intro: agent_step.intros)

lemma schedule_steps: "(agent_step dm)\<^sup>*\<^sup>* s (schedule dm as s)"
proof (induction as arbitrary: s)
  case (Cons a as)
  then show ?case using perform_steps [of dm s a] by (simp add: rtranclp_trans)
qed simp

section \<open>What the console is relied on for\<close>

text \<open>pg_doorman's documented behaviour: a command on one pool acts on that pool, a
  refused one acts on none, RESUME leaves a pool released (a pool that does
  not exist holds nobody), and the other commands hold nobody.\<close>

definition acts_on_one_pool :: "'d doorman \<Rightarrow> ('d \<Rightarrow> string \<Rightarrow> bool) \<Rightarrow> bool" where
  "acts_on_one_pool dm paused \<longleftrightarrow> (\<forall>d w n d' r m.
     dm_execute dm d (pool_command (verb w) n) = (d', r) \<longrightarrow> m \<noteq> n \<longrightarrow> paused d' m = paused d m)"

definition refused_pause_holds_nobody :: "'d doorman \<Rightarrow> ('d \<Rightarrow> string \<Rightarrow> bool) \<Rightarrow> bool" where
  "refused_pause_holds_nobody dm paused \<longleftrightarrow> (\<forall>d n d' e.
     dm_execute dm d (pool_command ''PAUSE'' n) = (d', Inl e) \<longrightarrow> paused d' n = paused d n)"

definition resume_releases :: "'d doorman \<Rightarrow> ('d \<Rightarrow> string \<Rightarrow> bool) \<Rightarrow> bool" where
  "resume_releases dm paused \<longleftrightarrow> (\<forall>d n d' r.
     dm_execute dm d (pool_command ''RESUME'' n) = (d', r) \<longrightarrow>
     r = Inr () \<or> (\<exists>e. r = Inl e \<and> is_missing_pool e) \<longrightarrow> \<not> paused d' n)"

definition others_hold_nobody :: "'d doorman \<Rightarrow> ('d \<Rightarrow> string \<Rightarrow> bool) \<Rightarrow> bool" where
  "others_hold_nobody dm paused \<longleftrightarrow> (\<forall>d sql d' r.
     dm_execute dm d sql = (d', r) \<longrightarrow>
     sql = ''RELOAD'' \<or> sql = ''SHOW POOLS'' \<or> (\<exists>n. sql = pool_command ''RECONNECT'' n) \<longrightarrow>
     paused d' = paused d)"

definition console_ok :: "'d doorman \<Rightarrow> ('d \<Rightarrow> string \<Rightarrow> bool) \<Rightarrow> bool" where
  "console_ok dm paused \<longleftrightarrow> acts_on_one_pool dm paused \<and> refused_pause_holds_nobody dm paused \<and>
     resume_releases dm paused \<and> others_hold_nobody dm paused"

text \<open>The console is up: connecting works, and the only refusal is a missing pool.\<close>

definition console_up :: "'d doorman \<Rightarrow> bool" where
  "console_up dm \<longleftrightarrow> (\<forall>d. dm_connect dm d = Inr ()) \<and>
     (\<forall>d sql d' e. dm_execute dm d sql = (d', Inl e) \<longrightarrow> is_missing_pool e)"

lemma console_laws:
  assumes "console_ok dm paused"
  shows "acts_on_one_pool dm paused" "refused_pause_holds_nobody dm paused"
    "resume_releases dm paused" "others_hold_nobody dm paused"
  using assms by (simp_all add: console_ok_def)

lemmas console_other = console_laws(1) [unfolded acts_on_one_pool_def, rule_format]
lemmas console_pause_refused = console_laws(2) [unfolded refused_pause_holds_nobody_def, rule_format]
lemmas console_resume = console_laws(3) [unfolded resume_releases_def, rule_format]
lemmas console_others = console_laws(4) [unfolded others_hold_nobody_def, rule_format]

section \<open>Every hold is covered\<close>

text \<open>A task that will release pool \<^term>\<open>x\<close> of cluster \<^term>\<open>c\<close>, or arm a deadline that will.\<close>

fun covers :: "nat option \<Rightarrow> string \<Rightarrow> string \<Rightarrow> task \<Rightarrow> bool" where
  "covers g c x (StartPools w d) \<longleftrightarrow> c = d \<and> verb w = ''RESUME''"
| "covers g c x (Commands w d names applied) \<longleftrightarrow> c = d \<and>
     (verb w = ''RESUME'' \<and> x \<in> set names \<or> verb w = ''PAUSE'' \<and> x \<in> set applied)"
| "covers g c x (Arm d hold applied) \<longleftrightarrow> c = d"
| "covers g c x (Bump w d) \<longleftrightarrow> c = d \<and> verb w = ''RESUME''"
| "covers g c x (Deadline d h expiry) \<longleftrightarrow> c = d \<and> g = Some h"
| "covers g c x (Once sql) \<longleftrightarrow> False"

text \<open>What a task may still say: commands on pools of its own cluster, bumps for the
  resuming purposes only, and the two statements that are not about one pool.\<close>

fun task_ok :: "pooler_spec \<Rightarrow> task \<Rightarrow> bool" where
  "task_ok spec (Commands w d names applied) \<longleftrightarrow> set names \<subseteq> set (pools_for spec d)"
| "task_ok spec (Bump w d) \<longleftrightarrow> verb w = ''RESUME''"
| "task_ok spec (Once sql) \<longleftrightarrow> sql = ''RELOAD'' \<or> sql = ''SHOW POOLS''"
| "task_ok spec t \<longleftrightarrow> True"

definition covered :: "(string \<rightharpoonup> nat) \<Rightarrow> task list \<Rightarrow> string \<Rightarrow> string \<Rightarrow> bool" where
  "covered holds tasks c x \<longleftrightarrow> (\<exists>t\<in>set tasks. covers (holds c) c x t)"

definition holds_inv :: "('d \<Rightarrow> string \<Rightarrow> bool) \<Rightarrow> 'd agent \<Rightarrow> bool" where
  "holds_inv paused s \<longleftrightarrow> list_all (task_ok (ag_spec s)) (ag_tasks s) \<and>
     (\<forall>p\<in>set (ps_pools (ag_spec s)). paused (ag_console s) (pt_name p) \<longrightarrow>
        covered (ag_holds s) (ag_tasks s) (pt_cluster p) (pt_name p))"

text \<open>One task's step, for one pool: what is held afterwards is covered by what the
  task became, or was held before and covered by another task, whose deadline
  the step has not made stale.\<close>

definition keeps :: "('d \<Rightarrow> string \<Rightarrow> bool) \<Rightarrow> string \<Rightarrow> string \<Rightarrow> 'd agent \<Rightarrow> task \<Rightarrow>
    'd agent \<Rightarrow> task list \<Rightarrow> bool" where
  "keeps paused c x s t s' ts \<longleftrightarrow> (paused (ag_console s') x \<longrightarrow>
     covered (ag_holds s') ts c x \<or>
     paused (ag_console s) x \<and> ag_holds s' c = ag_holds s c \<and> \<not> covers (ag_holds s c) c x t)"

definition task_keeps :: "('d \<Rightarrow> string \<Rightarrow> bool) \<Rightarrow> 'd agent \<Rightarrow> task \<Rightarrow> 'd agent \<Rightarrow> task list \<Rightarrow> bool" where
  "task_keeps paused s t s' ts \<longleftrightarrow>
     ag_spec s' = ag_spec s \<and> list_all (task_ok (ag_spec s)) ts \<and>
     (\<forall>p\<in>set (ps_pools (ag_spec s)). keeps paused (pt_cluster p) (pt_name p) s t s' ts)"

lemma bump_simps [simp]:
  "ag_spec (bump c s) = ag_spec s" "ag_console (bump c s) = ag_console s"
  "ag_now (bump c s) = ag_now s" "ag_tasks (bump c s) = ag_tasks s"
  "ag_holds (bump c s) = (ag_holds s)(c \<mapsto> generation s c + 1)"
  by (simp_all add: bump_def)

lemma reply_simps [simp]:
  "ag_spec (reply r s) = ag_spec s" "ag_console (reply r s) = ag_console s"
  "ag_now (reply r s) = ag_now s" "ag_tasks (reply r s) = ag_tasks s"
  "ag_holds (reply r s) = ag_holds s"
  by (simp_all add: reply_def)

lemma answer_simps [simp]:
  "ag_spec (answer w r s) = ag_spec s" "ag_console (answer w r s) = ag_console s"
  "ag_now (answer w r s) = ag_now s" "ag_tasks (answer w r s) = ag_tasks s"
  "ag_holds (answer w r s) = ag_holds s"
  by (cases w; simp)+

lemma generation_bump [simp]:
  "generation (bump c s) d = (if d = c then generation s c + 1 else generation s d)"
  by (simp add: generation_def)

lemmas keeps_defs = task_keeps_def keeps_def covered_def

lemma start_pools_keeps:
  assumes "console_up dm" "start_pools dm w c s = (s', ts)"
  shows "task_keeps paused s (StartPools w c) s' ts"
proof (cases "pools_for (ag_spec s) c = []")
  case True
  then have "\<forall>p\<in>set (ps_pools (ag_spec s)). pt_cluster p \<noteq> c"
    by (auto simp: pools_for_empty_iff)
  then show ?thesis using assms True by (auto simp: keeps_defs start_pools_def Let_def)
next
  case False
  have "dm_connect dm (ag_console s) = Inr ()" using assms(1) by (simp add: console_up_def)
  then show ?thesis using assms(2) False
    by (auto simp: keeps_defs start_pools_def Let_def)
qed

lemma verb_cases: "verb w = ''PAUSE'' \<or> verb w = ''RESUME'' \<or> verb w = ''RECONNECT''"
  by (cases w) auto

lemma run_commands_keeps:
  assumes ok: "console_ok dm paused" and up: "console_up dm"
    and uniq: "distinct (map pt_name (ps_pools (ag_spec s)))"
    and tok: "set names \<subseteq> set (pools_for (ag_spec s) c)"
    and r: "run_commands dm w c names applied s = (s', ts)"
  shows "task_keeps paused s (Commands w c names applied) s' ts"
proof (cases names)
  case Nil
  then show ?thesis using r by (cases w) (auto simp: keeps_defs)
next
  case (Cons n ns)
  obtain d q where e: "dm_execute dm (ag_console s) (pool_command (verb w) n) = (d, q)" by fastforce
  have miss: "is_missing_pool x" if "q = Inl x" for x
    using up e that unfolding console_up_def by metis
  then have res: "q = Inr () \<or> (\<exists>e. q = Inl e \<and> is_missing_pool e)" by (cases q) auto
  define ap where "ap = (case q of Inr _ \<Rightarrow> applied @ [n] | Inl _ \<Rightarrow> applied)"
  have st: "s' = s\<lparr> ag_console := d \<rparr>" "ts = [Commands w c ns ap]"
    using r Cons e miss by (cases w; cases q; simp add: ap_def)+
  have "keeps paused c' x s (Commands w c (n # ns) applied) s' ts" if "x = n \<longrightarrow> c' = c" for x c'
  proof (cases "x = n")
    case False
    have "paused d x = paused (ag_console s) x" using console_other [OF ok e] False by blast
    then show ?thesis using st False
      by (cases q) (auto simp: keeps_def covered_def ap_def)
  next
    case True
    consider "verb w = ''PAUSE''" | "verb w = ''RESUME''" | "verb w = ''RECONNECT''"
      using verb_cases by blast
    then show ?thesis
    proof cases
      case 1
      then show ?thesis using that True console_pause_refused [OF ok, of "ag_console s" n d] e st
        by (cases q) (simp_all add: keeps_def covered_def ap_def)
    next
      case 2
      then have "\<not> paused d n" using console_resume [OF ok, of "ag_console s" n d q] e res by simp
      then show ?thesis using True st by (simp add: keeps_def)
    next
      case 3
      then have "paused d = paused (ag_console s)"
        using console_others [OF ok e] by metis
      then show ?thesis using True st 3 by (simp add: keeps_def covered_def)
    qed
  qed
  moreover have "pt_name p = n \<longrightarrow> pt_cluster p = c" if "p \<in> set (ps_pools (ag_spec s))" for p
    using that tok uniq by (fastforce simp: Cons distinct_map inj_on_def)
  ultimately show ?thesis using st tok by (auto simp: task_keeps_def Cons)
qed

lemma once_keeps:
  assumes ok: "console_ok dm paused" and sql: "sql = ''RELOAD'' \<or> sql = ''SHOW POOLS''"
    and r: "once dm sql s = (s', ts)"
  shows "task_keeps paused s (Once sql) s' ts"
proof -
  obtain d q where e: "dm_execute dm (ag_console s) sql = (d, q)" by fastforce
  have "paused d = paused (ag_console s)" using console_others [OF ok e] sql by metis
  then show ?thesis using r e
    by (cases q) (auto simp: once_def keeps_defs split: sum.splits)
qed

lemma run_task_keeps:
  assumes "console_ok dm paused" "console_up dm" "distinct (map pt_name (ps_pools (ag_spec s)))"
    "task_ok (ag_spec s) t" "run_task dm t s = (s', ts)"
  shows "task_keeps paused s t s' ts"
proof (cases t)
  case (StartPools w c)
  then show ?thesis using start_pools_keeps assms by fastforce
next
  case (Commands w c names applied)
  then show ?thesis using run_commands_keeps [OF assms(1-3)] assms(4,5) by simp
next
  case (Arm c h applied)
  then show ?thesis using assms(5) by (auto simp: arm_def keeps_defs Let_def)
next
  case (Bump w c)
  then show ?thesis using assms(4,5) by (auto simp: keeps_defs)
next
  case (Deadline c g expiry)
  then show ?thesis using assms(5)
    by (auto simp: deadline_def keeps_defs generation_def split: if_splits)
next
  case (Once sql)
  then show ?thesis using once_keeps [OF assms(1)] assms(4,5) by simp
qed

lemma keeps_covered:
  assumes k: "keeps paused c x s t s' ts" and p: "paused (ag_console s') x"
    and before: "paused (ag_console s) x \<Longrightarrow> covered (ag_holds s) (xs @ t # ys) c x"
  shows "covered (ag_holds s') (xs @ ts @ ys) c x"
proof (cases "covered (ag_holds s') ts c x")
  case True
  then show ?thesis by (auto simp: covered_def)
next
  case False
  then have "paused (ag_console s) x" "ag_holds s' c = ag_holds s c"
    "\<not> covers (ag_holds s c) c x t"
    using k p by (auto simp: keeps_def)
  then show ?thesis using before by (auto simp: covered_def)
qed

lemma run_step_inv:
  assumes "console_ok dm paused" "console_up dm" "distinct (map pt_name (ps_pools (ag_spec s)))"
    "holds_inv paused s" "run_step dm s s'"
  shows "holds_inv paused s' \<and> ag_spec s' = ag_spec s"
proof -
  obtain xs t ys s1 ts where h: "ag_tasks s = xs @ t # ys" "run_task dm t s = (s1, ts)"
    "s' = s1\<lparr> ag_tasks := xs @ ts @ ys \<rparr>"
    using assms(5) by (auto elim: run_stepE)
  have tok: "task_ok (ag_spec s) t" using assms(4) h(1) by (simp add: holds_inv_def)
  note k = run_task_keeps [OF assms(1-3) tok h(2)]
  have "covered (ag_holds s') (xs @ ts @ ys) (pt_cluster p) (pt_name p)"
    if "p \<in> set (ps_pools (ag_spec s))" "paused (ag_console s') (pt_name p)" for p
    using keeps_covered [of paused "pt_cluster p" "pt_name p" s t s1 ts xs ys] k that h assms(4)
    by (simp add: task_keeps_def holds_inv_def)
  then show ?thesis using k assms(4) h by (auto simp: holds_inv_def task_keeps_def)
qed

lemma dispatch_ok [simp]: "task_ok spec (dispatch req)"
  by (cases req) auto

lemma covered_mono: "covered h ts c x \<Longrightarrow> set ts \<subseteq> set us \<Longrightarrow> covered h us c x"
  by (auto simp: covered_def)

lemma agent_step_inv:
  assumes "console_ok dm paused" "console_up dm" "distinct (map pt_name (ps_pools (ag_spec s)))"
    "holds_inv paused s" "agent_step dm s s'"
  shows "holds_inv paused s' \<and> ag_spec s' = ag_spec s"
  using assms(5)
proof cases
  case (request req)
  then show ?thesis using assms(4) by (auto simp: holds_inv_def intro: covered_mono)
next
  case (tick n)
  then show ?thesis using assms(4) by (simp add: holds_inv_def)
next
  case task
  then show ?thesis using run_step_inv assms by blast
qed

lemma agent_start_inv:
  "(\<And>x. \<not> paused d x) \<Longrightarrow> holds_inv paused (agent_start spec d)"
  by (simp add: holds_inv_def agent_start_def)

lemma reachable_inv:
  assumes "console_ok dm paused" "console_up dm" "distinct (map pt_name (ps_pools spec))"
    "\<And>x. \<not> paused d x" "(agent_step dm)\<^sup>*\<^sup>* (agent_start spec d) s"
  shows "holds_inv paused s \<and> ag_spec s = spec"
  using assms(5)
proof (induction rule: rtranclp_induct)
  case base
  then show ?case using agent_start_inv [of paused d spec] assms(4) by (simp add: agent_start_def)
next
  case (step s s')
  then show ?case using agent_step_inv [OF assms(1,2)] assms(3) by metis
qed

section \<open>Every task ends\<close>

text \<open>The steps a task can still take, given the number of pools of the spec.\<close>

fun weight :: "nat \<Rightarrow> task \<Rightarrow> nat" where
  "weight n (StartPools (ForPause h) c) = 2 * n + 8"
| "weight n (StartPools w c) = n + 2"
| "weight n (Commands (ForPause h) c names applied) = n + 7 + length names"
| "weight n (Commands w c names applied) = 1 + length names"
| "weight n (Arm c h applied) = n + 6"
| "weight n (Bump w c) = (case w of ForPause h \<Rightarrow> 2 * n + 9 | _ \<Rightarrow> n + 3)"
| "weight n (Deadline c g expiry) = n + 4"
| "weight n (Once sql) = 1"

definition pending :: "'d agent \<Rightarrow> nat" where
  "pending s = sum_list (map (weight (length (ps_pools (ag_spec s)))) (ag_tasks s))"

lemma pools_for_length: "length (pools_for spec c) \<le> length (ps_pools spec)"
  by (simp add: pools_for_def)

lemma run_task_spec: "run_task dm t s = (s', ts) \<Longrightarrow> ag_spec s' = ag_spec s"
proof (cases t)
  case (Commands w c names applied)
  moreover assume "run_task dm t s = (s', ts)"
  ultimately show ?thesis
    by (cases w; cases names)
       (auto simp: Let_def split: sum.splits prod.splits if_splits)
qed (auto simp: start_pools_def arm_def deadline_def once_def Let_def
        split: if_splits sum.splits prod.splits)

lemma run_task_weight:
  assumes "run_task dm t s = (s', ts)"
  shows "sum_list (map (weight (length (ps_pools (ag_spec s)))) ts)
       < weight (length (ps_pools (ag_spec s))) t"
proof (cases t)
  case (StartPools w c)
  then show ?thesis using assms pools_for_length [of "ag_spec s" c]
    by (cases w) (auto simp: start_pools_def Let_def split: if_splits sum.splits)
next
  case (Commands w c names applied)
  then show ?thesis using assms
    by (cases w; cases names) (auto simp: Let_def split: sum.splits prod.splits if_splits)
next
  case (Bump w c)
  then show ?thesis using assms by (cases w) auto
qed (use assms in \<open>auto simp: arm_def deadline_def once_def Let_def
        split: if_splits sum.splits prod.splits\<close>)

lemma run_step_pending: "run_step dm s s' \<Longrightarrow> pending s' < pending s"
proof (erule run_stepE)
  fix xs t ys s1 ts
  assume h: "s' = s1\<lparr> ag_tasks := xs @ ts @ ys \<rparr>" "ag_tasks s = xs @ t # ys"
    "run_task dm t s = (s1, ts)"
  show ?thesis
    using run_task_weight [OF h(3)] run_task_spec [OF h(3)] h(1,2) by (simp add: pending_def)
qed

text \<open>Nothing left to run, and no deadline still to come, means no task at all.\<close>

lemma stuck_no_tasks:
  assumes "\<nexists>s'. run_step dm s s'"
  shows "\<forall>t\<in>set (ag_tasks s). \<not> ready (ag_now s) t"
proof
  fix t assume "t \<in> set (ag_tasks s)"
  then obtain xs ys where e: "ag_tasks s = xs @ t # ys" by (meson split_list)
  obtain s' ts where "run_task dm t s = (s', ts)" by fastforce
  then show "\<not> ready (ag_now s) t" using assms run_step.run [OF e] by blast
qed

section \<open>Generations\<close>

lemma run_task_generation:
  assumes "run_task dm t s = (s', ts)"
  shows "generation s c \<le> generation s' c \<and>
    (\<forall>c' g e. Deadline c' g e \<in> set ts \<longrightarrow> g = generation s' c')"
proof (cases t)
  case (Commands w d names applied)
  then show ?thesis using assms
    by (cases w; cases names)
       (auto simp: Let_def generation_def split: sum.splits prod.splits if_splits)
next
  case (Once sql)
  then show ?thesis using assms
    by (auto simp: once_def generation_def Let_def split: sum.splits prod.splits)
next
  case (StartPools w d)
  then show ?thesis using assms
    by (cases w) (auto simp: start_pools_def reply_def generation_def Let_def split: sum.splits if_splits)
next
  case (Arm d h applied)
  then show ?thesis using assms by (auto simp: arm_def Let_def generation_def)
qed (use assms in \<open>auto simp: deadline_def split: if_splits\<close>)

lemma agent_step_generation:
  "agent_step dm s s' \<Longrightarrow> generation s c \<le> generation s' c"
  by (erule agent_stepE; (erule run_stepE)?)
     (auto simp: generation_def dest: run_task_generation [of _ _ _ _ _ c] split: option.splits)

lemma agent_steps_generation:
  "(agent_step dm)\<^sup>*\<^sup>* s s' \<Longrightarrow> generation s c \<le> generation s' c"
proof (induction rule: rtranclp_induct)
  case (step t u)
  then show ?case using agent_step_generation [of dm t u c] by simp
qed simp

section \<open>Isolation between clusters\<close>

fun task_cluster :: "task \<Rightarrow> string option" where
  "task_cluster (StartPools w c) = Some c"
| "task_cluster (Commands w c names applied) = Some c"
| "task_cluster (Arm c h applied) = Some c"
| "task_cluster (Bump w c) = Some c"
| "task_cluster (Deadline c g e) = Some c"
| "task_cluster (Once sql) = None"

lemma run_commands_isolated:
  assumes ok: "console_ok dm paused" and x: "x \<notin> set names"
    and r: "run_commands dm w c names applied s = (s', ts)"
  shows "paused (ag_console s') x = paused (ag_console s) x \<and> ag_holds s' = ag_holds s \<and>
    (\<forall>t\<in>set ts. task_cluster t = Some c)"
proof (cases names)
  case Nil
  then show ?thesis using r by (cases w) auto
next
  case (Cons n ns)
  obtain d q where e: "dm_execute dm (ag_console s) (pool_command (verb w) n) = (d, q)" by fastforce
  have "paused d x = paused (ag_console s) x" using console_other [OF ok e] x Cons by auto
  then show ?thesis using r Cons e by (cases w; cases q) (auto simp: Let_def split: if_splits)
qed

lemma run_task_isolated:
  assumes ok: "console_ok dm paused" and uniq: "distinct (map pt_name (ps_pools (ag_spec s)))"
    and tok: "task_ok (ag_spec s) t" and c: "task_cluster t = Some c"
    and r: "run_task dm t s = (s', ts)"
    and p: "p \<in> set (ps_pools (ag_spec s))" "pt_cluster p \<noteq> c"
  shows "paused (ag_console s') (pt_name p) = paused (ag_console s) (pt_name p) \<and>
    generation s' (pt_cluster p) = generation s (pt_cluster p) \<and>
    (\<forall>t\<in>set ts. task_cluster t = Some c)"
proof (cases t)
  case (Commands w d names applied)
  have "pt_name p \<notin> set names"
  proof -
    have "pt_name p \<in> set (pools_for (ag_spec s) (pt_cluster p))" using p(1) by auto
    moreover have "set names \<subseteq> set (pools_for (ag_spec s) c)" using tok c Commands by simp
    ultimately show ?thesis using pools_for_disjoint [OF uniq p(2)] by blast
  qed
  then show ?thesis using run_commands_isolated [OF ok, of "pt_name p" names w d applied s s' ts]
      r c Commands by (auto simp: generation_def)
qed (use assms in \<open>auto simp: start_pools_def arm_def deadline_def Let_def generation_def
        split: if_splits sum.splits\<close>)

section \<open>A console to run the model on\<close>

text \<open>The paused pools are a list; one command can be made to fail.\<close>

definition demo_execute :: "string option \<Rightarrow> string list \<Rightarrow> string \<Rightarrow> string list \<times> (string + unit)" where
  "demo_execute failing d sql =
     (if Some sql = failing then (d, Inl ''FATAL: connection lost'')
      else (case strip_prefix ''PAUSE '' sql of Some n \<Rightarrow> (n # d, Inr ())
      | None \<Rightarrow> (case strip_prefix ''RESUME '' sql of
          Some n \<Rightarrow> (filter (\<lambda>m. m \<noteq> n) d, Inr ())
        | None \<Rightarrow> (d, Inr ()))))"

definition demo_doorman :: "string option \<Rightarrow> string list doorman" where
  "demo_doorman failing = \<lparr> dm_connect = (\<lambda>_. Inr ()), dm_execute = demo_execute failing \<rparr>"

definition demo_pool :: "string \<Rightarrow> string \<Rightarrow> pool_target" where
  "demo_pool cluster name = pool_target_of \<lparr> rp_cluster = cluster, rp_cluster_index = 0,
     rp_database = name, rp_name = name \<rparr>"

definition two_pools :: pooler_spec where
  "two_pools = demo_spec\<lparr> ps_pools := [demo_pool ''c'' ''a'', demo_pool ''c'' ''b''] \<rparr>"

lemma demo_commands:
  "demo_execute failing d (pool_command ''PAUSE'' n) =
     (if Some (pool_command ''PAUSE'' n) = failing then (d, Inl ''FATAL: connection lost'') else (n # d, Inr ()))"
  "demo_execute failing d (pool_command ''RESUME'' n) =
     (if Some (pool_command ''RESUME'' n) = failing then (d, Inl ''FATAL: connection lost'')
      else (filter (\<lambda>m. m \<noteq> n) d, Inr ()))"
  "demo_execute failing d (pool_command ''RECONNECT'' n) =
     (if Some (pool_command ''RECONNECT'' n) = failing then (d, Inl ''FATAL: connection lost'')
      else (d, Inr ()))"
  by (simp_all add: demo_execute_def pool_command_def strip_prefix_def)

lemma demo_console_ok: "console_ok (demo_doorman None) (\<lambda>d x. x \<in> set d)"
proof -
  have "acts_on_one_pool (demo_doorman None) (\<lambda>d x. x \<in> set d)"
    unfolding acts_on_one_pool_def
  proof (intro allI impI)
    fix d w n d' r m
    assume "dm_execute (demo_doorman None) d (pool_command (verb w) n) = (d', r)" "m \<noteq> n"
    then show "(m \<in> set d') = (m \<in> set d)"
      by (cases w) (auto simp: demo_doorman_def demo_commands)
  qed
  moreover have "others_hold_nobody (demo_doorman None) (\<lambda>d x. x \<in> set d)"
    unfolding others_hold_nobody_def
    by (auto simp: demo_doorman_def demo_commands)
       (auto simp: demo_execute_def strip_prefix_def)
  ultimately show ?thesis
    by (auto simp: console_ok_def refused_pause_holds_nobody_def resume_releases_def
        demo_doorman_def demo_commands)
qed

lemma demo_console_up: "console_up (demo_doorman None)"
  by (auto simp: console_up_def demo_doorman_def demo_execute_def split: if_splits option.splits)

lemma two_pools_valid: "validate_pooler_spec two_pools = Inr ()"
proof -
  have "trim (container_name (mk_instance (ClusterId ''c'') 1)) \<noteq> []"
    by (simp add: container_name_def mk_instance_def std_simps)
  moreover have "trim ''a'' \<noteq> []" "trim ''b'' \<noteq> []" by (simp_all add: std_simps)
  ultimately show ?thesis
    by (simp add: validate_pooler_spec_ok two_pools_def demo_pool_def demo_spec_def
        pool_target_of_def from_secs_def)
qed

section \<open>Properties\<close>



text \<open>C31: Every accepted request and every deadline that expires comes to an end: each
  step of a task uses up some of a bounded amount of work, so no schedule,
  however unfair, keeps the agent busy without new requests.\<close>

theorem control_tasks_terminate:
  "(run_step dm s s' \<longrightarrow> pending s' < pending s) \<and> (\<nexists>f. f 0 = s \<and> (\<forall>i. run_step dm (f i) (f (Suc i))))"
proof (intro conjI impI notI)
  show "run_step dm s s' \<Longrightarrow> pending s' < pending s" by (rule run_step_pending)
next
  assume "\<exists>f. f 0 = s \<and> (\<forall>i. run_step dm (f i) (f (Suc i)))"
  then obtain f where "\<forall>i. run_step dm (f i) (f (Suc i))" by blast
  then have "\<forall>i. pending (f (Suc i)) < pending (f i)"
    by (intro allI) (rule run_step_pending, erule spec)
  then have "\<exists>h. \<forall>i. (h (Suc i), h i) \<in> less_than"
    by (intro exI [of _ "\<lambda>i. pending (f i)"]) simp
  then show False using wf_less_than unfolding wf_iff_no_infinite_down_chain by blast
qed

theorem control_tasks_terminate_witness:
  "\<exists>s'. run_step (demo_doorman None) (perform (demo_doorman None) (Submit (ReqResume ''c'')) (agent_start two_pools [])) s' \<and>
     pending s' < pending (perform (demo_doorman None) (Submit (ReqResume ''c'')) (agent_start two_pools []))"
proof -
  let ?s = "perform (demo_doorman None) (Submit (ReqResume ''c'')) (agent_start two_pools [])"
  have "ag_tasks ?s = [] @ Bump ForResume ''c'' # []" by (simp add: agent_start_def)
  from run_step.run [OF this, of "demo_doorman None"] obtain s' where r: "run_step (demo_doorman None) ?s s'"
    by fastforce
  then show ?thesis using control_tasks_terminate [of "demo_doorman None" ?s s'] by blast
qed

text \<open>A hold that has ended cannot be ended again by its old deadline.  A deadline
  is armed with the generation of its cluster; once a later pause or resume
  has raised that generation, the deadline does nothing in any later state,
  whatever ran in between.\<close>

theorem stale_deadline_does_nothing:
  assumes "(agent_step dm)\<^sup>*\<^sup>* s s'" "g < generation s c"
  shows "run_task dm (Deadline c g expiry) s' = (s', [])"
  using agent_steps_generation [OF assms(1), of c] assms(2) by (simp add: deadline_def)

theorem stale_deadline_does_nothing_witness:
  "run_task (demo_doorman None) (Deadline ''c'' 0 5)
     (schedule (demo_doorman None) [Pass 5] (bump ''c'' (agent_start two_pools []))) =
     (schedule (demo_doorman None) [Pass 5] (bump ''c'' (agent_start two_pools [])), [])"
  by (rule stale_deadline_does_nothing [OF schedule_steps]) (simp add: generation_def agent_start_def)

text \<open>Holding one cluster never touches a co-tenant.  A step of any task of one
  cluster leaves the pools of every other cluster as they were, leaves their
  generation and so their armed deadlines alone, and only ever continues as
  a task of the same cluster.\<close>

theorem hold_is_cluster_scoped:
  assumes "console_ok dm paused" "validate_pooler_spec (ag_spec s) = Inr ()"
    "holds_inv paused s" "t \<in> set (ag_tasks s)" "task_cluster t = Some c"
    "run_task dm t s = (s', ts)" "p \<in> set (ps_pools (ag_spec s))" "pt_cluster p \<noteq> c"
  shows "paused (ag_console s') (pt_name p) = paused (ag_console s) (pt_name p) \<and>
    generation s' (pt_cluster p) = generation s (pt_cluster p) \<and>
    (\<forall>t\<in>set ts. task_cluster t = Some c)"
proof -
  have "task_ok (ag_spec s) t" using assms(3,4) by (auto simp: holds_inv_def list_all_iff)
  then show ?thesis
    using run_task_isolated [OF assms(1) _ _ assms(5-8)] assms(2) by (simp add: validate_pooler_spec_ok)
qed

theorem hold_is_cluster_scoped_witness:
  "let spec = two_pools\<lparr> ps_pools := [demo_pool ''c'' ''a'', demo_pool ''d'' ''b''] \<rparr>;
       s = schedule (demo_doorman None) [Submit (ReqPause ''c'' None), Run 0] (agent_start spec []);
       (s', ts) = run_task (demo_doorman None) (Commands (ForPause None) ''c'' [''a''] []) s
   in ag_console s' = [''a''] \<and> ((''b'' \<in> set (ag_console s')) = (''b'' \<in> set (ag_console s)))"
proof -
  let ?spec = "two_pools\<lparr> ps_pools := [demo_pool ''c'' ''a'', demo_pool ''d'' ''b''] \<rparr>"
  let ?as = "[Submit (ReqPause ''c'' None), Run 0]"
  let ?s = "schedule (demo_doorman None) ?as (agent_start ?spec [])"
  let ?t = "Commands (ForPause None) ''c'' [''a''] []"
  obtain s' ts where r: "run_task (demo_doorman None) ?t ?s = (s', ts)" by fastforce
  have con: "ag_console (fst (run_task (demo_doorman None) ?t ?s)) = [''a'']" by code_simp
  have sp: "ag_spec ?s = ?spec" and tk: "ag_tasks ?s = [?t]" by code_simp+
  have h: "trim (container_name (mk_instance (ClusterId ''c'') 1)) \<noteq> []"
    "trim (container_name (mk_instance (ClusterId ''d'') 1)) \<noteq> []" "trim ''a'' \<noteq> []" "trim ''b'' \<noteq> []"
    by (simp_all add: container_name_def mk_instance_def std_simps)
  have v: "validate_pooler_spec ?spec = Inr ()"
    using h by (simp add: validate_pooler_spec_ok two_pools_def demo_pool_def demo_spec_def
        pool_target_of_def from_secs_def)
  have e: "\<And>x. \<not> x \<in> set ([] :: string list)" by simp
  have u: "distinct (map pt_name (ps_pools ?spec))" using v by (simp add: validate_pooler_spec_ok)
  have i: "holds_inv (\<lambda>d x. x \<in> set d) ?s"
    using reachable_inv [OF demo_console_ok demo_console_up u e schedule_steps] by blast
  have m: "demo_pool ''d'' ''b'' \<in> set (ps_pools (ag_spec ?s))" by (simp only: sp) simp
  have ne: "pt_cluster (demo_pool ''d'' ''b'') \<noteq> ''c''" "pt_name (demo_pool ''d'' ''b'') = ''b''"
    by (simp_all add: demo_pool_def pool_target_of_def)
  from hold_is_cluster_scoped [OF demo_console_ok _ i _ _ r m ne(1)] v sp tk ne(2) con r
  show ?thesis by simp
qed

section \<open>Where a hold does outlive its budget\<close>

text \<open>The two hypotheses on the console are needed.  A pause whose second pool is
  refused reports the error with the first pool still held and no deadline
  armed, although every hold is documented as deadlined.\<close>

lemma partial_pause_is_never_released:
  "let s = schedule (demo_doorman (Some (pool_command ''PAUSE'' ''b'')))
     [Submit (ReqPause ''c'' None), Run 0, Run 0, Run 0] (agent_start two_pools [])
   in ag_tasks s = [] \<and> ag_console s = [''a''] \<and> ag_holds s ''c'' = None"
  by code_simp

text \<open>A resume raises the generation before its commands: when a command then
  fails, the deadline is already stale and nothing releases the pools.\<close>

lemma failed_resume_disarms_the_deadline:
  "let s = schedule (demo_doorman (Some (pool_command ''RESUME'' ''a'')))
     [Submit (ReqPause ''c'' (Some (HumanDuration 5))), Run 0, Run 0, Run 0, Run 0, Run 0,
      Submit (ReqResume ''c''), Run 1, Run 1, Run 1, Pass 5, Run 0] (agent_start two_pools [])
   in ag_tasks s = [] \<and> set (ag_console s) = {''a'', ''b''}"
  by code_simp

text \<open>A second pause is acknowledged as holding both pools although the first pause's
  deadline, which fires between its commands and its arming, released them:
  the generation is raised only after the commands.\<close>

lemma old_deadline_releases_a_new_hold:
  "let s = schedule (demo_doorman None)
     [Submit (ReqPause ''c'' (Some (HumanDuration 5))), Run 0, Run 0, Run 0, Run 0, Run 0, Pass 5,
      Submit (ReqPause ''c'' (Some (HumanDuration 5))), Run 1, Run 1, Run 1,
      Run 0, Run 0, Run 0, Run 0, Run 0, Run 0, Run 0, Run 0] (agent_start two_pools [])
   in ag_tasks s = [Deadline ''c'' 3 10] \<and> ag_console s = [] \<and> ag_now s = 5 \<and>
      ag_replies s = [Inr [''a'', ''b''], Inr [''a'', ''b'']]"
  by code_simp

end
