(* ===== verification/Elf.thy ===== *)
theory Elf
  imports Volume
begin

text \<open>
  Which shared libraries a staged installation needs
  (\<^verbatim>\<open>pgpod-agent/src/upgrade/elf.rs\<close>): the dynamic section of one file, and the
  breadth-first search over the files it leads to.  Numbers are 64-bit words and wrap, as
  the release build does.

  A path is the list of its names: a relative search path is one below the root, and no \<^verbatim>\<open>..\<close>
  is resolved.  A file too large for memory is not modelled.
\<close>

section \<open>One file\<close>

record dynamic_info =
  di_needed :: "string list"
  di_search :: "path list"

text \<open>An answer, no answer (\<^verbatim>\<open>Ok(None)\<close>), or an error.\<close>

definition opt_then :: "string + 'a option \<Rightarrow> ('a \<Rightarrow> string + 'b option) \<Rightarrow> string + 'b option" where
  "opt_then r k = (case r of Inl e \<Rightarrow> Inl e | Inr None \<Rightarrow> Inr None | Inr (Some x) \<Rightarrow> k x)"

definition le_at :: "string \<Rightarrow> nat \<Rightarrow> nat \<Rightarrow> nat" where
  "le_at s off n = le_nat (take n (drop off s))"

definition u64_at :: "string \<Rightarrow> nat \<Rightarrow> 64 word" where "u64_at s off = word_of_nat (le_at s off 8)"

text \<open>A seek and an exact read.  No file is longer than the largest signed offset, and no vector either.\<close>

definition max_signed :: nat where "max_signed = 9223372036854775807"

definition seek_read :: "string \<Rightarrow> 64 word \<Rightarrow> 64 word \<Rightarrow> string + string option" where
  "seek_read s off n =
     (if unat n > max_signed then Inl ''capacity overflow''
      else if unat off > max_signed then Inl einval
      else if unat off + unat n \<le> length s then Inr (Some (take (unat n) (drop (unat off) s)))
      else Inr None)"

record segments =
  sg_loads :: "(64 word \<times> 64 word \<times> 64 word) list"
  sg_dynamic :: "(64 word \<times> 64 word) option"

fun read_segments :: "string \<Rightarrow> 64 word \<Rightarrow> 64 word \<Rightarrow> nat list \<Rightarrow> segments \<Rightarrow> string + segments option" where
  "read_segments s phoff entsize [] sg = Inr (Some sg)"
| "read_segments s phoff entsize (i # is) sg =
     opt_then (seek_read s (phoff + word_of_nat i * entsize) entsize) (\<lambda>ph.
     let kind = le_at ph 0 4; offset = u64_at ph 8; vaddr = u64_at ph 16; filesz = u64_at ph 32 in
     read_segments s phoff entsize is
       (if kind = 1 then sg\<lparr> sg_loads := sg_loads sg @ [(vaddr, offset, filesz)] \<rparr>
        else if kind = 2 then sg\<lparr> sg_dynamic := Some (offset, filesz) \<rparr> else sg))"

record dyn_tags =
  dt_needed :: "64 word list"
  dt_rpath :: "64 word list"
  dt_strtab :: "64 word option"
  dt_strsz :: "64 word"

text \<open>The entries of 16 bytes, up to the first one with tag zero; a rest that is shorter is dropped.\<close>

function read_tags :: "string \<Rightarrow> dyn_tags \<Rightarrow> dyn_tags" where
  "read_tags s t =
     (if length s < 16 then t
      else let tag = le_at s 0 8; val = u64_at s 8 in
        if tag = 0 then t
        else read_tags (drop 16 s)
          (if tag = 1 then t\<lparr> dt_needed := dt_needed t @ [val] \<rparr>
           else if tag = 15 \<or> tag = 29 then t\<lparr> dt_rpath := dt_rpath t @ [val] \<rparr>
           else if tag = 5 then t\<lparr> dt_strtab := Some val \<rparr>
           else if tag = 10 then t\<lparr> dt_strsz := val \<rparr> else t))"
  by pat_completeness auto
termination by (relation "measure (length \<circ> fst)") auto

declare read_tags.simps [simp del]

definition vaddr_to_offset :: "(64 word \<times> 64 word \<times> 64 word) list \<Rightarrow> 64 word \<Rightarrow> 64 word option" where
  "vaddr_to_offset loads vaddr =
     map_option (\<lambda>(v, off, _). off + (vaddr - v)) (find (\<lambda>(v, _, size). v \<le> vaddr \<and> vaddr < v + size) loads)"

definition string_at :: "string \<Rightarrow> 64 word \<Rightarrow> string option" where
  "string_at strtab off =
     (let rest = drop (unat off) strtab; v = takeWhile (\<lambda>b. b \<noteq> CHR 0x00) rest in
      if length strtab \<le> unat off \<or> length v = length rest then None else Some (lossy v))"

text \<open>\<^verbatim>\<open>str::replace\<close>, and the names of a path.\<close>

function replace_str :: "string \<Rightarrow> string \<Rightarrow> string \<Rightarrow> string" where
  "replace_str pat rep s =
     (if pat \<noteq> [] \<and> prefix pat s then rep @ replace_str pat rep (drop (length pat) s)
      else case s of [] \<Rightarrow> [] | c # s' \<Rightarrow> c # replace_str pat rep s')"
  by pat_completeness auto
termination
  by (relation "measure (\<lambda>(_, _, s). length s)") (auto simp: prefix_def)

declare replace_str.simps [simp del]

definition names_of :: "string \<Rightarrow> path" where
  "names_of s = filter (\<lambda>c. c \<noteq> [] \<and> c \<noteq> ''.'') (split_on (CHR ''/'') s)"

definition expand_origin :: "path \<Rightarrow> string \<Rightarrow> string" where
  "expand_origin origin part =
     replace_str ''$ORIGIN'' (show_path origin) (replace_str ''${ORIGIN}'' (show_path origin) part)"

definition empty_tags :: dyn_tags where
  "empty_tags = \<lparr> dt_needed = [], dt_rpath = [], dt_strtab = None, dt_strsz = 0 \<rparr>"

definition elf_magic :: string where "elf_magic = CHR 0x7F # ''ELF''"

text \<open>The sonames and the search paths as they stand in the file.\<close>

definition dynamic_strings :: "string \<Rightarrow> string + (string list \<times> string list) option" where
  "dynamic_strings s =
     (if length s < 16 \<or> take 4 s \<noteq> elf_magic \<or> le_at s 4 1 \<noteq> 2 \<or> le_at s 5 1 \<noteq> 1 \<or> length s < 64 then Inr None
      else let phoff = u64_at s 32; entsize = le_at s 54 2; phnum = le_at s 56 2 in
      if phoff = 0 \<or> entsize < 56 \<or> phnum = 0 then Inr None
      else opt_then (read_segments s phoff (word_of_nat entsize) [0..<phnum] \<lparr> sg_loads = [], sg_dynamic = None \<rparr>) (\<lambda>sg.
      case sg_dynamic sg of None \<Rightarrow> Inr None | Some (dyn_off, dyn_size) \<Rightarrow>
      opt_then (seek_read s dyn_off dyn_size) (\<lambda>entries.
      let t = read_tags entries empty_tags in
      case dt_strtab t of None \<Rightarrow> Inr None | Some strtab_vaddr \<Rightarrow>
      case vaddr_to_offset (sg_loads sg) strtab_vaddr of None \<Rightarrow> Inr None | Some strtab_off \<Rightarrow>
      let cap = (if dt_strsz t = 0 then 1048576 else dt_strsz t) in
      if unat cap > max_signed then Inl ''capacity overflow''
      else if unat strtab_off > max_signed then Inl einval
      else let strtab = take (unat cap) (drop (unat strtab_off) s) in
        Inr (Some (List.map_filter (string_at strtab) (dt_needed t), List.map_filter (string_at strtab) (dt_rpath t))))))"

definition dynamic_info_of :: "path \<Rightarrow> string list \<times> string list \<Rightarrow> dynamic_info" where
  "dynamic_info_of p ss = \<lparr> di_needed = fst ss,
     di_search = concat (map (\<lambda>s. map (\<lambda>part. names_of (expand_origin (butlast p) part)) (filter (\<lambda>x. x \<noteq> []) (split_on (CHR '':'') s)))
       (snd ss)) \<rparr>"

definition dynamic_info :: "disk \<Rightarrow> path \<Rightarrow> string + dynamic_info option" where
  "dynamic_info d p = (case entry d p of
      Some (File _ s) \<Rightarrow> opt_then (dynamic_strings s) (\<lambda>ss. Inr (Some (dynamic_info_of p ss)))
    | _ \<Rightarrow> Inr None)"

section \<open>The libraries of the C runtime\<close>

definition glibc_stems :: "string list" where
  "glibc_stems = [''libc'', ''libm'', ''libpthread'', ''libdl'', ''librt'', ''libresolv'', ''libutil'', ''libnsl'', ''libanl'',
     ''libmvec'', ''libBrokenLocale'', ''libthread_db'', ''libSegFault'', ''libpcprofile'']"

definition is_glibc_core :: "string \<Rightarrow> bool" where
  "is_glibc_core soname =
     (let base = last (split_on (CHR ''/'') soname) in
      prefix ''ld-linux'' base \<or> prefix ''ld64'' base \<or> base = ''ld.so'' \<or> prefix ''libnss_'' base \<or>
      (let stem = (case position_of ''.so'' base of None \<Rightarrow> base | Some i \<Rightarrow> take i base) in stem \<in> set glibc_stems))"

section \<open>The search\<close>

definition default_dirs :: "path list" where
  "default_dirs = [[''usr'', ''local'', ''lib''], [''usr'', ''local'', ''lib64''], [''lib'', ''x86_64-linux-gnu''],
     [''usr'', ''lib'', ''x86_64-linux-gnu''], [''lib'', ''aarch64-linux-gnu''], [''usr'', ''lib'', ''aarch64-linux-gnu''],
     [''lib64''], [''usr'', ''lib64''], [''lib''], [''usr'', ''lib'']]"

definition join_name :: "path \<Rightarrow> string \<Rightarrow> path" where
  "join_name dir soname = (if prefix ''/'' soname then names_of soname else dir @ names_of soname)"

definition find_library :: "disk \<Rightarrow> string \<Rightarrow> path list \<Rightarrow> path option" where
  "find_library d soname search = find (is_plain d) (map (\<lambda>dir. join_name dir soname) (search @ default_dirs))"

definition file_name :: "path \<Rightarrow> string" where
  "file_name p = (if p = [] \<or> last p = ''..'' then [] else last p)"

text \<open>What is still to be looked at, with the search paths it inherits, and the names that were asked for.\<close>

type_synonym search_state = "(path \<times> path list) list \<times> string list"

fun ask_root :: "disk \<Rightarrow> path list \<Rightarrow> string list \<Rightarrow> search_state \<Rightarrow> search_state" where
  "ask_root d search [] st = st"
| "ask_root d search (n # ns) (queue, seen) =
     (if n \<in> set seen then ask_root d search ns (queue, seen)
      else ask_root d search ns (case find_library d n search of
          None \<Rightarrow> (queue, n # seen) | Some f \<Rightarrow> (queue @ [(f, search)], n # seen)))"

fun ask_more :: "disk \<Rightarrow> path list \<Rightarrow> string list \<Rightarrow> search_state \<Rightarrow> search_state" where
  "ask_more d search [] st = st"
| "ask_more d search (n # ns) (queue, seen) =
     (if n \<in> set seen then ask_more d search ns (queue, seen)
      else if is_glibc_core n then ask_more d search ns (queue, n # seen)
      else ask_more d search ns (case find_library d n search of
          None \<Rightarrow> (queue, n # seen) | Some f \<Rightarrow> (queue @ [(f, search)], n # seen)))"

fun seed :: "disk \<Rightarrow> path list \<Rightarrow> search_state \<Rightarrow> string + search_state" where
  "seed d [] st = Inr st"
| "seed d (root # roots) (queue, seen) = (case dynamic_info d root of
      Inl e \<Rightarrow> Inl e
    | Inr None \<Rightarrow> seed d roots (queue, seen)
    | Inr (Some info) \<Rightarrow> seed d roots (ask_root d (di_search info) (di_needed info) (queue @ [(root, di_search info)], seen)))"

text \<open>The names that any file of the disk asks for; there are finitely many, which ends the search.\<close>

definition asked_by :: "node \<Rightarrow> string set" where
  "asked_by n = (case n of Folder _ \<Rightarrow> {} | File _ s \<Rightarrow> (case dynamic_strings s of Inr (Some ss) \<Rightarrow> set (fst ss) | _ \<Rightarrow> {}))"

definition file_names :: "disk \<Rightarrow> string set" where
  "file_names d = (\<Union>(q, n)\<in>set d. asked_by n)"

lemma finite_file_names [simp]: "finite (file_names d)"
  by (auto simp: file_names_def asked_by_def split: node.split sum.split option.split)

lemma needed_names: "dynamic_info d p = Inr (Some info) \<Longrightarrow> set (di_needed info) \<subseteq> file_names d"
proof -
  assume *: "dynamic_info d p = Inr (Some info)"
  then obtain mode s where s: "entry d p = Some (File mode s)" by (auto simp: dynamic_info_def split: option.splits node.splits)
  then have "(p, File mode s) \<in> set d" by (auto simp: entry_def split: if_splits dest: map_of_SomeD)
  moreover have "set (di_needed info) \<subseteq> asked_by (File mode s)"
    using * s by (auto simp: dynamic_info_def asked_by_def opt_then_def dynamic_info_of_def split: sum.splits option.splits)
  ultimately show ?thesis unfolding file_names_def by blast
qed

lemma ask_more_work:
  "ask_more d search ns (queue, seen) = (queue', seen') \<Longrightarrow> set ns \<subseteq> N \<Longrightarrow> finite N \<Longrightarrow>
     card (N - set seen') + length queue' \<le> card (N - set seen) + length queue"
proof (induction ns arbitrary: queue seen)
  case (Cons n ns)
  have less: "card (N - set (n # seen)) < card (N - set seen)" if "n \<notin> set seen"
    using that Cons.prems(2,3) by (intro psubset_card_mono) auto
  show ?case using Cons less
    by (fastforce split: if_splits option.splits)
qed simp

function resolve_loop :: "disk \<Rightarrow> path list \<Rightarrow> path list \<Rightarrow> (path \<times> path list) list \<Rightarrow> string list \<Rightarrow> path list \<Rightarrow> string + path list" where
  "resolve_loop d roots skip queue seen resolved =
     (case queue of [] \<Rightarrow> Inr resolved
      | (p, inherited) # rest \<Rightarrow>
          let name = file_name p;
              resolved' = (if is_glibc_core name \<or> list_ex (\<lambda>dir. prefix dir p) skip \<or> p \<in> set roots then resolved
                else List.insert p resolved) in
          if is_glibc_core name then resolve_loop d roots skip rest seen resolved'
          else (case dynamic_info d p of
              Inl e \<Rightarrow> Inl e
            | Inr None \<Rightarrow> resolve_loop d roots skip rest seen resolved'
            | Inr (Some info) \<Rightarrow>
                (let st = ask_more d (di_search info @ inherited) (di_needed info) (rest, seen) in
                 resolve_loop d roots skip (fst st) (snd st) resolved')))"
  by pat_completeness auto
termination
proof (relation "measure (\<lambda>(d, roots, skip, queue, seen, resolved). card (file_names d - set seen) + length queue)", goal_cases)
  case (4 d roots skip queue seen resolved e rest p inherited name resolved' r info st)
  obtain q' s' where st: "ask_more d (di_search info @ inherited) (di_needed info) (rest, seen) = (q', s')" by force
  have "dynamic_info d p = Inr (Some info)" using 4 by simp
  from ask_more_work [OF st needed_names [OF this]] show ?case using 4 st by simp
qed auto

declare resolve_loop.simps [simp del]

definition resolve_dependencies :: "disk \<Rightarrow> path list \<Rightarrow> path list \<Rightarrow> string + path list" where
  "resolve_dependencies d roots skip =
     (case seed d roots ([], []) of Inl e \<Rightarrow> Inl e
      | Inr (queue, seen) \<Rightarrow> resolve_loop d roots skip queue seen [])"

section \<open>What is found\<close>

lemma find_in: "find P xs = Some x \<Longrightarrow> P x \<and> x \<in> set xs"
  by (induction xs) (auto split: if_splits)

lemma find_library_plain: "find_library d n search = Some f \<Longrightarrow> is_plain d f \<and> (\<exists>dir. f = join_name dir n)"
  unfolding find_library_def by (drule find_in) auto

text \<open>The paths that wait.\<close>

definition paths :: "(path \<times> path list) list \<Rightarrow> path set" where "paths q = fst ` set q"

lemma paths_simps [simp]: "paths [] = {}" "paths (x # q) = insert (fst x) (paths q)" "paths (a @ b) = paths a \<union> paths b"
  by (auto simp: paths_def)

text \<open>A library in one of the conventional directories is found from anywhere.\<close>

definition conventional :: "disk \<Rightarrow> string \<Rightarrow> bool" where
  "conventional d n \<longleftrightarrow> (\<exists>dir\<in>set default_dirs. is_plain d (join_name dir n))"

lemma conventional_found: "conventional d n \<Longrightarrow> find_library d n search \<noteq> None"
  unfolding conventional_def find_library_def by (auto simp: find_None_iff)

text \<open>What is wanted of the result: a file that is there, not of the C runtime, not staged otherwise.\<close>

definition to_stage :: "disk \<Rightarrow> path list \<Rightarrow> path list \<Rightarrow> path \<Rightarrow> bool" where
  "to_stage d roots skip p \<longleftrightarrow>
     is_plain d p \<and> \<not> is_glibc_core (file_name p) \<and> (\<forall>dir\<in>set skip. \<not> prefix dir p) \<and> p \<notin> set roots"

definition served :: "disk \<Rightarrow> path set \<Rightarrow> string \<Rightarrow> bool" where
  "served d V n \<longleftrightarrow> is_glibc_core n \<or> \<not> conventional d n \<or> (\<exists>dir. join_name dir n \<in> V \<and> is_plain d (join_name dir n))"

lemma served_mono: "served d V n \<Longrightarrow> V \<subseteq> W \<Longrightarrow> served d W n"
  unfolding served_def by blast

lemma ask_more_served:
  "ask_more d search ns (queue, seen) = (queue', seen') \<Longrightarrow> \<forall>n\<in>set seen. served d (V \<union> paths queue) n \<Longrightarrow>
     set ns \<subseteq> set seen' \<and> set seen \<subseteq> set seen' \<and> paths queue \<subseteq> paths queue' \<and>
     (\<forall>n\<in>set seen'. served d (V \<union> paths queue') n) \<and> (\<forall>p\<in>paths queue'. p \<in> paths queue \<or> is_plain d p)"
proof (induction ns arbitrary: queue seen)
  case (Cons n ns)
  consider "n \<in> set seen" | "n \<notin> set seen" "is_glibc_core n" | "n \<notin> set seen" "\<not> is_glibc_core n" "find_library d n search = None"
    | f where "n \<notin> set seen" "\<not> is_glibc_core n" "find_library d n search = Some f" by fastforce
  then show ?case
  proof cases
    case 1
    with Cons.IH [of queue seen] Cons.prems show ?thesis by (auto simp: subset_iff)
  next
    case 2
    then have "\<forall>m\<in>set (n # seen). served d (V \<union> paths queue) m" using Cons.prems(2) by (simp add: served_def)
    from Cons.IH [OF _ this] Cons.prems(1) 2 show ?thesis by auto
  next
    case 3
    then have "\<forall>m\<in>set (n # seen). served d (V \<union> paths queue) m"
      using Cons.prems(2) conventional_found [of d n search] by (simp add: served_def) blast
    from Cons.IH [OF _ this] Cons.prems(1) 3 show ?thesis by auto
  next
    case 4
    then obtain dir where f: "f = join_name dir n" "is_plain d f" using find_library_plain by blast
    then have "served d (V \<union> paths (queue @ [(f, search)])) n" unfolding served_def by auto
    moreover have "\<forall>m\<in>set seen. served d (V \<union> paths (queue @ [(f, search)])) m"
      using Cons.prems(2) by (auto intro: served_mono)
    ultimately have "\<forall>m\<in>set (n # seen). served d (V \<union> paths (queue @ [(f, search)])) m" by simp
    from Cons.IH [OF _ this] Cons.prems(1) 4 f(2) show ?thesis by auto
  qed
qed simp

lemma ask_root_served:
  "ask_root d search ns (queue, seen) = (queue', seen') \<Longrightarrow> \<forall>n\<in>set seen. served d (V \<union> paths queue) n \<Longrightarrow>
     set ns \<subseteq> set seen' \<and> set seen \<subseteq> set seen' \<and> paths queue \<subseteq> paths queue' \<and>
     (\<forall>n\<in>set seen'. served d (V \<union> paths queue') n) \<and> (\<forall>p\<in>paths queue'. p \<in> paths queue \<or> is_plain d p)"
proof (induction ns arbitrary: queue seen)
  case (Cons n ns)
  consider "n \<in> set seen" | "n \<notin> set seen" "find_library d n search = None"
    | f where "n \<notin> set seen" "find_library d n search = Some f" by fastforce
  then show ?case
  proof cases
    case 1
    with Cons.IH [of queue seen] Cons.prems show ?thesis by (auto simp: subset_iff)
  next
    case 2
    then have "\<forall>m\<in>set (n # seen). served d (V \<union> paths queue) m"
      using Cons.prems(2) conventional_found [of d n search] by (simp add: served_def) blast
    from Cons.IH [OF _ this] Cons.prems(1) 2 show ?thesis by auto
  next
    case 3
    then obtain dir where f: "f = join_name dir n" "is_plain d f" using find_library_plain by blast
    then have "served d (V \<union> paths (queue @ [(f, search)])) n" unfolding served_def by auto
    moreover have "\<forall>m\<in>set seen. served d (V \<union> paths (queue @ [(f, search)])) m"
      using Cons.prems(2) by (auto intro: served_mono)
    ultimately have "\<forall>m\<in>set (n # seen). served d (V \<union> paths (queue @ [(f, search)])) m" by simp
    from Cons.IH [OF _ this] Cons.prems(1) 3 f(2) show ?thesis by auto
  qed
qed simp

text \<open>What a path that was looked at asks for has been asked.\<close>

definition asked :: "disk \<Rightarrow> string set \<Rightarrow> path \<Rightarrow> bool" where
  "asked d N p \<longleftrightarrow> (\<forall>info. dynamic_info d p = Inr (Some info) \<longrightarrow> set (di_needed info) \<subseteq> N)"

lemma asked_mono: "asked d N p \<Longrightarrow> N \<subseteq> M \<Longrightarrow> asked d M p"
  unfolding asked_def by blast

lemma seed_served:
  "seed d rs (queue, seen) = Inr (queue', seen') \<Longrightarrow> \<forall>n\<in>set seen. served d (paths queue) n \<Longrightarrow>
     set seen \<subseteq> set seen' \<and> (\<forall>n\<in>set seen'. served d (paths queue') n) \<and> (\<forall>r\<in>set rs. asked d (set seen') r) \<and>
     (\<forall>p\<in>paths queue'. p \<in> paths queue \<or> is_plain d p)"
proof (induction rs arbitrary: queue seen)
  case (Cons r rs)
  show ?case
  proof (cases "dynamic_info d r")
    case (Inr found)
    show ?thesis
    proof (cases found)
      case None
      with Inr Cons show ?thesis by (auto simp: asked_def)
    next
      case (Some info)
      obtain q s where st: "ask_root d (di_search info) (di_needed info) (queue @ [(r, di_search info)], seen) = (q, s)" by force
      have plain: "is_plain d r"
        using Inr Some by (auto simp: dynamic_info_def is_plain_def split: option.splits node.splits)
      have "\<forall>n\<in>set seen. served d ({} \<union> paths (queue @ [(r, di_search info)])) n"
        using Cons.prems(2) by (auto intro: served_mono)
      note a = ask_root_served [OF st this]
      moreover have rest: "seed d rs (q, s) = Inr (queue', seen')" using Cons.prems(1) Inr Some st by simp
      moreover from a have "\<forall>n\<in>set s. served d (paths q) n" by simp
      note ih = Cons.IH [OF rest this]
      moreover have "asked d (set seen') r" unfolding asked_def
      proof (intro allI impI)
        fix i assume "dynamic_info d r = Inr (Some i)"
        then show "set (di_needed i) \<subseteq> set seen'" using a ih Inr Some by auto
      qed
      ultimately show ?thesis using plain by auto
    qed
  qed (use Cons in auto)
qed (simp add: asked_def)

text \<open>The state of the search: \<open>W\<close> has been looked at.\<close>

definition searched :: "disk \<Rightarrow> path list \<Rightarrow> path list \<Rightarrow> path set \<Rightarrow> (path \<times> path list) list \<Rightarrow> string list \<Rightarrow> path list \<Rightarrow> bool" where
  "searched d roots skip W queue seen resolved \<longleftrightarrow>
     (\<forall>n\<in>set seen. served d (W \<union> paths queue) n) \<and>
     (\<forall>p\<in>W. \<not> is_glibc_core (file_name p) \<longrightarrow> asked d (set seen) p) \<and>
     (\<forall>p\<in>paths queue \<union> W. is_plain d p) \<and>
     (\<forall>p. p \<in> set resolved \<longleftrightarrow> p \<in> W \<and> to_stage d roots skip p)"

lemma searched_pop:
  assumes "searched d roots skip W ((p, inherited) # rest) seen resolved"
    "resolved' = (if is_glibc_core (file_name p) \<or> list_ex (\<lambda>dir. prefix dir p) skip \<or> p \<in> set roots then resolved
       else List.insert p resolved)"
    "\<not> is_glibc_core (file_name p) \<Longrightarrow> asked d (set seen') p" "set seen \<subseteq> set seen'"
    "\<forall>n\<in>set seen'. served d (insert p W \<union> paths rest') n" "\<forall>q\<in>paths rest'. q \<in> paths rest \<or> is_plain d q"
  shows "searched d roots skip (insert p W) rest' seen' resolved'"
proof -
  have "q \<in> set resolved' \<longleftrightarrow> q \<in> insert p W \<and> to_stage d roots skip q" for q
    using assms(1,2) by (auto simp: searched_def to_stage_def list_ex_iff in_set_insert split: if_splits)
  moreover have "\<forall>q\<in>insert p W. \<not> is_glibc_core (file_name q) \<longrightarrow> asked d (set seen') q"
    using assms(1,3,4) by (auto simp: searched_def intro: asked_mono)
  ultimately show ?thesis using assms(1,5,6) by (auto simp: searched_def)
qed

lemma loop_searched:
  "resolve_loop d roots skip queue seen resolved = Inr R \<Longrightarrow> searched d roots skip W queue seen resolved \<Longrightarrow>
     \<exists>U names. W \<subseteq> U \<and> paths queue \<subseteq> U \<and> set seen \<subseteq> set names \<and> searched d roots skip U [] names R"
proof (induction d roots skip queue seen resolved arbitrary: W rule: resolve_loop.induct)
  case (1 d roots skip queue seen resolved)
  show ?case
  proof (cases queue)
    case Nil
    with 1 show ?thesis by (auto simp: resolve_loop.simps [of d roots skip "[]"] intro!: exI [of _ W] exI [of _ seen])
  next
    case (Cons x rest)
    obtain p inherited where x: "x = (p, inherited)" by force
    define resolved' where "resolved' = (if is_glibc_core (file_name p) \<or> list_ex (\<lambda>dir. prefix dir p) skip \<or> p \<in> set roots
      then resolved else List.insert p resolved)"
    have inv: "searched d roots skip W ((p, inherited) # rest) seen resolved" using 1 Cons x by simp
    then have served: "\<forall>n\<in>set seen. served d (insert p W \<union> paths rest) n" by (auto simp: searched_def intro: served_mono)
    note run = 1(4) [unfolded Cons x resolve_loop.simps [of d roots skip "(p, inherited) # rest"] list.case prod.case Let_def,
      folded resolved'_def]
    have simple: ?thesis if "resolve_loop d roots skip rest seen resolved' = Inr R" "\<not> is_glibc_core (file_name p) \<longrightarrow> asked d (set seen) p"
      "\<And>W. searched d roots skip W rest seen resolved' \<Longrightarrow>
        \<exists>U names. W \<subseteq> U \<and> paths rest \<subseteq> U \<and> set seen \<subseteq> set names \<and> searched d roots skip U [] names R"
    proof -
      have "searched d roots skip (insert p W) rest seen resolved'"
        by (rule searched_pop [OF inv resolved'_def _ _ served]) (use that(2) in auto)
      from that(3) [OF this] obtain U names where U: "insert p W \<subseteq> U" "paths rest \<subseteq> U" "set seen \<subseteq> set names"
        "searched d roots skip U [] names R" by blast
      show ?thesis
      proof (intro exI conjI)
        show "W \<subseteq> U" "paths queue \<subseteq> U" "set seen \<subseteq> set names" using U(1-3) Cons x by auto
      qed (rule U(4))
    qed
    show ?thesis
    proof (cases "is_glibc_core (file_name p)")
      case True
      then show ?thesis using simple 1(1) [OF Cons x [symmetric] refl resolved'_def True] run by auto
    next
      case False
      show ?thesis
      proof (cases "dynamic_info d p")
        case (Inl e)
        with run False show ?thesis by simp
      next
        case (Inr found)
        show ?thesis
        proof (cases found)
          case None
          then show ?thesis using simple 1(2) [OF Cons x [symmetric] refl resolved'_def False Inr None] run False Inr by (auto simp: asked_def)
        next
          case (Some info)
          obtain q s where st: "ask_more d (di_search info @ inherited) (di_needed info) (rest, seen) = (q, s)" by force
          note more = ask_more_served [OF st served]
          have "asked d (set s) p" using more Inr Some by (auto simp: asked_def)
          then have "searched d roots skip (insert p W) q s resolved'"
            using more by (intro searched_pop [OF inv resolved'_def]) auto
          moreover have "resolve_loop d roots skip q s resolved' = Inr R" using run False Inr Some st by simp
          ultimately obtain U names where U: "insert p W \<subseteq> U" "paths q \<subseteq> U" "set s \<subseteq> set names" "searched d roots skip U [] names R"
            using 1(3) [OF Cons x [symmetric] refl resolved'_def False Inr Some refl, of "insert p W"] st by auto
          show ?thesis
          proof (intro exI conjI)
            show "W \<subseteq> U" "paths queue \<subseteq> U" "set seen \<subseteq> set names" using U(1-3) more Cons x by auto
          qed (rule U(4))
        qed
      qed
    qed
  qed
qed

text \<open>A soname that is one name, as the sonames of real libraries are.\<close>

definition one_name :: "string \<Rightarrow> bool" where
  "one_name n \<longleftrightarrow> names_of n = [n] \<and> \<not> prefix ''/'' n \<and> n \<noteq> ''..''"


section \<open>Witness\<close>

text \<open>A small file that needs one library: a header of 64 bytes, a loaded and a dynamic segment, three entries, and
  the strings.\<close>

definition demo_elf :: string where
  "demo_elf = [
     CHR 0x7F, CHR ''E'', CHR ''L'', CHR ''F'', CHR 0x02, CHR 0x01, CHR 0x00, CHR 0x00, CHR 0x00, CHR 0x00, CHR 0x00, CHR
     0x00, CHR 0x00, CHR 0x00, CHR 0x00, CHR 0x00, CHR 0x00, CHR 0x00, CHR 0x00, CHR 0x00, CHR 0x00, CHR 0x00, CHR 0x00,
     CHR 0x00, CHR 0x00, CHR 0x00, CHR 0x00, CHR 0x00, CHR 0x00, CHR 0x00, CHR 0x00, CHR 0x00, CHR 0x40, CHR 0x00, CHR
     0x00, CHR 0x00, CHR 0x00, CHR 0x00, CHR 0x00, CHR 0x00, CHR 0x00, CHR 0x00, CHR 0x00, CHR 0x00, CHR 0x00, CHR 0x00,
     CHR 0x00, CHR 0x00, CHR 0x00, CHR 0x00, CHR 0x00, CHR 0x00, CHR 0x40, CHR 0x00, CHR ''8'', CHR 0x00, CHR 0x02, CHR
     0x00, CHR 0x00, CHR 0x00, CHR 0x00, CHR 0x00, CHR 0x00, CHR 0x00, CHR 0x01, CHR 0x00, CHR 0x00, CHR 0x00, CHR 0x00,
     CHR 0x00, CHR 0x00, CHR 0x00, CHR 0x00, CHR 0x00, CHR 0x00, CHR 0x00, CHR 0x00, CHR 0x00, CHR 0x00, CHR 0x00, CHR
     0x00, CHR 0x10, CHR 0x00, CHR 0x00, CHR 0x00, CHR 0x00, CHR 0x00, CHR 0x00, CHR 0x00, CHR 0x00, CHR 0x00, CHR 0x00,
     CHR 0x00, CHR 0x00, CHR 0x00, CHR 0x00, CHR 0xFF, CHR 0x00, CHR 0x00, CHR 0x00, CHR 0x00, CHR 0x00, CHR 0x00, CHR
     0x00, CHR 0x00, CHR 0x00, CHR 0x00, CHR 0x00, CHR 0x00, CHR 0x00, CHR 0x00, CHR 0x00, CHR 0x00, CHR 0x00, CHR 0x00,
     CHR 0x00, CHR 0x00, CHR 0x00, CHR 0x00, CHR 0x00, CHR 0x02, CHR 0x00, CHR 0x00, CHR 0x00, CHR 0x00, CHR 0x00, CHR
     0x00, CHR 0x00, CHR 0xB0, CHR 0x00, CHR 0x00, CHR 0x00, CHR 0x00, CHR 0x00, CHR 0x00, CHR 0x00, CHR 0xB0, CHR 0x10,
     CHR 0x00, CHR 0x00, CHR 0x00, CHR 0x00, CHR 0x00, CHR 0x00, CHR 0x00, CHR 0x00, CHR 0x00, CHR 0x00, CHR 0x00, CHR
     0x00, CHR 0x00, CHR 0x00, CHR ''0'', CHR 0x00, CHR 0x00, CHR 0x00, CHR 0x00, CHR 0x00, CHR 0x00, CHR 0x00, CHR 0x00,
     CHR 0x00, CHR 0x00, CHR 0x00, CHR 0x00, CHR 0x00, CHR 0x00, CHR 0x00, CHR 0x00, CHR 0x00, CHR 0x00, CHR 0x00, CHR
     0x00, CHR 0x00, CHR 0x00, CHR 0x00, CHR 0x01, CHR 0x00, CHR 0x00, CHR 0x00, CHR 0x00, CHR 0x00, CHR 0x00, CHR 0x00,
     CHR 0x01, CHR 0x00, CHR 0x00, CHR 0x00, CHR 0x00, CHR 0x00, CHR 0x00, CHR 0x00, CHR 0x05, CHR 0x00, CHR 0x00, CHR
     0x00, CHR 0x00, CHR 0x00, CHR 0x00, CHR 0x00, CHR 0xE0, CHR 0x10, CHR 0x00, CHR 0x00, CHR 0x00, CHR 0x00, CHR 0x00,
     CHR 0x00, CHR 0x00, CHR 0x00, CHR 0x00, CHR 0x00, CHR 0x00, CHR 0x00, CHR 0x00, CHR 0x00, CHR 0x00, CHR 0x00, CHR
     0x00, CHR 0x00, CHR 0x00, CHR 0x00, CHR 0x00, CHR 0x00, CHR 0x00, CHR ''l'', CHR ''i'', CHR ''b'', CHR ''p'', CHR
     ''q'', CHR ''.'', CHR ''s'', CHR ''o'', CHR ''.'', CHR ''5'', CHR 0x00
  ]"

lemma demo_elf_needs: "dynamic_strings demo_elf = Inr (Some ([''libpq.so.5''], []))"
  by (simp add: dynamic_strings_def demo_elf_def elf_magic_def le_at_def u64_at_def le_nat_def be_nat_def byte_def
    opt_then_def seek_read_def max_signed_def read_tags.simps empty_tags_def vaddr_to_offset_def string_at_def
    List.map_filter_simps utf8_front_def byte_at_def at_least_cont_def)

definition lib_path :: path where "lib_path = [''usr'', ''lib'', ''libpq.so.5'']"
definition bin_path :: path where "bin_path = [''usr'', ''pgsql'', ''psql'']"

definition elf_disk :: disk where "elf_disk = [(bin_path, File 493 demo_elf), (lib_path, File 420 ''none'')]"

lemma elf_infos:
  "dynamic_info elf_disk bin_path = Inr (Some \<lparr> di_needed = [''libpq.so.5''], di_search = [] \<rparr>)"
  "dynamic_info elf_disk lib_path = Inr None"
  by (simp_all add: dynamic_info_def elf_disk_def entry_def lib_path_def bin_path_def demo_elf_needs opt_then_def dynamic_info_of_def)
    (simp add: dynamic_strings_def opt_then_def)

lemma elf_names: "\<not> is_glibc_core ''libpq.so.5''" "\<not> is_glibc_core ''psql''" "names_of ''libpq.so.5'' = [''libpq.so.5'']"
  by (simp_all add: is_glibc_core_def glibc_stems_def names_of_def)

lemma elf_found: "find_library elf_disk ''libpq.so.5'' [] = Some lib_path"
  by (simp add: find_library_def default_dirs_def join_name_def elf_names is_plain_def entry_def elf_disk_def lib_path_def bin_path_def)

lemma elf_resolved: "resolve_dependencies elf_disk [bin_path] [[''usr'', ''pgsql'']] = Inr [lib_path]"
proof -
  have names: "file_name bin_path = ''psql''" "file_name lib_path = ''libpq.so.5''" by (simp_all add: bin_path_def lib_path_def file_name_def)
  have "bin_path \<noteq> lib_path" "\<not> prefix [''usr'', ''pgsql''] lib_path" by (simp_all add: bin_path_def lib_path_def)
  then show ?thesis
    by (simp add: resolve_dependencies_def elf_infos elf_found resolve_loop.simps [of _ _ _ "_ # _"] resolve_loop.simps [of _ _ _ "[]"]
      names elf_names Let_def)
qed


end
