(* ===== verification/Staging.thy ===== *)
theory Staging
  imports Elf UpgradeRun
begin

text \<open>
  The two upgrade jobs that touch no data (\<^verbatim>\<open>pgpod-agent/src/upgrade/mod.rs\<close>): \<^verbatim>\<open>stage\<close>, which copies the
  installation of the old image into the volume beside a running instance, and \<^verbatim>\<open>probe\<close>.
\<close>

section \<open>Copying\<close>

definition stage_dir :: path where "stage_dir = [''pgdata'', ''upgrade'', ''old'']"

record copied =
  cp_files :: "64 word"
  cp_bytes :: "64 word"

definition copied_default :: copied where "copied_default = \<lparr> cp_files = 0, cp_bytes = 0 \<rparr>"

text \<open>The path a file gets inside the staging root.\<close>

definition mirrored :: "path \<Rightarrow> path \<Rightarrow> path" where "mirrored root source = root @ source"

definition not_regular :: string where
  "not_regular = ''the source path is neither a regular file nor a symlink to a regular file''"

definition copy_at :: "path \<Rightarrow> path \<Rightarrow> disk \<Rightarrow> (string + 64 word) \<times> disk" where
  "copy_at a b d = (case entry d a of
      None \<Rightarrow> (Inl enoent, d) | Some (Folder _) \<Rightarrow> (Inl not_regular, d)
    | Some (File mode c) \<Rightarrow> (case entry d b of
        Some (Folder _) \<Rightarrow> (Inl eisdir, d)
      | _ \<Rightarrow> (case parent_ok d b of Inl e \<Rightarrow> (Inl e, d)
          | Inr _ \<Rightarrow> (Inr (word_of_nat (length c)), place b (File mode c) d))))"

text \<open>\<^verbatim>\<open>fs::copy\<close>; an interrupted one leaves the front of the file.\<close>

definition copy_bytes :: "machine \<Rightarrow> path \<Rightarrow> path \<Rightarrow> 64 word agent" where
  "copy_bytes m a b = sys m
     (\<lambda>ft d. case entry d a of
        Some (File mode c) \<Rightarrow> (case snd (copy_at a b d) of d' \<Rightarrow>
          if d' = d then d else place b (File mode (take (ft_len ft) c)) d)
      | _ \<Rightarrow> d)
     (copy_at a b)"

definition copy_file :: "machine \<Rightarrow> path \<Rightarrow> path \<Rightarrow> copied \<Rightarrow> copied agent" where
  "copy_file m source target copied =
     chain (if target = [] then give ()
       else context_of (''failed to create '' @ show_path (butlast target)) (create_dir_all m (butlast target))) (\<lambda>_.
     chain (context_of (''failed to copy '' @ show_path source @ '' to '' @ show_path target) (copy_bytes m source target)) (\<lambda>bytes.
     chain (caught (stat m source) (\<lambda>r. case r of
         Inl _ \<Rightarrow> give ()
       | Inr n \<Rightarrow> caught (set_mode m target ((case n of Folder mode \<Rightarrow> mode | File mode _ \<Rightarrow> mode) mod 4096)) (\<lambda>_. give ()))) (\<lambda>_.
     give \<lparr> cp_files = cp_files copied + 1, cp_bytes = cp_bytes copied + bytes \<rparr>)))"

text \<open>The kernel refuses a path of 4096 bytes, which is what ends the walk down a tree that contains its own copy.\<close>

definition path_bytes :: "path \<Rightarrow> nat" where "path_bytes p = sum_list (map (\<lambda>c. Suc (length c)) p)"

definition stat_path :: "machine \<Rightarrow> path \<Rightarrow> node agent" where
  "stat_path m p = (if 4096 \<le> path_bytes p then bail ''File name too long (os error 36)'' else stat m p)"

fun copy_each :: "(string \<Rightarrow> copied \<Rightarrow> copied agent) \<Rightarrow> string list \<Rightarrow> copied \<Rightarrow> copied agent" where
  "copy_each f [] c = give c"
| "copy_each f (n # ns) c = chain (f n c) (\<lambda>c'. copy_each f ns c')"

function copy_tree :: "machine \<Rightarrow> path \<Rightarrow> path \<Rightarrow> copied \<Rightarrow> copied agent" where
  "copy_tree m source target copied =
     (if 4096 \<le> path_bytes source
      then context_of (''failed to stat '' @ show_path source) (bail ''File name too long (os error 36)'')
      else chain (context_of (''failed to stat '' @ show_path source) (stat m source)) (\<lambda>meta. case meta of
        File _ _ \<Rightarrow> copy_file m source target copied
      | Folder _ \<Rightarrow>
          chain (context_of (''failed to create '' @ show_path target) (create_dir_all m target)) (\<lambda>_.
          chain (context_of (''failed to read '' @ show_path source) (read_dir m source)) (\<lambda>names.
          copy_each (\<lambda>name c.
            if name = ''bitcode'' then give c
            else caught (stat_path m (source @ [name])) (\<lambda>r. case r of
                Inr (Folder _) \<Rightarrow> copy_tree m (source @ [name]) (target @ [name]) c
              | Inr (File _ _) \<Rightarrow> copy_file m (source @ [name]) (target @ [name]) c
              | Inl _ \<Rightarrow> give c)) names copied))))"
  by pat_completeness auto
termination
  by (relation "measure (\<lambda>(m, source, target, copied). 4096 - path_bytes source)") (auto simp: path_bytes_def)

declare copy_tree.simps [simp del]

section \<open>The files whose libraries are followed\<close>

fun elf_files :: "machine \<Rightarrow> path list \<Rightarrow> path list agent" where
  "elf_files m [] = give []"
| "elf_files m (dir # dirs) =
     chain (caught (read_dir m dir) (\<lambda>r. case r of
         Inl _ \<Rightarrow> give []
       | Inr names \<Rightarrow> in_turn (\<lambda>name.
           if prefix ''llvmjit'' name then give []
           else caught (stat m (dir @ [name])) (\<lambda>s. give (case s of Inr (File _ _) \<Rightarrow> [dir @ [name]] | _ \<Rightarrow> []))) names)) (\<lambda>found.
     chain (elf_files m dirs) (\<lambda>more.
     give (concat found @ more)))"

section \<open>The jobs\<close>

definition version_here :: "machine \<Rightarrow> string agent" where
  "version_here m = chain (pg_config m ''--version'') (\<lambda>v.
     lift_res (ok_or ''pg_config reported no version this agent understands'' (major_label v)))"

text \<open>The libraries one after the other, and the directories they end up in, each once.\<close>

fun copy_libraries :: "machine \<Rightarrow> path list \<Rightarrow> string list \<Rightarrow> copied \<Rightarrow> (string list \<times> copied) agent" where
  "copy_libraries m [] dirs c = give (dirs, c)"
| "copy_libraries m (lib # libs) dirs c =
     (let target = mirrored stage_dir lib; parent = show_path (butlast target) in
      chain (copy_file m lib target c) (\<lambda>c'.
      copy_libraries m libs (if parent \<in> set dirs then dirs else dirs @ [parent]) c'))"

definition resolve_on :: "machine \<Rightarrow> path list \<Rightarrow> path list \<Rightarrow> path list agent" where
  "resolve_on m roots skip = sys m unchanged (\<lambda>d. (resolve_dependencies d roots skip, d))"

definition stage :: "machine \<Rightarrow> (stage_report \<Rightarrow> string + string) \<Rightarrow> unit agent" where
  "stage m encode =
     chain (pg_config m ''--bindir'') (\<lambda>bindir.
     chain (pg_config m ''--sharedir'') (\<lambda>sharedir.
     chain (pg_config m ''--pkglibdir'') (\<lambda>pkglibdir.
     chain (version_here m) (\<lambda>version.
     chain (read_pg_version m pgdata) (\<lambda>data_version.
     if data_version \<noteq> version
     then bail (''this image carries PostgreSQL '' @ version @ '', but the cluster in the volume is '' @ data_version @
       ''. The staging image must be the one the cluster is running '' @ em_dash @ '' upgrade from the image it is on.'')
     else chain (path_exists m stage_dir) (\<lambda>there.
     chain (if there then context_of (''failed to clear '' @ show_path stage_dir) (remove_dir_all m stage_dir) else give ()) (\<lambda>_.
     chain (context_of (''failed to create '' @ show_path stage_dir) (create_dir_all m stage_dir)) (\<lambda>_.
     chain (copy_each (\<lambda>dir. copy_tree m (names_of dir) (mirrored stage_dir (names_of dir))) [bindir, sharedir, pkglibdir]
       copied_default) (\<lambda>c.
     chain (elf_files m [names_of bindir, names_of pkglibdir]) (\<lambda>roots.
     chain (resolve_on m roots [names_of bindir, names_of pkglibdir]) (\<lambda>libraries.
     chain (copy_libraries m (sort libraries) [] c) (\<lambda>(dirs, c').
     let place_of = (\<lambda>dir. show_path (mirrored stage_dir (names_of dir))) in
     chain (lift_res (print_report encode \<lparr> sr_version = version, sr_bindir = place_of bindir, sr_sharedir = place_of sharedir,
       sr_pkglibdir = place_of pkglibdir, sr_lib_dirs = dirs @ [place_of pkglibdir], sr_files = cp_files c', sr_bytes = cp_bytes c' \<rparr>))
       prints))))))))))))"

definition probe_image :: "machine \<Rightarrow> (probe_report \<Rightarrow> string + string) \<Rightarrow> unit agent" where
  "probe_image m encode =
     chain (version_here m) (\<lambda>version.
     chain (caught (read_pg_version m pgdata) (\<lambda>r. give (to_opt r))) (\<lambda>data_version.
     chain (pg_config m ''--bindir'') (\<lambda>bindir.
     chain (lift_res (print_report encode \<lparr> pr_version = version, pr_bindir = bindir, pr_data_version = data_version \<rparr>)) prints)))"

section \<open>What staging may touch\<close>

definition staging :: "path \<Rightarrow> bool" where
  "staging p \<longleftrightarrow> prefix stage_dir p \<or> p \<noteq> [] \<and> prefix p stage_dir"

lemma staging_up: "prefix stage_dir target \<Longrightarrow> q \<noteq> [] \<Longrightarrow> prefix q target \<Longrightarrow> staging q"
  unfolding staging_def by (meson prefix_same_cases)

lemma staging_dir [touch_intros]: "prefix stage_dir target \<Longrightarrow> obeys (touches staging) (create_dir_all m target)"
  by (intro touches_create_dir_all) (rule staging_up)

lemma staging_parent: "prefix stage_dir target \<Longrightarrow> obeys (touches staging) (create_dir_all m (butlast target))"
  by (intro touches_create_dir_all) (auto intro: staging_up prefix_order.trans [OF _ prefixeq_butlast])

lemma staging_copy: "prefix stage_dir target \<Longrightarrow> obeys (touches staging) (copy_file m source target c)"
proof -
  assume t: "prefix stage_dir target"
  then have "staging target" "target \<noteq> []" by (auto simp: staging_def stage_dir_def)
  moreover from this have "obeys (touches staging) (copy_bytes m source target)"
    unfolding copy_bytes_def
    by (intro touches_sys) (auto simp: copy_at_def entry_place split: option.splits node.splits sum.splits)
  ultimately show ?thesis
    unfolding copy_file_def using t by (auto intro!: touch_intros staging_parent)
qed

lemma staging_each: "(\<And>n c. n \<in> set ns \<Longrightarrow> obeys R (f n c)) \<Longrightarrow> agent_effect R \<Longrightarrow> obeys R (copy_each f ns c)"
proof (induction ns arbitrary: c)
  case Nil
  then show ?case by (simp add: agent_effect.give)
next
  case (Cons n ns)
  then show ?case by (auto intro!: agent_effect.chain)
qed

lemma touches_effect: "agent_effect (touches T)"
  by unfold_locales

lemma staging_tree: "prefix stage_dir target \<Longrightarrow> obeys (touches staging) (copy_tree m source target c)"
proof (induction m source target c rule: copy_tree.induct)
  case (1 m source target c)
  have stat: "obeys (touches staging) (stat_path m p)" for p
    unfolding stat_path_def by (intro touch_intros)
  have inner: "prefix stage_dir (target @ [name])" for name using 1(2) by (rule prefix_prefix)
  have one: "obeys (touches staging) (if name = ''bitcode'' then give k
      else caught (stat_path m (source @ [name])) (\<lambda>r. case r of
          Inr (Folder _) \<Rightarrow> copy_tree m (source @ [name]) (target @ [name]) k
        | Inr (File _ _) \<Rightarrow> copy_file m (source @ [name]) (target @ [name]) k
        | Inl _ \<Rightarrow> give k))" if "\<not> 4096 \<le> path_bytes source" for name k
    using 1(1) [OF that] inner [of name] stat
    by (auto intro!: touch_intros staging_copy split: sum.split node.split)
  show ?case
    using 1(2) by (subst copy_tree.simps)
      (auto intro!: touch_intros staging_copy staging_each [OF one touches_effect] split: node.split)
qed

lemma staging_libraries: "obeys (touches staging) (copy_libraries m libs dirs c)"
  by (induction libs arbitrary: dirs c) (auto simp: Let_def mirrored_def intro!: touch_intros staging_copy)

lemma staging_files: "obeys (touches T) (elf_files m dirs)"
  by (induction dirs) (auto intro!: touch_intros split: sum.split)


definition quiet_machine :: machine where
  "quiet_machine = \<lparr> ma_fault = \<lambda>_. None, ma_tool = (\<lambda>t argv cwd d. (said ''PostgreSQL 17.2'', d)), ma_millis = \<lambda>t. t, ma_epoch = \<lambda>_. 7 \<rparr>"


end
