(* ===== verification/Store.thy ===== *)
theory Store
  imports Registry
begin

text \<open>
  What the registry promises: a store of maps, with no tables, no order, no
  timestamps and no encoded phases, and the operations on it.  The tables of
  \<^verbatim>\<open>pgpod-registry\<close> refine it, operation by operation and over any history.
\<close>

section \<open>The promise\<close>

record cluster_state =
  cs_manifest :: string
  cs_generation :: int
  cs_phase :: string

record pooler_state =
  ps_manifest :: string
  ps_generation :: int
  ps_container_name :: string
  ps_container_id :: "string option"
  ps_host_port :: "16 word"
  ps_phase :: string

record store =
  st_clusters :: "string \<rightharpoonup> cluster_state"
  st_instances :: "string \<times> 32 word \<rightharpoonup> instance_record"
  st_poolers :: "string \<rightharpoonup> pooler_state"
  st_pools :: "string \<times> string \<rightharpoonup> string \<times> string"

definition empty_store :: store where
  "empty_store = \<lparr> st_clusters = Map.empty, st_instances = Map.empty, st_poolers = Map.empty, st_pools = Map.empty \<rparr>"

text \<open>Why a write is refused: its manifest cannot be written, it names what is not there or is there already, or a
  pooler still fronts the cluster.\<close>

datatype refusal = Unwritable | Rejected | Fronted

datatype ('m, 'p) command = PutCluster int 'm string | SetClusterPhase int cluster_id string | DeleteCluster cluster_id
  | PutInstance int instance_record
  | PutPooler int 'p string "string option" "16 word" string "pooler_pool list"
  | SetPoolerPhase int pooler_id string | DeletePooler pooler_id
  | RecordEvent int string "32 word option" string string

definition generation_after :: "(string \<times> int) option \<Rightarrow> string \<Rightarrow> int" where
  "generation_after old encoded = (case old of None \<Rightarrow> 1 | Some (was, g) \<Rightarrow> if was = encoded then g else g + 1)"

definition promised :: "'m manifest_codec \<Rightarrow> 'p manifest_codec \<Rightarrow> ('m, 'p) command \<Rightarrow> store \<Rightarrow> refusal + store" where
  "promised mc pc c s = (case c of
     PutCluster now m phase \<Rightarrow> (case mc_encode mc m of
         Inl _ \<Rightarrow> Inl Unwritable
       | Inr encoded \<Rightarrow> Inr (s\<lparr> st_clusters := (st_clusters s)(mc_name mc m \<mapsto> \<lparr> cs_manifest = encoded,
           cs_generation = generation_after (map_option (\<lambda>r. (cs_manifest r, cs_generation r)) (st_clusters s (mc_name mc m))) encoded,
           cs_phase = phase \<rparr>) \<rparr>))
   | SetClusterPhase now cl phase \<Rightarrow> Inr (s\<lparr> st_clusters := (st_clusters s)(cluster_str cl :=
       map_option (\<lambda>r. r\<lparr> cs_phase := phase \<rparr>) (st_clusters s (cluster_str cl))) \<rparr>)
   | DeleteCluster cl \<Rightarrow>
       if cluster_str cl \<in> fst ` ran (st_pools s) then Inl Fronted
       else Inr (s\<lparr> st_clusters := (st_clusters s)(cluster_str cl := None),
         st_instances := (\<lambda>k. if fst k = cluster_str cl then None else st_instances s k) \<rparr>)
   | PutInstance now r \<Rightarrow>
       if st_clusters s (in_cluster r) = None then Inl Rejected
       else Inr (s\<lparr> st_instances := (st_instances s)((in_cluster r, in_ordinal r) \<mapsto> r) \<rparr>)
   | PutPooler now m cname cid port phase pools \<Rightarrow> (case mc_encode pc m of
         Inl _ \<Rightarrow> Inl Unwritable
       | Inr encoded \<Rightarrow>
           (let name = mc_name pc m in
            if \<not> distinct (map pp_pool_name pools) \<or> (\<exists>p\<in>set pools. st_clusters s (pp_cluster p) = None) then Inl Rejected
            else Inr (s\<lparr> st_poolers := (st_poolers s)(name \<mapsto> \<lparr> ps_manifest = encoded,
                ps_generation = generation_after (map_option (\<lambda>r. (ps_manifest r, ps_generation r)) (st_poolers s name)) encoded,
                ps_container_name = cname, ps_container_id = cid, ps_host_port = port, ps_phase = phase \<rparr>),
              st_pools := (\<lambda>k. if fst k = name
                then map_of (map (\<lambda>p. ((name, pp_pool_name p), (pp_cluster p, pp_database p))) pools) k
                else st_pools s k) \<rparr>)))
   | SetPoolerPhase now p phase \<Rightarrow> Inr (s\<lparr> st_poolers := (st_poolers s)(pooler_str p :=
       map_option (\<lambda>r. r\<lparr> ps_phase := phase \<rparr>) (st_poolers s (pooler_str p))) \<rparr>)
   | DeletePooler p \<Rightarrow> Inr (s\<lparr> st_poolers := (st_poolers s)(pooler_str p := None),
       st_pools := (\<lambda>k. if fst k = pooler_str p then None else st_pools s k) \<rparr>)
   | RecordEvent now cl n level msg \<Rightarrow> Inr s)"

section \<open>The registry\<close>

definition executed :: "'m manifest_codec \<Rightarrow> 'p manifest_codec \<Rightarrow> ('m, 'p) command \<Rightarrow> registry \<Rightarrow> registry_error + registry" where
  "executed mc pc c db = (case c of
     PutCluster now m phase \<Rightarrow> map_sum id fst (put_cluster mc now m phase db)
   | SetClusterPhase now cl phase \<Rightarrow> Inr (set_cluster_phase now cl phase db)
   | DeleteCluster cl \<Rightarrow> delete_cluster cl db
   | PutInstance now r \<Rightarrow> put_instance now r db
   | PutPooler now m cname cid port phase pools \<Rightarrow> map_sum id fst (put_pooler pc now m cname cid port phase pools db)
   | SetPoolerPhase now p phase \<Rightarrow> Inr (set_pooler_phase now p phase db)
   | DeletePooler p \<Rightarrow> Inr (delete_pooler p db)
   | RecordEvent now cl n level msg \<Rightarrow> Inr (record_event now cl n level msg db))"

fun refusal_of :: "registry_error \<Rightarrow> refusal" where
  "refusal_of (Corrupt _) = Unwritable"
| "refusal_of (PoolerInUse _ _) = Fronted"
| "refusal_of _ = Rejected"

definition cluster_view :: "cluster_row \<Rightarrow> cluster_state" where
  "cluster_view r = \<lparr> cs_manifest = cr_manifest r, cs_generation = cr_generation r, cs_phase = cr_phase r \<rparr>"

definition pooler_view :: "pooler_row \<Rightarrow> pooler_state" where
  "pooler_view r = \<lparr> ps_manifest = pw_manifest r, ps_generation = pw_generation r, ps_container_name = pw_container_name r,
     ps_container_id = pw_container_id r, ps_host_port = pw_host_port r, ps_phase = pw_phase r \<rparr>"

text \<open>What the tables stand for.\<close>

definition view :: "registry \<Rightarrow> store" where
  "view db = \<lparr> st_clusters = (\<lambda>k. map_option cluster_view (tbl_get (db_clusters db) k)),
     st_instances = (\<lambda>k. map_option (read_instance k) (tbl_get (db_instances db) k)),
     st_poolers = (\<lambda>k. map_option pooler_view (tbl_get (db_poolers db) k)),
     st_pools = tbl_get (db_pooler_clusters db) \<rparr>"

lemma read_row_of: "read_instance (in_cluster r, in_ordinal r) (row_of_instance created r) = r"
  using instance_of_row_of [of r created] by (simp add: read_instance_def)

lemma map_sum_Inr: "map_sum f g r = Inr y \<longleftrightarrow> (\<exists>x. r = Inr x \<and> y = g x)"
  by (cases r) auto

lemma executed_keeps:
  assumes "executed mc pc c db = Inr db'" "reg_ok db"
  shows "reg_ok db'"
proof -
  have "reg_write mc pc db db'"
    using assms(1) by (cases c; cases "executed mc pc c db")
      (auto simp: executed_def map_sum_Inr split: sum.splits intro: reg_write.intros)
  then show ?thesis by (rule reg_write_ok) (rule assms(2))
qed

section \<open>Each operation keeps the promise\<close>

definition keeps_promise :: "'m manifest_codec \<Rightarrow> 'p manifest_codec \<Rightarrow> ('m, 'p) command \<Rightarrow> registry \<Rightarrow> bool" where
  "keeps_promise mc pc c db \<longleftrightarrow> map_sum refusal_of view (executed mc pc c db) = promised mc pc c (view db)"

lemmas promise_defs = keeps_promise_def executed_def promised_def view_def generation_after_def next_generation_def

lemma put_cluster_promise: "reg_ok db \<Longrightarrow> keeps_promise mc pc (PutCluster now m phase) db"
  by (auto simp: promise_defs put_cluster_def Let_def fun_eq_iff tbl_get_put reg_okD cluster_view_def
      split: sum.split option.split)

lemma phase_promise:
  "reg_ok db \<Longrightarrow> keeps_promise mc pc (SetClusterPhase now cl phase) db"
  "reg_ok db \<Longrightarrow> keeps_promise mc pc (SetPoolerPhase now p phase) db"
  using reg_okD(1,3) [of db]
  by (cases "tbl_get (db_clusters db) (cluster_str cl)"; cases "tbl_get (db_poolers db) (pooler_str p)";
      simp add: promise_defs set_cluster_phase_def set_pooler_phase_def fun_eq_iff tbl_get_put cluster_view_def pooler_view_def)+

lemma fronts_iff:
  assumes "reg_ok db"
  shows "find (\<lambda>(k, r). fst r = n) (db_pooler_clusters db) = None \<longleftrightarrow> n \<notin> fst ` ran (tbl_get (db_pooler_clusters db))"
proof -
  have "fst ` ran (tbl_get (db_pooler_clusters db)) = (\<lambda>(k, r). fst r) ` set (db_pooler_clusters db)"
    using tbl_mem [OF reg_okD(4) [OF assms]] by (force simp: ran_def image_iff)
  then show ?thesis by (force simp: find_None_iff)
qed

lemma view_del:
  "(\<lambda>k. map_option f (if k = n then None else g k)) = (\<lambda>k. map_option f (g k))(n := None)"
  "(\<lambda>k. map_option (h k) (if fst k = n then None else g' k)) = (\<lambda>k. if fst k = n then None else map_option (h k) (g' k))"
  by auto

lemma delete_cluster_promise:
  assumes "reg_ok db"
  shows "keeps_promise mc pc (DeleteCluster cl) db"
proof (cases "find (\<lambda>(k, r). fst r = cluster_str cl) (db_pooler_clusters db)")
  case None
  moreover have "cluster_str cl \<notin> fst ` ran (tbl_get (db_pooler_clusters db))" using None fronts_iff [OF assms] by blast
  ultimately show ?thesis by (simp add: promise_defs delete_cluster_def tbl_get_del view_del) (rule ext, simp)
next
  case (Some e)
  then have "cluster_str cl \<in> fst ` ran (tbl_get (db_pooler_clusters db))" using fronts_iff [OF assms, of "cluster_str cl"] by simp
  moreover obtain k r where "e = (k, r)" by (cases e)
  ultimately show ?thesis using Some by (simp add: promise_defs delete_cluster_def)
qed

lemma put_instance_promise: "reg_ok db \<Longrightarrow> keeps_promise mc pc (PutInstance now r) db"
  by (auto simp: promise_defs put_instance_def Let_def fun_eq_iff tbl_get_put reg_okD read_row_of)

lemma pools_promise:
  assumes "reg_ok db"
  shows "case insert_pools db name pools (tbl_del (\<lambda>k. fst k = name) (db_pooler_clusters db)) of
      Inl e \<Rightarrow> refusal_of e = Rejected \<and>
        (\<not> distinct (map pp_pool_name pools) \<or> (\<exists>p\<in>set pools. tbl_get (db_clusters db) (pp_cluster p) = None))
    | Inr t \<Rightarrow> distinct (map pp_pool_name pools) \<and> (\<forall>p\<in>set pools. tbl_get (db_clusters db) (pp_cluster p) \<noteq> None) \<and>
        (\<forall>k. tbl_get t k = (if fst k = name
          then map_of (map (\<lambda>p. ((name, pp_pool_name p), (pp_cluster p, pp_database p))) pools) k
          else tbl_get (db_pooler_clusters db) k))"
proof -
  let ?t = "tbl_del (\<lambda>k. fst k = name) (db_pooler_clusters db)"
  have ok: "tbl_ok ?t" using reg_okD(4) [OF assms] by (rule tbl_ok_del)
  have gone: "tbl_get ?t (name, x) = None" for x by (simp add: tbl_get_del)
  have kinds: "refusal_of e = Rejected" if "insert_pools db name pools t = Inl e" for e t
    using that by (induction pools arbitrary: t) (auto split: if_splits)
  have elsewhere: "map_of (map (\<lambda>p. ((name, pp_pool_name p), (pp_cluster p, pp_database p))) pools) k = None"
    if "fst k \<noteq> name" for k using that by (auto simp: map_of_eq_None_iff)
  show ?thesis
  proof (cases "insert_pools db name pools ?t")
    case (Inl e)
    then show ?thesis using kinds [OF Inl] insert_pools_iff [OF ok, of db name pools] gone by auto
  next
    case (Inr t)
    then show ?thesis
      using insert_pools_iff [OF ok, of db name pools] insert_pools_get [OF ok Inr] elsewhere
      by (auto simp: tbl_get_del split: option.split)
  qed
qed

lemma put_pooler_promise:
  assumes "reg_ok db"
  shows "keeps_promise mc pc (PutPooler now m cname cid port phase pools) db"
  using pools_promise [OF assms, where name = "mc_name pc m" and pools = pools] reg_okD(3) [OF assms]
  by (auto simp: promise_defs put_pooler_def Let_def fun_eq_iff tbl_get_put pooler_view_def
      split: sum.split sum.split_asm option.split prod.split)

lemma delete_pooler_promise: "keeps_promise mc pc (DeletePooler p) db" "keeps_promise mc pc (RecordEvent now cn n l msg) db"
  by (auto simp: promise_defs delete_pooler_def record_event_def fun_eq_iff tbl_get_del)

lemma promise_kept: "reg_ok db \<Longrightarrow> map_sum refusal_of view (executed mc pc c db) = promised mc pc c (view db)"
  unfolding keeps_promise_def [symmetric]
  by (cases c) (simp_all add: put_cluster_promise phase_promise delete_cluster_promise put_instance_promise put_pooler_promise
    delete_pooler_promise)

section \<open>Histories\<close>

text \<open>Any sequence of operations, with what was refused on the way; a refused operation changes nothing.\<close>

fun history :: "('c \<Rightarrow> 's \<Rightarrow> 'e + 's) \<Rightarrow> 's \<Rightarrow> 'c list \<Rightarrow> 'e option list \<times> 's" where
  "history step s [] = ([], s)"
| "history step s (c # cs) = (case step c s of
      Inl e \<Rightarrow> map_prod ((#) (Some e)) id (history step s cs)
    | Inr s' \<Rightarrow> map_prod ((#) None) id (history step s' cs))"

lemma history_refines:
  "reg_ok db \<Longrightarrow> map_prod (map (map_option refusal_of)) view (history (executed mc pc) db cs) = history (promised mc pc) (view db) cs"
proof (induction cs arbitrary: db)
  case (Cons c cs)
  have push: "map_prod (map g) h (map_prod ((#) x) id r) = map_prod ((#) (g x)) id (map_prod (map g) h r)" for g h x r
    by (cases r) simp
  show ?case
  proof (cases "executed mc pc c db")
    case (Inl e)
    then have "promised mc pc c (view db) = Inl (refusal_of e)" using promise_kept [OF Cons.prems, of mc pc c] by simp
    with Inl show ?thesis by (simp add: push Cons.IH [OF Cons.prems])
  next
    case (Inr db')
    then have "promised mc pc c (view db) = Inr (view db')" using promise_kept [OF Cons.prems, of mc pc c] by simp
    with Inr show ?thesis by (simp add: push Cons.IH [OF executed_keeps [OF Inr Cons.prems]])
  qed
qed simp

text \<open>C11: The registry is the promised store.  Whatever sequence of writes it is given, starting empty, each is accepted or
  refused as the store of maps does, for the same reason, and what the tables stand for at the end is what the
  store holds.\<close>

theorem registry_refines_store:
  "map_prod (map (map_option refusal_of)) view (history (executed mc pc) empty_registry cs) =
     history (promised mc pc) empty_store cs"
proof -
  have "view empty_registry = empty_store"
    by (simp add: view_def empty_store_def empty_registry_def tbl_get_def fun_eq_iff)
  with history_refines [OF empty_reg_ok] show ?thesis by metis
qed

end
