(* ===== verification/Supervise.thy ===== *)
theory Supervise
  imports Prelude
begin

text \<open>
  The agent as PID 1 over the program of its container, PostgreSQL (\<^verbatim>\<open>pgpod-agent/src/supervise.rs\<close>) or
  pg\_doorman (\<^verbatim>\<open>pooler/mod.rs\<close>): it turns signals into the ones the program is to get, reaps every child, and
  ends with the program's exit status.  The kernel's part is what signals do: several of a kind that were not
  handled yet are one, and none is seen before its handler is installed.
\<close>

datatype program = Postgres | Doorman

fun program_name :: "program \<Rightarrow> string" where
  "program_name Postgres = ''postgres''"
| "program_name Doorman = ''pg_doorman''"

section \<open>Reaping\<close>

text \<open>What \<^verbatim>\<open>waitpid\<close> can say of a child; other states are ignored.\<close>

datatype wait_status = WExited nat int | WSignaled nat nat | WOther | WFailed string

text \<open>The statuses that are waiting to be reaped, in the order they are given, and how many children live.\<close>

fun reap :: "program \<Rightarrow> nat \<Rightarrow> wait_status list \<Rightarrow> nat \<Rightarrow> (string + int option) \<times> wait_status list" where
  "reap prog pg [] alive =
     (if alive = 0 then Inl (program_name prog @ '' disappeared without reporting an exit status'') else Inr None, [])"
| "reap prog pg (WExited pid code # ws) alive = (if pid = pg then (Inr (Some code), ws) else reap prog pg ws alive)"
| "reap prog pg (WSignaled pid sig # ws) alive = (if pid = pg then (Inr (Some (128 + int sig)), ws) else reap prog pg ws alive)"
| "reap prog pg (WOther # ws) alive = reap prog pg ws alive"
| "reap prog pg (WFailed e # ws) alive = (Inl (''waitpid failed: '' @ e), ws)"

section \<open>The supervisor\<close>

datatype posix_signal = SIGTERM | SIGINT | SIGHUP

text \<open>What a signal to the agent becomes; a program without an entry has no handler for it.\<close>

fun translated :: "program \<Rightarrow> posix_signal \<Rightarrow> posix_signal option" where
  "translated Postgres SIGTERM = Some SIGINT"
| "translated Postgres SIGINT = Some SIGINT"
| "translated Postgres SIGHUP = None"
| "translated Doorman SIGTERM = Some SIGTERM"
| "translated Doorman SIGINT = Some SIGTERM"
| "translated Doorman SIGHUP = Some SIGHUP"

text \<open>Signals that arrived and were not handled, and what was sent to the program, latest first.\<close>

record supervisor =
  sv_listening :: bool
  sv_pending :: "posix_signal list"
  sv_chld :: bool
  sv_waiting :: "wait_status list"
  sv_alive :: nat
  sv_sent :: "posix_signal list"
  sv_result :: "(string + int) option"

text \<open>The program has been spawned, and no handler is installed yet.\<close>

definition spawned :: supervisor where
  "spawned = \<lparr> sv_listening = False, sv_pending = [], sv_chld = False, sv_waiting = [], sv_alive = 1, sv_sent = [],
     sv_result = None \<rparr>"

text \<open>What happens to the agent, and what the agent does.\<close>

datatype happening = Signal posix_signal | Adopted | Died wait_status | Install | OnSignal posix_signal | OnChild

fun died_ok :: "wait_status \<Rightarrow> bool" where
  "died_ok (WExited _ _) = True" | "died_ok (WSignaled _ _) = True" | "died_ok _ = False"

definition on_child :: "program \<Rightarrow> nat \<Rightarrow> supervisor \<Rightarrow> supervisor" where
  "on_child prog pg s = (case reap prog pg (sv_waiting s) (sv_alive s) of (r, ws) \<Rightarrow>
     s\<lparr> sv_waiting := ws, sv_result := (case r of Inl e \<Rightarrow> Some (Inl e) | Inr None \<Rightarrow> None | Inr (Some c) \<Rightarrow> Some (Inr c)) \<rparr>)"

definition on_signal :: "program \<Rightarrow> posix_signal \<Rightarrow> supervisor \<Rightarrow> supervisor" where
  "on_signal prog sig s = s\<lparr> sv_pending := removeAll sig (sv_pending s),
     sv_sent := (case translated prog sig of Some out \<Rightarrow> out # sv_sent s | None \<Rightarrow> sv_sent s) \<rparr>"

text \<open>One arm of the loop runs when its signal is there; nothing does after the result.\<close>

fun supervise :: "program \<Rightarrow> nat \<Rightarrow> supervisor \<Rightarrow> happening \<Rightarrow> supervisor option" where
  "supervise prog pg s (Signal sig) = Some (if sv_listening s \<and> translated prog sig \<noteq> None
     then s\<lparr> sv_pending := List.insert sig (sv_pending s) \<rparr> else s)"
| "supervise prog pg s Adopted = Some (s\<lparr> sv_alive := Suc (sv_alive s) \<rparr>)"
| "supervise prog pg s (Died w) = (if died_ok w \<and> 0 < sv_alive s
     then Some (s\<lparr> sv_alive := sv_alive s - 1, sv_waiting := sv_waiting s @ [w], sv_chld := sv_chld s \<or> sv_listening s \<rparr>)
     else None)"
| "supervise prog pg s Install = (if \<not> sv_listening s then Some (s\<lparr> sv_listening := True \<rparr>) else None)"
| "supervise prog pg s (OnSignal sig) = (if sig \<in> set (sv_pending s) \<and> sv_result s = None then Some (on_signal prog sig s) else None)"
| "supervise prog pg s OnChild = (if sv_chld s \<and> sv_result s = None then Some (on_child prog pg (s\<lparr> sv_chld := False \<rparr>)) else None)"

fun supervised :: "program \<Rightarrow> nat \<Rightarrow> supervisor \<Rightarrow> happening list \<Rightarrow> supervisor option" where
  "supervised prog pg s [] = Some s"
| "supervised prog pg s (h # hs) = Option.bind (supervise prog pg s h) (\<lambda>s'. supervised prog pg s' hs)"

section \<open>No exit is missed\<close>

definition status_of_pid :: "nat \<Rightarrow> wait_status \<Rightarrow> int option" where
  "status_of_pid pg w = (case w of WExited pid c \<Rightarrow> if pid = pg then Some c else None
     | WSignaled pid sig \<Rightarrow> if pid = pg then Some (128 + int sig) else None | _ \<Rightarrow> None)"

definition waiting_for :: "nat \<Rightarrow> supervisor \<Rightarrow> int option" where
  "waiting_for pg s = (case filter (\<lambda>w. status_of_pid pg w \<noteq> None) (sv_waiting s) of [] \<Rightarrow> None | w # _ \<Rightarrow> status_of_pid pg w)"

lemma reap_finds:
  assumes "list_all died_ok ws"
  shows "fst (reap prog pg ws alive) = (case filter (\<lambda>w. status_of_pid pg w \<noteq> None) ws of
      [] \<Rightarrow> if alive = 0 then Inl (program_name prog @ '' disappeared without reporting an exit status'') else Inr None
    | w # _ \<Rightarrow> Inr (status_of_pid pg w))"
  using assms by (induction pg ws alive rule: reap.induct) (auto simp: status_of_pid_def)

lemma reap_rest: "list_all died_ok ws \<Longrightarrow> list_all died_ok (snd (reap prog pg ws alive))"
  by (induction pg ws alive rule: reap.induct) auto

lemma reap_leaves: "list_all died_ok ws \<Longrightarrow> fst (reap prog pg ws alive) = Inr None \<Longrightarrow> snd (reap prog pg ws alive) = []"
  by (induction pg ws alive rule: reap.induct) (auto split: if_splits)

text \<open>Whatever waits to be reaped has its signal pending, or there is a result.\<close>

definition heard :: "supervisor \<Rightarrow> bool" where
  "heard s \<longleftrightarrow> sv_listening s \<and> list_all died_ok (sv_waiting s) \<and> (sv_waiting s \<noteq> [] \<longrightarrow> sv_chld s \<or> sv_result s \<noteq> None)"

lemma supervise_heard: "heard s \<Longrightarrow> supervise prog pg s h = Some s' \<Longrightarrow> heard s'"
proof (induction pg s h rule: supervise.induct)
  case (6 prog pg s)
  obtain r ws where r: "reap prog pg (sv_waiting s) (sv_alive s) = (r, ws)" by force
  have "list_all died_ok (sv_waiting s)" using 6(1) by (simp add: heard_def)
  from reap_rest [OF this, of prog pg "sv_alive s"] reap_leaves [OF this, of prog pg "sv_alive s"] 6 show ?case
    by (auto simp: heard_def on_child_def r split: if_splits sum.splits option.splits)
qed (auto simp: heard_def on_signal_def split: if_splits)

lemma supervised_heard: "heard s \<Longrightarrow> supervised prog pg s hs = Some s' \<Longrightarrow> heard s'"
  by (induction hs arbitrary: s) (auto simp: bind_eq_Some_conv dest: supervise_heard)

text \<open>C25: The supervisor ends with the status of its program.  Once its handlers are installed before a child has died,
  then after whatever happens, as long as there is no result, an exit of the program that waits to be reaped is
  one the agent is about to handle, and handling it makes its status the result, the conventional code for a
  signal included.\<close>

theorem exit_is_reported:
  assumes "supervised prog pg (spawned\<lparr> sv_listening := True \<rparr>) hs = Some s" "waiting_for pg s = Some code" "sv_result s = None"
  shows "\<exists>s'. supervise prog pg s OnChild = Some s' \<and> sv_result s' = Some (Inr code)"
proof -
  have "heard (spawned\<lparr> sv_listening := True \<rparr>)" by (simp add: heard_def spawned_def)
  from supervised_heard [OF this assms(1)] have h: "heard s" .
  obtain w ws where w: "filter (\<lambda>w. status_of_pid pg w \<noteq> None) (sv_waiting s) = w # ws" "status_of_pid pg w = Some code"
    using assms(2) by (auto simp: waiting_for_def split: list.splits)
  then have "sv_waiting s \<noteq> []" by auto
  with h assms(3) have "sv_chld s" by (simp add: heard_def)
  moreover have "fst (reap prog pg (sv_waiting s) (sv_alive s)) = Inr (Some code)"
    using h w by (simp add: reap_finds heard_def)
  ultimately show ?thesis using assms(3) by (auto simp: on_child_def split: prod.splits)
qed

theorem exit_is_reported_witness:
  "\<exists>s'. supervise Postgres 7 (the (supervised Postgres 7 (spawned\<lparr> sv_listening := True \<rparr>)
      [Signal SIGTERM, Adopted, OnSignal SIGTERM, Died (WExited 9 0), Died (WSignaled 7 9)])) OnChild = Some s' \<and> sv_result s' = Some (Inr 137)"
  by (rule exit_is_reported [of Postgres 7 "[Signal SIGTERM, Adopted, OnSignal SIGTERM, Died (WExited 9 0), Died (WSignaled 7 9)]"])
    (simp_all add: spawned_def on_signal_def List.insert_def waiting_for_def status_of_pid_def)

text \<open>A program that dies before the handlers are installed is not heard of: no arm of the loop for it is open, until
  another child dies.\<close>

lemma early_exit_is_missed:
  assumes "supervised prog pg spawned [Died w, Install] = Some s"
  shows "supervise prog pg s (OnSignal sig) = None \<and> supervise prog pg s OnChild = None"
  using assms by (auto simp: spawned_def split: if_splits)

section \<open>Signals are translated\<close>

lemma supervise_sent:
  "supervise prog pg s h = Some s' \<Longrightarrow> set (sv_sent s') \<subseteq> set (sv_sent s) \<union> {out. \<exists>sig. translated prog sig = Some out}"
  by (induction prog pg s h rule: supervise.induct)
    (auto simp: on_signal_def on_child_def split: if_splits option.splits prod.splits)

text \<open>No program gets the signal that harms it.  Whatever signals the agent gets, PostgreSQL is only ever sent SIGINT,
  its fast shutdown, and never the SIGTERM that waits for its clients; pg\_doorman is never sent SIGINT, which would
  make it hand its socket over and exit.\<close>

theorem signals_are_translated:
  assumes "supervised prog pg spawned hs = Some s" "sig \<in> set (sv_sent s)"
  shows "case prog of Postgres \<Rightarrow> sig = SIGINT | Doorman \<Rightarrow> sig \<noteq> SIGINT"
proof -
  have "set (sv_sent s') \<subseteq> set (sv_sent r) \<union> {out. \<exists>sig. translated prog sig = Some out}"
    if "supervised prog pg r hs = Some s'" for r s'
    using that
  proof (induction hs arbitrary: r)
    case (Cons h hs)
    then obtain u where "supervise prog pg r h = Some u" "supervised prog pg u hs = Some s'"
      by (auto simp: bind_eq_Some_conv)
    with Cons.IH supervise_sent [of prog pg r h u] show ?case by blast
  qed simp
  from this [OF assms(1)] assms(2) obtain a where "translated prog a = Some sig" by (auto simp: spawned_def)
  then show ?thesis by (cases prog; cases a) auto
qed

theorem signals_are_translated_witness:
  "sv_sent (the (supervised Doorman 7 spawned [Install, Signal SIGINT, OnSignal SIGINT])) = [SIGTERM] \<and> SIGTERM \<noteq> SIGINT"
  using signals_are_translated [of Doorman 7 "[Install, Signal SIGINT, OnSignal SIGINT]" _ SIGTERM]
  by (simp add: spawned_def on_signal_def List.insert_def)

section \<open>Waiting for the server\<close>

text \<open>What \<^verbatim>\<open>pg_isready\<close> says when it is asked for the k-th time, and how many milliseconds that takes.\<close>

definition asks_again :: nat where "asks_again = 500"

function ready_by :: "(nat \<Rightarrow> nat \<times> bool) \<Rightarrow> nat \<Rightarrow> nat \<Rightarrow> nat \<Rightarrow> bool \<times> nat" where
  "ready_by isready deadline k now = (if now < deadline
     then (case isready k of (took, ok) \<Rightarrow>
       if ok then (True, now + took) else ready_by isready deadline (Suc k) (now + took + asks_again))
     else (False, now))"
  by pat_completeness auto
termination by (relation "measure (\<lambda>(_, deadline, _, now). deadline - now)") (auto simp: asks_again_def)

declare ready_by.simps [simp del]

definition wait_until_ready :: "(nat \<Rightarrow> nat \<times> bool) \<Rightarrow> nat \<Rightarrow> nat \<Rightarrow> bool \<times> nat" where
  "wait_until_ready isready timeout now = ready_by isready (now + timeout) 0 now"

definition asked_at :: "(nat \<Rightarrow> nat \<times> bool) \<Rightarrow> nat \<Rightarrow> nat" where
  "asked_at isready k = (\<Sum>j<k. fst (isready j) + asks_again)"

lemma asked_at_Suc: "asked_at isready (Suc k) = asked_at isready k + fst (isready k) + asks_again"
  by (simp add: asked_at_def)

lemma ready_by_exact:
  assumes "\<forall>j<k. \<not> snd (isready j)" "now = start + asked_at isready k"
  shows "fst (ready_by isready deadline k now) \<longleftrightarrow>
    (\<exists>n. snd (isready n) \<and> (\<forall>j<n. \<not> snd (isready j)) \<and> start + asked_at isready n < deadline)"
  using assms
proof (induction isready deadline k now rule: ready_by.induct)
  case (1 isready deadline k now)
  have later: "asked_at isready k \<le> asked_at isready n" if "k \<le> n" for n
    using that by (induction rule: dec_induct) (simp_all add: asked_at_Suc)
  have first: "k \<le> n" if "snd (isready n)" for n using 1(2) that by (meson not_le)
  show ?case
  proof (cases "now < deadline \<and> \<not> snd (isready k)")
    case True
    then have "\<forall>j<Suc k. \<not> snd (isready j)" using 1(2) by (auto simp: less_Suc_eq)
    moreover obtain took where "isready k = (took, False)" using True by (cases "isready k") auto
    ultimately show ?thesis using 1(1) [of took False] 1(3) True
      by (subst ready_by.simps) (simp add: asked_at_Suc)
  next
    case False
    then consider "now < deadline" "snd (isready k)" | "deadline \<le> now" by linarith
    then show ?thesis
    proof cases
      case 1
      then show ?thesis using \<open>\<forall>j<k. \<not> snd (isready j)\<close> \<open>now = start + asked_at isready k\<close>
        by (subst ready_by.simps) (auto split: prod.split)
    next
      case 2
      have "deadline \<le> start + asked_at isready n" if "snd (isready n)" for n
        using later [OF first [OF that]] 2 \<open>now = start + asked_at isready k\<close> by simp
      then show ?thesis using 2 by (subst ready_by.simps) (auto simp: not_less)
    qed
  qed
qed

text \<open>Waiting ends, and with success exactly when the first answer that the server is ready was asked for before the
  deadline.\<close>

lemma wait_until_ready_exact:
  "fst (wait_until_ready isready timeout now) \<longleftrightarrow>
    (\<exists>n. snd (isready n) \<and> (\<forall>j<n. \<not> snd (isready j)) \<and> asked_at isready n < timeout)"
  using ready_by_exact [of 0 isready now now "now + timeout"] by (simp add: wait_until_ready_def asked_at_def)

end
