(* ===== verification/Spec2Isabelle.thy ===== *)
theory Spec2Isabelle
  imports Cli Http Holds Staging Store Supervise
begin

text \<open>
  A model of pgpod, a PostgreSQL operator for rootless podman (\<^verbatim>\<open>src/crates\<close>), with the theorems that make it
  correct.  It follows the code: data as records and datatypes with the source's fields and constructors, one
  definition for each function, every error and early return a branch of it.

  \<^bold>\<open>The program.\<close>  \<^verbatim>\<open>pgpod\<close> is a command line over a library, \<^verbatim>\<open>pgpod-control\<close>.  The library keeps what it knows
  of clusters, instances and poolers in a SQLite file (\<^verbatim>\<open>pgpod-registry\<close>) and does its work with requests to
  podman (\<^verbatim>\<open>pgpod-runtime\<close>): a cluster is a volume, a network, some secrets and a container whose first process is
  \<^verbatim>\<open>pgpod-agent\<close>.  The agent gets its spec in one environment variable, prepares the volume, starts PostgreSQL and
  supervises it.  A pooler is a container of pg\_doorman under the same agent, which can hold the clients of a
  cluster while its container is replaced.  A major upgrade runs as jobs of the agent on the stopped volume.
  \<^verbatim>\<open>pgpod-core\<close> has the types all of them share, \<^verbatim>\<open>pgpod-pg\<close>, \<^verbatim>\<open>pgpod-backup\<close> and \<^verbatim>\<open>pgpod-pooler\<close> the texts for
  PostgreSQL, pgBackRest and pg\_doorman.  A daemon brings back at boot what was running.

  \<^bold>\<open>Foundations.\<close>
  \<^item> \<^verbatim>\<open>Prelude\<close>: results, the parts of Rust's string and integer library the code calls, and the locales of a text
    with its parser.  \<^verbatim>\<open>Bytes\<close>: lossy UTF-8, byte order, searches.
  \<^item> \<^verbatim>\<open>Engine\<close>: the world of a command, which is podman's state behind a record of endpoints (\<^verbatim>\<open>host\<close>), the clock,
    the store and the list of the requests made; actions on it, and the locale of what an action may do.  The
    interpretation \<^verbatim>\<open>within\<close> is the tool of most safety lemmas: which requests, and which writes.
  \<^item> \<^verbatim>\<open>Volume\<close>: the file system an agent sees, with the operations of \<^verbatim>\<open>std::fs\<close>, a fault at any of them and a loss
    of power; the locale \<^verbatim>\<open>agent_effect\<close> is its counterpart of \<^verbatim>\<open>within\<close>.

  \<^bold>\<open>Types and texts\<close> (\<^verbatim>\<open>pgpod-core\<close>, \<^verbatim>\<open>pgpod-pg\<close>, \<^verbatim>\<open>pgpod-backup\<close>, \<^verbatim>\<open>pgpod-pooler\<close>).
  \<^item> \<^verbatim>\<open>Lifecycle\<close>, \<^verbatim>\<open>Duration\<close>, \<^verbatim>\<open>Ids\<close>: \<^verbatim>\<open>lifecycle.rs\<close>, \<^verbatim>\<open>duration.rs\<close>, \<^verbatim>\<open>ids.rs\<close> and \<^verbatim>\<open>names.rs\<close>; parsers and
    printers are inverse, names are told apart.
  \<^item> \<^verbatim>\<open>Manifest\<close>, \<^verbatim>\<open>Specs\<close>, \<^verbatim>\<open>Versions\<close>: \<^verbatim>\<open>manifest.rs\<close>, \<^verbatim>\<open>spec.rs\<close>, \<^verbatim>\<open>backup.rs\<close>, \<^verbatim>\<open>upgrade.rs\<close>; what is accepted,
    and what the agent reads of what the daemon wrote.
  \<^item> \<^verbatim>\<open>Postgres\<close>, \<^verbatim>\<open>Repository\<close>, \<^verbatim>\<open>BackupInfo\<close>, \<^verbatim>\<open>Poolers\<close>: the rendered configurations and SQL, pgBackRest's
    configuration and its report, and the configuration of pg\_doorman.

  \<^bold>\<open>The store.\<close>  \<^verbatim>\<open>Registry\<close> has the tables, the constraints and every operation of \<^verbatim>\<open>pgpod-registry/src/lib.rs\<close>;
  \<^verbatim>\<open>Store\<close> is what it promises, as maps without tables or timestamps, and a refinement between the two.

  \<^bold>\<open>Podman.\<close>  \<^verbatim>\<open>Containers\<close>, \<^verbatim>\<open>Podman\<close>, \<^verbatim>\<open>Http\<close>: the container specification and the JSON sent for it, each
  operation of \<^verbatim>\<open>pgpod-runtime\<close>, and how an answer is read off the socket.

  \<^bold>\<open>The control plane\<close> (\<^verbatim>\<open>pgpod-control\<close>).
  \<^item> \<^verbatim>\<open>Control\<close>: errors, waiting, passwords.  \<^verbatim>\<open>Instances\<close>: what a manifest becomes and when a container diverges.
  \<^item> \<^verbatim>\<open>PoolerHold\<close>: the hold and the replacement behind it.  \<^verbatim>\<open>Apply\<close>, \<^verbatim>\<open>Delete\<close>, \<^verbatim>\<open>PoolerApply\<close>, \<^verbatim>\<open>Backup\<close>,
    \<^verbatim>\<open>Upgrade\<close>, \<^verbatim>\<open>StatusReport\<close>: the operations.  \<^verbatim>\<open>Resume\<close>, \<^verbatim>\<open>DaemonLock\<close>: boot recovery and the daemon's lock.
  \<^item> For each: what it asks of podman, what it writes, which rows and containers it leaves alone, and in which phase
    it ends when something fails.

  \<^bold>\<open>The agents\<close> (\<^verbatim>\<open>pgpod-agent\<close>).
  \<^item> \<^verbatim>\<open>Bootstrap\<close>, \<^verbatim>\<open>PoolerStart\<close>, \<^verbatim>\<open>Supervise\<close>: from the start of the container to the start of the server, and
    the first process.  \<^verbatim>\<open>UpgradeRun\<close>, \<^verbatim>\<open>Staging\<close>, \<^verbatim>\<open>Elf\<close>: the upgrade jobs, over files with faults.
  \<^item> \<^verbatim>\<open>Holds\<close>: the control requests of a pooler as interleaved tasks, with generations and deadlines.
    \<^verbatim>\<open>Admin\<close>: the protocol of its console, byte by byte.

  \<^bold>\<open>The command line\<close> (\<^verbatim>\<open>pgpod-cli\<close>).  \<^verbatim>\<open>Layout\<close> has the host's directories, \<^verbatim>\<open>Doctor\<close> the preflight checks,
  \<^verbatim>\<open>Commands\<close> the texts, \<^verbatim>\<open>Cli\<close> every command.  The two theorems below are about all commands: which of them
  can destroy data, and what any sequence of them makes of the store.

  \<^bold>\<open>How the components meet.\<close>  \<^verbatim>\<open>Cli\<close> calls the operations of the control plane; they are actions of \<^verbatim>\<open>Engine\<close> that
  call \<^verbatim>\<open>Podman\<close> and read and write a \<^verbatim>\<open>Registry\<close>.  \<^verbatim>\<open>Instances\<close> and \<^verbatim>\<open>PoolerApply\<close> write the environment that
  \<^verbatim>\<open>Bootstrap\<close> and \<^verbatim>\<open>PoolerStart\<close> read, by \<^verbatim>\<open>Specs\<close> and \<^verbatim>\<open>Poolers\<close>.  \<^verbatim>\<open>PoolerHold\<close> sends over an exec the requests
  whose effects are in \<^verbatim>\<open>Holds\<close>.  \<^verbatim>\<open>Upgrade\<close> starts the jobs of \<^verbatim>\<open>Staging\<close> and \<^verbatim>\<open>UpgradeRun\<close> and reads their reports by
  \<^verbatim>\<open>Versions\<close>.

  \<^bold>\<open>Integers, time, fuel.\<close>  Machine integers are words where the code can wrap or saturate; counts of lists are natural
  numbers.  The clock is in milliseconds and never goes back.  Waiting loops (\<^verbatim>\<open>Control.wait_until\<close>) have one unit of
  fuel for each 500 ms that are left until the deadline; each turn ends with a sleep of that length, so the fuel is
  not used up before the deadline.  All other loops are structural or have a termination proof: in the length
  of what is unread (\<^verbatim>\<open>Admin\<close>, \<^verbatim>\<open>Http\<close>, \<^verbatim>\<open>Elf\<close>), in the files not yet visited (\<^verbatim>\<open>Staging\<close>, \<^verbatim>\<open>Elf\<close>), in the time
  left (\<^verbatim>\<open>Supervise\<close>).

  \<^bold>\<open>Parameters.\<close>  Code outside the repository is an argument: the endpoints of podman, SQLite's file behind the tables,
  serde for JSON and YAML, chrono, MD5, the tools the agent runs, what the kernel answers.  Theorems that depend on
  one of them name what they need, such as that decoding gives back what was encoded, and their witnesses have
  concrete functions for it.

  \<^bold>\<open>Not modelled.\<close>  The parsing of arguments (derived by clap), the wrapper of the podman client
  (\<^verbatim>\<open>client.rs\<close>), log macros, the accept loops of the two sockets, the newtype that hides a secret from debug
  output, tests, and all that is not Rust.  Interleavings are modelled where the code has shared state of its own
  (\<^verbatim>\<open>Holds\<close>, \<^verbatim>\<open>DaemonLock\<close>, \<^verbatim>\<open>Supervise\<close>); two commands at the same time on one store are not, and a command that is
  killed is modelled in the agents (a loss of power) but not in the control plane.
\<close>

section \<open>Properties of the whole program\<close>

text \<open>C1: Only a purge destroys data.  Of all the commands, whatever the host answers and however they end, only
  \<^verbatim>\<open>delete --purge\<close> ever asks podman to remove a volume, and then a volume the store has for an instance of the named
  cluster, and only when no pooler fronts that cluster; none asks to prune volumes.\<close>

theorem only_purge_destroys:
  assumes "run_command ci cmd w = (r, w')" "asked_for x w w'" "x = CallVolumePrune \<or> x = CallVolumeDelete v"
  shows "\<exists>n c rows. cmd = CDelete n True \<and> cluster_id_new n = Inr c \<and> instances (wd_db w) c = Inr rows \<and>
    x = CallVolumeDelete v \<and> v \<in> in_volume_name ` set rows \<and>
    poolers_for_cluster (cn_poolers (ci_control ci)) (wd_db w) c = Inr []"
proof -
  have "purges cmd \<or> spares_volumes x"
    using asked_within [OF obeysD [OF command_within assms(1)] assms(2)] .
  then obtain n where cmd: "cmd = CDelete n True" using assms(3) by (auto simp: purges_def)
  have "w' \<noteq> w" using assms(2) by (auto simp: asked_for_def)
  then obtain c r' where c: "cluster_id_new n = Inr c" "delete (ci_control ci) c True w = (r', w')"
    using cli_delete_run [of ci n True w r w'] assms(1) cmd by auto
  from delete_asks [OF c(2) assms(2)] show ?thesis using assms(3) c(1) cmd by auto
qed

text \<open>C12: The store is whole after any session.  Every sequence of commands, with any host and files under each and any of
  them failing at any point, takes a store that keeps its constraints to one that does; and the commands that only
  look leave every row as it is.\<close>

theorem sessions_keep_the_store:
  assumes "reg_ok (wd_db w)"
  shows "reg_ok (wd_db (session cs w)) \<and> (list_all (\<lambda>(_, cmd). looks_only cmd) cs \<longrightarrow> wd_db (session cs w) = wd_db w)"
  using assms
proof (induction cs w rule: session.induct)
  case (2 ci cmd rest w)
  obtain r w' where run: "run_command ci cmd w = (r, w')" by (cases "run_command ci cmd w")
  have "reg_ok (wd_db w')"
    using obeysD [OF command_within run] keeps_ok_star 2(2) by (auto simp: within_def)
  moreover have "looks_only cmd \<Longrightarrow> wd_db w' = wd_db w"
    using within_same_db [OF obeysD [OF looks_only_within run]] by simp
  ultimately show ?case using 2(1) run by auto
qed simp

section \<open>Witnesses\<close>

definition demo_cli :: "demo_podman cli" where
  "demo_cli = \<lparr> ci_control = demo_control, ci_tools = demo_tools, ci_open = Inr (), ci_read = (\<lambda>_. Inl ''none''),
     ci_yaml = \<lparr> yr_probe = (\<lambda>_. Inl ''none''), yr_cluster = (\<lambda>_. Inl ''none''), yr_pooler = (\<lambda>_. Inl ''none'') \<rparr>,
     ci_instant = (\<lambda>_. Inl ''none''), ci_day = (\<lambda>_. []), ci_now = 0, ci_answer = (\<lambda>_. Inl ''none''), ci_uid = 1000,
     ci_lock = Inr (), ci_layout = demo_layout,
     ci_facts = \<lparr> hf_env = Map.empty, hf_uid = 1000, hf_user = None, hf_arch = ''x86_64'', hf_exists = (\<lambda>_. False), hf_client = True,
       hf_ping = None, hf_info = Inl (ErrContainer []), hf_nofile = Inl [], hf_linger = (\<lambda>_. Inr True), hf_daemon = Running,
       hf_port_range = Inl [], hf_registry = Inr empty_registry \<rparr> \<rparr>"

theorem only_purge_destroys_witness:
  "\<exists>r w'. run_command demo_cli (CDelete ''mydb'' True) boot_world = (r, w') \<and>
     asked_for (CallVolumeDelete ''pgpod-mydb-1'') boot_world w' \<and>
     (\<exists>c rows. cluster_id_new ''mydb'' = Inr c \<and> instances boot_registry c = Inr rows \<and> ''pgpod-mydb-1'' \<in> in_volume_name ` set rows)"
proof -
  obtain r w' where run: "run_command demo_cli (CDelete ''mydb'' True) boot_world = (r, w')"
    by (cases "run_command demo_cli (CDelete ''mydb'' True) boot_world")
  have same: "w' = snd (delete demo_control (ClusterId ''mydb'') True boot_world)"
  proof -
    have "cluster_id_new ''mydb'' = Inr (ClusterId ''mydb'')" by code_simp
    then show ?thesis using run
      by (auto simp: cli_delete_def demo_cli_def seq_def opened_def named_def ctl_def act_err_def of_result_def ret_def
        split: prod.splits sum.splits)
  qed
  have "is_ok (fst (each (remove_instance_container demo_host) [boot_instance] boot_world))" by code_simp
  moreover have "poolers_for_cluster (cn_poolers demo_control) (wd_db boot_world) (ClusterId ''mydb'') = Inr []"
    unfolding boot_world_simps by code_simp
  moreover have "cn_host demo_control = demo_host" by (simp add: demo_control_def)
  moreover obtain rec where "require_cluster (cn_clusters demo_control) (wd_db boot_world) (ClusterId ''mydb'') = Inr rec"
    using boot_cluster by blast
  moreover have "in_volume_name boot_instance = ''pgpod-mydb-1''" by (simp add: boot_instance_def)
  ultimately have asked: "asked_for (CallVolumeDelete ''pgpod-mydb-1'') boot_world w'"
    using purge_asks [OF boot_rows, of demo_control] same by simp
  from only_purge_destroys [OF run asked] run asked show ?thesis by auto
qed

theorem sessions_keep_the_store_witness:
  "reg_ok (wd_db (session [(demo_cli, CStatus None), (demo_cli, CDelete ''mydb'' True)] boot_world)) \<and>
   wd_db (session [(demo_cli, CStatus None)] boot_world) = boot_registry"
proof -
  have "reg_ok (wd_db boot_world)" using boot_registry_ok by simp
  note * = sessions_keep_the_store [OF this]
  from * [of "[(demo_cli, CStatus None), (demo_cli, CDelete ''mydb'' True)]"] * [of "[(demo_cli, CStatus None)]"]
  show ?thesis by simp
qed

end
